(* ===== verification/Prelude.thy ===== *)
theory Prelude
  imports
    Complex_Main
    "HOL-Library.AList"
    "HOL-Library.Sublist"
    "HOL-Library.Char_ord"
    "HOL-Library.List_Lexorder"
begin

text \<open>
  Shared vocabulary of the development: Python strings, dictionaries and results, with the
  generic lemmas the component theories use.

  A Python \<open>str\<close> (and a \<open>bytes\<close>) is a \<^typ>\<open>string\<close>, so code points are those below 256. A Python
  \<open>dict\<close> is an association list with distinct keys in insertion order: \<open>d[k]\<close> is \<^const>\<open>map_of\<close>,
  \<open>d[k] = v\<close> is \<^const>\<open>AList.update\<close> (which keeps the position of an existing key, as Python does)
  and \<open>d.pop(k, None)\<close> is \<^const>\<open>AList.delete\<close>. A raise is an \<^const>\<open>Inl\<close> of a sum.
\<close>

named_theorems py_str_simps \<open>evaluation rules of the Python string helpers\<close>
named_theorems dict_simps \<open>lookup and update on dictionaries\<close>

type_synonym 'v dict = "(string \<times> 'v) list"

subsection \<open>Results\<close>

fun rbind :: "'e + 'a \<Rightarrow> ('a \<Rightarrow> 'e + 'b) \<Rightarrow> 'e + 'b" where
  "rbind (Inl e) f = Inl e"
| "rbind (Inr x) f = f x"

lemma rbind_eq_Inr: "rbind r f = Inr y \<longleftrightarrow> (\<exists>x. r = Inr x \<and> f x = Inr y)"
  by (cases r) auto

lemma rbind_eq_Inl: "rbind r f = Inl e \<longleftrightarrow> r = Inl e \<or> (\<exists>x. r = Inr x \<and> f x = Inl e)"
  by (cases r) auto

subsection \<open>Dictionaries\<close>

abbreviation dict_wf :: "'v dict \<Rightarrow> bool" where
  "dict_wf d \<equiv> distinct (map fst d)"

definition dict_has :: "'v dict \<Rightarrow> string \<Rightarrow> bool" where
  "dict_has d k \<longleftrightarrow> map_of d k \<noteq> None"

definition dict_get :: "'v dict \<Rightarrow> string \<Rightarrow> 'v \<Rightarrow> 'v" where
  "dict_get d k dflt = (case map_of d k of None \<Rightarrow> dflt | Some v \<Rightarrow> v)"

lemma dict_update_get [dict_simps]:
  "map_of (AList.update k v d) k' = (if k' = k then Some v else map_of d k')"
  by (simp add: update_conv')

lemma dict_delete_get [dict_simps]:
  "map_of (AList.delete k d) k' = (if k' = k then None else map_of d k')"
  by (simp add: delete_conv')

lemma dict_wf_update: "dict_wf d \<Longrightarrow> dict_wf (AList.update k v d)"
  by (rule distinct_update)

lemma dict_wf_delete: "dict_wf d \<Longrightarrow> dict_wf (AList.delete k d)"
  by (rule distinct_delete)

lemma dict_has_iff: "dict_has d k \<longleftrightarrow> k \<in> fst ` set d"
  by (simp add: dict_has_def map_of_eq_None_iff)

lemma keys_update_present:
  "k \<in> fst ` set d \<Longrightarrow> map fst (AList.update k v d) = map fst d"
  by (simp add: update_keys)

lemma map_of_Some_in_set: "map_of d k = Some v \<Longrightarrow> (k, v) \<in> set d"
  by (rule map_of_SomeD)

lemma map_of_map_val:
  "map_of (map (\<lambda>(k, v). (k, f v)) d) k = map_option f (map_of d k)"
  by (induction d) auto

subsection \<open>Strings\<close>

definition is_space :: "char \<Rightarrow> bool" where
  "is_space c \<longleftrightarrow> (let n = of_char c :: nat in
     (9 \<le> n \<and> n \<le> 13) \<or> (28 \<le> n \<and> n \<le> 32) \<or> n = 133 \<or> n = 160)"

definition is_digit :: "char \<Rightarrow> bool" where
  "is_digit c \<longleftrightarrow> (let n = of_char c :: nat in 48 \<le> n \<and> n \<le> 57)"

definition is_lower_az :: "char \<Rightarrow> bool" where
  "is_lower_az c \<longleftrightarrow> (let n = of_char c :: nat in 97 \<le> n \<and> n \<le> 122)"

definition is_upper_az :: "char \<Rightarrow> bool" where
  "is_upper_az c \<longleftrightarrow> (let n = of_char c :: nat in 65 \<le> n \<and> n \<le> 90)"

definition lower_char :: "char \<Rightarrow> char" where
  "lower_char c = (let n = of_char c :: nat in
     if (65 \<le> n \<and> n \<le> 90) \<or> (192 \<le> n \<and> n \<le> 222 \<and> n \<noteq> 215) then char_of (n + 32) else c)"

definition str_lower :: "string \<Rightarrow> string" where
  "str_lower s = map lower_char s"

definition str_strip :: "string \<Rightarrow> string" where
  "str_strip s = rev (dropWhile is_space (rev (dropWhile is_space s)))"

fun str_split :: "char \<Rightarrow> string \<Rightarrow> string list" where
  "str_split sep [] = [[]]"
| "str_split sep (c # s) =
     (if c = sep then [] # str_split sep s
      else case str_split sep s of [] \<Rightarrow> [[c]] | w # ws \<Rightarrow> (c # w) # ws)"

fun str_partition :: "string \<Rightarrow> string \<Rightarrow> (string \<times> string) option" where
  "str_partition sep [] = (if sep = [] then Some ([], []) else None)"
| "str_partition sep (c # s) =
     (if prefix sep (c # s) then Some ([], drop (length sep) (c # s))
      else map_option (\<lambda>(a, b). (c # a, b)) (str_partition sep s))"

definition has_substring :: "string \<Rightarrow> string \<Rightarrow> bool" where
  "has_substring sep s \<longleftrightarrow> str_partition sep s \<noteq> None"

fun str_join :: "string \<Rightarrow> string list \<Rightarrow> string" where
  "str_join sep [] = []"
| "str_join sep [w] = w"
| "str_join sep (w # v # ws) = w @ sep @ str_join sep (v # ws)"

fun show_nat :: "nat \<Rightarrow> string" where
  "show_nat n = (if n < 10 then [char_of (48 + n)] else show_nat (n div 10) @ [char_of (48 + n mod 10)])"

declare show_nat.simps [simp del]

definition show_int :: "int \<Rightarrow> string" where
  "show_int i = (if i < 0 then CHR ''-'' # show_nat (nat (- i)) else show_nat (nat i))"

definition digit_val :: "char \<Rightarrow> int" where
  "digit_val c = of_char c - 48"

definition digits_val :: "string \<Rightarrow> int" where
  "digits_val s = foldl (\<lambda>n c. 10 * n + digit_val c) 0 s"

text \<open>
  A run of decimal digits in which single underscores may stand between digits (Python's
  \<open>digitpart\<close>): the digits read and the rest of the text.
\<close>

fun digits_tail :: "string \<Rightarrow> string \<times> string" where
  "digits_tail [] = ([], [])"
| "digits_tail [c] = (if is_digit c then ([c], []) else ([], [c]))"
| "digits_tail (c # c' # s) =
     (if is_digit c then (let (d, r) = digits_tail (c' # s) in (c # d, r))
      else if c = CHR ''_'' \<and> is_digit c' then (let (d, r) = digits_tail s in (c' # d, r))
      else ([], c # c' # s))"

definition digitpart :: "string \<Rightarrow> (string \<times> string) option" where
  "digitpart s = (case s of [] \<Rightarrow> None
     | c # _ \<Rightarrow> if is_digit c then Some (digits_tail s) else None)"

definition split_sign :: "string \<Rightarrow> bool \<times> string" where
  "split_sign s = (case s of [] \<Rightarrow> (False, [])
     | c # r \<Rightarrow> if c = CHR ''-'' then (True, r) else if c = CHR ''+'' then (False, r) else (False, s))"

text \<open>
  \<open>int(s)\<close> on a string; \<open>None\<close> is the \<open>ValueError\<close>, which CPython also raises for more than 4300 digits.
\<close>

definition int_of_string :: "string \<Rightarrow> int option" where
  "int_of_string s0 = (let (neg, s) = split_sign (str_strip s0) in
     case digitpart s of
       Some (d, []) \<Rightarrow> if length d \<le> 4300 then Some (if neg then - digits_val d else digits_val d) else None
     | _ \<Rightarrow> None)"

lemma str_partition_Some:
  "str_partition sep s = Some (a, b) \<Longrightarrow> s = a @ sep @ b"
proof (induction s arbitrary: a)
  case Nil
  then show ?case by (simp split: if_splits)
next
  case (Cons c s)
  then show ?case by (auto split: if_splits simp: prefix_def)
qed

lemma str_partition_first:
  assumes "str_partition sep s = Some (a, b)" and "sep \<noteq> []"
  shows "\<nexists>u v. s = u @ sep @ v \<and> length u < length a"
  using assms(1)
proof (induction s arbitrary: a)
  case Nil
  then show ?case using assms(2) by simp
next
  case (Cons c s)
  show ?case
  proof (cases "prefix sep (c # s)")
    case True
    with Cons.prems show ?thesis by simp
  next
    case False
    with Cons.prems obtain a' where a': "a = c # a'" "str_partition sep s = Some (a', b)" by auto
    show ?thesis
    proof
      assume "\<exists>u v. c # s = u @ sep @ v \<and> length u < length a"
      then obtain u v where u: "c # s = u @ sep @ v" "length u < length a" by blast
      with False obtain u' where "u = c # u'" by (cases u) (auto simp: prefix_def)
      with u a' Cons.IH show False by auto
    qed
  qed
qed

lemma str_partition_None_iff:
  "sep \<noteq> [] \<Longrightarrow> str_partition sep s = None \<longleftrightarrow> (\<nexists>u v. s = u @ sep @ v)"
proof (induction s)
  case Nil
  then show ?case by auto
next
  case (Cons c s)
  show ?case
  proof (cases "prefix sep (c # s)")
    case True
    then show ?thesis by (force simp: prefix_def)
  next
    case False
    then have "(\<exists>u v. c # s = u @ sep @ v) \<longleftrightarrow> (\<exists>u v. s = u @ sep @ v)"
      by (auto simp: prefix_def Cons_eq_append_conv)
    with False Cons show ?thesis by (auto split: option.splits)
  qed
qed

text \<open>The separator is found right after a prefix that holds none of its first character.\<close>

lemma str_partition_prefix:
  assumes "x \<notin> set a"
  shows "str_partition (x # xs) (a @ (x # xs) @ b) = Some (a, b)"
  using assms by (induction a) (auto simp: prefix_def)

lemma str_split_nonempty [simp]: "str_split sep s \<noteq> []"
  by (induction s) (auto split: list.splits)

lemma str_join_split: "str_join [sep] (str_split sep s) = s"
proof (induction s)
  case (Cons c s)
  then show ?case
    by (cases "str_split sep s"; cases "tl (str_split sep s)") auto
qed simp

lemma str_split_no_sep: "w \<in> set (str_split sep s) \<Longrightarrow> sep \<notin> set w"
proof (induction s arbitrary: w)
  case (Cons c s)
  then show ?case by (auto split: if_splits list.splits)
qed simp

lemma lower_char_idem [simp]: "lower_char (lower_char c) = lower_char c"
proof -
  obtain n where c: "c = char_of n" and n: "n < (256 :: nat)"
    by (metis char_of_char nat_of_char_less_256)
  then have "of_char c = n" by (simp add: of_char_of)
  with c n show ?thesis unfolding lower_char_def Let_def by (auto simp: of_char_of)
qed

lemma str_lower_idem [simp]: "str_lower (str_lower s) = str_lower s"
  by (simp add: str_lower_def)

lemma length_str_lower [simp]: "length (str_lower s) = length s"
  by (simp add: str_lower_def)

subsection \<open>Lists and folds\<close>

lemma foldl_invariant:
  assumes "P a" and "\<And>a x. P a \<Longrightarrow> x \<in> set xs \<Longrightarrow> P (f a x)"
  shows "P (foldl f a xs)"
  using assms by (induction xs arbitrary: a) auto

lemma sum_list_take_le: "sum_list (take n xs) \<le> sum_list (xs :: nat list)"
  by (metis append_take_drop_id le_add1 sum_list_append)

lemma has_substring_iff: "sep \<noteq> [] \<Longrightarrow> has_substring sep s \<longleftrightarrow> (\<exists>u v. s = u @ sep @ v)"
  using str_partition_None_iff [of sep s] by (simp add: has_substring_def)

lemma str_split_concat: "concat (map (Cons c) (str_split c s)) = c # s"
  by (induction s) (auto split: list.splits)

lemma str_split_part:
  assumes "w \<in> set (str_split c s)"
  shows "has_substring (c # w @ [c]) (c # s @ [c])"
proof -
  obtain us vs where "str_split c s = us @ w # vs" using split_list [OF assms] by blast
  with str_split_concat [of c s] have s: "c # s = concat (map (Cons c) us) @ (c # w) @ concat (map (Cons c) vs)" by simp
  have "\<exists>r. concat (map (Cons c) vs) @ [c] = c # r" by (cases vs) auto
  then obtain r where "concat (map (Cons c) vs) @ [c] = c # r" by blast
  with s have "c # s @ [c] = concat (map (Cons c) us) @ (c # w @ [c]) @ r"
    by (metis append.assoc append_Cons append_Nil)
  then show ?thesis unfolding has_substring_iff [OF list.distinct(2)] by blast
qed

subsection \<open>ORDER BY\<close>

text \<open>Rows in the order \<open>le\<close> of a column.\<close>

fun insert_by :: "('k \<Rightarrow> 'k \<Rightarrow> bool) \<Rightarrow> ('a \<Rightarrow> 'k) \<Rightarrow> 'a \<Rightarrow> 'a list \<Rightarrow> 'a list" where
  "insert_by le key r [] = [r]"
| "insert_by le key r (x # xs) = (if le (key r) (key x) then r # x # xs else x # insert_by le key r xs)"

definition order_by :: "('k \<Rightarrow> 'k \<Rightarrow> bool) \<Rightarrow> ('a \<Rightarrow> 'k) \<Rightarrow> 'a list \<Rightarrow> 'a list" where
  "order_by le key rows = foldr (insert_by le key) rows []"

lemma set_insert_by [simp]: "set (insert_by le key r xs) = insert r (set xs)"
  by (induction xs) auto

lemma set_order_by [simp]: "set (order_by le key rows) = set rows"
proof -
  have "set (foldr (insert_by le key) rs []) = set rs" for rs by (induction rs) auto
  then show ?thesis by (simp add: order_by_def)
qed

end
