(* ===== verification/Py_Value.thy ===== *)
theory Py_Value
  imports Prelude
begin

text \<open>
  The Python values the gateway handles: what \<open>json.loads\<close> returns, truth testing, \<open>str()\<close> and
  \<open>repr()\<close>, and \<open>float()\<close>.

  A finite float is the rational number it denotes; \<open>round_double\<close> is the IEEE double nearest to a
  rational (ties to even), which is what \<open>float()\<close> of an integer or of a decimal string gives. The
  shortest-digits printer of floats is a parameter \<open>fr\<close> of \<open>py_str\<close>. The sign of zero is not kept.
\<close>

datatype pyfloat = Fin rat | PosInf | NegInf | NaN

datatype json =
    JNull
  | JBool bool
  | JInt int
  | JFloat pyfloat
  | JStr string
  | JList "json list"
  | JObj "(string \<times> json) list"

fun truthy :: "json \<Rightarrow> bool" where
  "truthy JNull = False"
| "truthy (JBool b) = b"
| "truthy (JInt n) = (n \<noteq> 0)"
| "truthy (JFloat f) = (f \<noteq> Fin 0)"
| "truthy (JStr s) = (s \<noteq> [])"
| "truthy (JList xs) = (xs \<noteq> [])"
| "truthy (JObj kvs) = (kvs \<noteq> [])"

fun is_jstr :: "json \<Rightarrow> bool" where
  "is_jstr (JStr _) = True"
| "is_jstr _ = False"

fun as_obj :: "json \<Rightarrow> json dict option" where
  "as_obj (JObj d) = Some d"
| "as_obj _ = None"

lemma is_jstr_iff: "is_jstr v \<longleftrightarrow> (\<exists>s. v = JStr s)"
  by (cases v) auto

subsection \<open>Printing: str() and repr()\<close>

definition hex_digit :: "nat \<Rightarrow> char" where
  "hex_digit n = (if n < 10 then char_of (48 + n) else char_of (87 + n))"

definition repr_char :: "char \<Rightarrow> char \<Rightarrow> string" where
  "repr_char q c = (let n = of_char c :: nat in
     if c = q \<or> n = 92 then [CHR 0x5C, c]
     else if n = 9 then [CHR 0x5C, CHR ''t'']
     else if n = 10 then [CHR 0x5C, CHR ''n'']
     else if n = 13 then [CHR 0x5C, CHR ''r'']
     else if n < 32 \<or> (127 \<le> n \<and> n \<le> 160) \<or> n = 173
       then [CHR 0x5C, CHR ''x'', hex_digit (n div 16), hex_digit (n mod 16)]
     else [c])"

definition repr_str :: "string \<Rightarrow> string" where
  "repr_str s =
     (let sq = CHR 0x27; dq = CHR 0x22;
          q = (if sq \<in> set s \<and> dq \<notin> set s then dq else sq)
      in q # concat (map (repr_char q) s) @ [q])"

primrec py_repr :: "(pyfloat \<Rightarrow> string) \<Rightarrow> json \<Rightarrow> string" where
  "py_repr fr JNull = ''None''"
| "py_repr fr (JBool b) = (if b then ''True'' else ''False'')"
| "py_repr fr (JInt n) = show_int n"
| "py_repr fr (JFloat f) = fr f"
| "py_repr fr (JStr s) = repr_str s"
| "py_repr fr (JList xs) = ''['' @ str_join '', '' (map (py_repr fr) xs) @ '']''"
| "py_repr fr (JObj kvs) =
     ''{'' @ str_join '', '' (map (\<lambda>(k, r). repr_str k @ '': '' @ r) (map (map_prod id (py_repr fr)) kvs)) @ ''}''"

definition py_str :: "(pyfloat \<Rightarrow> string) \<Rightarrow> json \<Rightarrow> string" where
  "py_str fr v = (case v of JStr s \<Rightarrow> s | _ \<Rightarrow> py_repr fr v)"

lemma py_str_JStr [simp]: "py_str fr (JStr s) = s"
  by (simp add: py_str_def)

subsection \<open>Floats\<close>

definition round_half_even :: "rat \<Rightarrow> int" where
  "round_half_even x = (let f = floor x; d = x - of_int f in
     if d < 1 / 2 then f else if d > 1 / 2 then f + 1 else if even f then f else f + 1)"

function bit_length :: "int \<Rightarrow> int" where
  "bit_length n = (if n \<le> 0 then 0 else 1 + bit_length (n div 2))"
  by pat_completeness auto
termination
  by (relation "measure nat") auto

declare bit_length.simps [simp del]

text \<open>The exponent of a positive rational: the \<open>e\<close> with \<open>2^e \<le> q < 2^(e+1)\<close>.\<close>

definition rat_exponent :: "rat \<Rightarrow> int" where
  "rat_exponent q = (let (a, b) = quotient_of q;
       k = bit_length a - bit_length b
     in if (2 :: rat) powi k \<le> q then k else k - 1)"

definition round_double_pos :: "rat \<Rightarrow> pyfloat" where
  "round_double_pos q = (let u = max (rat_exponent q - 52) (- 1074);
       r = of_int (round_half_even (q / 2 powi u)) * 2 powi u
     in if r \<ge> 2 ^ 1024 then PosInf else Fin r)"

definition round_double :: "rat \<Rightarrow> pyfloat" where
  "round_double q =
     (if q = 0 then Fin 0
      else if q > 0 then round_double_pos q
      else case round_double_pos (- q) of PosInf \<Rightarrow> NegInf | Fin r \<Rightarrow> Fin (- r) | f \<Rightarrow> f)"

datatype float_error = FTypeError | FValueError | FOverflowError

text \<open>The value of \<open>digits [. digits] [e sign digits]\<close> after the sign, if the text is of that form.\<close>

definition parse_exponent :: "string \<Rightarrow> int option" where
  "parse_exponent s = (case s of [] \<Rightarrow> Some 0
     | c # r \<Rightarrow> if c = CHR ''e'' \<or> c = CHR ''E''
         then (let (neg, t) = split_sign r in case digitpart t of
                 Some (d, []) \<Rightarrow> Some (if neg then - digits_val d else digits_val d)
               | _ \<Rightarrow> None)
         else None)"

definition parse_decimal :: "string \<Rightarrow> rat option" where
  "parse_decimal s =
     (let (ip, r1) = (case digitpart s of None \<Rightarrow> ([], s) | Some p \<Rightarrow> p);
          (fp, r2) = (case r1 of c # r \<Rightarrow> if c = CHR ''.''
                        then (case digitpart r of None \<Rightarrow> ([], r) | Some p \<Rightarrow> p) else ([], r1)
                      | [] \<Rightarrow> ([], r1))
      in if ip = [] \<and> fp = [] then None
         else map_option (\<lambda>e. of_int (digits_val (ip @ fp)) * 10 powi (e - int (length fp)))
                (parse_exponent r2))"

definition float_of_string :: "string \<Rightarrow> float_error + pyfloat" where
  "float_of_string s0 = (let (neg, s) = split_sign (str_strip s0); l = str_lower s in
     if l = ''inf'' \<or> l = ''infinity'' then Inr (if neg then NegInf else PosInf)
     else if l = ''nan'' then Inr NaN
     else case parse_decimal s of None \<Rightarrow> Inl FValueError
       | Some q \<Rightarrow> Inr (round_double (if neg then - q else q)))"

definition float_of_int :: "int \<Rightarrow> float_error + pyfloat" where
  "float_of_int n = (case round_double (of_int n) of
     Fin q \<Rightarrow> Inr (Fin q) | _ \<Rightarrow> Inl FOverflowError)"

fun py_float :: "json \<Rightarrow> float_error + pyfloat" where
  "py_float JNull = Inl FTypeError"
| "py_float (JBool b) = Inr (Fin (if b then 1 else 0))"
| "py_float (JInt n) = float_of_int n"
| "py_float (JFloat f) = Inr f"
| "py_float (JStr s) = float_of_string s"
| "py_float (JList xs) = Inl FTypeError"
| "py_float (JObj kvs) = Inl FTypeError"

text \<open>Comparison of floats; every comparison with a NaN is false.\<close>

fun float_less :: "pyfloat \<Rightarrow> pyfloat \<Rightarrow> bool" where
  "float_less NaN g = False"
| "float_less f NaN = False"
| "float_less (Fin a) (Fin b) = (a < b)"
| "float_less NegInf NegInf = False"
| "float_less NegInf g = True"
| "float_less f PosInf = (f \<noteq> PosInf)"
| "float_less f g = False"

lemma float_less_irrefl [simp]: "\<not> float_less f f"
  by (cases f) auto

lemma float_less_trans: "float_less f g \<Longrightarrow> float_less g h \<Longrightarrow> float_less f h"
  by (cases f; cases g; cases h) auto

lemma float_less_NaN [simp]: "\<not> float_less NaN f" "\<not> float_less f NaN"
  by (cases f; simp)+

lemma float_total:
  "f \<noteq> NaN \<Longrightarrow> g \<noteq> NaN \<Longrightarrow> float_less f g \<or> f = g \<or> float_less g f"
  by (cases f; cases g) auto

lemma round_half_even_bound: "\<bar>of_int (round_half_even x) - x\<bar> \<le> 1 / 2"
proof -
  have "of_int \<lfloor>x\<rfloor> \<le> x" "x < of_int \<lfloor>x\<rfloor> + 1" by linarith+
  then show ?thesis unfolding round_half_even_def Let_def by (auto simp: abs_le_iff)
qed

end
