(* ===== verification/Regex.thy ===== *)
theory Regex
  imports Py_Value
begin

text \<open>
  A backtracking matcher for the fixed regular expressions of the gateway (Python's \<open>re\<close>): character
  classes, sequence, ordered choice, greedy repetition, word boundary, negative look-around and one
  capture group. \<open>ends\<close> lists the states in which an expression can finish, in the order in which the
  engine tries them, so the match it reports is the first one. Every repetition in the source has a
  body that consumes a character, so an unbounded one needs at most as many rounds as the text has
  characters; that is the bound \<open>ends\<close> uses.
\<close>

datatype regex =
    Cls "char \<Rightarrow> bool"
  | Eps
  | Seq regex regex
  | Alt regex regex
  | Rep regex nat "nat option"
  | WordB
  | NotAhead regex
  | NotBehind "char \<Rightarrow> bool"
  | Group regex

type_synonym mstate = "nat \<times> (nat \<times> nat) option"

text \<open>Character predicates of \<open>str\<close> on code points below 256.\<close>

definition is_alnum :: "char \<Rightarrow> bool" where
  "is_alnum c \<longleftrightarrow> (let n = of_char c :: nat in
     (48 \<le> n \<and> n \<le> 57) \<or> (65 \<le> n \<and> n \<le> 90) \<or> (97 \<le> n \<and> n \<le> 122) \<or>
     n = 170 \<or> n = 178 \<or> n = 179 \<or> n = 181 \<or> n = 185 \<or> n = 186 \<or> (188 \<le> n \<and> n \<le> 190) \<or>
     (192 \<le> n \<and> n \<noteq> 215 \<and> n \<noteq> 247))"

definition is_word :: "char \<Rightarrow> bool" where
  "is_word c \<longleftrightarrow> is_alnum c \<or> c = CHR ''_''"

definition str_islower_char :: "char \<Rightarrow> bool" where
  "str_islower_char c \<longleftrightarrow> (let n = of_char c :: nat in
     (97 \<le> n \<and> n \<le> 122) \<or> n = 170 \<or> n = 181 \<or> n = 186 \<or> (223 \<le> n \<and> n \<noteq> 247))"

definition str_isupper_char :: "char \<Rightarrow> bool" where
  "str_isupper_char c \<longleftrightarrow> (let n = of_char c :: nat in
     (65 \<le> n \<and> n \<le> 90) \<or> (192 \<le> n \<and> n \<le> 222 \<and> n \<noteq> 215))"

definition str_isdigit_char :: "char \<Rightarrow> bool" where
  "str_isdigit_char c \<longleftrightarrow> is_digit c \<or> (let n = of_char c :: nat in n = 178 \<or> n = 179 \<or> n = 185)"

fun greedy :: "('s \<Rightarrow> 's list) \<Rightarrow> nat \<Rightarrow> nat \<Rightarrow> 's \<Rightarrow> 's list" where
  "greedy f lo 0 st = (if lo = 0 then [st] else [])"
| "greedy f lo (Suc n) st = concat (map (greedy f (lo - 1) n) (f st)) @ (if lo = 0 then [st] else [])"

primrec ends :: "regex \<Rightarrow> string \<Rightarrow> mstate \<Rightarrow> mstate list" where
  "ends (Cls p) s st = (if fst st < length s \<and> p (s ! fst st) then [(Suc (fst st), snd st)] else [])"
| "ends Eps s st = [st]"
| "ends (Seq a b) s st = concat (map (ends b s) (ends a s st))"
| "ends (Alt a b) s st = ends a s st @ ends b s st"
| "ends (Rep r lo hi) s st =
     greedy (ends r s) lo (case hi of None \<Rightarrow> lo + length s | Some h \<Rightarrow> h) st"
| "ends WordB s st =
     (if (0 < fst st \<and> is_word (s ! (fst st - 1))) \<noteq> (fst st < length s \<and> is_word (s ! fst st))
      then [st] else [])"
| "ends (NotAhead r) s st = (if ends r s st = [] then [st] else [])"
| "ends (NotBehind p) s st = (if 0 < fst st \<and> p (s ! (fst st - 1)) then [] else [st])"
| "ends (Group r) s st = map (\<lambda>st'. (fst st', Some (fst st, fst st'))) (ends r s st)"

text \<open>\<open>pattern.match\<close> at a position, and \<open>pattern.finditer\<close>: (start, end, span of group 1).\<close>

definition match_at :: "regex \<Rightarrow> string \<Rightarrow> nat \<Rightarrow> mstate option" where
  "match_at r s i = (case ends r s (i, None) of [] \<Rightarrow> None | st # _ \<Rightarrow> Some st)"

function finditer_from :: "regex \<Rightarrow> string \<Rightarrow> nat \<Rightarrow> (nat \<times> nat \<times> (nat \<times> nat) option) list" where
  "finditer_from r s pos =
     (if length s < pos then []
      else case match_at r s pos of
        None \<Rightarrow> finditer_from r s (Suc pos)
      | Some (e, g) \<Rightarrow> (pos, e, g) # finditer_from r s (max e (Suc pos)))"
  by pat_completeness auto
termination
  by (relation "measure (\<lambda>(r, s, pos). Suc (length s) - pos)") auto

declare finditer_from.simps [simp del]

definition finditer :: "regex \<Rightarrow> string \<Rightarrow> (nat \<times> nat \<times> (nat \<times> nat) option) list" where
  "finditer r s = finditer_from r s 0"

subsection \<open>Building expressions\<close>

fun seqs :: "regex list \<Rightarrow> regex" where
  "seqs [] = Eps"
| "seqs [r] = r"
| "seqs (r # q # rs) = Seq r (seqs (q # rs))"

fun alts :: "regex list \<Rightarrow> regex" where
  "alts [] = NotAhead Eps"
| "alts [r] = r"
| "alts (r # q # rs) = Alt r (alts (q # rs))"

definition lit :: "string \<Rightarrow> regex" where
  "lit w = seqs (map (\<lambda>c. Cls (\<lambda>x. x = c)) w)"

definition ilit :: "string \<Rightarrow> regex" where
  "ilit w = seqs (map (\<lambda>c. Cls (\<lambda>x. lower_char x = lower_char c)) w)"

definition opt_re :: "regex \<Rightarrow> regex" where
  "opt_re r = Rep r 0 (Some 1)"

definition one_of :: "string \<Rightarrow> char \<Rightarrow> bool" where
  "one_of cs c \<longleftrightarrow> c \<in> set cs"

subsection \<open>Shortest and longest match\<close>

primrec min_len :: "regex \<Rightarrow> nat" where
  "min_len (Cls p) = 1"
| "min_len Eps = 0"
| "min_len (Seq a b) = min_len a + min_len b"
| "min_len (Alt a b) = min (min_len a) (min_len b)"
| "min_len (Rep r lo hi) = lo * min_len r"
| "min_len WordB = 0"
| "min_len (NotAhead r) = 0"
| "min_len (NotBehind p) = 0"
| "min_len (Group r) = min_len r"

primrec max_len :: "regex \<Rightarrow> nat option" where
  "max_len (Cls p) = Some 1"
| "max_len Eps = Some 0"
| "max_len (Seq a b) = Option.bind (max_len a) (\<lambda>m. map_option ((+) m) (max_len b))"
| "max_len (Alt a b) = Option.bind (max_len a) (\<lambda>m. map_option (max m) (max_len b))"
| "max_len (Rep r lo hi) = Option.bind hi (\<lambda>h. map_option ((*) h) (max_len r))"
| "max_len WordB = Some 0"
| "max_len (NotAhead r) = Some 0"
| "max_len (NotBehind p) = Some 0"
| "max_len (Group r) = max_len r"

lemma greedy_invariant:
  assumes "st' \<in> set (greedy f lo n st)" and "P st"
    and "\<And>x y. P x \<Longrightarrow> y \<in> set (f x) \<Longrightarrow> P y"
  shows "P st'"
  using assms(1,2)
  by (induction n arbitrary: lo st) (auto split: if_splits intro: assms(3))

lemma greedy_lower:
  assumes "st' \<in> set (greedy f lo n st)"
    and "\<And>x y. y \<in> set (f x) \<Longrightarrow> m x + k \<le> (m y :: nat)"
  shows "m st + lo * k \<le> m st'"
  using assms(1)
proof (induction n arbitrary: lo st)
  case 0
  then show ?case by (auto split: if_splits)
next
  case (Suc n)
  show ?case
  proof (cases "st' \<in> set (concat (map (greedy f (lo - 1) n) (f st)))")
    case True
    then obtain y where y: "y \<in> set (f st)" "st' \<in> set (greedy f (lo - 1) n y)" by auto
    have "m y + (lo - 1) * k \<le> m st'" using Suc.IH y(2) by blast
    moreover have "m st + k \<le> m y" using assms(2) y(1) by blast
    ultimately show ?thesis by (cases lo) (auto simp: algebra_simps)
  next
    case False
    with Suc.prems show ?thesis by (auto split: if_splits)
  qed
qed

lemma greedy_upper:
  assumes "st' \<in> set (greedy f lo n st)"
    and "\<And>x y. y \<in> set (f x) \<Longrightarrow> m y \<le> m x + (k :: nat)"
  shows "m st' \<le> m st + n * k"
  using assms(1)
proof (induction n arbitrary: lo st)
  case 0
  then show ?case by (auto split: if_splits)
next
  case (Suc n)
  show ?case
  proof (cases "st' \<in> set (concat (map (greedy f (lo - 1) n) (f st)))")
    case True
    then obtain y where y: "y \<in> set (f st)" "st' \<in> set (greedy f (lo - 1) n y)" by auto
    have "m st' \<le> m y + n * k" using Suc.IH y(2) by blast
    moreover have "m y \<le> m st + k" using assms(2) y(1) by blast
    ultimately show ?thesis by (simp add: algebra_simps)
  next
    case False
    with Suc.prems show ?thesis by (auto split: if_splits)
  qed
qed

lemma ends_min: "st' \<in> set (ends r s st) \<Longrightarrow> fst st + min_len r \<le> fst st'"
proof (induction r arbitrary: st st')
  case (Rep r lo hi)
  from Rep.prems have "st' \<in> set (greedy (ends r s) lo (case hi of None \<Rightarrow> lo + length s | Some h \<Rightarrow> h) st)"
    by simp
  then show ?case
    using greedy_lower [where m = fst and k = "min_len r", OF _ Rep.IH] by simp
next
  case (Seq a b)
  then obtain y where "y \<in> set (ends a s st)" "st' \<in> set (ends b s y)" by auto
  with Seq.IH(1) [of y st] Seq.IH(2) [of st' y] show ?case by simp
next
  case (Alt a b)
  then have "st' \<in> set (ends a s st) \<or> st' \<in> set (ends b s st)" by simp
  then have "fst st + min_len a \<le> fst st' \<or> fst st + min_len b \<le> fst st'"
    using Alt.IH by blast
  then show ?case by (simp add: min_def) linarith
qed (auto split: if_splits)

lemma ends_in_text:
  "st' \<in> set (ends r s st) \<Longrightarrow> fst st \<le> length s \<Longrightarrow> fst st' \<le> length s"
proof (induction r arbitrary: st st')
  case (Rep r lo hi)
  show ?case
    by (rule greedy_invariant [where P = "\<lambda>x. fst x \<le> length s"])
      (use Rep in auto)
qed (auto split: if_splits)

lemma ends_max:
  "st' \<in> set (ends r s st) \<Longrightarrow> max_len r = Some m \<Longrightarrow> fst st' \<le> fst st + m"
proof (induction r arbitrary: st st' m)
  case (Rep r lo hi)
  then obtain h k where h: "hi = Some h" "max_len r = Some k" "m = h * k"
    by (auto split: option.splits simp: bind_eq_Some_conv)
  with Rep show ?case
    using greedy_upper [where m = fst and k = k and f = "ends r s", OF _ Rep.IH] by simp
next
  case (Seq a b)
  then obtain y ma mb where "y \<in> set (ends a s st)" "st' \<in> set (ends b s y)"
    "max_len a = Some ma" "max_len b = Some mb" "m = ma + mb"
    by (auto simp: bind_eq_Some_conv)
  with Seq.IH show ?case by fastforce
next
  case (Alt a b)
  then obtain ma mb where "max_len a = Some ma" "max_len b = Some mb" "m = max ma mb"
    by (auto simp: bind_eq_Some_conv)
  with Alt show ?case by fastforce
qed (auto split: if_splits)

text \<open>A capture group lies inside the text between the start and the end of the match.\<close>

definition group_ok :: "nat \<Rightarrow> mstate \<Rightarrow> bool" where
  "group_ok i st \<longleftrightarrow> (case snd st of None \<Rightarrow> True | Some (a, b) \<Rightarrow> i \<le> a \<and> a \<le> b \<and> b \<le> fst st)"

lemma ends_group_ok:
  "st' \<in> set (ends r s st) \<Longrightarrow> group_ok i st \<Longrightarrow> i \<le> fst st \<Longrightarrow> group_ok i st' \<and> i \<le> fst st'"
proof (induction r arbitrary: st st')
  case (Rep r lo hi)
  show ?case
    by (rule greedy_invariant [where P = "\<lambda>x. group_ok i x \<and> i \<le> fst x"])
      (use Rep in auto)
next
  case (Group r)
  then obtain y where "y \<in> set (ends r s st)" "st' = (fst y, Some (fst st, fst y))" by auto
  with Group.prems ends_min [of y r s st] show ?case by (auto simp: group_ok_def)
next
  case (Seq a b)
  then obtain y where "y \<in> set (ends a s st)" "st' \<in> set (ends b s y)" by auto
  with Seq.prems Seq.IH(1) [of y st] Seq.IH(2) [of st' y] show ?case by simp
next
  case (Alt a b)
  then have "st' \<in> set (ends a s st) \<or> st' \<in> set (ends b s st)" by simp
  then show ?case using Alt.prems(2,3) Alt.IH by blast
qed (auto split: if_splits option.splits simp: group_ok_def)

lemma match_at_bounds:
  assumes "match_at r s i = Some (e, g)" and "i \<le> length s"
  shows "i + min_len r \<le> e" "e \<le> length s" "g = Some (a, b) \<Longrightarrow> i \<le> a \<and> a \<le> b \<and> b \<le> e"
    "max_len r = Some m \<Longrightarrow> e \<le> i + m"
proof -
  from assms(1) have mem: "(e, g) \<in> set (ends r s (i, None))"
    by (auto simp: match_at_def split: list.splits)
  show "i + min_len r \<le> e" using ends_min [OF mem] by simp
  show "e \<le> length s" using ends_in_text [OF mem] assms(2) by simp
  show "g = Some (a, b) \<Longrightarrow> i \<le> a \<and> a \<le> b \<and> b \<le> e"
    using ends_group_ok [OF mem, of i] by (auto simp: group_ok_def)
  show "max_len r = Some m \<Longrightarrow> e \<le> i + m" using ends_max [OF mem] by simp
qed

text \<open>
  The spans of \<open>finditer\<close>: each is a match at its start, inside the text, and the next one starts
  where the last one ended or later.
\<close>

fun spans_from :: "nat \<Rightarrow> nat \<Rightarrow> (nat \<times> nat \<times> 'g) list \<Rightarrow> bool" where
  "spans_from p n [] = True"
| "spans_from p n ((b, e, g) # ms) = (p \<le> b \<and> b \<le> e \<and> e \<le> n \<and> spans_from e n ms)"

lemma spans_from_mono: "spans_from q n ms \<Longrightarrow> p \<le> q \<Longrightarrow> spans_from p n ms"
  by (cases ms) auto

lemma finditer_from_spans: "spans_from pos (length s) (finditer_from r s pos)"
proof (induction r s pos rule: finditer_from.induct)
  case (1 r s pos)
  show ?case
  proof (cases "length s < pos \<or> match_at r s pos = None")
    case True
    show ?thesis
    proof (cases "length s < pos")
      case True
      then show ?thesis by (simp add: finditer_from.simps [of r s pos])
    next
      case inside: False
      with True have none: "match_at r s pos = None" by simp
      with inside have "spans_from (Suc pos) (length s) (finditer_from r s (Suc pos))"
        by (rule "1.IH"(1))
      then have "spans_from pos (length s) (finditer_from r s (Suc pos))"
        by (rule spans_from_mono) simp
      with inside none show ?thesis by (simp add: finditer_from.simps [of r s pos])
    qed
  next
    case False
    then obtain e g where m: "match_at r s pos = Some (e, g)" by auto
    from False have inside: "\<not> length s < pos" by simp
    have "spans_from (max e (Suc pos)) (length s) (finditer_from r s (max e (Suc pos)))"
      using "1.IH"(2) [OF inside m] by simp
    then have rest: "spans_from e (length s) (finditer_from r s (max e (Suc pos)))"
      by (rule spans_from_mono) simp
    have "pos \<le> e" "e \<le> length s" using match_at_bounds(1,2) [OF m] inside by simp_all
    with m inside rest show ?thesis by (simp add: finditer_from.simps [of r s pos])
  qed
qed

lemma finditer_from_match:
  "(b, e, g) \<in> set (finditer_from r s pos) \<Longrightarrow> match_at r s b = Some (e, g) \<and> pos \<le> b \<and> b \<le> length s"
proof (induction r s pos rule: finditer_from.induct)
  case (1 r s pos)
  show ?case
  proof (cases "length s < pos \<or> match_at r s pos = None")
    case True
    with "1.prems" have "\<not> length s < pos" "match_at r s pos = None"
      "(b, e, g) \<in> set (finditer_from r s (Suc pos))"
      by (auto simp: finditer_from.simps [of r s pos] split: if_splits)
    with "1.IH"(1) show ?thesis by simp
  next
    case False
    then obtain e' g' where m: "match_at r s pos = Some (e', g')" by auto
    with False "1.prems" have "(b, e, g) = (pos, e', g') \<or>
        (b, e, g) \<in> set (finditer_from r s (max e' (Suc pos)))"
      by (simp add: finditer_from.simps [of r s pos])
    then show ?thesis
    proof
      assume "(b, e, g) = (pos, e', g')"
      with m False show ?thesis by simp
    next
      assume "(b, e, g) \<in> set (finditer_from r s (max e' (Suc pos)))"
      with False m "1.IH"(2) [of "(e', g')" e' g'] show ?thesis by simp
    qed
  qed
qed

lemma finditer_match:
  "(b, e, g) \<in> set (finditer r s) \<Longrightarrow> match_at r s b = Some (e, g) \<and> b \<le> length s"
  using finditer_from_match unfolding finditer_def by blast

lemmas finditer_bounds = match_at_bounds [OF finditer_match [THEN conjunct1] finditer_match [THEN conjunct2]]

end
