(* ===== verification/Models.thy ===== *)
theory Models
  imports Regex
begin

text \<open>
  The data model, \<open>db/models.py\<close>: parameter rules, DLP patterns, server policies, server and API-key
  records, with the field validators that run when a value is built. A validator returns the list of
  errors it raises (at most one per field); pydantic runs every field validator and then, if there is
  no error, the model validator.

  Operator-supplied patterns are compiled by third-party or standard engines. \<open>regex_env\<close> carries what
  the code relies on of them: which patterns each engine accepts, the spans \<open>finditer\<close> reports, and how
  a worker process behaves (see the theory on policies).
\<close>

datatype compiled = Re2Pattern string | RePattern string

fun pattern_text :: "compiled \<Rightarrow> string" where
  "pattern_text (Re2Pattern p) = p"
| "pattern_text (RePattern p) = p"

record worker_run =
  wr_starts :: bool
  wr_ready :: bool
  wr_finishes :: bool
  wr_crashes :: bool

record regex_env =
  re2_installed :: bool
  re2_accepts :: "string \<Rightarrow> bool"
  re_accepts :: "string \<Rightarrow> bool"
  engine_spans :: "compiled \<Rightarrow> string \<Rightarrow> (nat \<times> nat) list"
  worker :: "compiled \<Rightarrow> string \<Rightarrow> worker_run"

text \<open>\<open>compile_pattern\<close>; \<open>None\<close> is the \<open>re.error\<close> of the fallback engine.\<close>

definition compile_pattern :: "regex_env \<Rightarrow> string \<Rightarrow> compiled option" where
  "compile_pattern env p =
     (if re2_installed env \<and> re2_accepts env p then Some (Re2Pattern p)
      else if re_accepts env p then Some (RePattern p)
      else None)"

definition is_re2_pattern :: "regex_env \<Rightarrow> compiled \<Rightarrow> bool" where
  "is_re2_pattern env c = (re2_installed env \<and> (case c of Re2Pattern _ \<Rightarrow> True | RePattern _ \<Rightarrow> False))"

text \<open>\<open>SLUG_RE.match\<close>: the end anchor also matches before one trailing newline.\<close>

definition slug_char :: "char \<Rightarrow> bool" where
  "slug_char c \<longleftrightarrow> is_lower_az c \<or> is_digit c \<or> c = CHR ''-''"

definition drop_final_newline :: "string \<Rightarrow> string" where
  "drop_final_newline s = (if s \<noteq> [] \<and> last s = CHR 0x0A then butlast s else s)"

definition slug_re_match :: "string \<Rightarrow> bool" where
  "slug_re_match s \<longleftrightarrow> (let t = drop_final_newline s in t \<noteq> [] \<and> list_all slug_char t)"

datatype validation_error =
    PatternTooLong string
  | InvalidRegex string
  | BadAction string
  | BadMode string
  | BadRateLimit string
  | UnknownDetector string
  | BlockNotAllowed string
  | BadMaxBytes int
  | UnknownResponseDetector string
  | BadSlug string
  | BadQuotaPeriod string

subsection \<open>Parameter rules\<close>

record param_rule =
  pr_max_length :: "int option"
  pr_block_patterns :: "string list"
  pr_allow_patterns :: "string list"
  pr_max_value :: "pyfloat option"
  pr_min_value :: "pyfloat option"
  pr_denied :: bool

definition empty_param_rule :: param_rule where
  "empty_param_rule = \<lparr>pr_max_length = None, pr_block_patterns = [], pr_allow_patterns = [],
     pr_max_value = None, pr_min_value = None, pr_denied = False\<rparr>"

fun validate_patterns :: "regex_env \<Rightarrow> string list \<Rightarrow> validation_error list" where
  "validate_patterns env [] = []"
| "validate_patterns env (p # ps) =
     (if length p > 200 then [PatternTooLong p]
      else if \<not> re_accepts env p then [InvalidRegex p]
      else validate_patterns env ps)"

definition validate_param_rule :: "regex_env \<Rightarrow> param_rule \<Rightarrow> validation_error list" where
  "validate_param_rule env r =
     validate_patterns env (pr_block_patterns r) @ validate_patterns env (pr_allow_patterns r)"

text \<open>\<open>compiled_patterns\<close> and \<open>compiled_allow_patterns\<close> are list comprehensions over \<open>compile_pattern\<close>.\<close>

fun compile_all :: "regex_env \<Rightarrow> string list \<Rightarrow> compiled list option" where
  "compile_all env [] = Some []"
| "compile_all env (p # ps) =
     Option.bind (compile_pattern env p) (\<lambda>c. map_option (\<lambda>cs. c # cs) (compile_all env ps))"

definition compiled_patterns :: "regex_env \<Rightarrow> param_rule \<Rightarrow> compiled list option" where
  "compiled_patterns env r = compile_all env (pr_block_patterns r)"

definition compiled_allow_patterns :: "regex_env \<Rightarrow> param_rule \<Rightarrow> compiled list option" where
  "compiled_allow_patterns env r = compile_all env (pr_allow_patterns r)"

subsection \<open>Policies\<close>

record dlp_custom_pattern =
  cp_name :: string
  cp_pattern :: string
  cp_action :: string

definition VALID_DLP_ACTIONS :: "string list" where
  "VALID_DLP_ACTIONS = [''allow'', ''redact'', ''block'']"

definition validate_custom_pattern :: "regex_env \<Rightarrow> dlp_custom_pattern \<Rightarrow> validation_error list" where
  "validate_custom_pattern env p =
     (if length (cp_pattern p) > 200 then [PatternTooLong (cp_pattern p)]
      else if \<not> re_accepts env (cp_pattern p) then [InvalidRegex (cp_pattern p)]
      else []) @
     (if cp_action p \<notin> set VALID_DLP_ACTIONS then [BadAction (cp_action p)] else [])"

definition VALID_DLP_DETECTOR_NAMES :: "string list" where
  "VALID_DLP_DETECTOR_NAMES =
     [''credit_card'', ''email'', ''us_ssn'', ''aws_access_key'', ''private_key_pem'',
      ''high_entropy_string'', ''bearer_token'', ''jwt'', ''github_token'', ''secret_assignment'',
      ''url_credentials'']"

definition RESPONSE_DLP_MAX_BYTES_DEFAULT :: int where
  "RESPONSE_DLP_MAX_BYTES_DEFAULT = 1048576"

record server_policy =
  sp_mode :: string
  sp_rate_limit :: "string option"
  sp_allowed :: "string list"
  sp_denied :: "string list"
  sp_param_rules :: "param_rule dict dict"
  sp_dlp_detectors :: "string dict"
  sp_dlp_custom_patterns :: "dlp_custom_pattern list"
  sp_response_dlp_detectors :: "string dict"
  sp_response_dlp_max_bytes :: int

definition default_policy :: server_policy where
  "default_policy = \<lparr>sp_mode = ''passthrough'', sp_rate_limit = None, sp_allowed = [], sp_denied = [],
     sp_param_rules = [], sp_dlp_detectors = [], sp_dlp_custom_patterns = [],
     sp_response_dlp_detectors = [], sp_response_dlp_max_bytes = RESPONSE_DLP_MAX_BYTES_DEFAULT\<rparr>"

definition rate_limit_periods :: "string list" where
  "rate_limit_periods = [''second'', ''minute'', ''hour'']"

definition validate_rate_limit_spec :: "string \<Rightarrow> validation_error list" where
  "validate_rate_limit_spec spec =
     (case str_split (CHR ''/'') (str_strip spec) of
        [count_str, u] \<Rightarrow>
          (case int_of_string count_str of
             None \<Rightarrow> [BadRateLimit spec]
           | Some count \<Rightarrow>
               if count \<le> 0 then [BadRateLimit spec]
               else if str_lower (str_strip u) \<notin> set rate_limit_periods then [BadRateLimit spec]
               else [])
      | _ \<Rightarrow> [BadRateLimit spec])"

definition validate_mode :: "string \<Rightarrow> validation_error list" where
  "validate_mode m = (if m \<in> {''passthrough'', ''allowlist'', ''denylist''} then [] else [BadMode m])"

fun validate_dlp_detectors :: "string dict \<Rightarrow> validation_error list" where
  "validate_dlp_detectors [] = []"
| "validate_dlp_detectors ((name, action) # ds) =
     (if name \<notin> set VALID_DLP_DETECTOR_NAMES then [UnknownDetector name]
      else if action \<notin> set VALID_DLP_ACTIONS then [BadAction action]
      else validate_dlp_detectors ds)"

fun validate_response_dlp_actions :: "string dict \<Rightarrow> validation_error list" where
  "validate_response_dlp_actions [] = []"
| "validate_response_dlp_actions ((name, action) # ds) =
     (if action = ''block'' then [BlockNotAllowed name]
      else if action \<notin> {''allow'', ''redact''} then [BadAction action]
      else validate_response_dlp_actions ds)"

definition validate_response_dlp_max_bytes :: "int \<Rightarrow> validation_error list" where
  "validate_response_dlp_max_bytes v = (if 1024 \<le> v \<and> v \<le> 16777216 then [] else [BadMaxBytes v])"

fun validate_response_dlp_names :: "string list \<Rightarrow> string dict \<Rightarrow> validation_error list" where
  "validate_response_dlp_names custom [] = []"
| "validate_response_dlp_names custom ((name, action) # ds) =
     (if name \<notin> set VALID_DLP_DETECTOR_NAMES \<and> name \<notin> set custom then [UnknownResponseDetector name]
      else validate_response_dlp_names custom ds)"

definition validate_policy_fields :: "regex_env \<Rightarrow> server_policy \<Rightarrow> validation_error list" where
  "validate_policy_fields env p =
     validate_mode (sp_mode p)
     @ (case sp_rate_limit p of None \<Rightarrow> [] | Some spec \<Rightarrow> validate_rate_limit_spec spec)
     @ concat (map (\<lambda>(t, rules). concat (map (\<lambda>(n, r). validate_param_rule env r) rules)) (sp_param_rules p))
     @ validate_dlp_detectors (sp_dlp_detectors p)
     @ concat (map (validate_custom_pattern env) (sp_dlp_custom_patterns p))
     @ validate_response_dlp_actions (sp_response_dlp_detectors p)
     @ validate_response_dlp_max_bytes (sp_response_dlp_max_bytes p)"

definition validate_server_policy :: "regex_env \<Rightarrow> server_policy \<Rightarrow> validation_error list" where
  "validate_server_policy env p =
     (let errs = validate_policy_fields env p in
      if errs \<noteq> [] then errs
      else validate_response_dlp_names (map cp_name (sp_dlp_custom_patterns p)) (sp_response_dlp_detectors p))"

abbreviation policy_ok :: "regex_env \<Rightarrow> server_policy \<Rightarrow> bool" where
  "policy_ok env p \<equiv> validate_server_policy env p = []"

subsection \<open>Servers and API keys\<close>

record server_record =
  sv_id :: int
  sv_slug :: string
  sv_name :: string
  sv_upstream_url :: string
  sv_enabled :: bool
  sv_in_aggregate :: bool
  sv_upstream_protocol :: "string option"
  sv_discover_json :: "string option"
  sv_upstream_auth_header :: "string option"
  sv_credential_mode :: string
  sv_project_id :: "int option"

definition validate_slug :: "string \<Rightarrow> validation_error list" where
  "validate_slug s = (if slug_re_match s then [] else [BadSlug s])"

record api_key_record =
  ak_id :: int
  ak_name :: string
  ak_key_prefix :: string
  ak_enabled :: bool
  ak_server_scopes :: "string list option"
  ak_quota_calls :: "int option"
  ak_quota_period :: "string option"
  ak_project_id :: "int option"

definition validate_quota_period :: "string option \<Rightarrow> validation_error list" where
  "validate_quota_period q = (case q of None \<Rightarrow> []
     | Some p \<Rightarrow> if p \<in> {''day'', ''month''} then [] else [BadQuotaPeriod p])"

subsection \<open>What a valid policy guarantees\<close>

lemma validate_patterns_ok:
  "validate_patterns env ps = [] \<longleftrightarrow> (\<forall>p \<in> set ps. length p \<le> 200 \<and> re_accepts env p)"
  by (induction ps) auto

lemma compile_pattern_Some:
  "re_accepts env p \<Longrightarrow> \<exists>c. compile_pattern env p = Some c \<and> pattern_text c = p"
  by (simp add: compile_pattern_def)

lemma compile_all_Some:
  "(\<forall>p \<in> set ps. re_accepts env p) \<Longrightarrow> \<exists>cs. compile_all env ps = Some cs \<and> map pattern_text cs = ps"
proof (induction ps)
  case (Cons p ps)
  then obtain c cs where "compile_pattern env p = Some c" "pattern_text c = p"
    "compile_all env ps = Some cs" "map pattern_text cs = ps"
    using compile_pattern_Some [of env p] by auto
  then show ?case by auto
qed simp

lemma compile_all_length: "compile_all env ps = Some cs \<Longrightarrow> length cs = length ps"
  by (induction ps arbitrary: cs) (auto simp: bind_eq_Some_conv)

lemma validate_dlp_detectors_ok:
  "validate_dlp_detectors ds = [] \<longleftrightarrow>
     (\<forall>(n, a) \<in> set ds. n \<in> set VALID_DLP_DETECTOR_NAMES \<and> a \<in> set VALID_DLP_ACTIONS)"
  by (induction ds rule: validate_dlp_detectors.induct) auto

lemma validate_response_dlp_actions_ok:
  "validate_response_dlp_actions ds = [] \<longleftrightarrow> (\<forall>(n, a) \<in> set ds. a \<in> {''allow'', ''redact''})"
  by (induction ds rule: validate_response_dlp_actions.induct) auto

lemma policy_ok_fields:
  "policy_ok env p \<Longrightarrow> validate_policy_fields env p = []"
  by (auto simp: validate_server_policy_def Let_def split: if_splits)

lemma policy_ok_param_rule:
  assumes "policy_ok env p" and "map_of (sp_param_rules p) t = Some rules" and "(n, r) \<in> set rules"
  shows "validate_param_rule env r = []"
proof -
  have "\<forall>(t, rules) \<in> set (sp_param_rules p). \<forall>(n, r) \<in> set rules. validate_param_rule env r = []"
    using policy_ok_fields [OF assms(1)] by (fastforce simp: validate_policy_fields_def)
  moreover have "(t, rules) \<in> set (sp_param_rules p)" using assms(2) by (rule map_of_SomeD)
  ultimately show ?thesis using assms(3) by fastforce
qed

lemma policy_ok_compiles:
  assumes "validate_param_rule env r = []"
  shows "\<exists>cs. compiled_patterns env r = Some cs" "\<exists>cs. compiled_allow_patterns env r = Some cs"
  using assms compile_all_Some [of "pr_block_patterns r" env] compile_all_Some [of "pr_allow_patterns r" env]
  by (auto simp: validate_param_rule_def validate_patterns_ok compiled_patterns_def compiled_allow_patterns_def)

lemma slug_no_underscore:
  assumes "slug_re_match s" shows "CHR ''_'' \<notin> set s"
proof -
  have sub: "\<And>c. c \<in> set (drop_final_newline s) \<Longrightarrow> c \<noteq> CHR ''_''"
    using assms by (auto simp: slug_re_match_def Let_def list_all_iff slug_char_def is_lower_az_def is_digit_def)
  show ?thesis
  proof
    assume mem: "CHR ''_'' \<in> set s"
    show False
    proof (cases "s \<noteq> [] \<and> last s = CHR 0x0A")
      case True
      then have "s = butlast s @ [CHR 0x0A]" by (metis append_butlast_last_id)
      then have "set s = insert (CHR 0x0A) (set (butlast s))"
        by (metis Un_insert_right list.simps(15) set_append sup_bot_right empty_set)
      with mem have "CHR ''_'' \<in> set (butlast s)" by auto
      with True sub show False by (auto simp: drop_final_newline_def)
    next
      case False
      with mem sub show False by (auto simp: drop_final_newline_def)
    qed
  qed
qed

end
