(* ===== verification/Protocol.thy ===== *)
theory Protocol
  imports Models
begin

text \<open>
  The wire level of the gateway: JSON-RPC helpers (\<open>argus/jsonrpc.py\<close>), header handling
  (\<open>argus/headers.py\<close>), the client generation (\<open>argus/generation.py\<close>), the names of the aggregate
  endpoint (\<open>argus/aggregate.py\<close>), discovery documents (\<open>argus/discover.py\<close>) and origins
  (\<open>argus/origin.py\<close>). A message is the JSON value that \<open>json.dumps\<close> prints and \<open>json.loads\<close> reads;
  \<open>loads\<close> is the parser, \<^const>\<open>None\<close> being its \<open>ValueError\<close> or \<open>RecursionError\<close>. \<open>Inl ()\<close> is an
  uncaught \<open>AttributeError\<close> or \<open>TypeError\<close>.
\<close>

subsection \<open>JSON-RPC\<close>

fun sanitize_rpc_id :: "json \<Rightarrow> json" where
  "sanitize_rpc_id (JInt i) = JInt i"
| "sanitize_rpc_id (JFloat f) = JFloat f"
| "sanitize_rpc_id (JStr s) = JStr (take 256 s)"
| "sanitize_rpc_id _ = JNull"

definition rpc_error :: "json \<Rightarrow> string \<Rightarrow> int \<Rightarrow> json dict option \<Rightarrow> json" where
  "rpc_error rpc_id message code data =
     JObj [(''jsonrpc'', JStr ''2.0''), (''id'', sanitize_rpc_id rpc_id),
           (''error'', JObj ([(''code'', JInt code), (''message'', JStr message)]
              @ (case data of Some (x # xs) \<Rightarrow> [(''data'', JObj (x # xs))] | _ \<Rightarrow> [])))]"

definition INVALID_REQUEST :: int where "INVALID_REQUEST = -32600"
definition PARSE_ERROR :: int where "PARSE_ERROR = -32700"
definition HEADER_MISMATCH_ERROR :: int where "HEADER_MISMATCH_ERROR = -32020"
definition UNSUPPORTED_PROTOCOL_VERSION :: int where "UNSUPPORTED_PROTOCOL_VERSION = -32022"

datatype not_a_single_message = NotASingleMessage int string

definition parse_single_message :: "(string \<Rightarrow> json option) \<Rightarrow> string \<Rightarrow> not_a_single_message + json dict" where
  "parse_single_message loads body =
     (case loads body of
        None \<Rightarrow> Inl (NotASingleMessage PARSE_ERROR
          ''Parse error: body is not UTF-8 JSON, or is nested too deeply'')
      | Some (JList _) \<Rightarrow> Inl (NotASingleMessage INVALID_REQUEST
          ''JSON-RPC batching is not supported (removed in MCP 2025-06-18); send one message per request'')
      | Some (JObj d) \<Rightarrow> Inr d
      | Some _ \<Rightarrow> Inl (NotASingleMessage INVALID_REQUEST ''body must be a single JSON-RPC object''))"

definition obj_get :: "json dict \<Rightarrow> string \<Rightarrow> json" where
  "obj_get d k = (case map_of d k of None \<Rightarrow> JNull | Some v \<Rightarrow> v)"

subsection \<open>Headers\<close>

definition ascii_lower :: "char \<Rightarrow> char" where
  "ascii_lower c = (if is_upper_az c then char_of (of_char c + 32 :: nat) else c)"

definition bytes_lower :: "string \<Rightarrow> string" where
  "bytes_lower s = map ascii_lower s"

definition HOP_BY_HOP_HEADERS :: "string list" where
  "HOP_BY_HOP_HEADERS = [''host'', ''content-length'', ''transfer-encoding'', ''connection'', ''keep-alive'',
     ''proxy-authenticate'', ''proxy-authorization'', ''te'', ''trailer'', ''trailers'', ''upgrade'',
     ''authorization'', ''cookie'']"

definition TRACE_CONTEXT_HEADERS :: "string list" where
  "TRACE_CONTEXT_HEADERS = [''traceparent'', ''tracestate'']"

definition strip_hop_by_hop :: "(string \<times> string) list \<Rightarrow> (string \<times> string) list" where
  "strip_hop_by_hop hs = filter (\<lambda>(k, v). bytes_lower k \<notin> set HOP_BY_HOP_HEADERS
     \<and> bytes_lower k \<notin> set TRACE_CONTEXT_HEADERS) hs"

definition ALLOWED_RESPONSE_HEADERS :: "string list" where
  "ALLOWED_RESPONSE_HEADERS = [''content-type'', ''cache-control'', ''mcp-session-id'', ''mcp-protocol-version'']"

definition filter_response_headers :: "(string \<times> string) list \<Rightarrow> (string \<times> string) list" where
  "filter_response_headers hs = filter (\<lambda>(k, v). str_lower k \<in> set ALLOWED_RESPONSE_HEADERS) hs"

text \<open>\<open>request.headers.get\<close>: the first header with that name, in any case.\<close>

definition header_get :: "(string \<times> string) list \<Rightarrow> string \<Rightarrow> string option" where
  "header_get hs name = map_option snd (List.find (\<lambda>(k, v). bytes_lower k = bytes_lower name) hs)"

definition extract_name_from_params :: "json \<Rightarrow> json \<Rightarrow> unit + json" where
  "extract_name_from_params rpc_method params =
     (let get = (\<lambda>k. case params of JObj d \<Rightarrow> Inr (obj_get d k) | _ \<Rightarrow> Inl ()) in
      if rpc_method = JStr ''tools/call'' then get ''name''
      else if rpc_method = JStr ''resources/read'' then get ''uri''
      else if rpc_method = JStr ''prompts/get'' then get ''name''
      else Inr JNull)"

definition header_matches_body :: "string option \<Rightarrow> string option \<Rightarrow> json \<Rightarrow> json \<Rightarrow> bool" where
  "header_matches_body method_header name_header rpc_method body_name =
     (if (case method_header of None \<Rightarrow> False | Some h \<Rightarrow> JStr h \<noteq> rpc_method) then False
      else if (case name_header of None \<Rightarrow> False | Some h \<Rightarrow> JStr h \<noteq> body_name) then False
      else True)"

datatype client_generation = GEN_2026 | GEN_2025

definition detect_client_generation :: "(string \<times> string) list \<Rightarrow> client_generation" where
  "detect_client_generation hs = (if header_get hs ''Mcp-Method'' \<noteq> None then GEN_2026 else GEN_2025)"

subsection \<open>Names on the aggregate endpoint\<close>

definition TOOL_NAME_SEPARATOR :: string where "TOOL_NAME_SEPARATOR = ''__''"
definition MAX_TOOL_NAME_LENGTH :: nat where "MAX_TOOL_NAME_LENGTH = 128"

definition namespaced_tool_name :: "string \<Rightarrow> string \<Rightarrow> string" where
  "namespaced_tool_name slug tool_name = slug @ TOOL_NAME_SEPARATOR @ tool_name"

definition split_namespaced_tool_name :: "string \<Rightarrow> (string \<times> string) option" where
  "split_namespaced_tool_name namespaced =
     (case str_partition TOOL_NAME_SEPARATOR namespaced of
        None \<Rightarrow> None
      | Some (slug, tool_name) \<Rightarrow> if slug = [] \<or> tool_name = [] then None else Some (slug, tool_name))"

definition fits_name_limit :: "string \<Rightarrow> string \<Rightarrow> bool" where
  "fits_name_limit slug tool_name = (length (namespaced_tool_name slug tool_name) \<le> MAX_TOOL_NAME_LENGTH)"

definition tool_name_char :: "char \<Rightarrow> bool" where
  "tool_name_char c \<longleftrightarrow> is_lower_az c \<or> is_upper_az c \<or> is_digit c \<or> c = CHR ''_'' \<or> c = CHR ''-''"

definition valid_tool_name_chars :: "string \<Rightarrow> bool" where
  "valid_tool_name_chars s \<longleftrightarrow> (let t = drop_final_newline s in t \<noteq> [] \<and> list_all tool_name_char t)"

definition namespace_tool_definition :: "string \<Rightarrow> json dict \<Rightarrow> unit + json dict option" where
  "namespace_tool_definition slug tool =
     (case (case map_of tool ''name'' of None \<Rightarrow> JStr [] | Some v \<Rightarrow> v) of
        JStr name \<Rightarrow>
          Inr (if name = [] \<or> \<not> valid_tool_name_chars name then None
               else if \<not> fits_name_limit slug name then None
               else Some (AList.update ''name'' (JStr (namespaced_tool_name slug name)) tool))
      | v \<Rightarrow> if truthy v then Inl () else Inr None)"

subsection \<open>Discovery and origins\<close>

definition or_default :: "json \<Rightarrow> json \<Rightarrow> json" where
  "or_default v d = (if truthy v then v else d)"

definition synthesize_server_discover :: "(string \<Rightarrow> json option) \<Rightarrow> server_record \<Rightarrow> unit + json dict" where
  "synthesize_server_discover loads server =
     (let cached = (case sv_discover_json server of None \<Rightarrow> JObj []
                    | Some s \<Rightarrow> if s = [] then JObj [] else (case loads s of None \<Rightarrow> JObj [] | Some v \<Rightarrow> v))
      in case cached of
           JObj c \<Rightarrow> Inr [(''serverInfo'', or_default (obj_get c ''serverInfo'') (JObj [(''name'', JStr (sv_name server))])),
                (''capabilities'', or_default (obj_get c ''capabilities'') (JObj [])),
                (''supportedVersions'', JList (case sv_upstream_protocol server of
                    None \<Rightarrow> [] | Some p \<Rightarrow> if p = [] then [] else [JStr p]))]
         | _ \<Rightarrow> Inl ())"

definition synthesize_gateway_discover :: "server_record list \<Rightarrow> json dict" where
  "synthesize_gateway_discover servers =
     [(''serverInfo'', JObj [(''name'', JStr ''acropolis-gateway''), (''version'', JStr ''0.1.0'')]),
      (''capabilities'', JObj [(''tools'', JObj [(''listChanged'', JBool False)])]),
      (''supportedVersions'', JList [JStr ''2026-07-28'', JStr ''2025-06-18'']),
      (''aggregatedServers'', JList (map (\<lambda>s. JStr (sv_slug s))
         (filter (\<lambda>s. sv_enabled s \<and> sv_in_aggregate s) servers)))]"

definition local_origin :: "string \<Rightarrow> string option \<Rightarrow> string option \<Rightarrow> string" where
  "local_origin key_name harness host =
     (let given = (\<lambda>x. case x of None \<Rightarrow> False | Some s \<Rightarrow> s \<noteq> []);
          detail = (if given harness \<and> given host
                    then key_name @ ''/'' @ (case harness of Some h \<Rightarrow> h | None \<Rightarrow> []) @ ''@''
                      @ (case host of Some h \<Rightarrow> h | None \<Rightarrow> [])
                    else key_name)
      in ''local:'' @ detail)"

definition origin_class :: "string option \<Rightarrow> string" where
  "origin_class origin = (case origin of None \<Rightarrow> ''gateway''
     | Some s \<Rightarrow> (case str_partition '':'' s of None \<Rightarrow> s | Some (a, _) \<Rightarrow> a))"

subsection \<open>Lemmas\<close>

lemma slug_name_partition:
  assumes "slug_re_match slug"
  shows "str_partition TOOL_NAME_SEPARATOR (namespaced_tool_name slug tool) = Some (slug, tool)"
  using str_partition_prefix [OF slug_no_underscore [OF assms], of "''_''" tool]
  by (simp add: namespaced_tool_name_def TOOL_NAME_SEPARATOR_def)

lemma slug_nonempty: "slug_re_match slug \<Longrightarrow> slug \<noteq> []"
  by (auto simp: slug_re_match_def drop_final_newline_def Let_def)

lemma namespaced_inj:
  assumes "slug_re_match s" "slug_re_match s'" "namespaced_tool_name s t = namespaced_tool_name s' t'"
  shows "s = s' \<and> t = t'"
  using slug_name_partition [OF assms(1), of t] slug_name_partition [OF assms(2), of t'] unfolding assms(3)
  by (metis option.inject prod.inject)

lemma strip_hop_by_hop_mem:
  "(k, v) \<in> set (strip_hop_by_hop hs) \<longleftrightarrow> (k, v) \<in> set hs \<and> bytes_lower k \<notin> set HOP_BY_HOP_HEADERS
     \<and> bytes_lower k \<notin> set TRACE_CONTEXT_HEADERS"
  by (auto simp: strip_hop_by_hop_def)

lemma origin_class_local [simp]: "origin_class (Some (local_origin n h c)) = ''local''"
proof -
  define d where "d = drop 6 (local_origin n h c)"
  have "local_origin n h c = ''local'' @ '':'' @ d"
    by (simp add: d_def local_origin_def Let_def)
  moreover have "str_partition '':'' (''local'' @ '':'' @ d) = Some (''local'', d)"
    by (rule str_partition_prefix) simp
  ultimately show ?thesis unfolding origin_class_def by (simp only: option.case prod.case)
qed

subsection \<open>Properties\<close>

text \<open>Namespaced tool names are unambiguous: for a valid slug and a non-empty tool name the joined name splits
  back into exactly the two parts, also when the tool name starts with underscores, and what splits joins
  back to the same text.\<close>

theorem namespaced_round_trip:
  "(slug_re_match slug \<longrightarrow> tool \<noteq> [] \<longrightarrow>
      split_namespaced_tool_name (namespaced_tool_name slug tool) = Some (slug, tool))
   \<and> (split_namespaced_tool_name name = Some (a, b) \<longrightarrow> namespaced_tool_name a b = name)"
  using slug_name_partition [of slug tool] slug_nonempty [of slug]
  by (auto simp: split_namespaced_tool_name_def namespaced_tool_name_def split: option.splits if_splits
      dest!: str_partition_Some)

theorem namespaced_round_trip_witness:
  "split_namespaced_tool_name (namespaced_tool_name ''my-fs'' ''_read__all'') = Some (''my-fs'', ''_read__all'')"
proof -
  have "slug_re_match ''my-fs''" by code_simp
  with namespaced_round_trip [of "''my-fs''" "''_read__all''"] show ?thesis by simp
qed

end
