(* ===== verification/Upstream.thy ===== *)
theory Upstream
  imports Protocol
begin

text \<open>
  Talking to upstream servers: bounded requests and the handshake cache (\<open>argus/upstream.py\<close>) and the
  bridge from 2026 clients to 2025 servers (\<open>argus/bridge.py\<close>). The network is a parameter \<open>net\<close>: it
  answers the last of all requests sent so far, so an upstream may keep state. A request is recorded in
  the history when it is sent. \<open>loads\<close> is the JSON parser (a document nested too deeply for it counts as
  one it rejects; the text of its error is not modelled). The handshake is the one of the data plane, which
  sets no deadline for \<open>initialize\<close>. An \<open>Uncaught\<close> is a Python exception no handler
  of this code catches (a type or attribute error on an answer of an unexpected shape).
\<close>

datatype payload = RawPayload string | JsonPayload json

record http_request =
  hq_method :: string
  hq_url :: string
  hq_headers :: "(string \<times> string) list"
  hq_body :: payload

datatype http_answer =
    HttpFailure string
  | HttpDeadline
  | HttpAnswer (ha_status: nat) (ha_headers: "(string \<times> string) list") (ha_body: string)

type_synonym network = "http_request list \<Rightarrow> http_answer"

record handshake_result =
  hr_session_id :: "string option"
  hr_server_info :: json
  hr_capabilities :: json
  hr_protocol_version :: json

record upstream_state =
  up_history :: "http_request list"
  up_cache :: "(int \<times> handshake_result) list"
  up_cached_at :: "(int \<times> rat) list"

definition MCP_2025_VERSION :: string where "MCP_2025_VERSION = ''2025-06-18''"
definition HANDSHAKE_MAX_RESPONSE_BYTES :: int where "HANDSHAKE_MAX_RESPONSE_BYTES = 1048576"
definition HANDSHAKE_TTL_SECONDS :: rat where "HANDSHAKE_TTL_SECONDS = 3600"

text \<open>\<open>r.headers.get\<close> of an answer: the values of a repeated header are joined.\<close>

definition answer_header :: "(string \<times> string) list \<Rightarrow> string \<Rightarrow> string option" where
  "answer_header hs name = (case filter (\<lambda>(k, v). bytes_lower k = bytes_lower name) hs of
     [] \<Rightarrow> None | found \<Rightarrow> Some (str_join '', '' (map snd found)))"

definition header_or :: "(string \<times> string) list \<Rightarrow> string \<Rightarrow> string \<Rightarrow> string" where
  "header_or hs name dflt = (case answer_header hs name of None \<Rightarrow> dflt | Some v \<Rightarrow> v)"

definition send :: "network \<Rightarrow> upstream_state \<Rightarrow> http_request \<Rightarrow> http_answer \<times> upstream_state" where
  "send net s q = (let h = up_history s @ [q] in (net h, s\<lparr>up_history := h\<rparr>))"

subsection \<open>Bounded requests\<close>

datatype post_error = PostFailed string | PostRejected string | PostDeadline

definition bounded_post ::
    "network \<Rightarrow> upstream_state \<Rightarrow> string \<Rightarrow> json \<Rightarrow> (string \<times> string) list \<Rightarrow> int \<Rightarrow> bool \<Rightarrow>
     (post_error + nat \<times> (string \<times> string) list \<times> string) \<times> upstream_state" where
  "bounded_post net s url body headers max_bytes deadline =
     (let (a, s') = send net s \<lparr>hq_method = ''POST'', hq_url = url,
            hq_headers = AList.update ''Accept-Encoding'' ''identity'' headers, hq_body = JsonPayload body\<rparr>
      in (case a of
            HttpFailure m \<Rightarrow> Inl (PostFailed m)
          | HttpDeadline \<Rightarrow> Inl (if deadline then PostDeadline else PostFailed ''timeout'')
          | HttpAnswer status hs content \<Rightarrow>
              let encoding = str_lower (str_strip (header_or hs ''content-encoding'' ''''));
                  declared = header_or hs ''content-length'' '''' in
              if encoding \<notin> {'''', ''identity''} then Inl (PostRejected (''response uses content-encoding '' @ repr_str (take 32 encoding)))
              else if declared \<noteq> [] \<and> list_all is_digit declared \<and> digits_val declared > max_bytes
                then Inl (PostRejected (''response declares a body larger than '' @ show_int max_bytes @ '' bytes''))
              else if int (length content) > max_bytes then Inl (PostRejected (''response body exceeded '' @ show_int max_bytes @ '' bytes''))
              else Inr (status, hs, content), s'))"

subsection \<open>Event-stream answers\<close>

definition is_line_break :: "char \<Rightarrow> bool" where
  "is_line_break c \<longleftrightarrow> (let n = of_char c :: nat in (10 \<le> n \<and> n \<le> 13) \<or> (28 \<le> n \<and> n \<le> 30) \<or> n = 133)"

text \<open>\<open>str.splitlines()\<close>\<close>

fun splitlines_from :: "string \<Rightarrow> string \<Rightarrow> string list" where
  "splitlines_from cur [] = (if cur = [] then [] else [rev cur])"
| "splitlines_from cur (c # s) =
     (if c = CHR 0x0D \<and> s \<noteq> [] \<and> hd s = CHR 0x0A then rev cur # splitlines_from [] (tl s)
      else if is_line_break c then rev cur # splitlines_from [] s
      else splitlines_from (c # cur) s)"

definition parse_sse_body :: "(string \<Rightarrow> json option) \<Rightarrow> string \<Rightarrow> json" where
  "parse_sse_body loads text =
     (let data_lines = List.map_filter (\<lambda>raw. let l = str_strip raw in
            if take 5 l = ''data:'' then Some (str_strip (drop 5 l)) else None) (splitlines_from [] text)
      in foldl (\<lambda>result c. case loads c of None \<Rightarrow> result | Some v \<Rightarrow> v) JNull data_lines)"

subsection \<open>The handshake cache\<close>

datatype handshake_error = HandshakeError string | HandshakeUncaught

definition invalidate_handshake :: "upstream_state \<Rightarrow> int \<Rightarrow> upstream_state" where
  "invalidate_handshake s server_id =
     s\<lparr>up_cache := AList.delete server_id (up_cache s), up_cached_at := AList.delete server_id (up_cached_at s)\<rparr>"

definition handshake_expired :: "upstream_state \<Rightarrow> int \<Rightarrow> rat \<Rightarrow> bool" where
  "handshake_expired s server_id now =
     (case map_of (up_cached_at s) server_id of None \<Rightarrow> True | Some t \<Rightarrow> now - t \<ge> HANDSHAKE_TTL_SECONDS)"

definition auth_headers :: "string option \<Rightarrow> (string \<times> string) list" where
  "auth_headers auth = (case auth of None \<Rightarrow> [] | Some h \<Rightarrow> if h = [] then [] else [(''Authorization'', h)])"

definition json_headers :: "string option \<Rightarrow> (string \<times> string) list" where
  "json_headers auth = [(''Content-Type'', ''application/json''), (''Accept'', ''application/json, text/event-stream'')]
     @ auth_headers auth"

definition initialize_body :: "string \<Rightarrow> json" where
  "initialize_body hs_id = JObj [(''jsonrpc'', JStr ''2.0''), (''id'', JStr (''acropolis-handshake-'' @ hs_id)),
     (''method'', JStr ''initialize''),
     (''params'', JObj [(''protocolVersion'', JStr MCP_2025_VERSION), (''capabilities'', JObj []),
        (''clientInfo'', JObj [(''name'', JStr ''acropolis-gateway''), (''version'', JStr ''0.1.0'')])])]"

definition initialized_body :: json where
  "initialized_body = JObj [(''jsonrpc'', JStr ''2.0''), (''method'', JStr ''notifications/initialized'')]"

text \<open>\<open>"result" not in parsed\<close> followed by \<open>parsed["result"]\<close>, on any JSON value.\<close>

definition result_member :: "string \<Rightarrow> json \<Rightarrow> handshake_error + json" where
  "result_member text parsed =
     (let missing = Inl (HandshakeError (''initialize response did not contain a result: '' @ take 200 text)) in
      case parsed of
        JNull \<Rightarrow> missing
      | JObj d \<Rightarrow> (case map_of d ''result'' of None \<Rightarrow> missing | Some v \<Rightarrow> Inr v)
      | JList xs \<Rightarrow> if JStr ''result'' \<in> set xs then Inl HandshakeUncaught else missing
      | JStr s \<Rightarrow> if has_substring ''result'' s then Inl HandshakeUncaught else missing
      | _ \<Rightarrow> Inl HandshakeUncaught)"

definition parse_answer :: "(string \<Rightarrow> json option) \<Rightarrow> (string \<times> string) list \<Rightarrow> string \<Rightarrow> json option" where
  "parse_answer loads hs text =
     (if has_substring ''text/event-stream'' (header_or hs ''content-type'' '''') then Some (parse_sse_body loads text)
      else if text = [] then Some JNull else loads text)"

definition read_initialize ::
    "(string \<Rightarrow> json option) \<Rightarrow> nat \<times> (string \<times> string) list \<times> string \<Rightarrow> handshake_error + handshake_result" where
  "read_initialize loads resp = (case resp of (status, hs, text) \<Rightarrow>
     if status \<noteq> 200 then Inl (HandshakeError (''initialize returned HTTP '' @ show_nat status @ '': '' @ take 200 text))
     else case parse_answer loads hs text of
         None \<Rightarrow> Inl (HandshakeError ''initialize returned an unparseable response'')
       | Some parsed \<Rightarrow> rbind (result_member text parsed) (\<lambda>result. case result of
             JObj r \<Rightarrow> Inr \<lparr>hr_session_id = answer_header hs ''mcp-session-id'', hr_server_info = obj_get r ''serverInfo'',
                 hr_capabilities = obj_get r ''capabilities'',
                 hr_protocol_version = (case map_of r ''protocolVersion'' of None \<Rightarrow> JStr MCP_2025_VERSION | Some v \<Rightarrow> v)\<rparr>
           | _ \<Rightarrow> Inl HandshakeUncaught))"

definition session_headers :: "handshake_result \<Rightarrow> (string \<times> string) list" where
  "session_headers h = (case hr_session_id h of None \<Rightarrow> [] | Some i \<Rightarrow> if i = [] then [] else [(''Mcp-Session-Id'', i)])"

definition handshake ::
    "network \<Rightarrow> (string \<Rightarrow> json option) \<Rightarrow> upstream_state \<Rightarrow> string \<Rightarrow> string \<Rightarrow> string option \<Rightarrow>
     (handshake_error + handshake_result) \<times> upstream_state" where
  "handshake net loads s hs_id url auth =
     (case bounded_post net s url (initialize_body hs_id) (json_headers auth) HANDSHAKE_MAX_RESPONSE_BYTES False of
        (Inl (PostFailed m), s1) \<Rightarrow> (Inl (HandshakeError (''initialize request failed: '' @ m)), s1)
      | (Inl (PostRejected m), s1) \<Rightarrow> (Inl (HandshakeError (''initialize response rejected: '' @ m)), s1)
      | (Inl PostDeadline, s1) \<Rightarrow> (Inl (HandshakeError ''initialize did not complete''), s1)
      | (Inr resp, s1) \<Rightarrow>
          (case read_initialize loads resp of
             Inl e \<Rightarrow> (Inl e, s1)
           | Inr h \<Rightarrow> (Inr h, snd (bounded_post net s1 url initialized_body (json_headers auth @ session_headers h)
               HANDSHAKE_MAX_RESPONSE_BYTES True))))"

definition get_or_handshake ::
    "network \<Rightarrow> (string \<Rightarrow> json option) \<Rightarrow> upstream_state \<Rightarrow> string \<Rightarrow> int \<Rightarrow> string \<Rightarrow> string option \<Rightarrow> rat \<Rightarrow>
     (handshake_error + handshake_result) \<times> upstream_state" where
  "get_or_handshake net loads s hs_id server_id url auth now =
     (case (map_of (up_cache s) server_id, handshake_expired s server_id now) of
        (Some h, False) \<Rightarrow> (Inr h, s)
      | _ \<Rightarrow> (case handshake net loads s hs_id url auth of
            (Inl e, s1) \<Rightarrow> (Inl e, s1)
          | (Inr h, s1) \<Rightarrow> (Inr h, s1\<lparr>up_cache := AList.update server_id h (up_cache s1),
                                      up_cached_at := AList.update server_id now (up_cached_at s1)\<rparr>)))"

subsection \<open>The bridge\<close>

datatype bridge_error = BridgeError nat json | BridgeUncaught

definition META_PROTOCOL_VERSION :: string where
  "META_PROTOCOL_VERSION = ''io.modelcontextprotocol/protocolVersion''"
definition SUPPORTED_2026_VERSION :: string where "SUPPORTED_2026_VERSION = ''2026-07-28''"

definition REQUEST_META_KEYS_2026 :: "string list" where
  "REQUEST_META_KEYS_2026 = [META_PROTOCOL_VERSION, ''io.modelcontextprotocol/clientCapabilities'',
     ''io.modelcontextprotocol/clientInfo'']"

definition strip_2026_request_meta :: "json \<Rightarrow> json" where
  "strip_2026_request_meta params =
     (case params of
        JObj d \<Rightarrow>
          (case map_of d ''_meta'' of
             Some (JObj meta) \<Rightarrow>
               (let kept = filter (\<lambda>(k, v). k \<notin> set REQUEST_META_KEYS_2026) meta; out = AList.delete ''_meta'' d in
                JObj (if kept \<noteq> [] then AList.update ''_meta'' (JObj kept) out else out))
           | _ \<Rightarrow> params)
      | _ \<Rightarrow> params)"

definition merged_meta :: "json \<Rightarrow> json \<Rightarrow> json dict option" where
  "merged_meta meta params =
     (let pm = (case params of JObj d \<Rightarrow> (case map_of d ''_meta'' of Some (JObj m) \<Rightarrow> m | _ \<Rightarrow> []) | _ \<Rightarrow> []) in
      case (if truthy meta then meta else JObj []) of
        JObj m \<Rightarrow> Some (fold (\<lambda>(k, v) acc. AList.update k v acc) pm m)
      | _ \<Rightarrow> None)"

definition hashable :: "json \<Rightarrow> bool" where
  "hashable v = (case v of JList _ \<Rightarrow> False | JObj _ \<Rightarrow> False | _ \<Rightarrow> True)"

definition bridge_refusal :: "(pyfloat \<Rightarrow> string) \<Rightarrow> json \<Rightarrow> json \<Rightarrow> json dict \<Rightarrow> bridge_error option" where
  "bridge_refusal fr rpc_method rpc_id meta =
     (let q = [CHR 0x27] @ py_str fr rpc_method @ [CHR 0x27] in
      if \<not> hashable rpc_method then Some BridgeUncaught
      else if rpc_method \<in> {JStr ''initialize'', JStr ''notifications/initialized''}
      then Some (BridgeError 400 (rpc_error rpc_id
        (q @ '' is a 2025-generation lifecycle method; 2026 stateless clients must not send it'') INVALID_REQUEST None))
      else if rpc_method = JStr ''subscriptions/listen''
      then Some (BridgeError 501 (rpc_error rpc_id
        (q @ '' is not supported when bridging to a 2025-generation upstream (no notification channel to relay it over)'')
        INVALID_REQUEST None))
      else case map_of meta META_PROTOCOL_VERSION of
          None \<Rightarrow> None
        | Some JNull \<Rightarrow> None
        | Some v \<Rightarrow> if v = JStr SUPPORTED_2026_VERSION then None
            else Some (BridgeError 400 (rpc_error rpc_id (''unsupported protocol version '' @ py_repr fr v)
              UNSUPPORTED_PROTOCOL_VERSION None)))"

definition upstream_body :: "json \<Rightarrow> json \<Rightarrow> json \<Rightarrow> json" where
  "upstream_body rpc_method rpc_id params =
     JObj [(''jsonrpc'', JStr ''2.0''),
       (''id'', if sanitize_rpc_id rpc_id = JNull then JInt 1 else sanitize_rpc_id rpc_id),
       (''method'', rpc_method), (''params'', strip_2026_request_meta params)]"

definition call_headers :: "handshake_result \<Rightarrow> string \<Rightarrow> string option \<Rightarrow> (string \<times> string) list" where
  "call_headers h version auth =
     [(''Content-Type'', ''application/json''), (''Accept'', ''application/json, text/event-stream''),
      (''MCP-Protocol-Version'', version)] @ session_headers h @ auth_headers auth"

text \<open>The attempts left of the loop over two attempts.\<close>

fun bridge_attempts ::
    "nat \<Rightarrow> network \<Rightarrow> (string \<Rightarrow> json option) \<Rightarrow> upstream_state \<Rightarrow> string \<Rightarrow> int \<Rightarrow> string \<Rightarrow> json \<Rightarrow> json \<Rightarrow>
     string option \<Rightarrow> rat \<Rightarrow> (bridge_error + nat \<times> (string \<times> string) list \<times> string) \<times> upstream_state" where
  "bridge_attempts 0 net loads s hs_id server_id url body rpc_id auth now =
     (Inl (BridgeError 502 (rpc_error rpc_id ''upstream session invalid; retry'' INVALID_REQUEST None)), s)"
| "bridge_attempts (Suc n) net loads s hs_id server_id url body rpc_id auth now =
     (case get_or_handshake net loads s hs_id server_id url auth now of
        (Inl (HandshakeError m), s1) \<Rightarrow>
          (Inl (BridgeError 502 (rpc_error rpc_id (''upstream handshake failed: '' @ m) INVALID_REQUEST None)), s1)
      | (Inl HandshakeUncaught, s1) \<Rightarrow> (Inl BridgeUncaught, s1)
      | (Inr h, s1) \<Rightarrow>
          (case hr_protocol_version h of
             JStr version \<Rightarrow>
               (case send net s1 \<lparr>hq_method = ''POST'', hq_url = url, hq_headers = call_headers h version auth,
                       hq_body = JsonPayload body\<rparr> of
                  (HttpAnswer status hs text, s2) \<Rightarrow>
                    if status = 404 then bridge_attempts n net loads (invalidate_handshake s2 server_id) hs_id server_id url body rpc_id auth now
                    else (Inr (status, hs, text), s2)
                | (HttpFailure m, s2) \<Rightarrow>
                    (Inl (BridgeError 502 (rpc_error rpc_id (''upstream request failed: '' @ m) INVALID_REQUEST None)), s2)
                | (HttpDeadline, s2) \<Rightarrow>
                    (Inl (BridgeError 502 (rpc_error rpc_id ''upstream request failed: timeout'' INVALID_REQUEST None)), s2))
           | _ \<Rightarrow> (Inl BridgeUncaught, s1)))"

definition read_bridged ::
    "(string \<Rightarrow> json option) \<Rightarrow> json \<Rightarrow> nat \<times> (string \<times> string) list \<times> string \<Rightarrow> bridge_error + nat \<times> json" where
  "read_bridged loads rpc_id resp = (case resp of (status, hs, text) \<Rightarrow>
     (case (case parse_answer loads hs text of None \<Rightarrow> JNull | Some v \<Rightarrow> v) of
        JNull \<Rightarrow> Inl (BridgeError 502 (rpc_error rpc_id ''upstream returned an unparseable response'' INVALID_REQUEST None))
      | JObj d \<Rightarrow> Inr (if dict_has d ''error'' then status else 200, JObj (AList.update ''id'' (sanitize_rpc_id rpc_id) d))
      | _ \<Rightarrow> Inl BridgeUncaught))"

definition bridge_call ::
    "(pyfloat \<Rightarrow> string) \<Rightarrow> network \<Rightarrow> (string \<Rightarrow> json option) \<Rightarrow> upstream_state \<Rightarrow> string \<Rightarrow> int \<Rightarrow> string \<Rightarrow> json \<Rightarrow> json \<Rightarrow> json \<Rightarrow> json \<Rightarrow>
     string option \<Rightarrow> rat \<Rightarrow> (bridge_error + nat \<times> json) \<times> upstream_state" where
  "bridge_call fr net loads s hs_id server_id url rpc_method rpc_id params0 meta auth now =
     (let params = (if truthy params0 then params0 else JObj []) in
      case merged_meta meta params of
        None \<Rightarrow> (Inl BridgeUncaught, s)
      | Some mm \<Rightarrow>
          (case bridge_refusal fr rpc_method rpc_id mm of
             Some e \<Rightarrow> (Inl e, s)
           | None \<Rightarrow>
               (case bridge_attempts 2 net loads s hs_id server_id url (upstream_body rpc_method rpc_id params) rpc_id auth now of
                  (Inl e, s1) \<Rightarrow> (Inl e, s1)
                | (Inr resp, s1) \<Rightarrow> (read_bridged loads rpc_id resp, s1))))"

subsection \<open>What is sent\<close>

definition sent_since :: "upstream_state \<Rightarrow> upstream_state \<Rightarrow> http_request list" where
  "sent_since s s' = drop (length (up_history s)) (up_history s')"

lemma send_history: "send net s q = (a, s') \<Longrightarrow> up_history s' = up_history s @ [q]"
  by (auto simp: send_def Let_def)

text \<open>A request carries the credential the gateway resolved for the server, or none.\<close>

definition own_credential :: "string option \<Rightarrow> http_request \<Rightarrow> bool" where
  "own_credential auth q \<longleftrightarrow> (\<forall>v. (''Authorization'', v) \<in> set (hq_headers q) \<longrightarrow> auth = Some v)"

definition extends_with :: "(http_request \<Rightarrow> bool) \<Rightarrow> upstream_state \<Rightarrow> upstream_state \<Rightarrow> bool" where
  "extends_with P s s' \<longleftrightarrow> (\<exists>qs. up_history s' = up_history s @ qs \<and> list_all P qs)"

lemma extends_with_refl [simp]: "extends_with P s s"
  by (simp add: extends_with_def)

lemma extends_with_trans: "extends_with P s s1 \<Longrightarrow> extends_with P s1 s2 \<Longrightarrow> extends_with P s s2"
  by (auto simp: extends_with_def)

lemma extends_with_cong: "up_history t = up_history s \<Longrightarrow> up_history t' = up_history s' \<Longrightarrow>
    extends_with P t t' = extends_with P s s'"
  by (simp add: extends_with_def)

lemma extends_with_invalidate [simp]:
  "extends_with P (invalidate_handshake s i) s' = extends_with P s s'"
  "extends_with P s' (invalidate_handshake s i) = extends_with P s' s"
  by (simp_all add: extends_with_def invalidate_handshake_def)

lemma send_extends: "send net s q = (a, s') \<Longrightarrow> P q \<Longrightarrow> extends_with P s s'"
  using send_history [of net s q a s'] by (simp add: extends_with_def)

text \<open>The predicates this theory proves of all requests it sends to a server: a POST to the server's URL, with
  the gateway's own credential only.\<close>

definition to_server :: "string \<Rightarrow> string option \<Rightarrow> http_request \<Rightarrow> bool" where
  "to_server url auth q \<longleftrightarrow> hq_url q = url \<and> hq_method q = ''POST'' \<and> own_credential auth q"

text \<open>The same with one of the given bodies.\<close>

definition sends_to :: "string \<Rightarrow> string option \<Rightarrow> json set \<Rightarrow> http_request \<Rightarrow> bool" where
  "sends_to url auth B q \<longleftrightarrow> to_server url auth q \<and> hq_body q \<in> JsonPayload ` B"

definition handshake_bodies :: "string \<Rightarrow> json set" where
  "handshake_bodies hs_id = {initialize_body hs_id, initialized_body}"

lemma extends_with_mono: "extends_with P s s' \<Longrightarrow> (\<And>q. P q \<Longrightarrow> Q q) \<Longrightarrow> extends_with Q s s'"
  by (auto simp: extends_with_def list_all_iff)

lemma auth_headers_own: "(''Authorization'', v) \<in> set (auth_headers auth) \<Longrightarrow> auth = Some v"
  by (auto simp: auth_headers_def split: option.splits if_splits)

lemma session_headers_no_auth: "(''Authorization'', v) \<notin> set (session_headers h)"
  by (auto simp: session_headers_def split: option.splits)

lemma set_update_subset: "set (AList.update k v d) \<subseteq> insert (k, v) (set d)"
  by (induction d) auto

lemma bounded_post_extends:
  assumes "bounded_post net s url body hs n dl = (r, s')"
    and "\<And>v. (''Authorization'', v) \<in> set hs \<Longrightarrow> auth = Some v" and "body \<in> B"
  shows "extends_with (sends_to url auth B) s s'"
proof -
  let ?q = "\<lparr>hq_method = ''POST'', hq_url = url, hq_headers = AList.update ''Accept-Encoding'' ''identity'' hs, hq_body = JsonPayload body\<rparr>"
  obtain a s1 where sd: "send net s ?q = (a, s1)" by fastforce
  have "s' = s1" using assms(1) sd by (auto simp: bounded_post_def)
  moreover have "sends_to url auth B ?q"
    using assms(2,3) set_update_subset [of "''Accept-Encoding''" "''identity''" hs] by (auto simp: sends_to_def to_server_def own_credential_def)
  ultimately show ?thesis using send_extends [OF sd] by blast
qed

lemma json_headers_own: "(''Authorization'', v) \<in> set (json_headers auth) \<Longrightarrow> auth = Some v"
  by (auto simp: json_headers_def dest: auth_headers_own)

lemma handshake_extends:
  assumes "handshake net loads s hs_id url auth = (r, s')" and "handshake_bodies hs_id \<subseteq> B"
  shows "extends_with (sends_to url auth B) s s'"
proof -
  obtain r1 s1 where p1: "bounded_post net s url (initialize_body hs_id) (json_headers auth) HANDSHAKE_MAX_RESPONSE_BYTES False = (r1, s1)"
    by fastforce
  have e1: "extends_with (sends_to url auth B) s s1" using bounded_post_extends [OF p1 json_headers_own] assms(2) by (auto simp: handshake_bodies_def)
  show ?thesis
  proof (cases "\<exists>resp h. r1 = Inr resp \<and> read_initialize loads resp = Inr h")
    case True
    then obtain resp h where h: "r1 = Inr resp" "read_initialize loads resp = Inr h" by blast
    obtain r2 s2 where p2: "bounded_post net s1 url initialized_body (json_headers auth @ session_headers h) HANDSHAKE_MAX_RESPONSE_BYTES True = (r2, s2)"
      by fastforce
    have "s' = s2" using assms(1) p1 p2 h by (simp add: handshake_def)
    moreover have "extends_with (sends_to url auth B) s1 s2"
      by (rule bounded_post_extends [OF p2]) (use assms(2) in \<open>auto dest: json_headers_own simp: session_headers_no_auth handshake_bodies_def\<close>)
    ultimately show ?thesis using e1 extends_with_trans by blast
  next
    case False
    have "s' = s1"
    proof (cases r1)
      case (Inr resp)
      with False obtain e where "read_initialize loads resp = Inl e" by (cases "read_initialize loads resp") auto
      with Inr show ?thesis using assms(1) p1 by (simp add: handshake_def)
    next
      case (Inl e)
      then show ?thesis using assms(1) p1 by (cases e) (auto simp: handshake_def)
    qed
    then show ?thesis using e1 by simp
  qed
qed

lemma get_or_handshake_extends:
  assumes "get_or_handshake net loads s hs_id server_id url auth now = (r, s')" and "handshake_bodies hs_id \<subseteq> B"
  shows "extends_with (sends_to url auth B) s s'"
proof -
  obtain r1 s1 where h: "handshake net loads s hs_id url auth = (r1, s1)" by fastforce
  have "up_history s' = up_history s \<or> up_history s' = up_history s1"
    using assms(1) h by (auto simp: get_or_handshake_def split: option.splits bool.splits sum.splits)
  with handshake_extends [OF h assms(2)] show ?thesis by (auto simp: extends_with_def)
qed

lemma call_headers_own: "(''Authorization'', v) \<in> set (call_headers h ver auth) \<Longrightarrow> auth = Some v"
  by (auto simp: call_headers_def session_headers_no_auth dest: auth_headers_own)

lemma bridge_attempts_extends:
  assumes "handshake_bodies hs_id \<subseteq> B" and "body \<in> B"
  shows "bridge_attempts n net loads s hs_id server_id url body rpc_id auth now = (r, s') \<Longrightarrow> extends_with (sends_to url auth B) s s'"
proof (induction n arbitrary: s)
  case (Suc n)
  obtain r1 s1 where g: "get_or_handshake net loads s hs_id server_id url auth now = (r1, s1)" by fastforce
  note e1 = get_or_handshake_extends [OF g assms(1)]
  show ?case
  proof (cases "\<exists>h version. r1 = Inr h \<and> hr_protocol_version h = JStr version")
    case False
    then have "s' = s1" using Suc.prems g by (auto split: sum.splits handshake_error.splits json.splits)
    then show ?thesis using e1 by simp
  next
    case True
    then obtain h version where h: "r1 = Inr h" "hr_protocol_version h = JStr version" by blast
    let ?q = "\<lparr>hq_method = ''POST'', hq_url = url, hq_headers = call_headers h version auth, hq_body = JsonPayload body\<rparr>"
    obtain a s2 where sd: "send net s1 ?q = (a, s2)" by fastforce
    have "sends_to url auth B ?q" using assms(2) by (auto simp: sends_to_def to_server_def own_credential_def dest: call_headers_own)
    then have e2: "extends_with (sends_to url auth B) s s2" using send_extends [OF sd] e1 extends_with_trans by blast
    show ?thesis
    proof (cases "\<exists>hs txt. a = HttpAnswer 404 hs txt")
      case True
      then have "bridge_attempts n net loads (invalidate_handshake s2 server_id) hs_id server_id url body rpc_id auth now = (r, s')"
        using Suc.prems g h sd by auto
      from Suc.IH [OF this] e2 show ?thesis using extends_with_trans by simp
    next
      case False
      then have "s' = s2" using Suc.prems g h sd by (cases a) (auto split: if_splits)
      then show ?thesis using e2 by simp
    qed
  qed
qed simp

lemma bridge_call_sends:
  assumes "bridge_call fr net loads s hs_id server_id url rpc_method rpc_id params meta auth now = (r, s')"
  shows "extends_with (sends_to url auth
    (insert (upstream_body rpc_method rpc_id (if truthy params then params else JObj [])) (handshake_bodies hs_id))) s s'"
proof -
  obtain r1 s1 where b: "bridge_attempts 2 net loads s hs_id server_id url
      (upstream_body rpc_method rpc_id (if truthy params then params else JObj [])) rpc_id auth now = (r1, s1)" by fastforce
  have "s' = s \<or> s' = s1"
    using assms b by (auto simp: bridge_call_def Let_def split: option.splits sum.splits)
  with bridge_attempts_extends [OF subset_insertI insertI1 b] show ?thesis by auto
qed

lemma bridge_call_extends:
  assumes "bridge_call fr net loads s hs_id server_id url rpc_method rpc_id params meta auth now = (r, s')"
  shows "extends_with (to_server url auth) s s'"
  using bridge_call_sends [OF assms] by (rule extends_with_mono) (simp add: sends_to_def)

text \<open>The calls proper (not the handshake) an attempt loop sends: at most one per attempt.\<close>

definition is_call :: "json \<Rightarrow> http_request \<Rightarrow> bool" where
  "is_call body q \<longleftrightarrow> hq_body q = JsonPayload body"

definition calls_in :: "json \<Rightarrow> upstream_state \<Rightarrow> nat" where
  "calls_in body s = length (filter (is_call body) (up_history s))"

lemma calls_in_send: "send net s q = (a, s') \<Longrightarrow> calls_in body s' = calls_in body s + (if is_call body q then 1 else 0)"
  using send_history [of net s q a s'] by (simp add: calls_in_def)

lemma calls_in_invalidate [simp]: "calls_in body (invalidate_handshake s i) = calls_in body s"
  by (simp add: calls_in_def invalidate_handshake_def)

lemma bounded_post_calls:
  assumes "bounded_post net s url b hs n dl = (r, s')" and "b \<noteq> body"
  shows "calls_in body s' = calls_in body s"
proof -
  let ?q = "\<lparr>hq_method = ''POST'', hq_url = url, hq_headers = AList.update ''Accept-Encoding'' ''identity'' hs, hq_body = JsonPayload b\<rparr>"
  obtain a s1 where sd: "send net s ?q = (a, s1)" by fastforce
  have "s' = s1" using assms(1) sd by (auto simp: bounded_post_def)
  then show ?thesis using calls_in_send [OF sd, of body] assms(2) by (simp add: is_call_def)
qed

lemma handshake_calls:
  assumes "handshake net loads s hs_id url auth = (r, s')" "initialize_body hs_id \<noteq> body" "initialized_body \<noteq> body"
  shows "calls_in body s' = calls_in body s"
proof -
  obtain r1 s1 where p1: "bounded_post net s url (initialize_body hs_id) (json_headers auth) HANDSHAKE_MAX_RESPONSE_BYTES False = (r1, s1)"
    by fastforce
  have e1: "calls_in body s1 = calls_in body s" using bounded_post_calls [OF p1 assms(2)] .
  have "calls_in body (snd (bounded_post net s1 url initialized_body hs n dl)) = calls_in body s1" for hs n dl
    by (rule bounded_post_calls [OF prod.collapse [symmetric] assms(3)])
  then show ?thesis using assms(1) p1 e1
    by (auto simp: handshake_def split: sum.splits post_error.splits)
qed

lemma get_or_handshake_calls:
  assumes "get_or_handshake net loads s hs_id server_id url auth now = (r, s')"
    "initialize_body hs_id \<noteq> body" "initialized_body \<noteq> body"
  shows "calls_in body s' = calls_in body s"
proof -
  obtain r1 s1 where h: "handshake net loads s hs_id url auth = (r1, s1)" by fastforce
  have "up_history s' = up_history s \<or> up_history s' = up_history s1"
    using assms(1) h by (auto simp: get_or_handshake_def split: option.splits bool.splits sum.splits)
  with handshake_calls [OF h assms(2,3)] show ?thesis by (auto simp: calls_in_def)
qed

lemma bridge_attempts_calls:
  assumes "initialize_body hs_id \<noteq> body" "initialized_body \<noteq> body"
  shows "bridge_attempts n net loads s hs_id server_id url body rpc_id auth now = (r, s') \<Longrightarrow>
    calls_in body s' \<le> calls_in body s + n"
proof (induction n arbitrary: s)
  case (Suc n)
  obtain r1 s1 where g: "get_or_handshake net loads s hs_id server_id url auth now = (r1, s1)" by fastforce
  note c1 = get_or_handshake_calls [OF g assms]
  show ?case
  proof (cases "\<exists>h version. r1 = Inr h \<and> hr_protocol_version h = JStr version")
    case False
    then have "s' = s1" using Suc.prems g by (auto split: sum.splits handshake_error.splits json.splits)
    then show ?thesis using c1 by simp
  next
    case True
    then obtain h version where h: "r1 = Inr h" "hr_protocol_version h = JStr version" by blast
    let ?q = "\<lparr>hq_method = ''POST'', hq_url = url, hq_headers = call_headers h version auth, hq_body = JsonPayload body\<rparr>"
    obtain a s2 where sd: "send net s1 ?q = (a, s2)" by fastforce
    have c2: "calls_in body s2 = calls_in body s + 1" using calls_in_send [OF sd, of body] c1 by (simp add: is_call_def)
    show ?thesis
    proof (cases "\<exists>hs txt. a = HttpAnswer 404 hs txt")
      case True
      then have "bridge_attempts n net loads (invalidate_handshake s2 server_id) hs_id server_id url body rpc_id auth now = (r, s')"
        using Suc.prems g h sd by auto
      from Suc.IH [OF this] c2 show ?thesis by simp
    next
      case False
      then have "s' = s2" using Suc.prems g h sd by (cases a) (auto split: if_splits)
      then show ?thesis using c2 by simp
    qed
  qed
qed simp

lemma upstream_body_not_handshake:
  assumes "bridge_refusal fr rpc_method rpc_id mm = None"
  shows "initialize_body hs_id \<noteq> upstream_body rpc_method rpc_id params" "initialized_body \<noteq> upstream_body rpc_method rpc_id params"
  using assms by (auto simp: bridge_refusal_def initialize_body_def initialized_body_def upstream_body_def Let_def split: if_splits)

subsection \<open>Properties\<close>

text \<open>C31. A bridged call talks only to its server and only with the credential the gateway resolved for it, sends the
  call itself at most twice (once more after the upstream forgot the session), and sends nothing at all
  for a method or protocol version it refuses.\<close>

theorem bridge_call_contained:
  assumes "bridge_call fr net loads s hs_id server_id url rpc_method rpc_id params meta auth now = (r, s')"
  shows "extends_with (to_server url auth) s s'
    \<and> (let body = upstream_body rpc_method rpc_id (if truthy params then params else JObj []) in
        (\<forall>mm. merged_meta meta (if truthy params then params else JObj []) = Some mm \<longrightarrow>
          (if bridge_refusal fr rpc_method rpc_id mm \<noteq> None then s' = s else calls_in body s' \<le> calls_in body s + 2)))"
proof -
  let ?params = "if truthy params then params else JObj []"
  let ?body = "upstream_body rpc_method rpc_id ?params"
  have "if bridge_refusal fr rpc_method rpc_id mm \<noteq> None then s' = s else calls_in ?body s' \<le> calls_in ?body s + 2"
    if mm: "merged_meta meta ?params = Some mm" for mm
  proof (cases "bridge_refusal fr rpc_method rpc_id mm")
    case None
    obtain r1 s1 where b: "bridge_attempts 2 net loads s hs_id server_id url ?body rpc_id auth now = (r1, s1)" by fastforce
    have "s' = s1" using assms mm None b by (auto simp: bridge_call_def Let_def split: sum.splits)
    with None bridge_attempts_calls [OF upstream_body_not_handshake(1) [OF None] upstream_body_not_handshake(2) [OF None] b] show ?thesis by simp
  next
    case (Some e)
    then show ?thesis using assms mm by (auto simp: bridge_call_def Let_def)
  qed
  with bridge_call_extends [OF assms] show ?thesis unfolding Let_def by blast
qed

theorem bridge_call_contained_witness:
  "let s = \<lparr>up_history = [], up_cache = [], up_cached_at = []\<rparr> in
   \<exists>r s'. bridge_call (\<lambda>_. ''0'') (\<lambda>_. HttpFailure ''down'') (\<lambda>_. None) s ''i'' 1 ''http://u'' (JStr ''ping'') (JInt 1) JNull JNull (Some ''Bearer x'') 0 = (r, s')
     \<and> extends_with (to_server ''http://u'' (Some ''Bearer x'')) s s' \<and> length (up_history s') = 1"
proof -
  let ?s = "\<lparr>up_history = [], up_cache = [], up_cached_at = []\<rparr>"
  let ?r = "bridge_call (\<lambda>_. ''0'') (\<lambda>_. HttpFailure ''down'') (\<lambda>_. None) ?s ''i'' 1 ''http://u'' (JStr ''ping'') (JInt 1) JNull JNull (Some ''Bearer x'') 0"
  have "length (up_history (snd ?r)) = 1" by code_simp
  moreover have "extends_with (to_server ''http://u'' (Some ''Bearer x'')) ?s (snd ?r)"
    by (rule bridge_call_contained [OF prod.collapse [symmetric], THEN conjunct1])
  ultimately show ?thesis unfolding Let_def by (metis prod.collapse)
qed

end
