(* ===== verification/Policy_Match.thy ===== *)
theory Policy_Match
  imports Models
begin

text \<open>
  Matching of operator-supplied patterns, the first half of \<open>argus/policy.py\<close>: the three-valued
  outcome, the worker process with its two waits, and the two bounded matchers built on it. How one
  worker process fares (does it start, does it report ready in time, does the match finish in time,
  does anything else raise) is the \<^typ>\<open>worker_run\<close> the environment gives for the pattern and the
  value. The process is created and started before the \<open>try\<close> block, so a failure to start it is an
  exception of the caller (\<open>ProcessStartError\<close>), not an undetermined outcome.
\<close>

datatype match_outcome = MATCHED | NOT_MATCHED | UNDETERMINED

text \<open>What policy evaluation can raise instead of returning a decision.\<close>

datatype eval_exn = ProcessStartError | FloatOverflow | PatternCompileError

datatype 'a wait_result = WaitTimeout | QueueEmpty | OtherFailure | Received 'a

definition wait_for_worker :: "worker_run \<Rightarrow> 'a \<Rightarrow> 'a wait_result" where
  "wait_for_worker w result =
     (if wr_crashes w then OtherFailure
      else if \<not> wr_ready w then WaitTimeout
      else if \<not> wr_finishes w then QueueEmpty
      else Received result)"

definition run_worker_with_timeout :: "worker_run \<Rightarrow> 'a \<Rightarrow> eval_exn + 'a option \<times> string option" where
  "run_worker_with_timeout w result =
     (if \<not> wr_starts w then Inl ProcessStartError
      else Inr (case wait_for_worker w result of
          Received r \<Rightarrow> (Some r, None)
        | QueueEmpty \<Rightarrow> (None, Some ''match_timeout'')
        | WaitTimeout \<Rightarrow> (None, Some ''not_ready'')
        | OtherFailure \<Rightarrow> (None, Some ''error'')))"

definition engine_search :: "regex_env \<Rightarrow> compiled \<Rightarrow> string \<Rightarrow> bool" where
  "engine_search env c value = (engine_spans env c value \<noteq> [])"

definition match_with_timeout :: "regex_env \<Rightarrow> compiled \<Rightarrow> string \<Rightarrow> eval_exn + match_outcome" where
  "match_with_timeout env c value =
     (if is_re2_pattern env c
      then Inr (if engine_search env c value then MATCHED else NOT_MATCHED)
      else rbind (run_worker_with_timeout (worker env c value) (engine_search env c value))
        (\<lambda>(matched, _). Inr (case matched of None \<Rightarrow> UNDETERMINED
           | Some b \<Rightarrow> if b then MATCHED else NOT_MATCHED)))"

definition finditer_spans_with_timeout ::
    "regex_env \<Rightarrow> compiled \<Rightarrow> string \<Rightarrow> eval_exn + (nat \<times> nat) list option" where
  "finditer_spans_with_timeout env c value =
     (if is_re2_pattern env c then Inr (Some (engine_spans env c value))
      else rbind (run_worker_with_timeout (worker env c value) (engine_spans env c value))
        (\<lambda>(spans, _). Inr spans))"

lemma match_with_timeout_re2:
  "is_re2_pattern env c \<Longrightarrow> match_with_timeout env c v \<noteq> Inr UNDETERMINED \<and>
     (\<exists>r. match_with_timeout env c v = Inr r)"
  by (simp add: match_with_timeout_def)

text \<open>A determinate outcome is the engine's answer.\<close>

lemma match_with_timeout_sound:
  "match_with_timeout env c v = Inr MATCHED \<Longrightarrow> engine_search env c v"
  "match_with_timeout env c v = Inr NOT_MATCHED \<Longrightarrow> \<not> engine_search env c v"
  by (auto simp: match_with_timeout_def rbind_eq_Inr run_worker_with_timeout_def wait_for_worker_def
      split: if_splits option.splits wait_result.splits)

lemma match_with_timeout_undetermined_iff:
  "match_with_timeout env c v = Inr UNDETERMINED \<longleftrightarrow>
     \<not> is_re2_pattern env c \<and> wr_starts (worker env c v) \<and>
     (wr_crashes (worker env c v) \<or> \<not> wr_ready (worker env c v) \<or> \<not> wr_finishes (worker env c v))"
  by (auto simp: match_with_timeout_def rbind_eq_Inr run_worker_with_timeout_def wait_for_worker_def)

lemma match_with_timeout_exn:
  "match_with_timeout env c v = Inl e \<Longrightarrow>
     e = ProcessStartError \<and> \<not> is_re2_pattern env c \<and> \<not> wr_starts (worker env c v)"
  by (auto simp: match_with_timeout_def rbind_eq_Inl run_worker_with_timeout_def split: if_splits)

lemma finditer_spans_sound:
  "finditer_spans_with_timeout env c v = Inr (Some spans) \<Longrightarrow> spans = engine_spans env c v"
  by (auto simp: finditer_spans_with_timeout_def rbind_eq_Inr run_worker_with_timeout_def
      wait_for_worker_def split: if_splits wait_result.splits)

text \<open>
  What the code relies on of the engines: the spans \<open>finditer\<close> reports lie in the text, in order and
  without overlap.
\<close>

definition engine_ok :: "regex_env \<Rightarrow> bool" where
  "engine_ok env \<longleftrightarrow> (\<forall>c v. spans_from 0 (length v) (map (\<lambda>(b, e). (b, e, ())) (engine_spans env c v)))"

lemma spans_from_mem: "spans_from p n ms \<Longrightarrow> (b, e, g) \<in> set ms \<Longrightarrow> p \<le> b \<and> b \<le> e \<and> e \<le> n"
  by (induction p n ms rule: spans_from.induct) auto

lemma engine_ok_span:
  assumes "engine_ok env" and "(b, e) \<in> set (engine_spans env c v)"
  shows "b \<le> e \<and> e \<le> length v"
proof -
  have "spans_from 0 (length v) (map (\<lambda>(b, e). (b, e, ())) (engine_spans env c v))"
    using assms(1) by (simp add: engine_ok_def)
  moreover have "(b, e, ()) \<in> set (map (\<lambda>(b, e). (b, e, ())) (engine_spans env c v))"
    using assms(2) by force
  ultimately have "0 \<le> b \<and> b \<le> e \<and> e \<le> length v" by (rule spans_from_mem)
  then show ?thesis by simp
qed

text \<open>
  An environment that keeps the contract: the engine reads a pattern as literal text, RE2 is installed,
  every worker starts and finishes. Its variant without RE2 never finishes a match. The witnesses use them.
\<close>

definition literal_env :: regex_env where
  "literal_env = \<lparr>re2_installed = True, re2_accepts = (\<lambda>_. True), re_accepts = (\<lambda>_. True),
     engine_spans = (\<lambda>c v. map (\<lambda>(b, e, _). (b, e)) (finditer (lit (pattern_text c)) v)),
     worker = (\<lambda>_ _. \<lparr>wr_starts = True, wr_ready = True, wr_finishes = True, wr_crashes = False\<rparr>)\<rparr>"

definition stuck_env :: regex_env where
  "stuck_env = literal_env\<lparr>re2_installed := False,
     worker := (\<lambda>_ _. \<lparr>wr_starts = True, wr_ready = True, wr_finishes = False, wr_crashes = False\<rparr>)\<rparr>"

lemma spans_from_forget: "spans_from p n ms \<Longrightarrow> spans_from p n (map (\<lambda>(b, e, _). (b, e, ())) ms)"
  by (induction p n ms rule: spans_from.induct) auto

lemma literal_env_ok [simp]: "engine_ok literal_env"
proof -
  have "spans_from 0 (length v) (map (\<lambda>(b, e). (b, e, ())) (map (\<lambda>(b, e, _). (b, e)) (finditer r v)))" for r and v :: string
    using spans_from_forget [OF finditer_from_spans [of 0 v r]]
    by (simp add: finditer_def comp_def case_prod_unfold)
  then show ?thesis by (simp add: engine_ok_def literal_env_def)
qed

end
