(* ===== verification/Policy.thy ===== *)
theory Policy
  imports Dlp
begin

text \<open>
  The rules engine, the second half of \<open>argus/policy.py\<close>: the argument summary for the audit log, the
  check of one parameter, \<open>evaluate\<close> and \<open>tool_is_visible\<close>. \<open>fr\<close> prints a float. An \<^const>\<open>Inl\<close> is an
  exception that leaves \<open>evaluate\<close>.
\<close>

record decision =
  dc_blocked :: bool
  dc_reason :: "string option"
  dc_rule :: "string option"
  dc_matched :: "string option"
  dc_args_summary :: "string dict option"
  dc_dlp_detector :: "string option"
  dc_dlp_action :: "string option"
  dc_dlp_match_count :: nat
  dc_dlp_redacted_arguments :: "json dict option"

definition allow_decision :: "string dict \<Rightarrow> decision" where
  "allow_decision summary = \<lparr>dc_blocked = False, dc_reason = None, dc_rule = None, dc_matched = None,
     dc_args_summary = Some summary, dc_dlp_detector = None, dc_dlp_action = None, dc_dlp_match_count = 0,
     dc_dlp_redacted_arguments = None\<rparr>"

definition block_decision :: "string dict \<Rightarrow> string \<Rightarrow> string \<Rightarrow> string option \<Rightarrow> decision" where
  "block_decision summary reason rule matched =
     (allow_decision summary)\<lparr>dc_blocked := True, dc_reason := Some reason, dc_rule := Some rule,
       dc_matched := matched\<rparr>"

definition re_search :: "regex \<Rightarrow> string \<Rightarrow> bool" where
  "re_search r s = (finditer r s \<noteq> [])"

definition SENSITIVE_ARG_KEY_RE :: regex where
  "SENSITIVE_ARG_KEY_RE =
     alts (map ilit [''token'', ''password'', ''passwd'', ''secret'', ''key'', ''authorization'', ''credential'']
           @ [key_word ''api''])"

definition summarize_value :: "(pyfloat \<Rightarrow> string) \<Rightarrow> string \<Rightarrow> json \<Rightarrow> string" where
  "summarize_value fr k v =
     (if re_search SENSITIVE_ARG_KEY_RE k then ''[redacted]''
      else let s = py_str fr v in if length s > 120 then take 120 s @ '' [truncated]'' else s)"

definition summarize_args :: "(pyfloat \<Rightarrow> string) \<Rightarrow> json dict \<Rightarrow> string dict" where
  "summarize_args fr arguments = map (\<lambda>(k, v). (k, summarize_value fr k v)) arguments"

subsection \<open>One parameter\<close>

type_synonym violation = "string \<times> string"

fun check_block_patterns :: "regex_env \<Rightarrow> string \<Rightarrow> compiled list \<Rightarrow> eval_exn + violation option" where
  "check_block_patterns env s [] = Inr None"
| "check_block_patterns env s (c # cs) =
     rbind (match_with_timeout env c s) (\<lambda>outcome. case outcome of
         MATCHED \<Rightarrow> Inr (Some (''block_pattern'', pattern_text c))
       | UNDETERMINED \<Rightarrow> Inr (Some (''block_pattern_undetermined'', pattern_text c))
       | NOT_MATCHED \<Rightarrow> check_block_patterns env s cs)"

fun check_allow_patterns ::
    "regex_env \<Rightarrow> string \<Rightarrow> compiled option \<Rightarrow> compiled list \<Rightarrow> eval_exn + bool \<times> compiled option" where
  "check_allow_patterns env s und [] = Inr (False, und)"
| "check_allow_patterns env s und (c # cs) =
     rbind (match_with_timeout env c s) (\<lambda>outcome. case outcome of
         MATCHED \<Rightarrow> Inr (True, und)
       | UNDETERMINED \<Rightarrow> check_allow_patterns env s (Some c) cs
       | NOT_MATCHED \<Rightarrow> check_allow_patterns env s und cs)"

definition check_allow :: "regex_env \<Rightarrow> string \<Rightarrow> param_rule \<Rightarrow> eval_exn + violation option" where
  "check_allow env s rule =
     (if pr_allow_patterns rule = [] then Inr None
      else case compiled_allow_patterns env rule of
        None \<Rightarrow> Inl PatternCompileError
      | Some cs \<Rightarrow> rbind (check_allow_patterns env s None cs) (\<lambda>(matched, und).
          Inr (if matched then None
               else case und of
                 Some c \<Rightarrow> Some (''allow_pattern_undetermined'', pattern_text c)
               | None \<Rightarrow> Some (''allow_pattern'', ''no allow pattern matched (allowed: ''
                   @ str_join '', '' (pr_allow_patterns rule) @ '')''))))"

text \<open>The two numeric bounds; only a type or value error of \<open>float()\<close> is caught.\<close>

definition check_bound ::
    "(pyfloat \<Rightarrow> string) \<Rightarrow> string \<Rightarrow> (pyfloat \<Rightarrow> pyfloat \<Rightarrow> bool) \<Rightarrow> string \<Rightarrow> json \<Rightarrow> pyfloat option \<Rightarrow>
     eval_exn + violation option" where
  "check_bound fr rule_name outside op v bound =
     (case bound of None \<Rightarrow> Inr None
      | Some m \<Rightarrow> (case py_float v of
            Inl FOverflowError \<Rightarrow> Inl FloatOverflow
          | Inl _ \<Rightarrow> Inr None
          | Inr x \<Rightarrow> Inr (if outside x m then Some (rule_name, py_str fr v @ op @ fr m) else None)))"

definition or_else :: "eval_exn + violation option \<Rightarrow> eval_exn + violation option \<Rightarrow> eval_exn + violation option" where
  "or_else a b = rbind a (\<lambda>v. case v of Some x \<Rightarrow> Inr (Some x) | None \<Rightarrow> b)"

definition check_param ::
    "regex_env \<Rightarrow> (pyfloat \<Rightarrow> string) \<Rightarrow> string \<Rightarrow> json \<Rightarrow> param_rule \<Rightarrow> eval_exn + violation option" where
  "check_param env fr name v rule =
     (if pr_denied rule then Inr (Some (''denied_param'', ''param '' @ [CHR 0x27] @ name @ [CHR 0x27] @ '' is not permitted''))
      else let s = py_str fr v in
        if (case pr_max_length rule of None \<Rightarrow> False | Some m \<Rightarrow> int (length s) > m)
        then Inr (Some (''max_length'', ''len='' @ show_nat (length s) @ '' exceeds max='' @
               show_int (case pr_max_length rule of Some m \<Rightarrow> m | None \<Rightarrow> 0)))
        else (case compiled_patterns env rule of
            None \<Rightarrow> Inl PatternCompileError
          | Some cs \<Rightarrow> or_else (check_block_patterns env s cs)
              (or_else (check_allow env s rule)
                (or_else (check_bound fr ''max_value'' (\<lambda>x m. float_less m x) '' > '' v (pr_max_value rule))
                  (check_bound fr ''min_value'' float_less '' < '' v (pr_min_value rule))))))"

subsection \<open>The whole call\<close>

fun check_params ::
    "regex_env \<Rightarrow> (pyfloat \<Rightarrow> string) \<Rightarrow> json dict \<Rightarrow> param_rule dict \<Rightarrow> eval_exn + (string \<times> violation) option" where
  "check_params env fr arguments [] = Inr None"
| "check_params env fr arguments ((param_name, rule) # rules) =
     (case map_of arguments param_name of
        None \<Rightarrow> check_params env fr arguments rules
      | Some v \<Rightarrow> rbind (check_param env fr param_name v rule) (\<lambda>violation. case violation of
            Some x \<Rightarrow> Inr (Some (param_name, x))
          | None \<Rightarrow> check_params env fr arguments rules))"

definition quoted :: "string \<Rightarrow> string" where
  "quoted s = [CHR 0x27] @ s @ [CHR 0x27]"

text \<open>The arguments whose summary a DLP decision logs.\<close>

definition dlp_safe_arguments :: "json dict \<Rightarrow> args_scan_result \<Rightarrow> json dict" where
  "dlp_safe_arguments arguments r =
     (case as_redacted_arguments r of
        Some d \<Rightarrow> d
      | None \<Rightarrow> map (\<lambda>(k, v). (k, if is_jstr v
            then JStr (REDACTED_PLACEHOLDER (case as_detector r of Some d \<Rightarrow> d | None \<Rightarrow> ''None'')) else v)) arguments)"

definition dlp_decision ::
    "(pyfloat \<Rightarrow> string) \<Rightarrow> json dict \<Rightarrow> string dict \<Rightarrow> args_scan_result \<Rightarrow> decision" where
  "dlp_decision fr arguments summary r =
     (let safe = summarize_args fr (dlp_safe_arguments arguments r) in
      if as_action r = ''block'' then
        (block_decision safe (''DLP detector '' @ quoted (case as_detector r of Some d \<Rightarrow> d | None \<Rightarrow> ''None'')
           @ '' matched a blocked pattern'') ''dlp'' None)
          \<lparr>dc_dlp_detector := as_detector r, dc_dlp_action := Some ''block'', dc_dlp_match_count := as_match_count r\<rparr>
      else if as_action r = ''redact'' then
        (allow_decision safe)\<lparr>dc_dlp_detector := as_detector r, dc_dlp_action := Some ''redact'',
          dc_dlp_match_count := as_match_count r, dc_dlp_redacted_arguments := as_redacted_arguments r\<rparr>
      else allow_decision summary)"

definition evaluate ::
    "regex_env \<Rightarrow> (pyfloat \<Rightarrow> string) \<Rightarrow> string \<Rightarrow> json dict \<Rightarrow> string \<Rightarrow> server_policy \<Rightarrow> eval_exn + decision" where
  "evaluate env fr tool_name arguments server_name policy =
     (let summary = summarize_args fr arguments in
      if sp_mode policy = ''allowlist'' \<and> tool_name \<notin> set (sp_allowed policy) then
        Inr (block_decision summary
          (quoted tool_name @ '' is not in the allowlist for server '' @ quoted server_name) ''allowlist'' None)
      else if sp_mode policy = ''denylist'' \<and> tool_name \<in> set (sp_denied policy) then
        Inr (block_decision summary
          (quoted tool_name @ '' is explicitly denied on server '' @ quoted server_name) ''denylist'' None)
      else rbind (check_params env fr arguments (dict_get (sp_param_rules policy) tool_name [])) (\<lambda>violation.
        case violation of
          Some (param_name, rule_name, detail) \<Rightarrow>
            Inr (block_decision summary
              (''param '' @ quoted param_name @ '' failed rule '' @ quoted rule_name @ '': '' @ detail)
              rule_name (Some detail))
        | None \<Rightarrow>
            if sp_dlp_detectors policy \<noteq> [] \<or> sp_dlp_custom_patterns policy \<noteq> [] then
              rbind (dlp_scan env fr arguments policy) (\<lambda>r. Inr (dlp_decision fr arguments summary r))
            else Inr (allow_decision summary)))"

definition tool_is_visible :: "string \<Rightarrow> server_policy \<Rightarrow> bool" where
  "tool_is_visible tool_name policy =
     (if sp_mode policy = ''allowlist'' then tool_name \<in> set (sp_allowed policy)
      else if sp_mode policy = ''denylist'' then tool_name \<notin> set (sp_denied policy)
      else True)"

subsection \<open>What passing a parameter rule means\<close>

lemma outcome_bind_cases:
  assumes "rbind m (\<lambda>x. case x of MATCHED \<Rightarrow> a | NOT_MATCHED \<Rightarrow> b | UNDETERMINED \<Rightarrow> c) = r"
  obtains "m = Inr MATCHED" "a = r" | "m = Inr NOT_MATCHED" "b = r" | "m = Inr UNDETERMINED" "c = r"
    | e where "m = Inl e" "r = Inl e"
  using assms by (cases m) (auto split: match_outcome.splits)

lemma violation_bind_cases:
  assumes "rbind m (\<lambda>x. case x of None \<Rightarrow> b | Some y \<Rightarrow> f y) = r"
  obtains "m = Inr None" "b = r" | y where "m = Inr (Some y)" "f y = r" | e where "m = Inl e" "r = Inl e"
  using assms by (cases m) (auto split: option.splits)

lemma check_block_patterns_None:
  "check_block_patterns env s cs = Inr None \<Longrightarrow> c \<in> set cs \<Longrightarrow> match_with_timeout env c s = Inr NOT_MATCHED"
  by (induction cs) (auto elim!: outcome_bind_cases)

lemma check_allow_patterns_True:
  "check_allow_patterns env s und cs = Inr (True, u) \<Longrightarrow> \<exists>c \<in> set cs. match_with_timeout env c s = Inr MATCHED"
proof (induction cs arbitrary: und)
  case (Cons c cs)
  from Cons.prems show ?case
    by (simp, elim outcome_bind_cases) (auto dest: Cons.IH)
qed simp

lemma or_else_None: "or_else a b = Inr None \<longleftrightarrow> a = Inr None \<and> b = Inr None"
  by (cases a) (auto simp: or_else_def split: option.splits)

text \<open>The bound a numeric rule puts on a value that \<open>float()\<close> accepts.\<close>

definition within_bounds :: "param_rule \<Rightarrow> json \<Rightarrow> bool" where
  "within_bounds rule v \<longleftrightarrow> (\<forall>x. py_float v = Inr x \<longrightarrow>
     (\<forall>m. pr_max_value rule = Some m \<longrightarrow> \<not> float_less m x) \<and>
     (\<forall>m. pr_min_value rule = Some m \<longrightarrow> \<not> float_less x m))"

definition rule_respected :: "regex_env \<Rightarrow> (pyfloat \<Rightarrow> string) \<Rightarrow> json \<Rightarrow> param_rule \<Rightarrow> bool" where
  "rule_respected env fr v rule \<longleftrightarrow>
     \<not> pr_denied rule
     \<and> (\<forall>m. pr_max_length rule = Some m \<longrightarrow> int (length (py_str fr v)) \<le> m)
     \<and> (\<forall>p \<in> set (pr_block_patterns rule). \<exists>c. compile_pattern env p = Some c \<and> \<not> engine_search env c (py_str fr v))
     \<and> (pr_allow_patterns rule \<noteq> [] \<longrightarrow>
          (\<exists>p \<in> set (pr_allow_patterns rule). \<exists>c. compile_pattern env p = Some c \<and> engine_search env c (py_str fr v)))
     \<and> within_bounds rule v"

lemma compile_all_mem:
  "compile_all env ps = Some cs \<Longrightarrow> p \<in> set ps \<Longrightarrow> \<exists>c \<in> set cs. compile_pattern env p = Some c"
  by (induction ps arbitrary: cs) (auto simp: bind_eq_Some_conv)

lemma compile_all_mem_rev:
  "compile_all env ps = Some cs \<Longrightarrow> c \<in> set cs \<Longrightarrow> \<exists>p \<in> set ps. compile_pattern env p = Some c"
  by (induction ps arbitrary: cs) (auto simp: bind_eq_Some_conv)

lemma check_allow_None:
  assumes "check_allow env s rule = Inr None" and "pr_allow_patterns rule \<noteq> []"
  shows "\<exists>p \<in> set (pr_allow_patterns rule). \<exists>c. compile_pattern env p = Some c \<and> engine_search env c s"
proof -
  from assms obtain cs u where cs: "compile_all env (pr_allow_patterns rule) = Some cs"
    and "check_allow_patterns env s None cs = Inr (True, u)"
    by (auto simp: check_allow_def compiled_allow_patterns_def rbind_eq_Inr split: option.splits if_splits)
  then obtain c where "c \<in> set cs" "engine_search env c s"
    using check_allow_patterns_True match_with_timeout_sound(1) by metis
  with compile_all_mem_rev [OF cs] show ?thesis by blast
qed

lemma check_bound_None:
  assumes "check_bound fr n outside op v (Some m) = Inr None" and "py_float v = Inr x"
  shows "\<not> outside x m"
  using assms by (simp add: check_bound_def split: if_splits)

lemma check_param_passes:
  assumes "check_param env fr name v rule = Inr None"
  shows "rule_respected env fr v rule"
proof -
  let ?s = "py_str fr v"
  from assms obtain cs where nd: "\<not> pr_denied rule"
    and len: "\<not> (case pr_max_length rule of None \<Rightarrow> False | Some m \<Rightarrow> int (length ?s) > m)"
    and cs: "compile_all env (pr_block_patterns rule) = Some cs"
    and blk: "check_block_patterns env ?s cs = Inr None"
    and alw: "check_allow env ?s rule = Inr None"
    and mx: "check_bound fr ''max_value'' (\<lambda>x m. float_less m x) '' > '' v (pr_max_value rule) = Inr None"
    and mn: "check_bound fr ''min_value'' float_less '' < '' v (pr_min_value rule) = Inr None"
    by (auto simp: check_param_def compiled_patterns_def Let_def or_else_None
        split: if_splits option.splits)
  have "\<forall>p \<in> set (pr_block_patterns rule). \<exists>c. compile_pattern env p = Some c \<and> \<not> engine_search env c ?s"
    using compile_all_mem [OF cs] check_block_patterns_None [OF blk] match_with_timeout_sound(2) by blast
  moreover have "within_bounds rule v"
    unfolding within_bounds_def using mx mn check_bound_None by metis
  moreover have "\<forall>m. pr_max_length rule = Some m \<longrightarrow> int (length ?s) \<le> m" using len by auto
  ultimately show ?thesis using nd check_allow_None [OF alw] unfolding rule_respected_def by blast
qed

lemma check_params_None:
  assumes "check_params env fr arguments rules = Inr None" and "(n, rule) \<in> set rules"
    and "map_of arguments n = Some v"
  shows "check_param env fr n v rule = Inr None"
  using assms
  by (induction env fr arguments rules rule: check_params.induct)
    (auto split: option.splits elim!: violation_bind_cases)

lemma check_params_Some:
  assumes "check_params env fr arguments rules = Inr (Some (n, x))"
  shows "\<exists>rule v. (n, rule) \<in> set rules \<and> map_of arguments n = Some v \<and> check_param env fr n v rule = Inr (Some x)"
  using assms
  by (induction env fr arguments rules rule: check_params.induct)
    (fastforce split: option.splits elim!: violation_bind_cases)+

subsection \<open>Shape of the decision\<close>

lemma block_decision_simps [simp]:
  "dc_blocked (block_decision sm r ru m)" "dc_rule (block_decision sm r ru m) = Some ru"
  "dc_matched (block_decision sm r ru m) = m" "dc_args_summary (block_decision sm r ru m) = Some sm"
  "dc_reason (block_decision sm r ru m) = Some r"
  "dc_dlp_redacted_arguments (block_decision sm r ru m) = None"
  "dc_dlp_action (block_decision sm r ru m) = None"
  by (simp_all add: block_decision_def allow_decision_def)

lemma allow_decision_simps [simp]:
  "\<not> dc_blocked (allow_decision sm)" "dc_rule (allow_decision sm) = None"
  "dc_matched (allow_decision sm) = None" "dc_args_summary (allow_decision sm) = Some sm"
  "dc_dlp_redacted_arguments (allow_decision sm) = None" "dc_dlp_action (allow_decision sm) = None"
  by (simp_all add: allow_decision_def)

lemma dlp_decision_blocked: "dc_blocked (dlp_decision fr args sm r) \<longleftrightarrow> as_action r = ''block''"
  by (simp add: dlp_decision_def Let_def)

lemma evaluate_cases:
  assumes "evaluate env fr tool args srv p = Inr d"
  shows "(\<not> tool_is_visible tool p \<and> dc_blocked d \<and> dc_rule d \<in> {Some ''allowlist'', Some ''denylist''})
    \<or> (tool_is_visible tool p \<and> (\<exists>n rn det. check_params env fr args (dict_get (sp_param_rules p) tool []) = Inr (Some (n, rn, det))
          \<and> dc_blocked d \<and> dc_rule d = Some rn \<and> dc_matched d = Some det))
    \<or> (tool_is_visible tool p \<and> check_params env fr args (dict_get (sp_param_rules p) tool []) = Inr None
          \<and> (\<exists>r. dlp_scan env fr args p = Inr r \<and> d = dlp_decision fr args (summarize_args fr args) r))
    \<or> (tool_is_visible tool p \<and> check_params env fr args (dict_get (sp_param_rules p) tool []) = Inr None
          \<and> sp_dlp_detectors p = [] \<and> sp_dlp_custom_patterns p = []
          \<and> d = allow_decision (summarize_args fr args))"
proof (cases "tool_is_visible tool p")
  case False
  then show ?thesis using assms
    by (auto simp: evaluate_def tool_is_visible_def Let_def split: if_splits)
next
  case True
  let ?params = "check_params env fr args (dict_get (sp_param_rules p) tool [])"
  from True have "evaluate env fr tool args srv p = rbind ?params (\<lambda>violation.
        case violation of
          None \<Rightarrow>
            if sp_dlp_detectors p \<noteq> [] \<or> sp_dlp_custom_patterns p \<noteq> [] then
              rbind (dlp_scan env fr args p) (\<lambda>r. Inr (dlp_decision fr args (summarize_args fr args) r))
            else Inr (allow_decision (summarize_args fr args))
        | Some (param_name, rule_name, detail) \<Rightarrow>
            Inr (block_decision (summarize_args fr args)
              (''param '' @ quoted param_name @ '' failed rule '' @ quoted rule_name @ '': '' @ detail)
              rule_name (Some detail)))"
    by (simp add: evaluate_def tool_is_visible_def Let_def split: if_splits)
  with assms have "rbind ?params (\<lambda>violation.
        case violation of
          None \<Rightarrow>
            if sp_dlp_detectors p \<noteq> [] \<or> sp_dlp_custom_patterns p \<noteq> [] then
              rbind (dlp_scan env fr args p) (\<lambda>r. Inr (dlp_decision fr args (summarize_args fr args) r))
            else Inr (allow_decision (summarize_args fr args))
        | Some (param_name, rule_name, detail) \<Rightarrow>
            Inr (block_decision (summarize_args fr args)
              (''param '' @ quoted param_name @ '' failed rule '' @ quoted rule_name @ '': '' @ detail)
              rule_name (Some detail))) = Inr d" by simp
  then show ?thesis
  proof (cases rule: violation_bind_cases)
    case 1
    then show ?thesis using True by (auto simp: rbind_eq_Inr split: if_splits)
  next
    case (2 y)
    then show ?thesis using True by (cases y) auto
  qed simp
qed

lemma evaluate_allowed:
  assumes "evaluate env fr tool args srv p = Inr d" and "\<not> dc_blocked d"
  shows "tool_is_visible tool p" "check_params env fr args (dict_get (sp_param_rules p) tool []) = Inr None"
  using evaluate_cases [OF assms(1)] assms(2) by auto

lemma evaluate_hidden:
  assumes "\<not> tool_is_visible tool p"
  shows "\<exists>d. evaluate env fr tool args srv p = Inr d \<and> dc_blocked d \<and> dc_rule d \<in> {Some ''allowlist'', Some ''denylist''}"
  using assms by (auto simp: evaluate_def tool_is_visible_def Let_def split: if_splits)

subsection \<open>Which exceptions can leave the engine\<close>

lemma check_block_patterns_exn: "check_block_patterns env s cs = Inl e \<Longrightarrow> e = ProcessStartError"
  by (induction cs) (auto elim!: outcome_bind_cases dest: match_with_timeout_exn)

lemma check_allow_patterns_exn: "check_allow_patterns env s und cs = Inl e \<Longrightarrow> e = ProcessStartError"
proof (induction cs arbitrary: und)
  case (Cons c cs)
  from Cons.prems show ?case
    by (simp, elim outcome_bind_cases) (auto dest: Cons.IH match_with_timeout_exn)
qed simp

lemma check_param_exn:
  assumes "validate_param_rule env rule = []" and "check_param env fr n v rule = Inl e"
  shows "e \<noteq> PatternCompileError"
proof -
  obtain cs acs where "compiled_patterns env rule = Some cs" "compiled_allow_patterns env rule = Some acs"
    using policy_ok_compiles [OF assms(1)] by blast
  with assms(2) show ?thesis
    by (auto simp: check_param_def Let_def or_else_def check_allow_def check_bound_def rbind_eq_Inl
        split: if_splits option.splits sum.splits float_error.splits
        dest: check_block_patterns_exn check_allow_patterns_exn)
qed

lemma check_params_exn:
  assumes "\<forall>(n, r) \<in> set rules. validate_param_rule env r = []" and "check_params env fr args rules = Inl e"
  shows "e \<noteq> PatternCompileError"
  using assms
  by (induction env fr args rules rule: check_params.induct)
    (auto simp: rbind_eq_Inl split: option.splits dest: check_param_exn)

lemma scan_custom_exn: "scan_value_with_custom_pattern env t p = Inl e \<Longrightarrow> e = ProcessStartError"
  by (auto simp: scan_value_with_custom_pattern_def rbind_eq_Inl finditer_spans_with_timeout_def
      run_worker_with_timeout_def split: option.splits if_splits)

lemma custom_findings_exn: "custom_findings env t ps = Inl e \<Longrightarrow> e = ProcessStartError"
  by (induction ps) (auto simp: rbind_eq_Inl split: if_splits dest: scan_custom_exn)

lemma dlp_scan_loop_exn: "dlp_scan_loop env fr p st args = Inl e \<Longrightarrow> e = ProcessStartError"
  by (induction env fr p st args rule: dlp_scan_loop.induct)
    (auto simp: rbind_eq_Inl scan_value_def rbind_eq_Inr Let_def split: if_splits dest: custom_findings_exn)

lemma check_bound_exn:
  assumes "check_bound fr n outside op v b = Inl e"
  shows "e = FloatOverflow \<and> b \<noteq> None \<and> py_float v = Inl FOverflowError"
  using assms by (auto simp: check_bound_def split: option.splits sum.splits float_error.splits)

lemma or_else_exn: "or_else a b = Inl e \<longleftrightarrow> a = Inl e \<or> (a = Inr None \<and> b = Inl e)"
  by (cases a) (auto simp: or_else_def split: option.splits)

lemma or_else_Some: "or_else a b = Inr (Some x) \<longleftrightarrow> a = Inr (Some x) \<or> (a = Inr None \<and> b = Inr (Some x))"
  by (cases a) (auto simp: or_else_def split: option.splits)

text \<open>An exception of a check under a valid rule: the worker process failed to start, or a bounded number overflows.\<close>

definition exn_cause :: "param_rule \<Rightarrow> json \<Rightarrow> eval_exn \<Rightarrow> bool" where
  "exn_cause rule v e \<longleftrightarrow> e = ProcessStartError \<or>
     (e = FloatOverflow \<and> (pr_max_value rule \<noteq> None \<or> pr_min_value rule \<noteq> None) \<and> py_float v = Inl FOverflowError)"

lemma check_allow_exn:
  assumes "compiled_allow_patterns env rule = Some acs" and "check_allow env s rule = Inl e"
  shows "e = ProcessStartError"
  using assms by (auto simp: check_allow_def rbind_eq_Inl split: if_splits dest: check_allow_patterns_exn)

lemma check_param_exn_cause:
  assumes "validate_param_rule env rule = []" and "check_param env fr n v rule = Inl e"
  shows "exn_cause rule v e"
proof -
  obtain cs acs where cs: "compiled_patterns env rule = Some cs" "compiled_allow_patterns env rule = Some acs"
    using policy_ok_compiles [OF assms(1)] by blast
  from assms(2) cs(1) consider "check_block_patterns env (py_str fr v) cs = Inl e"
    | "check_allow env (py_str fr v) rule = Inl e"
    | "check_bound fr ''max_value'' (\<lambda>x m. float_less m x) '' > '' v (pr_max_value rule) = Inl e"
    | "check_bound fr ''min_value'' float_less '' < '' v (pr_min_value rule) = Inl e"
    by (auto simp: check_param_def Let_def or_else_exn split: if_splits)
  then show ?thesis
    by cases (auto simp: exn_cause_def dest: check_block_patterns_exn check_allow_exn [OF cs(2)] check_bound_exn)
qed

lemma check_params_exn_cause:
  assumes "\<forall>(n, r) \<in> set rules. validate_param_rule env r = []" and "check_params env fr args rules = Inl e"
  shows "\<exists>n rule v. (n, rule) \<in> set rules \<and> map_of args n = Some v \<and> exn_cause rule v e"
  using assms
proof (induction env fr args rules rule: check_params.induct)
  case (2 env fr args n rule rules)
  show ?case
  proof (cases "map_of args n")
    case None
    with 2 show ?thesis by fastforce
  next
    case (Some v)
    with 2 show ?thesis by (fastforce elim!: violation_bind_cases dest: check_param_exn_cause)
  qed
qed simp

lemma evaluate_exn:
  assumes "evaluate env fr tool args srv p = Inl e"
  shows "check_params env fr args (dict_get (sp_param_rules p) tool []) = Inl e
    \<or> dlp_scan env fr args p = Inl e"
proof -
  let ?params = "check_params env fr args (dict_get (sp_param_rules p) tool [])"
  show ?thesis
  proof (cases ?params)
    case (Inr v)
    with assms show ?thesis
      by (cases v) (auto simp: evaluate_def Let_def rbind_eq_Inl split: if_splits)
  qed (use assms in \<open>auto simp: evaluate_def Let_def split: if_splits\<close>)
qed

lemma rules_valid:
  assumes "policy_ok env p"
  shows "\<forall>(n, r) \<in> set (dict_get (sp_param_rules p) tool []). validate_param_rule env r = []"
proof (cases "map_of (sp_param_rules p) tool")
  case (Some rules)
  then show ?thesis using policy_ok_param_rule [OF assms Some] by (auto simp: dict_get_def)
qed (simp add: dict_get_def)

lemma check_param_rule_names:
  assumes "check_param env fr n v rule = Inr (Some (rn, det))"
  shows "rn \<notin> {''allowlist'', ''denylist''}"
proof -
  have blk: "check_block_patterns env s cs = Inr (Some (rn, det)) \<Longrightarrow> rn \<notin> {''allowlist'', ''denylist''}" for s cs rn det
    by (induction cs) (auto elim!: outcome_bind_cases)
  have alw: "check_allow env s rule = Inr (Some (rn, det)) \<Longrightarrow> rn \<notin> {''allowlist'', ''denylist''}" for s rn det
    by (auto simp: check_allow_def rbind_eq_Inr split: if_splits option.splits)
  have bnd: "check_bound fr n f op v b = Inr (Some (rn, det)) \<Longrightarrow> rn = n" for n f op b rn det
    by (auto simp: check_bound_def split: if_splits option.splits sum.splits float_error.splits)
  show ?thesis
    using assms unfolding check_param_def Let_def
    by (auto simp: or_else_Some split: if_splits option.splits dest!: bnd blk alw)
qed

lemma dlp_decision_rule: "dc_rule (dlp_decision fr args sm r) \<in> {None, Some ''dlp''}"
  by (simp add: dlp_decision_def Let_def)

lemma dlp_decision_redacted:
  assumes "scan_outcome env fr p args r"
  shows "dc_dlp_redacted_arguments (dlp_decision fr args sm r) =
    (if (\<exists>(k, v) \<in> set args. entry_action env fr p v = ''redact'') \<and>
        (\<forall>(k, v) \<in> set args. entry_action env fr p v \<noteq> ''block'')
     then Some (map (redacted_entry env fr p) args) else None)"
  using assms unfolding scan_outcome_def dlp_decision_def
  by (auto simp: Let_def split: if_splits)

lemma entry_action_no_dlp:
  "sp_dlp_detectors p = [] \<Longrightarrow> sp_dlp_custom_patterns p = [] \<Longrightarrow> entry_action env fr p v = ''allow''"
  by (simp add: entry_action_def scan_value_def classify_findings_def findings_for_def)

subsection \<open>Properties\<close>

text \<open>A policy with one rule of each kind, for the witnesses.\<close>

definition sample_policy :: server_policy where
  "sample_policy = default_policy\<lparr>sp_mode := ''allowlist'', sp_allowed := [''run''],
     sp_param_rules := [(''run'', [(''cmd'', empty_param_rule\<lparr>pr_max_length := Some 8,
       pr_block_patterns := [''rm''], pr_allow_patterns := [''ls''], pr_max_value := Some (Fin 10)\<rparr>)])],
     sp_dlp_custom_patterns := [\<lparr>cp_name = ''id'', cp_pattern = ''s7'', cp_action = ''redact''\<rparr>]\<rparr>"

lemmas sample_defs = sample_policy_def default_policy_def empty_param_rule_def literal_env_def stuck_env_def
  dict_get_def

text \<open>C9. A call the engine lets through is visible under the policy, and every argument that has a rule
  respects it: not denied, not too long, no block pattern found in it, some allow pattern found in it if
  there are any, and within its numeric bounds.\<close>

theorem evaluate_allowed_respects_policy:
  assumes "evaluate env fr tool args srv p = Inr d" and "\<not> dc_blocked d"
  shows "tool_is_visible tool p \<and>
    (\<forall>n rule v. (n, rule) \<in> set (dict_get (sp_param_rules p) tool []) \<longrightarrow> map_of args n = Some v \<longrightarrow>
       rule_respected env fr v rule)"
  using evaluate_allowed [OF assms] check_params_None check_param_passes by blast

theorem evaluate_allowed_respects_policy_witness:
  "\<exists>d. evaluate literal_env (\<lambda>_. ''0'') ''run'' [(''cmd'', JStr ''ls7'')] ''srv'' sample_policy = Inr d \<and> \<not> dc_blocked d \<and>
     tool_is_visible ''run'' sample_policy \<and>
     (\<forall>n rule v. (n, rule) \<in> set (dict_get (sp_param_rules sample_policy) ''run'' []) \<longrightarrow>
       map_of [(''cmd'', JStr ''ls7'')] n = Some v \<longrightarrow> rule_respected literal_env (\<lambda>_. ''0'') v rule)"
proof -
  have "case evaluate literal_env (\<lambda>_. ''0'') ''run'' [(''cmd'', JStr ''ls7'')] ''srv'' sample_policy of
      Inl _ \<Rightarrow> False | Inr d \<Rightarrow> \<not> dc_blocked d" by code_simp
  then obtain d where d: "evaluate literal_env (\<lambda>_. ''0'') ''run'' [(''cmd'', JStr ''ls7'')] ''srv'' sample_policy = Inr d"
    "\<not> dc_blocked d" by (auto split: sum.splits)
  with evaluate_allowed_respects_policy [OF d] show ?thesis by blast
qed

lemma evaluate_list_visible:
  assumes "tool_is_visible tool p" and "evaluate env fr tool args srv p = Inr d"
  shows "dc_rule d \<notin> {Some ''allowlist'', Some ''denylist''}"
proof -
  consider n rn det where "check_params env fr args (dict_get (sp_param_rules p) tool []) = Inr (Some (n, rn, det))"
      "dc_rule d = Some rn"
    | "dc_rule d \<in> {None, Some ''dlp''}"
    using evaluate_cases [OF assms(2)] assms(1) dlp_decision_rule allow_decision_simps(2) by (metis insertI1)
  then show ?thesis by cases (auto dest!: check_params_Some check_param_rule_names)
qed

text \<open>A tool is hidden from listings exactly when a call to it is refused by the list rules, whatever
  the arguments: the list view and the call view agree.\<close>

theorem evaluate_list_block_iff_hidden:
  "\<not> tool_is_visible tool p \<longleftrightarrow>
     (\<exists>d. evaluate env fr tool args srv p = Inr d \<and> dc_blocked d \<and> dc_rule d \<in> {Some ''allowlist'', Some ''denylist''})"
  using evaluate_hidden evaluate_list_visible by blast

text \<open>C10. Matching fails closed: if a block pattern of a rule for a present argument is found, or its match
  does not finish, no decision of the engine lets the call through.\<close>

theorem evaluate_block_pattern_fails_closed:
  assumes "evaluate env fr tool args srv p = Inr d"
    and "(n, rule) \<in> set (dict_get (sp_param_rules p) tool [])" and "map_of args n = Some v"
    and "pat \<in> set (pr_block_patterns rule)" and "compile_pattern env pat = Some c"
    and "match_with_timeout env c (py_str fr v) \<in> {Inr MATCHED, Inr UNDETERMINED}"
  shows "dc_blocked d"
proof (rule ccontr)
  assume "\<not> dc_blocked d"
  then have "check_param env fr n v rule = Inr None"
    using evaluate_allowed(2) [OF assms(1)] check_params_None assms(2,3) by blast
  then obtain cs where "compile_all env (pr_block_patterns rule) = Some cs"
    and "check_block_patterns env (py_str fr v) cs = Inr None"
    by (auto simp: check_param_def compiled_patterns_def Let_def or_else_None split: if_splits option.splits)
  then show False
    using compile_all_mem [of env "pr_block_patterns rule" cs pat] assms(4-6) check_block_patterns_None by fastforce
qed

theorem evaluate_block_pattern_fails_closed_witness:
  "\<exists>d. evaluate stuck_env (\<lambda>_. ''0'') ''run'' [(''cmd'', JStr ''ls'')] ''srv'' sample_policy = Inr d \<and> dc_blocked d"
proof -
  let ?rule = "empty_param_rule\<lparr>pr_max_length := Some 8, pr_block_patterns := [''rm''], pr_allow_patterns := [''ls''],
     pr_max_value := Some (Fin 10)\<rparr>"
  have "case evaluate stuck_env (\<lambda>_. ''0'') ''run'' [(''cmd'', JStr ''ls'')] ''srv'' sample_policy of
      Inl _ \<Rightarrow> False | Inr d \<Rightarrow> True" by code_simp
  then obtain d where d: "evaluate stuck_env (\<lambda>_. ''0'') ''run'' [(''cmd'', JStr ''ls'')] ''srv'' sample_policy = Inr d"
    by (auto split: sum.splits)
  have "match_with_timeout stuck_env (RePattern ''rm'') (py_str (\<lambda>_. ''0'') (JStr ''ls'')) = Inr UNDETERMINED"
    by (simp add: match_with_timeout_undetermined_iff sample_defs is_re2_pattern_def)
  then have "dc_blocked d"
    by (intro evaluate_block_pattern_fails_closed [OF d, of "''cmd''" ?rule "JStr ''ls''" "''rm''" "RePattern ''rm''"])
      (simp_all add: sample_defs compile_pattern_def)
  with d show ?thesis by blast
qed

text \<open>Under a policy that passed validation the engine raises only when a worker process cannot be
  started or when a number under a numeric bound is too large for a float; in particular a stored pattern
  always compiles.\<close>

theorem evaluate_exceptions:
  assumes "policy_ok env p" and "evaluate env fr tool args srv p = Inl e"
  shows "e = ProcessStartError \<or>
    (e = FloatOverflow \<and> (\<exists>n rule v. (n, rule) \<in> set (dict_get (sp_param_rules p) tool []) \<and> map_of args n = Some v \<and>
       (pr_max_value rule \<noteq> None \<or> pr_min_value rule \<noteq> None) \<and> py_float v = Inl FOverflowError))"
  using evaluate_exn [OF assms(2)]
proof
  assume "check_params env fr args (dict_get (sp_param_rules p) tool []) = Inl e"
  then show ?thesis
    using check_params_exn_cause [OF rules_valid [OF assms(1)]] unfolding exn_cause_def by blast
next
  assume "dlp_scan env fr args p = Inl e"
  then show ?thesis using dlp_scan_loop_exn unfolding dlp_scan_def by blast
qed

theorem evaluate_exceptions_witness:
  "let env = stuck_env\<lparr>worker := (\<lambda>_ _. \<lparr>wr_starts = False, wr_ready = False, wr_finishes = False, wr_crashes = False\<rparr>)\<rparr>
   in policy_ok env sample_policy \<and>
     evaluate env (\<lambda>_. ''0'') ''run'' [(''cmd'', JStr ''ls'')] ''srv'' sample_policy = Inl ProcessStartError"
proof -
  let ?env = "stuck_env\<lparr>worker := (\<lambda>_ _. \<lparr>wr_starts = False, wr_ready = False, wr_finishes = False, wr_crashes = False\<rparr>)\<rparr>"
  have ok: "policy_ok ?env sample_policy" by code_simp
  have "case evaluate ?env (\<lambda>_. ''0'') ''run'' [(''cmd'', JStr ''ls'')] ''srv'' sample_policy of
      Inl e \<Rightarrow> e \<noteq> FloatOverflow | Inr d \<Rightarrow> False" by code_simp
  then obtain e where "evaluate ?env (\<lambda>_. ''0'') ''run'' [(''cmd'', JStr ''ls'')] ''srv'' sample_policy = Inl e"
    "e \<noteq> FloatOverflow" by (auto split: sum.splits)
  with evaluate_exceptions [OF ok, of "\<lambda>_. ''0''" "''run''" "[(''cmd'', JStr ''ls'')]" "''srv''" e] ok
  show ?thesis by simp
qed

text \<open>When the engine lets a call through, no argument triggers a blocking detector, and the arguments to
  forward instead are exactly the entry-wise redaction of the originals, given if and only if some
  argument triggers a redacting detector.\<close>

theorem evaluate_redacts_entrywise:
  assumes "evaluate env fr tool args srv p = Inr d" and "\<not> dc_blocked d" and "dict_wf args"
  shows "(\<forall>(k, v) \<in> set args. entry_action env fr p v \<noteq> ''block'') \<and>
    dc_dlp_redacted_arguments d =
      (if \<exists>(k, v) \<in> set args. entry_action env fr p v = ''redact''
       then Some (map (redacted_entry env fr p) args) else None)"
proof -
  consider r where "dlp_scan env fr args p = Inr r" "d = dlp_decision fr args (summarize_args fr args) r"
    | "sp_dlp_detectors p = []" "sp_dlp_custom_patterns p = []" "d = allow_decision (summarize_args fr args)"
    using evaluate_cases [OF assms(1)] assms(2) by blast
  then show ?thesis
  proof cases
    case 1
    have out: "scan_outcome env fr p args r" using dlp_scan_outcome [OF assms(3) 1(1)] .
    moreover have "as_action r \<noteq> ''block''" using assms(2) 1(2) dlp_decision_blocked by simp
    ultimately have nb: "\<forall>(k, v) \<in> set args. entry_action env fr p v \<noteq> ''block''"
      by (auto simp: scan_outcome_def split: if_splits)
    with dlp_decision_redacted [OF out] 1(2) show ?thesis by simp
  next
    case 2
    then show ?thesis using entry_action_no_dlp [of p env fr] by simp
  qed
qed

theorem evaluate_redacts_entrywise_witness:
  "\<exists>d. evaluate literal_env (\<lambda>_. ''0'') ''run'' [(''cmd'', JStr ''ls7'')] ''srv'' sample_policy = Inr d \<and>
     dc_dlp_redacted_arguments d = Some [(''cmd'', JStr ''l[REDACTED:id]'')]"
proof -
  let ?args = "[(''cmd'', JStr ''ls7'')]" and ?fr = "\<lambda>_. ''0''"
  have "case evaluate literal_env ?fr ''run'' ?args ''srv'' sample_policy of Inl _ \<Rightarrow> False | Inr d \<Rightarrow> \<not> dc_blocked d"
    by code_simp
  then obtain d where d: "evaluate literal_env ?fr ''run'' ?args ''srv'' sample_policy = Inr d" "\<not> dc_blocked d"
    by (auto split: sum.splits)
  have "entry_action literal_env ?fr sample_policy (JStr ''ls7'') = ''redact''"
    "map (redacted_entry literal_env ?fr sample_policy) ?args = [(''cmd'', JStr ''l[REDACTED:id]'')]"
    by code_simp+
  with evaluate_redacts_entrywise [OF d] d(1) show ?thesis by simp
qed

end
