(* ===== verification/Tools_Cache.thy ===== *)
theory Tools_Cache
  imports Upstream Policy
begin

text \<open>
  The tool catalogue (\<open>argus/toolslist.py\<close>) and upstream credentials (\<open>argus/credentials.py\<close>).
  A row of \<open>tools_cache\<close> keeps the definition as the JSON value it encodes. Parameters: \<open>collate\<close> is the
  order of names in the database, \<open>db_int\<close> the value the driver binds to an integer column (\<open>None\<close>: it
  raises). Times are seconds. The secret provider is a function, as is the token issuer where there is one.
\<close>

record tool_row =
  tr_server_id :: int
  tr_tool_name :: string
  tr_definition :: json
  tr_ttl_ms :: "int option"
  tr_cache_scope :: "string option"
  tr_fetched_at :: rat

record tools_fetch_result =
  tf_tools :: json
  tf_stale :: bool
  tf_error :: "string option"

record catalog_env =
  ce_fr :: "pyfloat \<Rightarrow> string"
  ce_net :: network
  ce_loads :: "string \<Rightarrow> json option"
  ce_collate :: "string \<Rightarrow> string \<Rightarrow> bool"
  ce_db_int :: "json \<Rightarrow> int option option"
  ce_hs_id :: string
  ce_list_id :: string
  ce_mono :: rat
  ce_wall :: rat

definition DEFAULT_TTL_MS :: int where "DEFAULT_TTL_MS = 300000"

subsection \<open>The table\<close>

definition cached_rows :: "(string \<Rightarrow> string \<Rightarrow> bool) \<Rightarrow> tool_row list \<Rightarrow> int \<Rightarrow> tool_row list" where
  "cached_rows collate table server_id = order_by collate tr_tool_name (filter (\<lambda>r. tr_server_id r = server_id) table)"

definition is_fresh :: "rat \<Rightarrow> tool_row \<Rightarrow> bool" where
  "is_fresh now r =
     ((now - tr_fetched_at r) * 1000 < of_int (case tr_ttl_ms r of Some t \<Rightarrow> t | None \<Rightarrow> DEFAULT_TTL_MS))"

definition invalidate_tools :: "tool_row list \<Rightarrow> int \<Rightarrow> tool_row list" where
  "invalidate_tools table server_id = filter (\<lambda>r. tr_server_id r \<noteq> server_id) table"

definition upsert_tool :: "tool_row \<Rightarrow> tool_row list \<Rightarrow> tool_row list" where
  "upsert_tool r table =
     (if \<exists>x \<in> set table. tr_server_id x = tr_server_id r \<and> tr_tool_name x = tr_tool_name r
      then map (\<lambda>x. if tr_server_id x = tr_server_id r \<and> tr_tool_name x = tr_tool_name r then r else x) table
      else table @ [r])"

definition db_text :: "json \<Rightarrow> string option option" where
  "db_text v = (case v of JNull \<Rightarrow> Some None | JStr s \<Rightarrow> Some (Some s) | _ \<Rightarrow> None)"

text \<open>The row of one tool; \<open>None\<close> is an exception of \<open>tool["name"]\<close> or of the driver.\<close>

definition tool_to_row :: "int \<Rightarrow> int option \<Rightarrow> string option \<Rightarrow> rat \<Rightarrow> json \<Rightarrow> tool_row option" where
  "tool_to_row server_id ttl scope now tool =
     (case tool of
        JObj d \<Rightarrow> (case map_of d ''name'' of
            Some (JStr name) \<Rightarrow> Some \<lparr>tr_server_id = server_id, tr_tool_name = name, tr_definition = tool,
               tr_ttl_ms = ttl, tr_cache_scope = scope, tr_fetched_at = now\<rparr>
          | _ \<Rightarrow> None)
      | _ \<Rightarrow> None)"

text \<open>\<open>_store\<close>, one transaction: an exception leaves the table as it was.\<close>

definition store_tools ::
    "catalog_env \<Rightarrow> tool_row list \<Rightarrow> int \<Rightarrow> json \<Rightarrow> json \<Rightarrow> json \<Rightarrow> tool_row list option" where
  "store_tools env table server_id tools ttl_ms cache_scope =
     (let cleared = invalidate_tools table server_id in
      if \<not> truthy tools then Some cleared
      else case (tools, ce_db_int env ttl_ms, db_text cache_scope) of
          (JList ts, Some ttl, Some scope) \<Rightarrow>
            map_option (\<lambda>rows. fold upsert_tool rows cleared)
              (those (map (tool_to_row server_id ttl scope (ce_wall env)) ts))
        | _ \<Rightarrow> None)"

subsection \<open>Fetching\<close>

definition fetch_failed :: "tool_row list \<Rightarrow> string \<Rightarrow> tools_fetch_result" where
  "fetch_failed rows reason = \<lparr>tf_tools = JList (map tr_definition rows), tf_stale = True, tf_error = Some reason\<rparr>"

text \<open>The outcome of \<open>get_raw_tools_result\<close>: \<open>None\<close> is an uncaught exception.\<close>

definition read_catalog ::
    "catalog_env \<Rightarrow> tool_row list \<Rightarrow> int \<Rightarrow> tool_row list \<Rightarrow> nat \<times> json \<Rightarrow> tools_fetch_result option \<times> tool_row list" where
  "read_catalog env table server_id rows answer =
     (case answer of (status, body) \<Rightarrow>
        if status \<noteq> 200 then (Some (fetch_failed rows (''upstream answered '' @ show_nat status)), table)
        else case body of
            JObj b \<Rightarrow>
              (case map_of b ''result'' of
                 None \<Rightarrow> (Some (fetch_failed rows ''upstream answered without a result''), table)
               | Some (JObj r) \<Rightarrow>
                   (let tools = (case map_of r ''tools'' of None \<Rightarrow> JList [] | Some v \<Rightarrow> v) in
                    case store_tools env table server_id tools (obj_get r ''ttlMs'') (obj_get r ''cacheScope'') of
                      None \<Rightarrow> (None, table)
                    | Some table' \<Rightarrow> (Some \<lparr>tf_tools = tools, tf_stale = False, tf_error = None\<rparr>, table'))
               | Some _ \<Rightarrow> (None, table))
          | _ \<Rightarrow> (None, table))"

definition catalog_fresh :: "catalog_env \<Rightarrow> tool_row list \<Rightarrow> bool \<Rightarrow> bool" where
  "catalog_fresh env rows force_refresh \<longleftrightarrow> rows \<noteq> [] \<and> \<not> force_refresh \<and> list_all (is_fresh (ce_wall env)) rows"

definition get_raw_tools_result ::
    "catalog_env \<Rightarrow> tool_row list \<Rightarrow> upstream_state \<Rightarrow> int \<Rightarrow> string \<Rightarrow> bool \<Rightarrow> string option \<Rightarrow>
     tools_fetch_result option \<times> tool_row list \<times> upstream_state" where
  "get_raw_tools_result env table s server_id url force_refresh auth =
     (let rows = cached_rows (ce_collate env) table server_id in
      if catalog_fresh env rows force_refresh
      then (Some \<lparr>tf_tools = JList (map tr_definition rows), tf_stale = False, tf_error = None\<rparr>, table, s)
      else case bridge_call (ce_fr env) (ce_net env) (ce_loads env) s (ce_hs_id env) server_id url (JStr ''tools/list'')
             (JStr (''acropolis-toolslist-'' @ ce_list_id env)) (JObj []) JNull auth (ce_mono env) of
          (Inl (BridgeError status _), s1) \<Rightarrow>
            (Some (fetch_failed rows (''upstream fetch failed (BridgeError '' @ show_nat status @ '')'')), table, s1)
        | (Inl BridgeUncaught, s1) \<Rightarrow> (None, table, s1)
        | (Inr answer, s1) \<Rightarrow> (let (r, table') = read_catalog env table server_id rows answer in (r, table', s1)))"

text \<open>\<open>[t for t in tools if tool_is_visible(t["name"], policy)]\<close>; \<open>None\<close> is an uncaught exception.\<close>

fun visible_tools :: "server_policy \<Rightarrow> json list \<Rightarrow> json list option" where
  "visible_tools policy [] = Some []"
| "visible_tools policy (t # ts) =
     (case t of
        JObj d \<Rightarrow>
          (case map_of d ''name'' of
             Some (JStr name) \<Rightarrow> map_option (\<lambda>vs. if tool_is_visible name policy then t # vs else vs) (visible_tools policy ts)
           | _ \<Rightarrow> None)
      | _ \<Rightarrow> None)"

definition get_filtered_tools ::
    "catalog_env \<Rightarrow> tool_row list \<Rightarrow> upstream_state \<Rightarrow> int \<Rightarrow> string \<Rightarrow> server_policy \<Rightarrow> bool \<Rightarrow> string option \<Rightarrow>
     json list option \<times> tool_row list \<times> upstream_state" where
  "get_filtered_tools env table s server_id url policy force_refresh auth =
     (case get_raw_tools_result env table s server_id url force_refresh auth of
        (None, table', s') \<Rightarrow> (None, table', s')
      | (Some r, table', s') \<Rightarrow>
          (case tf_tools r of
             JList ts \<Rightarrow> (visible_tools policy ts, table', s')
           | v \<Rightarrow> (if v \<in> {JStr [], JObj []} then Some [] else None, table', s')))"

subsection \<open>Upstream credentials\<close>

datatype secret_error = SecretResolutionError string | SecretUncaught

datatype credential_error = UpstreamCredentialError (cre_reason: string) (cre_kind: string) | CredentialUncaught

definition TOKEN_NOT_CONFIGURED :: string where "TOKEN_NOT_CONFIGURED = ''token_not_configured''"
definition TOKEN_MINT_FAILED :: string where "TOKEN_MINT_FAILED = ''token_mint_failed''"
definition SECRET_RESOLUTION_FAILED :: string where "SECRET_RESOLUTION_FAILED = ''secret_resolution_failed''"

definition resolve_upstream_credential ::
    "(string \<Rightarrow> secret_error + string) \<Rightarrow> (string \<Rightarrow> string option) option \<Rightarrow> server_record \<Rightarrow>
     credential_error + string option" where
  "resolve_upstream_credential secrets token_issuer server =
     (if sv_credential_mode server = ''token'' then
        (case token_issuer of
           None \<Rightarrow> Inl (UpstreamCredentialError ''token signing is not configured (ACROPOLIS_TOKEN_SIGNING_KEY_REF)'' TOKEN_NOT_CONFIGURED)
         | Some get_token \<Rightarrow>
             (case get_token (sv_slug server) of
                Some t \<Rightarrow> Inr (Some (''Bearer '' @ t))
              | None \<Rightarrow> Inl (UpstreamCredentialError ''token mint failed'' TOKEN_MINT_FAILED)))
      else case sv_upstream_auth_header server of
          None \<Rightarrow> Inr None
        | Some h \<Rightarrow>
            (case secrets h of
               Inr v \<Rightarrow> Inr (Some v)
             | Inl (SecretResolutionError reason) \<Rightarrow>
                 Inl (UpstreamCredentialError (''secret resolution failed: '' @ reason) SECRET_RESOLUTION_FAILED)
             | Inl SecretUncaught \<Rightarrow> Inl CredentialUncaught))"

subsection \<open>Lemmas\<close>

lemma set_cached_rows [simp]: "set (cached_rows le table i) = {r \<in> set table. tr_server_id r = i}"
  by (auto simp: cached_rows_def)

lemma fold_upsert_fresh:
  assumes "distinct (map tr_tool_name rows)" and "\<forall>r \<in> set rows. tr_server_id r = i"
    and "\<forall>x \<in> set table. tr_server_id x = i \<longrightarrow> tr_tool_name x \<notin> tr_tool_name ` set rows"
  shows "fold upsert_tool rows table = table @ rows"
  using assms
proof (induction rows arbitrary: table)
  case (Cons r rows)
  have "upsert_tool r table = table @ [r]" using Cons.prems by (auto simp: upsert_tool_def)
  then show ?case using Cons.IH [of "table @ [r]"] Cons.prems by auto
qed simp

lemma those_map_rows:
  assumes "those (map (tool_to_row i ttl scope now) ts) = Some rows"
  shows "map tr_definition rows = ts \<and> (\<forall>r \<in> set rows. tr_server_id r = i \<and> tr_ttl_ms r = ttl \<and> tr_fetched_at r = now)"
  using assms
proof (induction ts arbitrary: rows)
  case (Cons t ts)
  then obtain r rs where rs: "rows = r # rs" "tool_to_row i ttl scope now t = Some r"
    "those (map (tool_to_row i ttl scope now) ts) = Some rs"
    by (auto split: option.splits)
  then show ?case using Cons.IH [OF rs(3)] by (auto simp: tool_to_row_def split: json.splits option.splits)
qed simp

lemma store_tools_rows:
  assumes "store_tools env table i (JList ts) ttl_ms scope = Some table'"
  shows "\<exists>rows. map tr_definition rows = ts \<and> (\<forall>r \<in> set rows. tr_server_id r = i \<and> tr_fetched_at r = ce_wall env
      \<and> ce_db_int env ttl_ms = Some (tr_ttl_ms r)) \<and> table' = fold upsert_tool rows (invalidate_tools table i)"
proof (cases "ts = []")
  case True
  then show ?thesis using assms by (auto simp: store_tools_def)
next
  case False
  then obtain ttl sc rows where t: "ce_db_int env ttl_ms = Some ttl"
    "those (map (tool_to_row i ttl sc (ce_wall env)) ts) = Some rows"
    "table' = fold upsert_tool rows (invalidate_tools table i)"
    using assms by (auto simp: store_tools_def Let_def split: option.splits)
  show ?thesis by (rule exI [of _ rows]) (use those_map_rows [OF t(2)] t in auto)
qed

lemma visible_tools_all:
  "visible_tools p ts = Some vs \<Longrightarrow>
     vs = filter (\<lambda>t. \<exists>d name. t = JObj d \<and> map_of d ''name'' = Some (JStr name) \<and> tool_is_visible name p) ts"
proof (induction ts arbitrary: vs)
  case (Cons t ts)
  obtain d where d: "t = JObj d" using Cons.prems by (cases t) auto
  obtain n where n: "map_of d ''name'' = Some (JStr n)"
    using Cons.prems d by (auto split: option.splits json.splits)
  obtain vs' where "visible_tools p ts = Some vs'" "vs = (if tool_is_visible n p then t # vs' else vs')"
    using Cons.prems d n by auto
  with Cons.IH d n show ?case by auto
qed simp

lemma read_catalog_stale:
  assumes "read_catalog env table i rows answer = (Some r, table')" and "tf_stale r"
  shows "table' = table \<and> tf_tools r = JList (map tr_definition rows)"
  using assms
  by (cases answer) (auto simp: read_catalog_def fetch_failed_def Let_def split: if_splits json.splits option.splits)

lemma get_raw_refreshed:
  assumes "get_raw_tools_result env table s i url force auth = (Some r, table', s')" and "\<not> tf_stale r"
    and "\<not> catalog_fresh env (cached_rows (ce_collate env) table i) force"
  shows "\<exists>ttl scope. store_tools env table i (tf_tools r) ttl scope = Some table'"
proof -
  let ?rows = "cached_rows (ce_collate env) table i"
  obtain answer s1 where a: "read_catalog env table i ?rows answer = (Some r, table')"
    using assms
    by (auto simp: get_raw_tools_result_def fetch_failed_def Let_def split: sum.splits bridge_error.splits prod.splits)
  then show ?thesis using assms(2)
    by (cases answer) (fastforce simp: read_catalog_def fetch_failed_def Let_def split: if_splits json.splits option.splits)
qed

lemma get_raw_kept:
  assumes "get_raw_tools_result env table s i url force auth = (r, table', s')" and "\<forall>x. r = Some x \<longrightarrow> tf_stale x"
  shows "table' = table"
proof -
  have rc: "t' = table" if "read_catalog env table i rows answer = (r, t')" for rows answer t'
    using that assms(2)
    by (cases answer) (auto simp: read_catalog_def fetch_failed_def Let_def split: if_splits json.splits option.splits)
  show ?thesis using assms rc
    by (fastforce simp: get_raw_tools_result_def Let_def split: if_splits sum.splits bridge_error.splits prod.splits)
qed

definition tool_names :: "json list \<Rightarrow> json list" where
  "tool_names ts = map (\<lambda>t. case t of JObj d \<Rightarrow> obj_get d ''name'' | _ \<Rightarrow> JNull) ts"

lemma row_definition_name:
  "tool_to_row i ttl scope now t = Some r \<Longrightarrow> (case tr_definition r of JObj d \<Rightarrow> obj_get d ''name'' | _ \<Rightarrow> JNull) = JStr (tr_tool_name r)"
  by (auto simp: tool_to_row_def obj_get_def split: json.splits option.splits)

lemma those_row_names:
  "those (map (tool_to_row i ttl scope now) ts) = Some rows \<Longrightarrow> tool_names ts = map (\<lambda>r. JStr (tr_tool_name r)) rows"
proof (induction ts arbitrary: rows)
  case (Cons t ts)
  then obtain r rs where "rows = r # rs" "tool_to_row i ttl scope now t = Some r"
    "those (map (tool_to_row i ttl scope now) ts) = Some rs"
    by (auto split: option.splits)
  moreover from this(2) have "tr_definition r = t" by (auto simp: tool_to_row_def split: json.splits option.splits)
  ultimately show ?case using Cons.IH row_definition_name [of i ttl scope now t r] by (simp add: tool_names_def)
qed (simp add: tool_names_def)

lemma store_tools_distinct:
  assumes "store_tools env table i (JList ts) ttl_ms scope = Some table'" and "distinct (tool_names ts)"
  shows "tr_definition ` {r \<in> set table'. tr_server_id r = i} = set ts"
proof (cases "ts = []")
  case True
  then show ?thesis using assms by (auto simp: store_tools_def invalidate_tools_def)
next
  case False
  then obtain ttl sc rows where t: "those (map (tool_to_row i ttl sc (ce_wall env)) ts) = Some rows"
    "table' = fold upsert_tool rows (invalidate_tools table i)"
    using assms by (auto simp: store_tools_def Let_def split: option.splits)
  note rows = those_map_rows [OF t(1)]
  have "distinct (map tr_tool_name rows)"
    using assms(2) unfolding those_row_names [OF t(1)] by (auto simp: distinct_map inj_on_def)
  then have "table' = invalidate_tools table i @ rows"
    unfolding t(2) by (rule fold_upsert_fresh) (use rows in \<open>auto simp: invalidate_tools_def\<close>)
  moreover have "tr_definition ` set rows = set ts" using rows by (metis list.set_map)
  ultimately show ?thesis using rows by (auto simp: invalidate_tools_def)
qed

subsection \<open>Properties\<close>

text \<open>What a client is shown is what it may call: a filtered catalogue is the raw catalogue less the tools the
  policy hides, so every tool in it is one that \<open>evaluate\<close> does not refuse by the allow or deny list.\<close>

theorem catalog_shows_callable_tools:
  assumes "get_filtered_tools env table s i url policy force auth = (Some shown, table', s')"
  shows "\<exists>r. fst (get_raw_tools_result env table s i url force auth) = Some r \<and>
    (\<forall>raw. tf_tools r = JList raw \<longrightarrow> set shown \<subseteq> set raw) \<and>
    (\<forall>t \<in> set shown. \<exists>d name. t = JObj d \<and> map_of d ''name'' = Some (JStr name) \<and> tool_is_visible name policy \<and>
       (\<forall>rx fr args srv dc. evaluate rx fr name args srv policy = Inr dc \<longrightarrow> dc_rule dc \<notin> {Some ''allowlist'', Some ''denylist''}))"
proof -
  obtain r where r: "get_raw_tools_result env table s i url force auth = (Some r, table', s')"
    and sh: "\<forall>raw. tf_tools r = JList raw \<longrightarrow> visible_tools policy raw = Some shown"
      "(\<forall>raw. tf_tools r \<noteq> JList raw) \<longrightarrow> shown = []"
    using assms by (auto simp: get_filtered_tools_def split: prod.splits option.splits json.splits if_splits)
  have nb: "dc_rule dc \<notin> {Some ''allowlist'', Some ''denylist''}"
    if "tool_is_visible name policy" "evaluate rx fr name args srv policy = Inr dc" for name rx fr args srv dc
    using evaluate_list_visible [OF that] .
  show ?thesis
  proof (cases "\<exists>raw. tf_tools r = JList raw")
    case True
    then obtain raw where raw: "tf_tools r = JList raw" by blast
    then have "shown = filter (\<lambda>t. \<exists>d name. t = JObj d \<and> map_of d ''name'' = Some (JStr name) \<and> tool_is_visible name policy) raw"
      using sh(1) visible_tools_all by blast
    then show ?thesis using r raw nb by auto
  next
    case False
    then show ?thesis using r sh(2) by simp
  qed
qed

definition sample_row :: tool_row where
  "sample_row = \<lparr>tr_server_id = 1, tr_tool_name = ''ls'', tr_definition = JObj [(''name'', JStr ''ls'')], tr_ttl_ms = None,
     tr_cache_scope = None, tr_fetched_at = 0\<rparr>"

definition sample_catalog_env :: "network \<Rightarrow> rat \<Rightarrow> catalog_env" where
  "sample_catalog_env net now = \<lparr>ce_fr = (\<lambda>_. ''0''), ce_net = net,
     ce_loads = (\<lambda>s. Some (if s = ''init'' then JObj [(''result'', JObj [])]
        else JObj [(''result'', JObj [(''tools'', JList [JObj [(''name'', JStr ''rm'')], JObj [(''name'', JStr ''ls'')]])])])),
     ce_collate = (\<lambda>_ _. True), ce_db_int = (\<lambda>v. case v of JNull \<Rightarrow> Some None | JInt i \<Rightarrow> Some (Some i) | _ \<Rightarrow> None),
     ce_hs_id = ''h'', ce_list_id = ''l'', ce_mono = 0, ce_wall = now\<rparr>"

definition sample_net :: network where
  "sample_net h = (if length h = 1 then HttpAnswer 200 [] ''init'' else HttpAnswer 200 [] ''tools'')"

definition sample_upstream :: upstream_state where
  "sample_upstream = \<lparr>up_history = [], up_cache = [], up_cached_at = []\<rparr>"

theorem catalog_shows_callable_tools_witness:
  "get_filtered_tools (sample_catalog_env sample_net 0) [sample_row] sample_upstream 1 ''u''
     (default_policy\<lparr>sp_mode := ''allowlist'', sp_allowed := [''ls'']\<rparr>) False None
     = (Some [JObj [(''name'', JStr ''ls'')]], [sample_row], sample_upstream)
   \<and> tool_is_visible ''ls'' (default_policy\<lparr>sp_mode := ''allowlist'', sp_allowed := [''ls'']\<rparr>)"
proof -
  let ?p = "default_policy\<lparr>sp_mode := ''allowlist'', sp_allowed := [''ls'']\<rparr>"
  have g: "get_filtered_tools (sample_catalog_env sample_net 0) [sample_row] sample_upstream 1 ''u'' ?p False None
     = (Some [JObj [(''name'', JStr ''ls'')]], [sample_row], sample_upstream)" by code_simp
  with catalog_shows_callable_tools [OF g] show ?thesis by auto
qed

text \<open>A refreshed catalogue is served from the cache: after a fetch that succeeded with distinct tool names, as
  long as the stored rows are fresh a request is answered with exactly those tools, changes nothing and
  does not contact the upstream.\<close>

theorem catalog_round_trip:
  assumes "get_raw_tools_result env table s i url force auth = (Some r, table', s')"
    and "\<not> catalog_fresh env (cached_rows (ce_collate env) table i) force" and "\<not> tf_stale r"
    and "tf_tools r = JList ts" and "ts \<noteq> []" and "distinct (tool_names ts)"
    and "\<forall>row \<in> set table'. tr_server_id row = i \<longrightarrow> is_fresh (ce_wall env') row"
  shows "\<exists>ts'. get_raw_tools_result env' table' s'' i url' False auth'
      = (Some \<lparr>tf_tools = JList ts', tf_stale = False, tf_error = None\<rparr>, table', s'') \<and> set ts' = set ts"
proof -
  let ?rows = "cached_rows (ce_collate env') table' i"
  obtain ttl scope where "store_tools env table i (JList ts) ttl scope = Some table'"
    using get_raw_refreshed [OF assms(1,3,2)] assms(4) by auto
  from store_tools_distinct [OF this assms(6)] have ts: "tr_definition ` set ?rows = set ts" by simp
  then have "?rows \<noteq> []" using assms(5) by (metis image_empty list.set(1) set_empty)
  then have "catalog_fresh env' ?rows False" using assms(7) by (auto simp: catalog_fresh_def list_all_iff)
  with ts show ?thesis by (simp add: get_raw_tools_result_def Let_def)
qed

theorem catalog_round_trip_witness:
  "let (r, table', s') = get_raw_tools_result (sample_catalog_env sample_net 400) [sample_row] sample_upstream 1 ''u'' False None in
   \<exists>ts'. get_raw_tools_result (sample_catalog_env (\<lambda>_. HttpDeadline) 500) table' sample_upstream 1 ''u'' False None
      = (Some \<lparr>tf_tools = JList ts', tf_stale = False, tf_error = None\<rparr>, table', sample_upstream)
     \<and> set ts' = {JObj [(''name'', JStr ''rm'')], JObj [(''name'', JStr ''ls'')]}"
proof -
  let ?env = "sample_catalog_env sample_net 400" and ?env' = "sample_catalog_env (\<lambda>_. HttpDeadline) 500"
  let ?ts = "[JObj [(''name'', JStr ''rm'')], JObj [(''name'', JStr ''ls'')]]"
  obtain r table' s' where g: "get_raw_tools_result ?env [sample_row] sample_upstream 1 ''u'' False None = (r, table', s')"
    using prod_cases3 by blast
  have "(case get_raw_tools_result ?env [sample_row] sample_upstream 1 ''u'' False None of (Some r, t, _) \<Rightarrow>
      \<not> tf_stale r \<and> tf_tools r = JList ?ts \<and> list_all (\<lambda>row. is_fresh 500 row) t | _ \<Rightarrow> False)" by code_simp
  then obtain r' where r: "r = Some r'" "\<not> tf_stale r'" "tf_tools r' = JList ?ts" "list_all (\<lambda>row. is_fresh 500 row) table'"
    unfolding g by (auto split: option.splits)
  have stale: "\<not> catalog_fresh ?env (cached_rows (ce_collate ?env) [sample_row] 1) False" by code_simp
  have "ce_wall ?env' = 500" by (simp add: sample_catalog_env_def)
  then have "\<exists>ts'. get_raw_tools_result ?env' table' sample_upstream 1 ''u'' False None
      = (Some \<lparr>tf_tools = JList ts', tf_stale = False, tf_error = None\<rparr>, table', sample_upstream) \<and> set ts' = set ?ts"
    using r by (intro catalog_round_trip [OF g [unfolded r(1)] stale]) (auto simp: tool_names_def obj_get_def list_all_iff)
  then show ?thesis unfolding g by simp
qed

text \<open>A failed refresh loses nothing: when the upstream cannot be reached, answers with an error, or answers with
  something that cannot be stored, the stored catalogue stays as it was.\<close>

theorem catalog_failure_keeps_rows:
  assumes "get_raw_tools_result env table s i url force auth = (r, table', s')"
    and "case r of None \<Rightarrow> True | Some x \<Rightarrow> tf_stale x"
  shows "table' = table"
  by (rule get_raw_kept [OF assms(1)]) (use assms(2) in \<open>auto split: option.splits\<close>)

theorem catalog_failure_keeps_rows_witness:
  "fst (snd (get_raw_tools_result (sample_catalog_env (\<lambda>_. HttpDeadline) 400) [sample_row] sample_upstream 1 ''u'' False None)) = [sample_row]"
proof -
  let ?g = "get_raw_tools_result (sample_catalog_env (\<lambda>_. HttpDeadline) 400) [sample_row] sample_upstream 1 ''u'' False None"
  have "case fst ?g of None \<Rightarrow> True | Some x \<Rightarrow> tf_stale x" by code_simp
  moreover have "?g = (fst ?g, fst (snd ?g), snd (snd ?g))" by simp
  ultimately show ?thesis by (rule catalog_failure_keeps_rows [rotated])
qed

end
