(* ===== verification/Rate_Limiter.thy ===== *)
theory Rate_Limiter
  imports Models
begin

text \<open>
  Rate limiting, \<open>argus/rate_limiter.py\<close>: the token bucket, the grammar of limit specifications and
  the in-memory backend. Times are seconds on the clock the code reads, passed in as \<open>now\<close>; token
  counts and times are exact rationals (the rounding of float arithmetic is not modelled).

  \<open>limiter_ops\<close> is the part of the backend interface \<open>RateLimitBackend\<close> that metering calls; the
  locale \<open>rate_limit_backend\<close> states what a backend promises, and the in-memory backend and the
  Valkey backend both interpret it.
\<close>

type_synonym time = rat

record token_bucket =
  tb_calls :: int
  tb_period :: rat
  tb_tokens :: rat
  tb_last_refill :: time

definition new_bucket :: "int \<Rightarrow> rat \<Rightarrow> time \<Rightarrow> token_bucket" where
  "new_bucket calls period now =
     \<lparr>tb_calls = calls, tb_period = period, tb_tokens = of_int calls, tb_last_refill = now\<rparr>"

definition consume :: "token_bucket \<Rightarrow> time \<Rightarrow> bool \<times> token_bucket" where
  "consume b now =
     (let elapsed = now - tb_last_refill b;
          tokens = min (of_int (tb_calls b)) (tb_tokens b + (elapsed / tb_period b) * of_int (tb_calls b));
          b' = b\<lparr>tb_tokens := tokens, tb_last_refill := now\<rparr>
      in if tokens \<ge> 1 then (True, b'\<lparr>tb_tokens := tokens - 1\<rparr>) else (False, b'))"

datatype spec_error = InvalidSpec string | NotAnInteger string | UnknownPeriod string

definition period_of_unit :: "string \<Rightarrow> rat option" where
  "period_of_unit u = map_of [(''second'', 1), (''minute'', 60), (''hour'', 3600)] u"

definition parse_spec_parts :: "string \<Rightarrow> spec_error + int \<times> rat" where
  "parse_spec_parts spec =
     (case str_split (CHR ''/'') (str_strip spec) of
        [c, u] \<Rightarrow>
          (case int_of_string c of
             None \<Rightarrow> Inl (NotAnInteger c)
           | Some count \<Rightarrow>
               (case period_of_unit (str_lower (str_strip u)) of
                  None \<Rightarrow> Inl (UnknownPeriod u)
                | Some period \<Rightarrow> Inr (count, period)))
      | _ \<Rightarrow> Inl (InvalidSpec spec))"

definition parse_spec :: "string \<Rightarrow> time \<Rightarrow> spec_error + token_bucket" where
  "parse_spec spec now = rbind (parse_spec_parts spec) (\<lambda>(c, p). Inr (new_bucket c p now))"

definition server_key :: "string \<Rightarrow> string" where
  "server_key slug = ''srv:'' @ slug"

definition tool_key :: "string \<Rightarrow> string \<Rightarrow> string" where
  "tool_key slug tool_name = ''srv:'' @ slug @ '':tool:'' @ tool_name"

subsection \<open>The in-memory backend\<close>

record in_memory =
  im_buckets :: "token_bucket dict"
  im_specs :: "string dict"

definition in_memory_init :: in_memory where
  "in_memory_init = \<lparr>im_buckets = [], im_specs = []\<rparr>"

definition im_register :: "in_memory \<Rightarrow> string \<Rightarrow> string \<Rightarrow> time \<Rightarrow> spec_error + in_memory" where
  "im_register s key spec now = rbind (parse_spec spec now) (\<lambda>b.
     Inr (s\<lparr>im_buckets := AList.update key b (im_buckets s), im_specs := AList.update key spec (im_specs s)\<rparr>))"

definition im_ensure_current :: "in_memory \<Rightarrow> string \<Rightarrow> string \<Rightarrow> time \<Rightarrow> spec_error + in_memory" where
  "im_ensure_current s key spec now =
     (if map_of (im_specs s) key \<noteq> Some spec then im_register s key spec now else Inr s)"

definition im_unregister :: "in_memory \<Rightarrow> string \<Rightarrow> in_memory" where
  "im_unregister s key =
     s\<lparr>im_buckets := AList.delete key (im_buckets s), im_specs := AList.delete key (im_specs s)\<rparr>"

definition im_is_registered :: "in_memory \<Rightarrow> string \<Rightarrow> bool" where
  "im_is_registered s key = dict_has (im_buckets s) key"

definition im_check :: "in_memory \<Rightarrow> string \<Rightarrow> time \<Rightarrow> bool \<times> in_memory" where
  "im_check s key now =
     (case map_of (im_buckets s) key of
        None \<Rightarrow> (True, s)
      | Some b \<Rightarrow> (let (ok, b') = consume b now in (ok, s\<lparr>im_buckets := AList.update key b' (im_buckets s)\<rparr>)))"

fun im_check_all :: "in_memory \<Rightarrow> string list \<Rightarrow> time \<Rightarrow> bool \<times> in_memory" where
  "im_check_all s [] now = (True, s)"
| "im_check_all s (k # ks) now =
     (let (ok, s') = im_check s k now in if \<not> ok then (False, s') else im_check_all s' ks now)"

subsection \<open>Grammar: the validator and the parser agree\<close>

lemma period_of_unit_Some_iff: "(\<exists>p. period_of_unit u = Some p) \<longleftrightarrow> u \<in> set rate_limit_periods"
  by (auto simp: period_of_unit_def rate_limit_periods_def)

lemma period_of_unit_pos: "period_of_unit u = Some p \<Longrightarrow> p > 0"
  by (auto simp: period_of_unit_def split: if_splits)

lemma parse_spec_parts_period_pos: "parse_spec_parts spec = Inr (c, p) \<Longrightarrow> p > 0"
  by (auto simp: parse_spec_parts_def period_of_unit_pos split: list.splits option.splits)

lemma validated_spec_parses:
  "validate_rate_limit_spec spec = [] \<longleftrightarrow> (\<exists>c p. parse_spec_parts spec = Inr (c, p) \<and> c > 0)"
proof (cases "\<exists>c u. str_split (CHR ''/'') (str_strip spec) = [c, u]")
  case True
  then obtain c u where s: "str_split (CHR ''/'') (str_strip spec) = [c, u]" by blast
  show ?thesis
    using period_of_unit_Some_iff [of "str_lower (str_strip u)"]
    by (auto simp: validate_rate_limit_spec_def parse_spec_parts_def s split: option.splits)
next
  case False
  then show ?thesis
    by (auto simp: validate_rate_limit_spec_def parse_spec_parts_def split: list.splits)
qed

subsection \<open>The bucket\<close>

definition bucket_ok :: "token_bucket \<Rightarrow> bool" where
  "bucket_ok b \<longleftrightarrow> 0 < tb_period b \<and> 0 \<le> tb_calls b \<and> 0 \<le> tb_tokens b \<and> tb_tokens b \<le> of_int (tb_calls b)"

lemma new_bucket_ok: "0 < period \<Longrightarrow> 0 \<le> calls \<Longrightarrow> bucket_ok (new_bucket calls period now)"
  by (simp add: bucket_ok_def new_bucket_def)

lemma consume_frame [simp]:
  "tb_calls (snd (consume b now)) = tb_calls b"
  "tb_period (snd (consume b now)) = tb_period b"
  "tb_last_refill (snd (consume b now)) = now"
  by (simp_all add: consume_def Let_def)

lemma refill_nonneg:
  assumes "bucket_ok b" and "tb_last_refill b \<le> now"
  shows "0 \<le> (now - tb_last_refill b) / tb_period b * of_int (tb_calls b)"
  using assms by (simp add: bucket_ok_def)

lemma consume_ok:
  assumes "bucket_ok b" and "tb_last_refill b \<le> now"
  shows "bucket_ok (snd (consume b now))"
  using refill_nonneg [OF assms] assms(1)
  by (auto simp: consume_def Let_def bucket_ok_def min_def)

text \<open>The tokens spent never exceed the tokens held plus the refill.\<close>

lemma consume_budget:
  assumes "bucket_ok b" and "tb_last_refill b \<le> now"
  shows "tb_tokens (snd (consume b now)) + (if fst (consume b now) then 1 else 0)
       \<le> tb_tokens b + (now - tb_last_refill b) / tb_period b * of_int (tb_calls b)"
  by (auto simp: consume_def Let_def)

lemma consume_allows_iff:
  "fst (consume b now) \<longleftrightarrow>
     1 \<le> min (of_int (tb_calls b)) (tb_tokens b + (now - tb_last_refill b) / tb_period b * of_int (tb_calls b))"
  by (simp add: consume_def Let_def)

fun consume_run :: "token_bucket \<Rightarrow> time list \<Rightarrow> bool list \<times> token_bucket" where
  "consume_run b [] = ([], b)"
| "consume_run b (t # ts) =
     (let (ok, b') = consume b t; (oks, b'') = consume_run b' ts in (ok # oks, b''))"

fun times_from :: "time \<Rightarrow> time list \<Rightarrow> bool" where
  "times_from t0 [] = True"
| "times_from t0 (t # ts) = (t0 \<le> t \<and> times_from t ts)"

definition allowed_count :: "bool list \<Rightarrow> nat" where
  "allowed_count oks = length (filter (\<lambda>b. b) oks)"

lemma allowed_count_simps [simp]:
  "allowed_count [] = 0"
  "allowed_count (b # bs) = (if b then Suc (allowed_count bs) else allowed_count bs)"
  by (simp_all add: allowed_count_def)

lemma consume_run_budget:
  assumes "bucket_ok b" and "times_from (tb_last_refill b) ts"
  shows "of_nat (allowed_count (fst (consume_run b ts))) + tb_tokens (snd (consume_run b ts))
       \<le> tb_tokens b + (tb_last_refill (snd (consume_run b ts)) - tb_last_refill b) / tb_period b * of_int (tb_calls b)
     \<and> bucket_ok (snd (consume_run b ts))"
  using assms
proof (induction ts arbitrary: b)
  case Nil
  then show ?case by simp
next
  case (Cons t ts)
  obtain ok b' where c: "consume b t = (ok, b')" by (cases "consume b t")
  obtain oks b'' where r: "consume_run b' ts = (oks, b'')" by (cases "consume_run b' ts")
  have le: "tb_last_refill b \<le> t" using Cons.prems by simp
  have b': "tb_calls b' = tb_calls b" "tb_period b' = tb_period b" "tb_last_refill b' = t"
    using consume_frame [of b t] c by simp_all
  have ok': "bucket_ok b'" using consume_ok [OF Cons.prems(1) le] c by simp
  have head: "tb_tokens b' + (if ok then 1 else 0)
       \<le> tb_tokens b + (t - tb_last_refill b) / tb_period b * of_int (tb_calls b)"
    using consume_budget [OF Cons.prems(1) le] c by simp
  have tail: "of_nat (allowed_count oks) + tb_tokens b''
       \<le> tb_tokens b' + (tb_last_refill b'' - t) / tb_period b * of_int (tb_calls b) \<and> bucket_ok b''"
    using Cons.IH [OF ok'] Cons.prems(2) b' r by simp
  have "(t - tb_last_refill b) / tb_period b * of_int (tb_calls b)
      + (tb_last_refill b'' - t) / tb_period b * of_int (tb_calls b)
      = (tb_last_refill b'' - tb_last_refill b) / tb_period b * (of_int (tb_calls b) :: rat)"
    by (simp add: field_simps add_divide_distrib [symmetric] diff_divide_distrib)
  with head tail c r show ?case by (auto split: if_splits)
qed

lemma consume_run_last:
  "tb_last_refill (snd (consume_run b ts)) = (if ts = [] then tb_last_refill b else last ts)"
proof (induction ts arbitrary: b)
  case (Cons t ts)
  obtain ok b' where c: "consume b t = (ok, b')" by (cases "consume b t")
  then have "tb_last_refill b' = t" using consume_frame(3) [of b t] by simp
  with Cons.IH [of b'] c show ?case by (auto split: prod.splits)
qed simp

text \<open>Calls in one instant spend one token each as long as one is left.\<close>

lemma consume_same_instant:
  assumes "tb_last_refill b = t" "tb_tokens b \<le> of_int (tb_calls b)" "1 \<le> tb_tokens b"
  shows "consume b t = (True, b\<lparr>tb_tokens := tb_tokens b - 1\<rparr>)"
  using assms by (simp add: consume_def Let_def min_def)

lemma consume_burst:
  assumes "tb_last_refill b = t" "tb_tokens b \<le> of_int (tb_calls b)" "of_nat n \<le> tb_tokens b"
  shows "fst (consume_run b (replicate n t)) = replicate n True"
  using assms
proof (induction n arbitrary: b)
  case (Suc n)
  let ?b' = "b\<lparr>tb_tokens := tb_tokens b - 1\<rparr>"
  have "consume b t = (True, ?b')" using Suc.prems by (intro consume_same_instant) auto
  moreover have "fst (consume_run ?b' (replicate n t)) = replicate n True"
    using Suc.prems by (intro Suc.IH) auto
  ultimately show ?case by (simp add: case_prod_unfold)
qed simp

subsection \<open>The backend interface\<close>

datatype limiter_exn = BackendUnavailable | SpecError spec_error

record 's limiter_ops =
  lo_ensure_current :: "'s \<Rightarrow> string \<Rightarrow> string \<Rightarrow> time \<Rightarrow> spec_error + 's"
  lo_unregister :: "'s \<Rightarrow> string \<Rightarrow> 's"
  lo_is_registered :: "'s \<Rightarrow> string \<Rightarrow> bool"
  lo_check_all :: "'s \<Rightarrow> string list \<Rightarrow> time \<Rightarrow> (limiter_exn + bool) \<times> 's"

locale rate_limit_backend =
  fixes ops :: "'s limiter_ops" and spec_of :: "'s \<Rightarrow> string \<Rightarrow> string option"
    and invar :: "'s \<Rightarrow> bool"
  assumes registered_spec: "invar s \<Longrightarrow> lo_is_registered ops s k \<longleftrightarrow> spec_of s k \<noteq> None"
    and ensure_spec: "invar s \<Longrightarrow> lo_ensure_current ops s k spec now = Inr s' \<Longrightarrow>
      spec_of s' = (spec_of s)(k \<mapsto> spec) \<and> invar s'"
    and ensure_current_noop: "invar s \<Longrightarrow> spec_of s k = Some spec \<Longrightarrow> lo_ensure_current ops s k spec now = Inr s"
    and ensure_parses: "invar s \<Longrightarrow> parse_spec_parts spec = Inr cp \<Longrightarrow>
      \<exists>s'. lo_ensure_current ops s k spec now = Inr s'"
    and unregister_spec: "invar s \<Longrightarrow>
      spec_of (lo_unregister ops s k) = (spec_of s)(k := None) \<and> invar (lo_unregister ops s k)"
    and check_nil: "invar s \<Longrightarrow> lo_check_all ops s [] now = (Inr True, s)"
    and check_unlimited: "invar s \<Longrightarrow> spec_of s k = None \<Longrightarrow>
      lo_check_all ops s (k # ks) now = lo_check_all ops s ks now"
    and check_keeps: "invar s \<Longrightarrow> lo_check_all ops s ks now = (r, s') \<Longrightarrow> spec_of s' = spec_of s \<and> invar s'"
begin

lemma unlimited_keys:
  assumes "invar s" and "\<forall>k \<in> set ks. spec_of s k = None"
  shows "lo_check_all ops s ks now = (Inr True, s)"
  using assms by (induction ks) (auto simp: check_nil check_unlimited)

lemma unlimited_tail:
  assumes "invar s" and "spec_of s k' = None"
  shows "lo_check_all ops s [k'] now = (Inr True, s)"
  using assms by (simp add: check_unlimited check_nil)

lemma unregister_unlimited:
  assumes "invar s"
  shows "lo_check_all ops (lo_unregister ops s k) [k] now = (Inr True, lo_unregister ops s k)"
  using unregister_spec [OF assms] by (simp add: unlimited_tail)

end

subsection \<open>The in-memory backend keeps the contract\<close>

definition in_memory_ops :: "in_memory limiter_ops" where
  "in_memory_ops = \<lparr>lo_ensure_current = im_ensure_current, lo_unregister = im_unregister,
     lo_is_registered = im_is_registered,
     lo_check_all = (\<lambda>s ks now. map_prod Inr id (im_check_all s ks now))\<rparr>"

definition im_invar :: "in_memory \<Rightarrow> bool" where
  "im_invar s \<longleftrightarrow> dom (map_of (im_buckets s)) = dom (map_of (im_specs s))"

lemma im_check_specs [simp]: "im_specs (snd (im_check s k now)) = im_specs s"
  by (auto simp: im_check_def split: option.splits prod.splits)

lemma im_check_invar: "im_invar s \<Longrightarrow> im_invar (snd (im_check s k now))"
  by (auto simp: im_check_def im_invar_def update_conv' split: option.splits prod.splits)

lemma im_check_all_keeps:
  "im_invar s \<Longrightarrow> im_specs (snd (im_check_all s ks now)) = im_specs s \<and> im_invar (snd (im_check_all s ks now))"
proof (induction ks arbitrary: s)
  case (Cons k ks)
  obtain ok s' where c: "im_check s k now = (ok, s')" by (cases "im_check s k now")
  with Cons im_check_specs [of s k now] im_check_invar [of s k now] show ?case by auto
qed simp

lemma im_register_spec:
  "im_register s k spec now = Inr s' \<Longrightarrow> map_of (im_specs s') = (map_of (im_specs s))(k \<mapsto> spec) \<and>
     dom (map_of (im_buckets s')) = insert k (dom (map_of (im_buckets s)))"
  by (auto simp: im_register_def rbind_eq_Inr update_conv')

interpretation imb: rate_limit_backend in_memory_ops "\<lambda>s. map_of (im_specs s)" im_invar
proof (unfold_locales, goal_cases)
  case (1 s k)
  then show ?case by (auto simp: in_memory_ops_def im_is_registered_def dict_has_def im_invar_def dom_def)
next
  case (2 s k spec now s')
  then show ?case
    using im_register_spec [of s k spec now s']
    by (auto simp: in_memory_ops_def im_ensure_current_def im_invar_def map_upd_triv split: if_splits)
next
  case (3 s k spec now)
  then show ?case by (simp add: in_memory_ops_def im_ensure_current_def)
next
  case (4 s spec cp now k)
  then show ?case
    by (auto simp: in_memory_ops_def im_ensure_current_def im_register_def parse_spec_def split: prod.splits)
next
  case (5 s k)
  then show ?case
    by (simp add: in_memory_ops_def im_unregister_def im_invar_def delete_conv')
next
  case (6 s now)
  then show ?case by (simp add: in_memory_ops_def)
next
  case (7 s k ks now)
  then have "map_of (im_buckets s) k = None" unfolding im_invar_def by (metis domIff)
  then show ?case by (simp add: in_memory_ops_def im_check_def)
next
  case (8 s ks now r s')
  then show ?case
    using im_check_all_keeps [of s ks now] by (cases "im_check_all s ks now") (auto simp: in_memory_ops_def)
qed

subsection \<open>Properties\<close>

lemma parsed_bucket:
  assumes "validate_rate_limit_spec spec = []" and "parse_spec spec now = Inr b"
  shows "bucket_ok b" "tb_last_refill b = now" "tb_tokens b = of_int (tb_calls b)" "1 \<le> tb_calls b"
proof -
  obtain c p where cp: "parse_spec_parts spec = Inr (c, p)" "c > 0"
    using assms(1) validated_spec_parses by blast
  with assms(2) have b: "b = new_bucket c p now" by (simp add: parse_spec_def)
  have "0 < p" using cp(1) by (rule parse_spec_parts_period_pos)
  with b cp(2) show "bucket_ok b" "tb_last_refill b = now" "tb_tokens b = of_int (tb_calls b)" "1 \<le> tb_calls b"
    by (simp_all add: new_bucket_ok, simp_all add: new_bucket_def)
qed

lemma times_from_replicate: "times_from now (replicate m now)"
  by (induction m) auto

lemma consume_run_append:
  "allowed_count (fst (consume_run b xs)) \<le> allowed_count (fst (consume_run b (xs @ ys)))"
proof (induction xs arbitrary: b)
  case (Cons x xs)
  obtain ok b' where "consume b x = (ok, b')" by fastforce
  with Cons.IH [of b'] show ?case by (simp add: case_prod_unfold Let_def)
qed simp

lemma burst_bound:
  assumes "bucket_ok b" and "tb_last_refill b = now" and "tb_tokens b = of_int (tb_calls b)"
  shows "allowed_count (fst (consume_run b (replicate m now))) \<le> nat (tb_calls b)"
proof -
  let ?r = "consume_run b (replicate m now)"
  have "tb_last_refill (snd ?r) = now"
    using consume_run_last [of b "replicate m now"] assms(2) by simp
  then have "of_nat (allowed_count (fst ?r)) + tb_tokens (snd ?r) \<le> of_int (tb_calls b)" and "bucket_ok (snd ?r)"
    using consume_run_budget [OF assms(1), of "replicate m now"] times_from_replicate assms by simp_all
  then have "(of_nat (allowed_count (fst ?r)) :: rat) \<le> of_int (tb_calls b)" by (simp add: bucket_ok_def)
  then have "int (allowed_count (fst ?r)) \<le> tb_calls b" by (metis of_int_le_iff of_int_of_nat_eq)
  then show ?thesis by simp
qed

text \<open>The rate limit holds: a bucket made from a validated specification at time \<open>now\<close> admits, over any
  sequence of calls up to time \<open>t\<close>, at most its capacity plus what is refilled between \<open>now\<close> and \<open>t\<close>.\<close>

theorem spec_rate_bound:
  assumes "validate_rate_limit_spec spec = []" and "parse_spec spec now = Inr b"
    and "times_from now ts" and "ts \<noteq> []"
  shows "of_nat (allowed_count (fst (consume_run b ts)))
    \<le> of_int (tb_calls b) * (1 + (last ts - now) / tb_period b)"
proof -
  note b = parsed_bucket [OF assms(1,2)]
  have "of_nat (allowed_count (fst (consume_run b ts))) + tb_tokens (snd (consume_run b ts))
      \<le> of_int (tb_calls b) + (last ts - now) / tb_period b * of_int (tb_calls b)"
    and "bucket_ok (snd (consume_run b ts))"
    using consume_run_budget [of b ts] consume_run_last [of b ts] b(1-3) assms(3,4) by simp_all
  then show ?thesis by (simp add: bucket_ok_def algebra_simps)
qed

theorem spec_rate_bound_witness:
  "validate_rate_limit_spec ''2/second'' = [] \<and>
   of_nat (allowed_count (fst (consume_run (new_bucket 2 1 0) [0, 0, 0, 1/2]))) \<le> (2 :: rat) * (1 + (1/2 - 0) / 1)"
proof -
  have v: "validate_rate_limit_spec ''2/second'' = []" by code_simp
  have "parse_spec_parts ''2/second'' = Inr (2, 1)" by code_simp
  then have "parse_spec ''2/second'' 0 = Inr (new_bucket 2 1 0)" by (simp add: parse_spec_def)
  from spec_rate_bound [OF v this, of "[0, 0, 0, 1/2]"] v show ?thesis by (simp add: new_bucket_def)
qed

text \<open>A fresh bucket admits exactly its capacity at once: the first \<open>calls\<close> calls pass and the next one in
  the same instant is refused.\<close>

theorem spec_burst_exact:
  assumes "validate_rate_limit_spec spec = []" and "parse_spec spec now = Inr b"
  shows "fst (consume_run b (replicate (nat (tb_calls b)) now)) = replicate (nat (tb_calls b)) True \<and>
    allowed_count (fst (consume_run b (replicate (Suc (nat (tb_calls b))) now))) = nat (tb_calls b)"
proof -
  note b = parsed_bucket [OF assms]
  let ?n = "nat (tb_calls b)"
  have run: "fst (consume_run b (replicate ?n now)) = replicate ?n True"
    using b by (intro consume_burst) auto
  have "replicate (Suc ?n) now = replicate ?n now @ [now]" by (metis replicate_append_same replicate_Suc)
  then have "?n \<le> allowed_count (fst (consume_run b (replicate (Suc ?n) now)))"
    using consume_run_append [of b "replicate ?n now" "[now]"] run by (simp add: allowed_count_def)
  with run burst_bound [OF b(1-3), of "Suc ?n"] show ?thesis by simp
qed

theorem spec_burst_exact_witness:
  "allowed_count (fst (consume_run (new_bucket 2 1 7) [7, 7, 7])) = 2"
proof -
  have v: "validate_rate_limit_spec ''2/second'' = []" by code_simp
  have "parse_spec_parts ''2/second'' = Inr (2, 1)" by code_simp
  then have "parse_spec ''2/second'' 7 = Inr (new_bucket 2 1 7)" by (simp add: parse_spec_def)
  from spec_burst_exact [OF v this] show ?thesis by (simp add: new_bucket_def numeral_2_eq_2)
qed

text \<open>The field validator and the parser accept the same specifications: a specification is stored exactly
  when it parses to a positive number of calls, so registering a stored limit never raises.\<close>

theorem validated_spec_registers:
  "validate_rate_limit_spec spec = [] \<longleftrightarrow>
     (\<exists>s' b. im_register s k spec now = Inr s' \<and> map_of (im_buckets s') k = Some b \<and> 0 < tb_calls b)"
  unfolding validated_spec_parses
  by (auto simp: im_register_def parse_spec_def rbind_eq_Inr new_bucket_def update_conv')

end
