(* ===== verification/Rate_Limit_Valkey.thy ===== *)
theory Rate_Limit_Valkey
  imports Rate_Limiter
begin

text \<open>
  The shared-storage rate limiter, \<open>argus/rate_limit_valkey.py\<close>: the Lua script that consumes a token
  inside the storage server, and the backend around it. The storage server is a map from keys to
  (tokens, last refill, expiry time); \<open>now\<close> is its own clock, and \<open>vk_up\<close> says whether a script call
  reaches it.
\<close>

record valkey_entry =
  ve_tokens :: rat
  ve_last_refill :: time
  ve_expires :: time

record valkey =
  vk_specs :: "string dict"
  vk_store :: "valkey_entry dict"
  vk_up :: bool

definition KEY_PREFIX_RL :: string where
  "KEY_PREFIX_RL = ''acropolis:ratelimit:''"

definition redis_key :: "string \<Rightarrow> string" where
  "redis_key key = KEY_PREFIX_RL @ key"

text \<open>A key whose expiry time has passed reads as absent.\<close>

definition live_entry :: "valkey_entry dict \<Rightarrow> string \<Rightarrow> time \<Rightarrow> valkey_entry option" where
  "live_entry store key now =
     (case map_of store key of None \<Rightarrow> None
      | Some e \<Rightarrow> if ve_expires e \<le> now then None else Some e)"

definition consume_script :: "valkey_entry option \<Rightarrow> int \<Rightarrow> rat \<Rightarrow> time \<Rightarrow> bool \<times> valkey_entry" where
  "consume_script state calls period now =
     (let (tokens0, last_refill) = (case state of None \<Rightarrow> (of_int calls, now)
                                    | Some e \<Rightarrow> (ve_tokens e, ve_last_refill e));
          elapsed0 = now - last_refill;
          elapsed = (if elapsed0 < 0 then 0 else elapsed0);
          tokens1 = min (of_int calls) (tokens0 + (elapsed / period) * of_int calls);
          (allowed, tokens2) = (if tokens1 \<ge> 1 then (True, tokens1 - 1) else (False, tokens1))
      in (allowed, \<lparr>ve_tokens = tokens2, ve_last_refill = now,
                    ve_expires = now + of_int \<lceil>period * 2\<rceil>\<rparr>))"

definition vk_register :: "valkey \<Rightarrow> string \<Rightarrow> string \<Rightarrow> spec_error + valkey" where
  "vk_register s key spec = rbind (parse_spec_parts spec) (\<lambda>_.
     Inr (s\<lparr>vk_specs := AList.update key spec (vk_specs s)\<rparr>))"

definition vk_ensure_current :: "valkey \<Rightarrow> string \<Rightarrow> string \<Rightarrow> spec_error + valkey" where
  "vk_ensure_current s key spec =
     (if map_of (vk_specs s) key \<noteq> Some spec then vk_register s key spec else Inr s)"

definition vk_unregister :: "valkey \<Rightarrow> string \<Rightarrow> valkey" where
  "vk_unregister s key = s\<lparr>vk_specs := AList.delete key (vk_specs s)\<rparr>"

definition vk_is_registered :: "valkey \<Rightarrow> string \<Rightarrow> bool" where
  "vk_is_registered s key = dict_has (vk_specs s) key"

definition vk_check :: "valkey \<Rightarrow> string \<Rightarrow> time \<Rightarrow> (limiter_exn + bool) \<times> valkey" where
  "vk_check s key now =
     (case map_of (vk_specs s) key of
        None \<Rightarrow> (Inr True, s)
      | Some spec \<Rightarrow>
          (case parse_spec_parts spec of
             Inl e \<Rightarrow> (Inl (SpecError e), s)
           | Inr (calls, period) \<Rightarrow>
               if \<not> vk_up s then (Inl BackendUnavailable, s)
               else (let (ok, e) = consume_script (live_entry (vk_store s) (redis_key key) now) calls period now
                     in (Inr ok, s\<lparr>vk_store := AList.update (redis_key key) e (vk_store s)\<rparr>))))"

fun vk_check_all :: "valkey \<Rightarrow> string list \<Rightarrow> time \<Rightarrow> (limiter_exn + bool) \<times> valkey" where
  "vk_check_all s [] now = (Inr True, s)"
| "vk_check_all s (k # ks) now =
     (case vk_check s k now of
        (Inl e, s') \<Rightarrow> (Inl e, s')
      | (Inr ok, s') \<Rightarrow> if \<not> ok then (Inr False, s') else vk_check_all s' ks now)"

definition valkey_ops :: "valkey limiter_ops" where
  "valkey_ops = \<lparr>lo_ensure_current = (\<lambda>s k spec now. vk_ensure_current s k spec),
     lo_unregister = vk_unregister, lo_is_registered = vk_is_registered, lo_check_all = vk_check_all\<rparr>"

subsection \<open>The script and the in-process bucket\<close>

definition entry_of_bucket :: "token_bucket \<Rightarrow> valkey_entry" where
  "entry_of_bucket b = \<lparr>ve_tokens = tb_tokens b, ve_last_refill = tb_last_refill b,
     ve_expires = tb_last_refill b + of_int \<lceil>tb_period b * 2\<rceil>\<rparr>"

lemma script_refines_bucket:
  assumes "tb_last_refill b \<le> now"
  shows "consume_script (Some (entry_of_bucket b)) (tb_calls b) (tb_period b) now
       = map_prod id entry_of_bucket (consume b now)"
  using assms by (auto simp: consume_script_def consume_def entry_of_bucket_def Let_def)

lemma script_first_call:
  "consume_script None calls period now
     = map_prod id entry_of_bucket (consume (new_bucket calls period now) now)"
  by (auto simp: consume_script_def consume_def entry_of_bucket_def new_bucket_def Let_def)

text \<open>After two periods a bucket is full again whatever it held.\<close>

lemma full_after_period:
  assumes "0 < period" "0 \<le> calls" "0 \<le> tokens" "period \<le> now - t0"
  shows "of_int calls \<le> tokens + (now - t0) / period * (of_int calls :: rat)"
proof -
  have "1 \<le> (now - t0) / period" using assms by (simp add: pos_le_divide_eq)
  then have "1 * of_int calls \<le> (now - t0) / period * (of_int calls :: rat)"
    using assms by (intro mult_right_mono) auto
  with assms show ?thesis by simp
qed

lemma expired_entry_is_full:
  assumes "0 < period" "0 \<le> calls" "0 \<le> ve_tokens e"
    and "ve_expires e = ve_last_refill e + of_int \<lceil>period * 2\<rceil>" and "ve_expires e \<le> now"
  shows "consume_script (Some e) calls period now = consume_script None calls period now"
proof -
  have "period * 2 \<le> of_int \<lceil>period * 2\<rceil>" by simp
  with assms have late: "period \<le> now - ve_last_refill e" by linarith
  then have "of_int calls \<le> ve_tokens e + (now - ve_last_refill e) / period * (of_int calls :: rat)"
    using full_after_period assms by blast
  moreover have "\<not> now - ve_last_refill e < 0" using late assms(1) by linarith
  ultimately show ?thesis by (simp add: consume_script_def Let_def min_def)
qed

subsection \<open>The backend contract\<close>

definition vk_invar :: "valkey \<Rightarrow> bool" where
  "vk_invar s \<longleftrightarrow> dict_wf (vk_specs s)"

lemma vk_check_specs: "vk_check s k now = (r, s') \<Longrightarrow> vk_specs s' = vk_specs s"
  by (auto simp: vk_check_def split: option.splits sum.splits if_splits prod.splits)

lemma vk_check_all_specs: "vk_check_all s ks now = (r, s') \<Longrightarrow> vk_specs s' = vk_specs s"
proof (induction ks arbitrary: s)
  case (Cons k ks)
  then show ?case by (auto split: prod.splits sum.splits if_splits dest: vk_check_specs)
qed simp

interpretation vkb: rate_limit_backend valkey_ops "\<lambda>s. map_of (vk_specs s)" vk_invar
proof (unfold_locales, goal_cases)
  case (1 s k)
  then show ?case by (simp add: valkey_ops_def vk_is_registered_def dict_has_def)
next
  case (2 s k spec now s')
  then show ?case
    by (auto simp: valkey_ops_def vk_ensure_current_def vk_register_def rbind_eq_Inr vk_invar_def
      update_conv' map_upd_triv distinct_update split: if_splits)
next
  case (3 s k spec now)
  then show ?case by (simp add: valkey_ops_def vk_ensure_current_def)
next
  case (4 s spec cp now k)
  then show ?case by (auto simp: valkey_ops_def vk_ensure_current_def vk_register_def)
next
  case (5 s k)
  then show ?case by (simp add: valkey_ops_def vk_unregister_def vk_invar_def delete_conv' distinct_delete)
next
  case (6 s now)
  then show ?case by (simp add: valkey_ops_def)
next
  case (7 s k ks now)
  then show ?case by (simp add: valkey_ops_def vk_check_def)
next
  case (8 s ks now r s')
  then show ?case using vk_check_all_specs [of s ks now r s'] by (simp add: valkey_ops_def vk_invar_def)
qed

text \<open>An unreachable storage server is never an answer for a limited key.\<close>

lemma vk_unavailable_raises:
  assumes "\<not> vk_up s" and "map_of (vk_specs s) k = Some spec"
  shows "\<exists>e. vk_check_all s (k # ks) now = (Inl e, s)"
  using assms by (auto simp: vk_check_def split: sum.splits)

subsection \<open>Properties\<close>

text \<open>C27. The script refines the in-process bucket: on a stored entry that represents a bucket, also when the
  key has expired meanwhile, it gives the same answer and leaves the entry of the same new bucket.\<close>

theorem script_matches_bucket:
  assumes "bucket_ok b" and "tb_last_refill b \<le> now" and "map_of store k = Some (entry_of_bucket b)"
  shows "consume_script (live_entry store k now) (tb_calls b) (tb_period b) now
       = map_prod id entry_of_bucket (consume b now)"
proof (cases "ve_expires (entry_of_bucket b) \<le> now")
  case True
  have "consume_script (Some (entry_of_bucket b)) (tb_calls b) (tb_period b) now
      = consume_script None (tb_calls b) (tb_period b) now"
    by (rule expired_entry_is_full) (use assms(1) True in \<open>simp_all add: bucket_ok_def entry_of_bucket_def\<close>)
  with True assms show ?thesis using script_refines_bucket [OF assms(2)] by (simp add: live_entry_def)
next
  case False
  with assms show ?thesis using script_refines_bucket [OF assms(2)] by (simp add: live_entry_def)
qed

theorem script_matches_bucket_witness:
  "consume_script (live_entry [(''k'', entry_of_bucket (new_bucket 3 60 0))] ''k'' 500) 3 60 500
     = map_prod id entry_of_bucket (consume (new_bucket 3 60 0) 500)"
  using script_matches_bucket [of "new_bucket 3 60 0" 500 "[(''k'', entry_of_bucket (new_bucket 3 60 0))]" "''k''"]
  by (simp add: new_bucket_ok, simp add: new_bucket_def)

text \<open>An unreachable storage server never turns into an answer: checking a limited key raises, and changes
  nothing.\<close>

theorem unreachable_backend_raises:
  assumes "\<not> vk_up s" and "vk_register s0 k spec = Inr s" and "validate_rate_limit_spec spec = []"
  shows "vk_check_all s (k # ks) now = (Inl BackendUnavailable, s)"
proof -
  obtain c p where "parse_spec_parts spec = Inr (c, p)" using assms(3) validated_spec_parses by blast
  moreover have "map_of (vk_specs s) k = Some spec"
    using assms(2) by (auto simp: vk_register_def rbind_eq_Inr update_conv')
  ultimately show ?thesis using assms(1) by (simp add: vk_check_def)
qed

theorem unreachable_backend_raises_witness:
  "vk_check_all \<lparr>vk_specs = [(''k'', ''5/hour'')], vk_store = [], vk_up = False\<rparr> [''k''] 0
     = (Inl BackendUnavailable, \<lparr>vk_specs = [(''k'', ''5/hour'')], vk_store = [], vk_up = False\<rparr>)"
proof -
  have v: "validate_rate_limit_spec ''5/hour'' = []" by code_simp
  have "parse_spec_parts ''5/hour'' = Inr (5, 3600)" by code_simp
  then have r: "vk_register \<lparr>vk_specs = [], vk_store = [], vk_up = False\<rparr> ''k'' ''5/hour''
      = Inr \<lparr>vk_specs = [(''k'', ''5/hour'')], vk_store = [], vk_up = False\<rparr>"
    by (simp add: vk_register_def)
  show ?thesis by (rule unreachable_backend_raises [OF _ r v]) simp
qed

end
