(* ===== verification/Usage.thy ===== *)
theory Usage
  imports Models "HOL-Library.Char_ord" "HOL-Library.List_Lexorder" "HOL-Library.Product_Lexorder"
begin

text \<open>
  Usage rollups: \<open>argus/quotas.py\<close> (the start of the current quota period) and \<open>UsageRepo\<close> of
  \<open>db/repo.py\<close> (hourly call counts per key, server and tool). A timestamp is the UTC date and time it
  denotes; the rollup table stores it as ISO text and compares that text, as the SQL does. A statement
  on the database can fail: \<open>us_up\<close> says whether it is reachable.
\<close>

datatype utc = Utc (ut_year: nat) (ut_month: nat) (ut_day: nat) (ut_hour: nat) (ut_minute: nat)
  (ut_second: nat) (ut_micro: nat)

definition utc_key :: "utc \<Rightarrow> nat \<times> nat \<times> nat \<times> nat \<times> nat \<times> nat \<times> nat" where
  "utc_key t = (ut_year t, ut_month t, ut_day t, ut_hour t, ut_minute t, ut_second t, ut_micro t)"

text \<open>Chronological order.\<close>

instantiation utc :: linorder
begin

definition less_eq_utc :: "utc \<Rightarrow> utc \<Rightarrow> bool" where
  "less_eq_utc a b \<longleftrightarrow> utc_key a \<le> utc_key b"

definition less_utc :: "utc \<Rightarrow> utc \<Rightarrow> bool" where
  "less_utc a b \<longleftrightarrow> utc_key a < utc_key b"

instance
proof
  fix a b :: utc
  show "a \<le> b \<Longrightarrow> b \<le> a \<Longrightarrow> a = b"
    by (cases a; cases b) (auto simp: less_eq_utc_def utc_key_def)
qed (auto simp: less_eq_utc_def less_utc_def)

end

definition utc_ok :: "utc \<Rightarrow> bool" where
  "utc_ok t \<longleftrightarrow> 1 \<le> ut_year t \<and> ut_year t \<le> 9999 \<and> 1 \<le> ut_month t \<and> ut_month t \<le> 12 \<and> 1 \<le> ut_day t
     \<and> ut_day t \<le> 31 \<and> ut_hour t < 24 \<and> ut_minute t < 60 \<and> ut_second t < 60 \<and> ut_micro t < 1000000"

fun zero_padded :: "nat \<Rightarrow> nat \<Rightarrow> string" where
  "zero_padded 0 n = []"
| "zero_padded (Suc k) n = char_of (48 + n div 10 ^ k) # zero_padded k (n mod 10 ^ k)"

definition isoformat :: "utc \<Rightarrow> string" where
  "isoformat t =
     zero_padded 4 (ut_year t) @ ''-'' @ zero_padded 2 (ut_month t) @ ''-'' @ zero_padded 2 (ut_day t) @ ''T''
     @ zero_padded 2 (ut_hour t) @ '':'' @ zero_padded 2 (ut_minute t) @ '':'' @ zero_padded 2 (ut_second t)
     @ (if ut_micro t = 0 then '''' else ''.'' @ zero_padded 6 (ut_micro t)) @ ''+00:00''"

subsection \<open>Quota periods and hour buckets\<close>

definition period_start :: "string \<Rightarrow> utc \<Rightarrow> string + utc" where
  "period_start period_kind now =
     (if period_kind = ''day'' then Inr (Utc (ut_year now) (ut_month now) (ut_day now) 0 0 0 0)
      else if period_kind = ''month'' then Inr (Utc (ut_year now) (ut_month now) 1 0 0 0 0)
      else Inl (''unknown quota_period '' @ period_kind))"

definition hour_bucket :: "utc \<Rightarrow> string" where
  "hour_bucket ts = isoformat (Utc (ut_year ts) (ut_month ts) (ut_day ts) (ut_hour ts) 0 0 0)"

subsection \<open>The rollup table\<close>

type_synonym rollup_key = "string \<times> int \<times> int \<times> string"

record rollup =
  ro_calls :: int
  ro_project_id :: "int option"

record usage_store =
  us_up :: bool
  us_rows :: "(rollup_key \<times> rollup) list"

definition to_key_sentinel :: "int option \<Rightarrow> int" where
  "to_key_sentinel k = (case k of Some i \<Rightarrow> i | None \<Rightarrow> 0)"

definition to_server_sentinel :: "int option \<Rightarrow> int" where
  "to_server_sentinel k = (case k of Some i \<Rightarrow> i | None \<Rightarrow> 0)"

definition to_tool_sentinel :: "string option \<Rightarrow> string" where
  "to_tool_sentinel t = (case t of Some s \<Rightarrow> s | None \<Rightarrow> '''')"

definition usage_increment ::
    "usage_store \<Rightarrow> utc \<Rightarrow> int option \<Rightarrow> int option \<Rightarrow> string option \<Rightarrow> int \<Rightarrow> int option \<Rightarrow> unit + usage_store" where
  "usage_increment s ts api_key_id server_id tool amount project_id =
     (if \<not> us_up s then Inl ()
      else
        let k = (hour_bucket ts, to_key_sentinel api_key_id, to_server_sentinel server_id, to_tool_sentinel tool);
            row = (case map_of (us_rows s) k of
                     None \<Rightarrow> \<lparr>ro_calls = amount, ro_project_id = project_id\<rparr>
                   | Some r \<Rightarrow> \<lparr>ro_calls = ro_calls r + amount,
                        ro_project_id = (case ro_project_id r of Some p \<Rightarrow> Some p | None \<Rightarrow> project_id)\<rparr>)
        in Inr (s\<lparr>us_rows := AList.update k row (us_rows s)\<rparr>))"

definition in_scope :: "int \<Rightarrow> string \<Rightarrow> rollup_key \<Rightarrow> bool" where
  "in_scope api_key_id since k = (case k of (start, key, srv, tool) \<Rightarrow> key = api_key_id \<and> since \<le> start)"

definition total_since :: "usage_store \<Rightarrow> int \<Rightarrow> string \<Rightarrow> unit + int" where
  "total_since s api_key_id since =
     (if \<not> us_up s then Inl ()
      else Inr (sum_list (map (\<lambda>(k, r). if in_scope api_key_id since k then ro_calls r else 0) (us_rows s))))"

text \<open>\<open>query\<close>: raw rows under optional filters, newest bucket first.\<close>

definition opt_matches :: "'a option \<Rightarrow> 'a \<Rightarrow> bool" where
  "opt_matches f x = (case f of None \<Rightarrow> True | Some y \<Rightarrow> x = y)"

definition usage_query ::
    "usage_store \<Rightarrow> int option \<Rightarrow> int option \<Rightarrow> string option \<Rightarrow> string option \<Rightarrow> string option \<Rightarrow> int option \<Rightarrow>
     unit + (rollup_key \<times> rollup) list" where
  "usage_query s api_key_id server_id tool since until project_id =
     (if \<not> us_up s then Inl ()
      else Inr (rev (sort_key (\<lambda>(k, _). fst k) (filter (\<lambda>((start, key, srv, t), r).
          opt_matches api_key_id key \<and> opt_matches server_id srv \<and> opt_matches tool t
          \<and> (case since of None \<Rightarrow> True | Some x \<Rightarrow> x \<le> start)
          \<and> (case until of None \<Rightarrow> True | Some x \<Rightarrow> start \<le> x)
          \<and> (case project_id of None \<Rightarrow> True | Some p \<Rightarrow> ro_project_id r = Some p)) (us_rows s)))))"

subsection \<open>Text order is time order\<close>

lemma length_zero_padded [simp]: "length (zero_padded k n) = k"
  by (induction k n rule: zero_padded.induct) auto

lemma digit_char_less:
  fixes a b :: nat
  assumes "a < 10" "b < 10"
  shows "(char_of (48 + a) :: char) < char_of (48 + b) \<longleftrightarrow> a < b" "(char_of (48 + a) :: char) = char_of (48 + b) \<longleftrightarrow> a = b"
  using assms by (auto simp: less_char_def dest: arg_cong [where f = "of_char :: char \<Rightarrow> nat"])

lemma Cons_le_string: "(x # xs \<le> y # ys) = (x < y \<or> x = (y :: char) \<and> xs \<le> ys)"
  by (rule Cons_le_Cons)

lemma zero_padded_le:
  "n < 10 ^ k \<Longrightarrow> m < 10 ^ k \<Longrightarrow>
     zero_padded k n @ xs \<le> zero_padded k m @ ys \<longleftrightarrow> n < m \<or> n = m \<and> xs \<le> ys"
proof (induction k arbitrary: n m)
  case (Suc k)
  let ?p = "10 ^ k :: nat"
  have d: "n div ?p < 10" "m div ?p < 10" using Suc.prems by (simp_all add: less_mult_imp_div_less)
  have r: "n mod ?p < ?p" "m mod ?p < ?p" by simp_all
  have "n < m \<or> n = m \<and> xs \<le> ys \<longleftrightarrow>
      n div ?p < m div ?p \<or> n div ?p = m div ?p \<and> (n mod ?p < m mod ?p \<or> n mod ?p = m mod ?p \<and> xs \<le> ys)"
  proof -
    have "n = n div ?p * ?p + n mod ?p" "m = m div ?p * ?p + m mod ?p" by (simp_all only: div_mult_mod_eq)
    moreover have "n div ?p < m div ?p \<Longrightarrow> n < m" by (metis div_le_mono leD leI)
    moreover have "n < m \<Longrightarrow> n div ?p \<le> m div ?p" by (simp add: div_le_mono)
    ultimately show ?thesis by (metis add_less_cancel_left nat_less_le)
  qed
  then show ?case
    using Suc.IH [OF r] digit_char_less [OF d] by (simp add: Cons_le_string)
qed simp

lemma isoformat_le:
  assumes "utc_ok a" "utc_ok b" "ut_micro a = 0" "ut_micro b = 0"
  shows "isoformat a \<le> isoformat b \<longleftrightarrow> a \<le> b"
proof -
  have bounds: "ut_year t < 10 ^ 4 \<and> ut_month t < 10 ^ 2 \<and> ut_day t < 10 ^ 2 \<and> ut_hour t < 10 ^ 2
      \<and> ut_minute t < 10 ^ 2 \<and> ut_second t < 10 ^ 2" if "utc_ok t" for t
    using that by (auto simp: utc_ok_def)
  show ?thesis
    using bounds [OF assms(1)] bounds [OF assms(2)] assms(3,4)
    by (simp add: isoformat_def zero_padded_le Cons_le_string less_eq_utc_def utc_key_def less_eq_prod_def del: zero_padded.simps)
      auto
qed

lemma isoformat_inj:
  assumes "utc_ok a" "utc_ok b" "ut_micro a = 0" "ut_micro b = 0" "isoformat a = isoformat b"
  shows "a = b"
  using isoformat_le [OF assms(1-4)] isoformat_le [OF assms(2,1,4,3)] assms(5) by (intro antisym) auto

lemma utc_ok_truncated:
  assumes "utc_ok t"
  shows "utc_ok (Utc (ut_year t) (ut_month t) (ut_day t) (ut_hour t) 0 0 0)"
    "period_start kind t = Inr p \<Longrightarrow> utc_ok p \<and> ut_micro p = 0"
  using assms by (auto simp: utc_ok_def period_start_def split: if_splits)

text \<open>The bucket of an instant belongs to the quota period of that instant.\<close>

lemma period_le_bucket:
  assumes "utc_ok t" "period_start kind t = Inr p"
  shows "isoformat p \<le> hour_bucket t"
  using assms utc_ok_truncated [OF assms(1)] unfolding hour_bucket_def
  by (subst isoformat_le)
    (auto simp: period_start_def less_eq_utc_def utc_key_def less_eq_prod_def utc_ok_def split: if_splits)

text \<open>A bucket of an earlier period does not.\<close>

lemma earlier_bucket_excluded:
  assumes "utc_ok t" "utc_ok now" "period_start kind now = Inr p" "t < p"
  shows "\<not> isoformat p \<le> hour_bucket t"
proof -
  have "Utc (ut_year t) (ut_month t) (ut_day t) (ut_hour t) 0 0 0 \<le> t"
    by (auto simp: less_eq_utc_def utc_key_def less_eq_prod_def)
  with assms(4) show ?thesis
    using utc_ok_truncated [OF assms(1)] utc_ok_truncated(2) [OF assms(2,3)] unfolding hour_bucket_def
    by (subst isoformat_le) auto
qed

subsection \<open>Counting\<close>

lemma sum_list_update_row:
  fixes f :: "'k \<times> 'r \<Rightarrow> int"
  assumes "distinct (map fst rows)"
  shows "sum_list (map f (AList.update k r rows)) =
    sum_list (map f rows) + f (k, r) - (case map_of rows k of None \<Rightarrow> 0 | Some r0 \<Rightarrow> f (k, r0))"
  using assms
proof (induction rows)
  case (Cons x rows)
  then show ?case
    by (cases x) (auto split: option.splits dest: map_of_SomeD)
qed simp

lemma total_after_increment:
  assumes "distinct (map fst (us_rows s))" and "usage_increment s ts key srv tool amount prj = Inr s'"
    and "total_since s kid since = Inr n"
  shows "total_since s' kid since =
      Inr (n + (if to_key_sentinel key = kid \<and> since \<le> hour_bucket ts then amount else 0))
    \<and> distinct (map fst (us_rows s'))"
  using assms
  by (auto simp: usage_increment_def total_since_def Let_def sum_list_update_row distinct_update in_scope_def
      split: if_splits option.splits)

subsection \<open>Properties\<close>

text \<open>Comparing the stored ISO texts is comparing the times: the SQL condition on the text of an hour bucket
  holds exactly when the bucket is not before the start of the period.\<close>

theorem bucket_text_order:
  assumes "utc_ok t" "utc_ok now" "period_start kind now = Inr p"
  shows "isoformat p \<le> hour_bucket t \<longleftrightarrow> p \<le> t"
proof
  assume "isoformat p \<le> hour_bucket t"
  then show "p \<le> t" using earlier_bucket_excluded [OF assms] by (metis not_le)
next
  assume "p \<le> t"
  then have "p \<le> Utc (ut_year t) (ut_month t) (ut_day t) (ut_hour t) 0 0 0"
    using assms(3) by (cases t) (auto simp: period_start_def less_eq_utc_def utc_key_def less_eq_prod_def split: if_splits)
  then show "isoformat p \<le> hour_bucket t"
    using utc_ok_truncated(1) [OF assms(1)] utc_ok_truncated(2) [OF assms(2,3)] unfolding hour_bucket_def
    by (subst isoformat_le) auto
qed

theorem bucket_text_order_witness:
  "isoformat (Utc 2026 8 1 0 0 0 0) \<le> hour_bucket (Utc 2026 8 9 14 30 0 5) \<and>
   \<not> isoformat (Utc 2026 8 1 0 0 0 0) \<le> hour_bucket (Utc 2026 7 31 23 59 59 0)"
  using bucket_text_order [of "Utc 2026 8 9 14 30 0 5" "Utc 2026 8 10 1 1 1 1" "''month''" "Utc 2026 8 1 0 0 0 0"]
    bucket_text_order [of "Utc 2026 7 31 23 59 59 0" "Utc 2026 8 10 1 1 1 1" "''month''" "Utc 2026 8 1 0 0 0 0"]
  by (simp add: utc_ok_def period_start_def less_eq_utc_def utc_key_def)

end
