(* ===== verification/Webhooks.thy ===== *)
theory Webhooks
  imports Py_Value
begin

text \<open>
  The webhook dispatcher, \<open>stoa/webhooks.py\<close>: configuration from the settings, debouncing of repeated
  events, one-shot quota thresholds, and the hourly cap with its suppression notice. \<open>now\<close> is the
  monotonic clock in seconds and \<open>ts\<close> the ISO text of the wall clock. A debounced send is a sleeping
  task: it is kept in \<open>wh_tasks\<close> with the time its sleep ends, and \<open>wake\<close> runs one. A POST is recorded
  with its URL, its payload and the secret it is signed with; a delivery error is logged and dropped by
  the code, so a POST is recorded whether or not it is answered.
\<close>

record webhook_config =
  wc_url :: string
  wc_secret :: "string option"
  wc_events :: "string list"

record debounce_entry =
  de_first_seen :: rat
  de_count :: int

record cap_state =
  cs_window_start :: rat
  cs_count :: nat
  cs_suppressed :: nat

record webhook_post =
  wp_url :: string
  wp_payload :: "json dict"
  wp_signed_with :: "string option"

type_synonym debounce_key = "string \<times> string"

datatype webhook_task =
    GenericTask debounce_key string "json dict" webhook_config rat
  | BlockedTask debounce_key "json dict" webhook_config rat

record webhooks =
  wh_settings :: "string dict"
  wh_debounce :: "(debounce_key \<times> debounce_entry) list"
  wh_cap :: cap_state
  wh_quota_fired :: "(debounce_key \<times> int) list"
  wh_tasks :: "webhook_task list"
  wh_posts :: "webhook_post list"

definition DEBOUNCE_WINDOW_SECONDS :: rat where "DEBOUNCE_WINDOW_SECONDS = 60"
definition CAP_WINDOW_SECONDS :: rat where "CAP_WINDOW_SECONDS = 3600"
definition CAP_MAX_PER_WINDOW :: nat where "CAP_MAX_PER_WINDOW = 20"
definition QUOTA_FIRED_MAX_ENTRIES :: nat where "QUOTA_FIRED_MAX_ENTRIES = 10000"

definition new_cap :: "rat \<Rightarrow> cap_state" where
  "new_cap now = \<lparr>cs_window_start = now, cs_count = 0, cs_suppressed = 0\<rparr>"

definition load_config :: "string dict \<Rightarrow> webhook_config option" where
  "load_config values =
     (case map_of values ''webhook_url'' of
        None \<Rightarrow> None
      | Some url \<Rightarrow>
          if url = [] \<or> map_of values ''webhook_enabled'' \<noteq> Some ''true'' then None
          else Some \<lparr>wc_url = url, wc_secret = map_of values ''webhook_secret'',
                 wc_events = (case map_of values ''webhook_events'' of
                     Some raw \<Rightarrow> if raw = [] then [''blocked'', ''unhealthy''] else str_split (CHR '','') raw
                   | None \<Rightarrow> [''blocked'', ''unhealthy''])\<rparr>)"

definition config_for :: "webhooks \<Rightarrow> string \<Rightarrow> webhook_config option" where
  "config_for w event = (case load_config (wh_settings w) of
     None \<Rightarrow> None | Some c \<Rightarrow> if event \<in> set (wc_events c) then Some c else None)"

definition post :: "webhooks \<Rightarrow> webhook_config \<Rightarrow> json dict \<Rightarrow> webhooks" where
  "post w config payload = w\<lparr>wh_posts := wh_posts w @ [\<lparr>wp_url = wc_url config, wp_payload = payload,
     wp_signed_with = (case wc_secret config of None \<Rightarrow> None | Some s \<Rightarrow> if s = [] then None else Some s)\<rparr>]\<rparr>"

definition suppression_payload :: "string \<Rightarrow> nat \<Rightarrow> json dict" where
  "suppression_payload ts n = [(''event'', JStr ''suppressed''), (''ts'', JStr ts), (''server_slug'', JNull),
     (''count'', JInt (int n))]"

definition send_suppression_notice :: "webhooks \<Rightarrow> webhook_config \<Rightarrow> string \<Rightarrow> nat \<Rightarrow> webhooks" where
  "send_suppression_notice w config ts n = post w config (suppression_payload ts n)"

definition roll_window :: "webhooks \<Rightarrow> webhook_config \<Rightarrow> rat \<Rightarrow> string \<Rightarrow> webhooks" where
  "roll_window w config now ts =
     (if now - cs_window_start (wh_cap w) \<ge> CAP_WINDOW_SECONDS
      then let w1 = (if cs_suppressed (wh_cap w) > 0 then send_suppression_notice w config ts (cs_suppressed (wh_cap w)) else w)
           in w1\<lparr>wh_cap := new_cap now\<rparr>
      else w)"

definition send_if_under_cap :: "webhooks \<Rightarrow> webhook_config \<Rightarrow> json dict \<Rightarrow> rat \<Rightarrow> string \<Rightarrow> webhooks" where
  "send_if_under_cap w config payload now ts =
     (let w1 = roll_window w config now ts; c = wh_cap w1 in
      if cs_count c \<ge> CAP_MAX_PER_WINDOW then w1\<lparr>wh_cap := c\<lparr>cs_suppressed := cs_suppressed c + 1\<rparr>\<rparr>
      else post (w1\<lparr>wh_cap := c\<lparr>cs_count := cs_count c + 1\<rparr>\<rparr>) config payload)"

subsection \<open>Debounced events\<close>

definition json_str :: "json dict \<Rightarrow> string \<Rightarrow> string" where
  "json_str d k = (case map_of d k of Some (JStr s) \<Rightarrow> s | _ \<Rightarrow> '''')"

definition debounce :: "webhooks \<Rightarrow> debounce_key \<Rightarrow> webhook_task \<Rightarrow> rat \<Rightarrow> webhooks" where
  "debounce w key task now =
     (let fresh = w\<lparr>wh_debounce := AList.update key \<lparr>de_first_seen = now, de_count = 1\<rparr> (wh_debounce w),
                    wh_tasks := wh_tasks w @ [task]\<rparr>
      in case map_of (wh_debounce w) key of
           None \<Rightarrow> fresh
         | Some e \<Rightarrow> if now - de_first_seen e < DEBOUNCE_WINDOW_SECONDS
             then w\<lparr>wh_debounce := AList.update key (e\<lparr>de_count := de_count e + 1\<rparr>) (wh_debounce w)\<rparr>
             else fresh)"

definition fire :: "webhooks \<Rightarrow> string \<Rightarrow> json dict \<Rightarrow> rat \<Rightarrow> webhooks" where
  "fire w event_type payload now =
     (case config_for w event_type of None \<Rightarrow> w
      | Some config \<Rightarrow>
          let key = (event_type, json_str payload ''status'') in
          debounce w key (GenericTask key event_type payload config (now + DEBOUNCE_WINDOW_SECONDS)) now)"

definition handle_blocked :: "webhooks \<Rightarrow> json dict \<Rightarrow> rat \<Rightarrow> webhooks" where
  "handle_blocked w event now =
     (case config_for w ''blocked'' of None \<Rightarrow> w
      | Some config \<Rightarrow>
          let key = (json_str event ''server_slug'', json_str event ''rule'') in
          debounce w key (BlockedTask key event config (now + DEBOUNCE_WINDOW_SECONDS)) now)"

text \<open>One turn of the dispatcher loop on an audit event.\<close>

definition on_audit_event :: "webhooks \<Rightarrow> json dict \<Rightarrow> rat \<Rightarrow> webhooks" where
  "on_audit_event w event now =
     (if map_of event ''decision'' = Some (JStr ''BLOCKED'') \<and>
         (case map_of event ''origin'' of None \<Rightarrow> True | Some v \<Rightarrow> v = JNull)
      then handle_blocked w event now else w)"

definition dict_merge :: "json dict \<Rightarrow> json dict \<Rightarrow> json dict" where
  "dict_merge d e = fold (\<lambda>(k, v) acc. AList.update k v acc) e d"

definition json_field :: "json dict \<Rightarrow> string \<Rightarrow> json" where
  "json_field d k = (case map_of d k of Some v \<Rightarrow> v | None \<Rightarrow> JNull)"

definition debounced_send_generic ::
    "webhooks \<Rightarrow> debounce_key \<Rightarrow> string \<Rightarrow> json dict \<Rightarrow> webhook_config \<Rightarrow> rat \<Rightarrow> string \<Rightarrow> webhooks" where
  "debounced_send_generic w key event_type payload config now ts =
     (case map_of (wh_debounce w) key of
        None \<Rightarrow> w
      | Some e \<Rightarrow> send_if_under_cap (w\<lparr>wh_debounce := AList.delete key (wh_debounce w)\<rparr>) config
          (dict_merge [(''event'', JStr event_type), (''count'', JInt (de_count e))] payload) now ts)"

definition debounced_send ::
    "webhooks \<Rightarrow> debounce_key \<Rightarrow> json dict \<Rightarrow> webhook_config \<Rightarrow> rat \<Rightarrow> string \<Rightarrow> webhooks" where
  "debounced_send w key event config now ts =
     (let count = (case map_of (wh_debounce w) key of Some e \<Rightarrow> de_count e | None \<Rightarrow> 1);
          w1 = send_if_under_cap w config
            [(''event'', JStr ''blocked''), (''ts'', JStr ts), (''server_slug'', json_field event ''server_slug''),
             (''tool'', json_field event ''tool''), (''rule'', json_field event ''rule''),
             (''matched'', json_field event ''matched''), (''reason'', json_field event ''reason''),
             (''count'', JInt count), (''dlp_detector'', json_field event ''dlp_detector'')] now ts
      in w1\<lparr>wh_debounce := AList.delete key (wh_debounce w1)\<rparr>)"

fun task_due :: "webhook_task \<Rightarrow> rat" where
  "task_due (GenericTask k et p c due) = due"
| "task_due (BlockedTask k ev c due) = due"

fun run_task :: "webhooks \<Rightarrow> webhook_task \<Rightarrow> rat \<Rightarrow> string \<Rightarrow> webhooks" where
  "run_task w (GenericTask key event_type payload config due) now ts =
     debounced_send_generic w key event_type payload config now ts"
| "run_task w (BlockedTask key event config due) now ts = debounced_send w key event config now ts"

text \<open>The first sleeping task whose sleep has ended goes on; \<open>None\<close> when there is none.\<close>

definition wake :: "webhooks \<Rightarrow> rat \<Rightarrow> string \<Rightarrow> webhooks option" where
  "wake w now ts =
     (case dropWhile (\<lambda>t. \<not> task_due t \<le> now) (wh_tasks w) of
        [] \<Rightarrow> None
      | t # later \<Rightarrow> Some (run_task
          (w\<lparr>wh_tasks := takeWhile (\<lambda>t. \<not> task_due t \<le> now) (wh_tasks w) @ later\<rparr>) t now ts))"

subsection \<open>Immediate events\<close>

definition notify_unhealthy :: "webhooks \<Rightarrow> string \<Rightarrow> rat \<Rightarrow> string \<Rightarrow> webhooks" where
  "notify_unhealthy w server_slug now ts =
     (case config_for w ''unhealthy'' of None \<Rightarrow> w
      | Some config \<Rightarrow> send_if_under_cap w config
          [(''event'', JStr ''unhealthy''), (''ts'', JStr ts), (''server_slug'', JStr server_slug), (''count'', JInt 1)] now ts)"

definition notify_approval_pending ::
    "webhooks \<Rightarrow> int \<Rightarrow> string \<Rightarrow> string \<Rightarrow> string \<Rightarrow> rat \<Rightarrow> string \<Rightarrow> webhooks" where
  "notify_approval_pending w proposal_id target_type target_id proposer now ts =
     (case config_for w ''approval_pending'' of None \<Rightarrow> w
      | Some config \<Rightarrow> send_if_under_cap w config
          [(''event'', JStr ''approval_pending''), (''ts'', JStr ts), (''proposal_id'', JInt proposal_id),
           (''target_type'', JStr target_type), (''target_id'', JStr target_id), (''proposer'', JStr proposer),
           (''count'', JInt 1)] now ts)"

definition record_quota_fired :: "(debounce_key \<times> int) list \<Rightarrow> debounce_key \<Rightarrow> int \<Rightarrow> (debounce_key \<times> int) list" where
  "record_quota_fired fired key threshold =
     (let f = AList.update key threshold fired in
      if length f > QUOTA_FIRED_MAX_ENTRIES then drop (length f div 2) f else f)"

definition fire_quota_threshold ::
    "webhooks \<Rightarrow> string \<Rightarrow> string \<Rightarrow> int \<Rightarrow> string \<Rightarrow> string \<Rightarrow> rat \<Rightarrow> string \<Rightarrow> webhooks" where
  "fire_quota_threshold w key_prefix key_name threshold period period_start_iso now ts =
     (case config_for w ''quota'' of None \<Rightarrow> w
      | Some config \<Rightarrow>
          let key = (key_prefix, period_start_iso) in
          if (case map_of (wh_quota_fired w) key of None \<Rightarrow> 0 | Some t \<Rightarrow> t) \<ge> threshold then w
          else send_if_under_cap
            (w\<lparr>wh_quota_fired := record_quota_fired (wh_quota_fired w) key threshold\<rparr>) config
            [(''event'', JStr ''quota''), (''ts'', JStr ts), (''server_slug'', JNull), (''key_prefix'', JStr key_prefix),
             (''key_name'', JStr key_name), (''threshold_percent'', JInt threshold), (''period'', JStr period),
             (''count'', JInt 1)] now ts)"

definition flush_pending_suppression :: "webhooks \<Rightarrow> rat \<Rightarrow> string \<Rightarrow> webhooks" where
  "flush_pending_suppression w now ts =
     (if cs_suppressed (wh_cap w) > 0
      then (case load_config (wh_settings w) of None \<Rightarrow> w
            | Some c \<Rightarrow> send_suppression_notice w c ts (cs_suppressed (wh_cap w)))\<lparr>wh_cap := new_cap now\<rparr>
      else w)"

text \<open>Stopping cancels the task of every entry; a task whose entry was replaced is in no entry.\<close>

fun task_key :: "webhook_task \<Rightarrow> debounce_key" where
  "task_key (GenericTask k et p c due) = k"
| "task_key (BlockedTask k ev c due) = k"

definition task_of_entry :: "webhooks \<Rightarrow> webhook_task \<Rightarrow> bool" where
  "task_of_entry w t = (case map_of (wh_debounce w) (task_key t) of None \<Rightarrow> False
     | Some e \<Rightarrow> task_due t = de_first_seen e + DEBOUNCE_WINDOW_SECONDS)"

definition on_stop :: "webhooks \<Rightarrow> rat \<Rightarrow> string \<Rightarrow> webhooks" where
  "on_stop w now ts = flush_pending_suppression
     (w\<lparr>wh_tasks := filter (\<lambda>t. \<not> task_of_entry w t) (wh_tasks w), wh_debounce := []\<rparr>) now ts"

subsection \<open>The cap\<close>

definition is_notice :: "webhook_post \<Rightarrow> bool" where
  "is_notice p \<longleftrightarrow> map_of (wp_payload p) ''event'' = Some (JStr ''suppressed'')"

definition post_weight :: "webhook_post \<Rightarrow> int" where
  "post_weight p = (if is_notice p then (case map_of (wp_payload p) ''count'' of Some (JInt n) \<Rightarrow> n | _ \<Rightarrow> 0) else 1)"

text \<open>Events delivered, reported in a suppression notice, or waiting to be reported.\<close>

definition accounted :: "webhooks \<Rightarrow> int" where
  "accounted w = sum_list (map post_weight (wh_posts w)) + int (cs_suppressed (wh_cap w))"

lemma post_simps [simp]:
  "wh_cap (post w c p) = wh_cap w" "wh_debounce (post w c p) = wh_debounce w"
  "wh_tasks (post w c p) = wh_tasks w" "wh_quota_fired (post w c p) = wh_quota_fired w"
  "wh_settings (post w c p) = wh_settings w" "length (wh_posts (post w c p)) = Suc (length (wh_posts w))"
  by (simp_all add: post_def)

lemma accounted_post:
  "accounted (post w c p) = accounted w + (if map_of p ''event'' = Some (JStr ''suppressed'')
     then (case map_of p ''count'' of Some (JInt n) \<Rightarrow> n | _ \<Rightarrow> 0) else 1)"
  by (simp add: accounted_def post_def post_weight_def is_notice_def)

lemma accounted_roll: "accounted (roll_window w c now ts) = accounted w"
proof -
  have "accounted (w1\<lparr>wh_cap := new_cap now\<rparr>) = accounted w1 - int (cs_suppressed (wh_cap w1))" for w1 :: webhooks
    by (simp add: accounted_def new_cap_def)
  then show ?thesis
    by (simp add: roll_window_def Let_def send_suppression_notice_def accounted_post suppression_payload_def)
qed

lemma accounted_send:
  assumes "map_of payload ''event'' \<noteq> Some (JStr ''suppressed'')"
  shows "accounted (send_if_under_cap w c payload now ts) = accounted w + 1"
proof -
  let ?w1 = "roll_window w c now ts"
  have "accounted (?w1\<lparr>wh_cap := cap\<rparr>) = accounted ?w1 - int (cs_suppressed (wh_cap ?w1)) + int (cs_suppressed cap)" for cap
    by (simp add: accounted_def)
  with assms accounted_roll [of w c now ts] show ?thesis
    by (simp add: send_if_under_cap_def Let_def accounted_post)
qed

lemma send_frame [simp]:
  "wh_debounce (send_if_under_cap w c p now ts) = wh_debounce w"
  "wh_tasks (send_if_under_cap w c p now ts) = wh_tasks w"
  "wh_quota_fired (send_if_under_cap w c p now ts) = wh_quota_fired w"
  "wh_settings (send_if_under_cap w c p now ts) = wh_settings w"
  by (simp_all add: send_if_under_cap_def Let_def roll_window_def send_suppression_notice_def)

fun send_all :: "webhooks \<Rightarrow> webhook_config \<Rightarrow> (json dict \<times> rat \<times> string) list \<Rightarrow> webhooks" where
  "send_all w c [] = w"
| "send_all w c ((p, now, ts) # xs) = send_all (send_if_under_cap w c p now ts) c xs"

lemma send_in_window:
  assumes "now - cs_window_start (wh_cap w) < CAP_WINDOW_SECONDS"
  shows "cs_window_start (wh_cap (send_if_under_cap w c p now ts)) = cs_window_start (wh_cap w)"
    "cs_count (wh_cap (send_if_under_cap w c p now ts)) =
       (if cs_count (wh_cap w) \<ge> CAP_MAX_PER_WINDOW then cs_count (wh_cap w) else cs_count (wh_cap w) + 1)"
    "cs_suppressed (wh_cap (send_if_under_cap w c p now ts)) =
       (if cs_count (wh_cap w) \<ge> CAP_MAX_PER_WINDOW then cs_suppressed (wh_cap w) + 1 else cs_suppressed (wh_cap w))"
    "length (wh_posts (send_if_under_cap w c p now ts)) =
       (if cs_count (wh_cap w) \<ge> CAP_MAX_PER_WINDOW then length (wh_posts w) else length (wh_posts w) + 1)"
  using assms by (simp_all add: send_if_under_cap_def roll_window_def Let_def)

lemma send_all_in_window:
  assumes "\<forall>(p, now, ts) \<in> set xs. now - cs_window_start (wh_cap w) < CAP_WINDOW_SECONDS"
    and "cs_count (wh_cap w) \<le> CAP_MAX_PER_WINDOW"
  shows "length (wh_posts (send_all w c xs)) =
      length (wh_posts w) + min (length xs) (CAP_MAX_PER_WINDOW - cs_count (wh_cap w))
    \<and> cs_suppressed (wh_cap (send_all w c xs)) =
      cs_suppressed (wh_cap w) + (length xs - (CAP_MAX_PER_WINDOW - cs_count (wh_cap w)))"
  using assms
proof (induction w c xs rule: send_all.induct)
  case (2 w c p now ts xs)
  let ?w = "send_if_under_cap w c p now ts"
  have now: "now - cs_window_start (wh_cap w) < CAP_WINDOW_SECONDS" using 2(2) by simp
  note step = send_in_window [OF now, of c p ts]
  have "length (wh_posts (send_all ?w c xs)) =
      length (wh_posts ?w) + min (length xs) (CAP_MAX_PER_WINDOW - cs_count (wh_cap ?w))
    \<and> cs_suppressed (wh_cap (send_all ?w c xs)) =
      cs_suppressed (wh_cap ?w) + (length xs - (CAP_MAX_PER_WINDOW - cs_count (wh_cap ?w)))"
    using 2(2,3) step by (intro 2(1)) (auto split: if_splits)
  then show ?case using step 2(3) by (auto split: if_splits)
qed simp

subsection \<open>Debouncing\<close>

fun blocked_events :: "webhooks \<Rightarrow> (json dict \<times> rat) list \<Rightarrow> webhooks" where
  "blocked_events w [] = w"
| "blocked_events w ((ev, t) # evs) = blocked_events (handle_blocked w ev t) evs"

definition blocked_key :: "json dict \<Rightarrow> debounce_key" where
  "blocked_key ev = (json_str ev ''server_slug'', json_str ev ''rule'')"

lemma debounced_more:
  assumes "config_for w ''blocked'' = Some c" and "map_of (wh_debounce w) key = Some e"
    and "\<forall>(ev, t) \<in> set evs. blocked_key ev = key \<and> t - de_first_seen e < DEBOUNCE_WINDOW_SECONDS"
  shows "blocked_events w evs =
    w\<lparr>wh_debounce := AList.update key (e\<lparr>de_count := de_count e + int (length evs)\<rparr>) (wh_debounce w)\<rparr>"
  using assms
proof (induction evs arbitrary: w e)
  case Nil
  then have "AList.update key e (wh_debounce w) = wh_debounce w"
    by (metis update_triv)
  then show ?case by simp
next
  case (Cons x evs)
  obtain ev t where x: "x = (ev, t)" by fastforce
  let ?e = "e\<lparr>de_count := de_count e + 1\<rparr>"
  let ?w = "w\<lparr>wh_debounce := AList.update key ?e (wh_debounce w)\<rparr>"
  have hb: "handle_blocked w ev t = ?w"
    using Cons.prems x by (simp add: handle_blocked_def blocked_key_def debounce_def Let_def)
  have "blocked_events ?w evs =
      ?w\<lparr>wh_debounce := AList.update key (?e\<lparr>de_count := de_count ?e + int (length evs)\<rparr>) (wh_debounce ?w)\<rparr>"
    by (rule Cons.IH) (use Cons.prems in \<open>auto simp: config_for_def update_conv'\<close>)
  then show ?case using hb x by (simp add: algebra_simps update_last)
qed

lemma blocked_burst:
  assumes "config_for w ''blocked'' = Some c" and "map_of (wh_debounce w) (blocked_key ev) = None"
    and "\<forall>(ev', t') \<in> set evs. blocked_key ev' = blocked_key ev \<and> t' - t < DEBOUNCE_WINDOW_SECONDS"
  shows "blocked_events w ((ev, t) # evs) =
    w\<lparr>wh_debounce := AList.update (blocked_key ev) \<lparr>de_first_seen = t, de_count = 1 + int (length evs)\<rparr> (wh_debounce w),
      wh_tasks := wh_tasks w @ [BlockedTask (blocked_key ev) ev c (t + DEBOUNCE_WINDOW_SECONDS)]\<rparr>"
proof -
  let ?e = "\<lparr>de_first_seen = t, de_count = 1\<rparr>"
  let ?w = "w\<lparr>wh_debounce := AList.update (blocked_key ev) ?e (wh_debounce w),
      wh_tasks := wh_tasks w @ [BlockedTask (blocked_key ev) ev c (t + DEBOUNCE_WINDOW_SECONDS)]\<rparr>"
  have hb: "handle_blocked w ev t = ?w"
    using assms(1,2) by (simp add: handle_blocked_def blocked_key_def debounce_def Let_def)
  have "blocked_events ?w evs = ?w\<lparr>wh_debounce :=
      AList.update (blocked_key ev) (?e\<lparr>de_count := de_count ?e + int (length evs)\<rparr>) (wh_debounce ?w)\<rparr>"
    by (rule debounced_more) (use assms in \<open>auto simp: config_for_def update_conv'\<close>)
  then show ?thesis using hb by (simp add: update_last)
qed

subsection \<open>Quota thresholds\<close>

lemma length_update:
  "length (AList.update k v d) = (if k \<in> fst ` set d then length d else Suc (length d))"
  by (induction d) auto

lemma drop_update_new:
  "k \<notin> fst ` set d \<Longrightarrow> AList.update k v d = d @ [(k, v)]"
  by (induction d) auto

lemma record_quota_fired_keeps:
  assumes "length fired \<le> QUOTA_FIRED_MAX_ENTRIES"
  shows "length (record_quota_fired fired k t) \<le> QUOTA_FIRED_MAX_ENTRIES"
    and "map_of (record_quota_fired fired k t) k = Some t"
proof -
  show "length (record_quota_fired fired k t) \<le> QUOTA_FIRED_MAX_ENTRIES"
    using assms by (auto simp: record_quota_fired_def Let_def length_update QUOTA_FIRED_MAX_ENTRIES_def)
  show "map_of (record_quota_fired fired k t) k = Some t"
  proof (cases "k \<in> fst ` set fired")
    case True
    then show ?thesis using assms by (simp add: record_quota_fired_def Let_def length_update update_conv')
  next
    case False
    have none: "map_of (drop n fired) k = None" for n
      using False by (simp add: map_of_eq_None_iff) (metis image_mono set_drop_subset subsetD)
    have half: "Suc (length fired) div 2 \<le> length fired \<or> fired = []" by (cases fired) auto
    show ?thesis using False none none [of 0] half
      by (auto simp: record_quota_fired_def Let_def drop_update_new map_add_def)
  qed
qed

subsection \<open>Properties\<close>



text \<open>The cap is exact: while a window lasts, the first events up to the cap are posted and every further one
  is counted as suppressed.\<close>

theorem webhook_cap_exact:
  assumes "\<forall>(p, now, ts) \<in> set xs. now - cs_window_start (wh_cap w) < CAP_WINDOW_SECONDS"
    and "cs_count (wh_cap w) \<le> CAP_MAX_PER_WINDOW"
  shows "length (wh_posts (send_all w c xs)) =
      length (wh_posts w) + min (length xs) (CAP_MAX_PER_WINDOW - cs_count (wh_cap w))
    \<and> cs_suppressed (wh_cap (send_all w c xs)) =
      cs_suppressed (wh_cap w) + (length xs - (CAP_MAX_PER_WINDOW - cs_count (wh_cap w)))"
  using assms by (rule send_all_in_window)

theorem webhook_cap_exact_witness:
  "length (wh_posts (send_all \<lparr>wh_settings = [], wh_debounce = [],
      wh_cap = \<lparr>cs_window_start = 0, cs_count = 19, cs_suppressed = 0\<rparr>, wh_quota_fired = [], wh_tasks = [], wh_posts = []\<rparr>
      \<lparr>wc_url = ''u'', wc_secret = None, wc_events = []\<rparr> [([], 1, ''t''), ([], 2, ''t''), ([], 3, ''t'')])) = 1"
  using webhook_cap_exact [of "[([], 1, ''t''), ([], 2, ''t''), ([], 3, ''t'')]" "\<lparr>wh_settings = [], wh_debounce = [],
      wh_cap = \<lparr>cs_window_start = 0, cs_count = 19, cs_suppressed = 0\<rparr>, wh_quota_fired = [], wh_tasks = [], wh_posts = []\<rparr>"
      "\<lparr>wc_url = ''u'', wc_secret = None, wc_events = []\<rparr>"]
  by (simp add: CAP_WINDOW_SECONDS_def CAP_MAX_PER_WINDOW_def del: send_all.simps)

text \<open>Debouncing coalesces: a burst of blocked calls on one server and rule within the window puts exactly one
  task to sleep, and when it wakes it sends one message whose count is the size of the burst.\<close>

theorem blocked_burst_one_message:
  assumes "config_for w ''blocked'' = Some c" and "wh_tasks w = []" and "wh_debounce w = []"
    and "\<forall>(ev', t') \<in> set evs. blocked_key ev' = blocked_key ev \<and> t' - t < DEBOUNCE_WINDOW_SECONDS"
    and "t + DEBOUNCE_WINDOW_SECONDS \<le> now"
  shows "\<exists>w1 payload. blocked_events w ((ev, t) # evs) = w1 \<and> wh_posts w1 = wh_posts w \<and> length (wh_tasks w1) = 1 \<and>
    map_of payload ''count'' = Some (JInt (1 + int (length evs))) \<and>
    map_of payload ''server_slug'' = Some (json_field ev ''server_slug'') \<and>
    wake w1 now ts = Some (send_if_under_cap w c payload now ts)"
proof -
  let ?k = "blocked_key ev"
  let ?w1 = "w\<lparr>wh_debounce := AList.update ?k \<lparr>de_first_seen = t, de_count = 1 + int (length evs)\<rparr> (wh_debounce w),
      wh_tasks := wh_tasks w @ [BlockedTask ?k ev c (t + DEBOUNCE_WINDOW_SECONDS)]\<rparr>"
  let ?p = "[(''event'', JStr ''blocked''), (''ts'', JStr ts), (''server_slug'', json_field ev ''server_slug''),
             (''tool'', json_field ev ''tool''), (''rule'', json_field ev ''rule''),
             (''matched'', json_field ev ''matched''), (''reason'', json_field ev ''reason''),
             (''count'', JInt (1 + int (length evs))), (''dlp_detector'', json_field ev ''dlp_detector'')]"
  have burst: "blocked_events w ((ev, t) # evs) = ?w1"
    by (rule blocked_burst) (use assms in auto)
  have strip: "(send_if_under_cap (w\<lparr>wh_debounce := d, wh_tasks := []\<rparr>) c ?p now ts)\<lparr>wh_debounce := []\<rparr>
      = send_if_under_cap w c ?p now ts" for d
    using assms(2,3)
    by (cases w) (simp add: send_if_under_cap_def roll_window_def post_def send_suppression_notice_def Let_def)
  have "wake ?w1 now ts = Some (send_if_under_cap w c ?p now ts)"
    using assms(2,3,5) strip by (simp add: wake_def debounced_send_def Let_def)
  then show ?thesis using burst assms(2) by (intro exI [of _ ?w1] exI [of _ ?p]) simp
qed

definition sample_webhooks :: webhooks where
  "sample_webhooks = \<lparr>wh_settings = [(''webhook_url'', ''http''), (''webhook_enabled'', ''true''), (''webhook_events'', ''blocked,quota'')],
     wh_debounce = [], wh_cap = new_cap 0, wh_quota_fired = [], wh_tasks = [], wh_posts = []\<rparr>"

definition sample_config :: webhook_config where
  "sample_config = \<lparr>wc_url = ''http'', wc_secret = None, wc_events = [''blocked'', ''quota'']\<rparr>"

lemma sample_config_for:
  "config_for sample_webhooks ''blocked'' = Some sample_config" "config_for sample_webhooks ''quota'' = Some sample_config"
  by code_simp+

theorem blocked_burst_one_message_witness:
  "\<exists>payload. map_of payload ''count'' = Some (JInt 2) \<and>
     wake (blocked_events sample_webhooks [([], 5), ([], 30)]) 65 ''t''
       = Some (send_if_under_cap sample_webhooks sample_config payload 65 ''t'')"
  using blocked_burst_one_message [OF sample_config_for(1), of "[([], 30)]" "[]" 5 65 "''t''"]
  by (auto simp: DEBOUNCE_WINDOW_SECONDS_def sample_webhooks_def)

text \<open>A quota threshold fires once: after a threshold was sent for a key and period, sending the same or a
  lower one for them changes nothing; and the memory of fired thresholds stays bounded.\<close>

theorem quota_threshold_once:
  assumes "length (wh_quota_fired w) \<le> QUOTA_FIRED_MAX_ENTRIES" and "t' \<le> t"
    and "w' = fire_quota_threshold w pfx name t period start now ts"
  shows "length (wh_quota_fired w') \<le> QUOTA_FIRED_MAX_ENTRIES \<and>
    fire_quota_threshold w' pfx name' t' period' start now' ts' = w'"
proof (cases "config_for w ''quota''")
  case None
  with assms have "w' = w" by (simp add: fire_quota_threshold_def)
  with None assms(1) show ?thesis by (simp add: fire_quota_threshold_def)
next
  case (Some c)
  note keeps = record_quota_fired_keeps [OF assms(1), of "(pfx, start)" t]
  show ?thesis
  proof (cases "(case map_of (wh_quota_fired w) (pfx, start) of None \<Rightarrow> 0 | Some t \<Rightarrow> t) \<ge> t")
    case True
    with Some assms have "w' = w" by (simp add: fire_quota_threshold_def)
    with True Some assms(1,2) show ?thesis by (simp add: fire_quota_threshold_def)
  next
    case False
    with Some assms(3) have f: "wh_quota_fired w' = record_quota_fired (wh_quota_fired w) (pfx, start) t"
      and "wh_settings w' = wh_settings w"
      by (simp_all add: fire_quota_threshold_def Let_def)
    then have "config_for w' ''quota'' = Some c" using Some by (simp add: config_for_def)
    with f keeps assms(2) show ?thesis by (simp add: fire_quota_threshold_def Let_def)
  qed
qed

theorem quota_threshold_once_witness:
  "let w' = fire_quota_threshold sample_webhooks ''k1'' ''n'' 100 ''day'' ''d'' 1 ''t''
   in fire_quota_threshold w' ''k1'' ''n'' 80 ''day'' ''d'' 2 ''t'' = w'"
  using quota_threshold_once [of sample_webhooks 80 100 _ "''k1''" "''n''" "''day''" "''d''" 1 "''t''" "''n''" "''day''" 2 "''t''"]
  by (simp add: sample_webhooks_def Let_def)

end
