(* ===== verification/Metering.thy ===== *)
theory Metering
  imports Rate_Limit_Valkey Usage Webhooks
begin

text \<open>
  Metering, \<open>argus/metering.py\<close>: rate limits, quotas and usage recording around one \<open>tools/call\<close>. The
  limiter is any backend given by its operations \<open>limiter_ops\<close>; the lemmas about it are proved once from
  the contract \<open>rate_limit_backend\<close> and used for both backends. \<open>clock\<close> gathers the three clocks the code
  reads: the limiter's, the wall clock and the monotonic clock of the dispatcher. Percentages are exact.
  The dispatcher is assumed to read its settings without a database error.
\<close>

record clock =
  ck_limiter :: time
  ck_utc :: utc
  ck_mono :: rat

record metering_verdict =
  mv_allowed :: bool
  mv_rule :: "string option"
  mv_reason :: "string option"
  mv_message :: "string option"
  mv_status :: nat
  mv_data :: "json dict option"

definition ALLOWED_verdict :: metering_verdict where
  "ALLOWED_verdict = \<lparr>mv_allowed = True, mv_rule = None, mv_reason = None, mv_message = None, mv_status = 200,
     mv_data = None\<rparr>"

record 's metering =
  mt_limiter :: 's
  mt_usage :: "usage_store option"
  mt_webhooks :: "webhooks option"

definition policy_spec :: "server_policy \<Rightarrow> string option" where
  "policy_spec policy = (case sp_rate_limit policy of None \<Rightarrow> None | Some s \<Rightarrow> if s = [] then None else Some s)"

subsection \<open>Rate limits\<close>

definition sync_server_limit ::
    "'s limiter_ops \<Rightarrow> 's \<Rightarrow> server_record \<Rightarrow> server_policy \<Rightarrow> time \<Rightarrow> spec_error + 's" where
  "sync_server_limit ops s server policy now =
     (case policy_spec policy of
        Some spec \<Rightarrow> lo_ensure_current ops s (server_key (sv_slug server)) spec now
      | None \<Rightarrow> Inr (lo_unregister ops s (server_key (sv_slug server))))"

definition limit_keys :: "server_record \<Rightarrow> server_policy \<Rightarrow> string \<Rightarrow> string list" where
  "limit_keys server policy tool_name =
     (if policy_spec policy \<noteq> None then [server_key (sv_slug server)] else []) @ [tool_key (sv_slug server) tool_name]"

definition check_rate_limits ::
    "'s limiter_ops \<Rightarrow> 's metering \<Rightarrow> server_record \<Rightarrow> server_policy \<Rightarrow> string \<Rightarrow> clock \<Rightarrow>
     (spec_error + metering_verdict) \<times> 's metering" where
  "check_rate_limits ops m server policy tool_name ck =
     (case sync_server_limit ops (mt_limiter m) server policy (ck_limiter ck) of
        Inl e \<Rightarrow> (Inl e, m)
      | Inr s1 \<Rightarrow>
          (case lo_check_all ops s1 (limit_keys server policy tool_name) (ck_limiter ck) of
             (Inl (SpecError e), s2) \<Rightarrow> (Inl e, m\<lparr>mt_limiter := s2\<rparr>)
           | (Inl BackendUnavailable, s2) \<Rightarrow>
               (Inr \<lparr>mv_allowed = False, mv_rule = Some ''rate_limit_backend_unavailable'',
                     mv_reason = Some ''rate limit backend unreachable; failing closed'',
                     mv_message = Some ''Rate limit unavailable'', mv_status = 429,
                     mv_data = Some [(''tool'', JStr tool_name)]\<rparr>, m\<lparr>mt_limiter := s2\<rparr>)
           | (Inr allowed, s2) \<Rightarrow>
               (Inr (if \<not> allowed
                     then \<lparr>mv_allowed = False, mv_rule = Some ''rate_limit'', mv_reason = None,
                           mv_message = Some ''Rate limit exceeded'', mv_status = 429,
                           mv_data = Some [(''tool'', JStr tool_name)]\<rparr>
                     else ALLOWED_verdict), m\<lparr>mt_limiter := s2\<rparr>)))"

subsection \<open>Quotas\<close>

definition crossed_threshold :: "int \<Rightarrow> int \<Rightarrow> int option" where
  "crossed_threshold quota projected_used =
     (let prior_pct = (of_int (projected_used - 1) / of_int quota) * (100 :: rat);
          new_pct = (of_int projected_used / of_int quota) * (100 :: rat)
      in List.find (\<lambda>threshold. prior_pct < of_int threshold \<and> of_int threshold \<le> new_pct) [100, 80])"

definition maybe_fire_quota_webhook ::
    "'s metering \<Rightarrow> api_key_record \<Rightarrow> int \<Rightarrow> string \<Rightarrow> clock \<Rightarrow> 's metering" where
  "maybe_fire_quota_webhook m key projected_used since ck =
     (case (mt_webhooks m, ak_quota_calls key) of
        (Some w, Some quota) \<Rightarrow>
          (case crossed_threshold quota projected_used of
             None \<Rightarrow> m
           | Some threshold \<Rightarrow> m\<lparr>mt_webhooks := Some (fire_quota_threshold w (ak_key_prefix key) (ak_name key) threshold
               (case ak_quota_period key of Some p \<Rightarrow> p | None \<Rightarrow> ''None'') since (ck_mono ck) (isoformat (ck_utc ck)))\<rparr>)
      | _ \<Rightarrow> m)"

definition quota_used :: "usage_store \<Rightarrow> api_key_record \<Rightarrow> string \<Rightarrow> utc \<Rightarrow> (int \<times> string) option" where
  "quota_used u key period now =
     (case period_start period now of
        Inl _ \<Rightarrow> None
      | Inr since \<Rightarrow> (case total_since u (ak_id key) (isoformat since) of Inl _ \<Rightarrow> None
          | Inr used \<Rightarrow> Some (used, isoformat since)))"

definition check_quota ::
    "'s metering \<Rightarrow> server_record \<Rightarrow> string \<Rightarrow> api_key_record option \<Rightarrow> clock \<Rightarrow> metering_verdict \<times> 's metering" where
  "check_quota m server tool_name key_record ck =
     (case (mt_usage m, key_record) of
        (Some u, Some key) \<Rightarrow>
          (case (ak_quota_calls key, ak_quota_period key) of
             (Some quota, Some period) \<Rightarrow>
               (case quota_used u key period (ck_utc ck) of
                  None \<Rightarrow> (ALLOWED_verdict, m)
                | Some (used, since) \<Rightarrow>
                    if used < quota then (ALLOWED_verdict, maybe_fire_quota_webhook m key (used + 1) since ck)
                    else (\<lparr>mv_allowed = False, mv_rule = Some ''quota'',
                           mv_reason = Some (''Quota exceeded: '' @ show_int used @ ''/'' @ show_int quota
                             @ '' calls this '' @ period),
                           mv_message = Some ''Quota exceeded'', mv_status = 429,
                           mv_data = Some [(''tool'', JStr tool_name), (''quota_period'', JStr period)]\<rparr>, m))
           | _ \<Rightarrow> (ALLOWED_verdict, m))
      | _ \<Rightarrow> (ALLOWED_verdict, m))"

definition record_usage ::
    "'s metering \<Rightarrow> server_record \<Rightarrow> string option \<Rightarrow> int option \<Rightarrow> clock \<Rightarrow> 's metering" where
  "record_usage m server tool_name api_key_id ck =
     (case mt_usage m of
        None \<Rightarrow> m
      | Some u \<Rightarrow>
          (case usage_increment u (ck_utc ck) api_key_id (Some (sv_id server)) tool_name 1 (sv_project_id server) of
             Inl _ \<Rightarrow> m
           | Inr u' \<Rightarrow> m\<lparr>mt_usage := Some u'\<rparr>))"

subsection \<open>Rate limits, for every backend\<close>

lemma server_key_neq_tool_key [simp]: "tool_key slug tool \<noteq> server_key slug" "server_key slug \<noteq> tool_key slug tool"
  by (auto simp: server_key_def tool_key_def)

lemma ALLOWED_simps [simp]: "mv_allowed ALLOWED_verdict" "mv_rule ALLOWED_verdict = None"
  by (simp_all add: ALLOWED_verdict_def)

lemma check_rate_limits_frame:
  assumes "check_rate_limits ops m server policy tool ck = (r, m')"
  shows "mt_usage m' = mt_usage m" "mt_webhooks m' = mt_webhooks m"
  using assms by (auto simp: check_rate_limits_def split: sum.splits prod.splits limiter_exn.splits if_splits)

context rate_limit_backend
begin

lemma sync_follows_policy:
  assumes "invar s" and "sync_server_limit ops s server policy now = Inr s'"
  shows "spec_of s' = (spec_of s)(server_key (sv_slug server) := policy_spec policy) \<and> invar s'"
  using assms ensure_spec unregister_spec
  by (auto simp: sync_server_limit_def split: option.splits)

lemma limits_follow_policy:
  assumes "invar (mt_limiter m)" and "check_rate_limits ops m server policy tool ck = (Inr v, m')"
  shows "spec_of (mt_limiter m') = (spec_of (mt_limiter m))(server_key (sv_slug server) := policy_spec policy)
    \<and> invar (mt_limiter m')"
proof -
  obtain s1 where s1: "sync_server_limit ops (mt_limiter m) server policy (ck_limiter ck) = Inr s1"
    using assms(2) by (auto simp: check_rate_limits_def split: sum.splits)
  obtain r s2 where chk: "lo_check_all ops s1 (limit_keys server policy tool) (ck_limiter ck) = (r, s2)" by fastforce
  have "mt_limiter m' = s2"
    using assms(2) s1 chk by (auto simp: check_rate_limits_def split: sum.splits limiter_exn.splits)
  moreover have "spec_of s1 = (spec_of (mt_limiter m))(server_key (sv_slug server) := policy_spec policy) \<and> invar s1"
    using sync_follows_policy [OF assms(1) s1] .
  ultimately show ?thesis using check_keeps [OF _ chk] by simp
qed

lemma unlimited_allowed:
  assumes "invar (mt_limiter m)" and "policy_spec policy = None"
    and "spec_of (mt_limiter m) (tool_key (sv_slug server) tool) = None"
  shows "fst (check_rate_limits ops m server policy tool ck) = Inr ALLOWED_verdict"
proof -
  let ?s = "lo_unregister ops (mt_limiter m) (server_key (sv_slug server))"
  have "spec_of ?s (tool_key (sv_slug server) tool) = None" "invar ?s"
    using unregister_spec [OF assms(1)] assms(3) by simp_all
  then have "lo_check_all ops ?s [tool_key (sv_slug server) tool] (ck_limiter ck) = (Inr True, ?s)"
    using unlimited_tail by blast
  then show ?thesis using assms(2) by (simp add: check_rate_limits_def sync_server_limit_def limit_keys_def)
qed

lemma valid_spec_no_exn:
  assumes "invar s" and "case sp_rate_limit policy of None \<Rightarrow> True | Some spec \<Rightarrow> validate_rate_limit_spec spec = []"
  shows "\<exists>s'. sync_server_limit ops s server policy now = Inr s'"
  using assms validated_spec_parses ensure_parses
  by (fastforce simp: sync_server_limit_def policy_spec_def split: option.splits if_splits)

end

subsection \<open>Quotas over a run of calls\<close>

text \<open>One call after the other: check, then record, as the pipeline does for an allowed and a refused call alike.\<close>

fun quota_run ::
    "'s metering \<Rightarrow> server_record \<Rightarrow> string \<Rightarrow> api_key_record \<Rightarrow> clock list \<Rightarrow> bool list \<times> 's metering" where
  "quota_run m server tool key [] = ([], m)"
| "quota_run m server tool key (ck # cks) =
     (let (v, m1) = check_quota m server tool (Some key) ck;
          m2 = record_usage m1 server (Some tool) (Some (ak_id key)) ck;
          (vs, m3) = quota_run m2 server tool key cks
      in (mv_allowed v # vs, m3))"

lemma maybe_fire_frame [simp]:
  "mt_usage (maybe_fire_quota_webhook m key n since ck) = mt_usage m"
  "mt_limiter (maybe_fire_quota_webhook m key n since ck) = mt_limiter m"
  by (auto simp: maybe_fire_quota_webhook_def split: option.splits)

lemma check_quota_frame:
  assumes "check_quota m server tool key ck = (v, m')"
  shows "mt_usage m' = mt_usage m" "mt_limiter m' = mt_limiter m"
  using assms by (auto simp: check_quota_def split: option.splits if_splits prod.splits)

definition quota_state :: "'s metering \<Rightarrow> api_key_record \<Rightarrow> utc \<Rightarrow> int \<Rightarrow> bool" where
  "quota_state m key since used \<longleftrightarrow> (\<exists>u. mt_usage m = Some u \<and> us_up u \<and> distinct (map fst (us_rows u)) \<and>
     total_since u (ak_id key) (isoformat since) = Inr used)"

lemma check_quota_value:
  assumes "quota_state m key since used" and "ak_quota_calls key = Some q" and "ak_quota_period key = Some period"
    and "period_start period (ck_utc ck) = Inr since"
  shows "mv_allowed (fst (check_quota m server tool (Some key) ck)) \<longleftrightarrow> used < q"
  using assms by (auto simp: quota_state_def check_quota_def quota_used_def split: if_splits)

lemma record_usage_counts:
  assumes "quota_state m key since used" and "utc_ok (ck_utc ck)" and "period_start period (ck_utc ck) = Inr since"
  shows "quota_state (record_usage m server tool (Some (ak_id key)) ck) key since (used + 1)"
proof -
  obtain u where u: "mt_usage m = Some u" "us_up u" "distinct (map fst (us_rows u))"
    "total_since u (ak_id key) (isoformat since) = Inr used"
    using assms(1) by (auto simp: quota_state_def)
  then obtain u' where u': "usage_increment u (ck_utc ck) (Some (ak_id key)) (Some (sv_id server)) tool 1 (sv_project_id server) = Inr u'"
    and up: "us_up u'"
    by (fastforce simp: usage_increment_def Let_def)
  have "isoformat since \<le> hour_bucket (ck_utc ck)" using period_le_bucket [OF assms(2,3)] .
  with total_after_increment [OF u(3) u' u(4)]
  have "total_since u' (ak_id key) (isoformat since) = Inr (used + 1) \<and> distinct (map fst (us_rows u'))"
    by (simp add: to_key_sentinel_def)
  with u u' up show ?thesis by (simp add: quota_state_def record_usage_def)
qed

lemma quota_run_exact:
  assumes "quota_state m key since used" and "ak_quota_calls key = Some q" and "ak_quota_period key = Some period"
    and "\<forall>ck \<in> set cks. utc_ok (ck_utc ck) \<and> period_start period (ck_utc ck) = Inr since"
  shows "fst (quota_run m server tool key cks) = map (\<lambda>i. used + int i < q) [0..<length cks]
    \<and> quota_state (snd (quota_run m server tool key cks)) key since (used + int (length cks))"
  using assms(1,4)
proof (induction cks arbitrary: m used)
  case (Cons ck cks)
  obtain v m1 where c: "check_quota m server tool (Some key) ck = (v, m1)" by fastforce
  let ?m2 = "record_usage m1 server (Some tool) (Some (ak_id key)) ck"
  have v: "mv_allowed v \<longleftrightarrow> used < q"
    using check_quota_value [OF Cons.prems(1) assms(2,3), of ck server tool] Cons.prems(2) c by simp
  have "quota_state m1 key since used"
    using Cons.prems(1) check_quota_frame(1) [OF c] by (simp add: quota_state_def)
  then have "quota_state ?m2 key since (used + 1)" using Cons.prems(2) by (intro record_usage_counts) auto
  from Cons.IH [OF this] Cons.prems(2)
  have ih: "fst (quota_run ?m2 server tool key cks) = map (\<lambda>i. used + 1 + int i < q) [0..<length cks]"
    "quota_state (snd (quota_run ?m2 server tool key cks)) key since (used + 1 + int (length cks))"
    by simp_all
  have "[0..<length (ck # cks)] = 0 # map Suc [0..<length cks]" by (simp add: map_Suc_upt upt_conv_Cons del: upt_Suc)
  then show ?case using c v ih by (auto simp: case_prod_unfold Let_def algebra_simps)
qed simp

lemma find_two: "List.find P [a, b] = (if P a then Some a else if P b then Some b else None)"
  by simp

lemma crossed_threshold_iff:
  assumes "0 < q"
  shows "crossed_threshold q p = (if p = q then Some 100 else if 5 * (p - 1) < 4 * q \<and> 4 * q \<le> 5 * p then Some 80 else None)"
proof -
  have q: "0 < (of_int q :: rat)" using assms by simp
  have t1: "(of_int x / of_int q) * 100 < (of_int t :: rat) \<longleftrightarrow> x * 100 < t * q" for x t :: int
  proof -
    have "(of_int x / of_int q) * 100 < (of_int t :: rat) \<longleftrightarrow> of_int x * 100 < of_int t * (of_int q :: rat)"
      using q by (simp add: field_simps)
    also have "\<dots> \<longleftrightarrow> of_int (x * 100) < (of_int (t * q) :: rat)" by simp
    finally show ?thesis by (simp only: of_int_less_iff)
  qed
  have t2: "(of_int t :: rat) \<le> (of_int x / of_int q) * 100 \<longleftrightarrow> t * q \<le> x * 100" for x t :: int
    using t1 [of x t] by linarith
  show ?thesis
    unfolding crossed_threshold_def Let_def find_two t1 t2 using assms by auto
qed

subsection \<open>Properties\<close>

text \<open>C28. The limiter follows the policy, with either backend: after a check that returns, the server's key holds
  exactly the specification of the current policy (none when the policy has none) and every other key is
  as before.\<close>

theorem rate_limits_follow_policy:
  "(im_invar (mt_limiter m) \<longrightarrow> check_rate_limits in_memory_ops m server policy tool ck = (Inr v, m') \<longrightarrow>
      map_of (im_specs (mt_limiter m')) =
        (map_of (im_specs (mt_limiter m)))(server_key (sv_slug server) := policy_spec policy) \<and> im_invar (mt_limiter m'))
   \<and> (vk_invar (mt_limiter n) \<longrightarrow> check_rate_limits valkey_ops n server policy tool ck = (Inr v, n') \<longrightarrow>
      map_of (vk_specs (mt_limiter n')) =
        (map_of (vk_specs (mt_limiter n)))(server_key (sv_slug server) := policy_spec policy) \<and> vk_invar (mt_limiter n'))"
  using imb.limits_follow_policy [of m server policy tool ck v m'] vkb.limits_follow_policy [of n server policy tool ck v n']
  by blast

definition sample_server :: server_record where
  "sample_server = \<lparr>sv_id = 1, sv_slug = ''fs'', sv_name = ''Files'', sv_upstream_url = ''http://u'', sv_enabled = True,
     sv_in_aggregate = True, sv_upstream_protocol = None, sv_discover_json = None, sv_upstream_auth_header = None,
     sv_credential_mode = ''static'', sv_project_id = Some 1\<rparr>"

definition sample_clock :: clock where
  "sample_clock = \<lparr>ck_limiter = 0, ck_utc = Utc 2026 8 9 14 30 0 0, ck_mono = 0\<rparr>"

lemmas metering_sample_defs = sample_server_def sample_clock_def check_rate_limits_def sync_server_limit_def limit_keys_def
  policy_spec_def default_policy_def server_key_def tool_key_def

theorem rate_limits_follow_policy_witness:
  "im_invar \<lparr>im_buckets = [(''srv:fs'', new_bucket 5 60 0)], im_specs = [(''srv:fs'', ''5/minute'')]\<rparr> \<and>
   (\<exists>v m'. check_rate_limits in_memory_ops
      \<lparr>mt_limiter = \<lparr>im_buckets = [(''srv:fs'', new_bucket 5 60 0)], im_specs = [(''srv:fs'', ''5/minute'')]\<rparr>,
       mt_usage = None, mt_webhooks = None\<rparr> sample_server default_policy ''t'' sample_clock = (Inr v, m') \<and>
      map_of (im_specs (mt_limiter m')) ''srv:fs'' = None)"
proof -
  let ?s = "\<lparr>im_buckets = [(''srv:fs'', new_bucket 5 60 0)], im_specs = [(''srv:fs'', ''5/minute'')]\<rparr>"
  let ?m = "\<lparr>mt_limiter = ?s, mt_usage = None, mt_webhooks = None\<rparr>"
  have inv: "im_invar ?s" by (simp add: im_invar_def)
  have "check_rate_limits in_memory_ops ?m sample_server default_policy ''t'' sample_clock
      = (Inr ALLOWED_verdict, ?m\<lparr>mt_limiter := \<lparr>im_buckets = [], im_specs = []\<rparr>\<rparr>)"
    by (simp add: metering_sample_defs in_memory_ops_def im_unregister_def im_check_def)
  with inv rate_limits_follow_policy [of ?m sample_server default_policy "''t''" sample_clock ALLOWED_verdict
      "?m\<lparr>mt_limiter := \<lparr>im_buckets = [], im_specs = []\<rparr>\<rparr>"]
  show ?thesis by (auto simp: policy_spec_def default_policy_def server_key_def sample_server_def)
qed

text \<open>A rate-limited call fails closed: while the shared storage is unreachable, every call to a server whose
  policy has a (valid) limit is refused with status 429.\<close>

theorem rate_limit_outage_fails_closed:
  assumes "\<not> vk_up (mt_limiter m)" and "sp_rate_limit policy = Some spec" and "validate_rate_limit_spec spec = []"
  shows "\<exists>v. fst (check_rate_limits valkey_ops m server policy tool ck) = Inr v \<and> \<not> mv_allowed v \<and>
    mv_rule v = Some ''rate_limit_backend_unavailable'' \<and> mv_status v = 429"
proof -
  obtain c p where cp: "parse_spec_parts spec = Inr (c, p)" using assms(3) validated_spec_parses by blast
  have ne: "spec \<noteq> []" using assms(3) by (auto simp: validate_rate_limit_spec_def str_strip_def)
  let ?k = "server_key (sv_slug server)"
  obtain s1 where s1: "vk_ensure_current (mt_limiter m) ?k spec = Inr s1" and up: "\<not> vk_up s1"
    and spec1: "map_of (vk_specs s1) ?k = Some spec"
    by (cases "map_of (vk_specs (mt_limiter m)) ?k = Some spec")
      (use assms(1) cp in \<open>simp_all add: vk_ensure_current_def vk_register_def update_conv'\<close>)
  have "vk_check_all s1 (?k # [tool_key (sv_slug server) tool]) (ck_limiter ck) = (Inl BackendUnavailable, s1)"
    using up spec1 cp by (simp add: vk_check_def)
  with s1 ne assms(2) show ?thesis
    by (simp add: check_rate_limits_def sync_server_limit_def policy_spec_def limit_keys_def valkey_ops_def)
qed

theorem rate_limit_outage_fails_closed_witness:
  "\<exists>v. fst (check_rate_limits valkey_ops
      \<lparr>mt_limiter = \<lparr>vk_specs = [], vk_store = [], vk_up = False\<rparr>, mt_usage = None, mt_webhooks = None\<rparr>
      sample_server (default_policy\<lparr>sp_rate_limit := Some ''5/minute''\<rparr>) ''t'' sample_clock) = Inr v \<and> \<not> mv_allowed v"
proof -
  have v: "validate_rate_limit_spec ''5/minute'' = []" by code_simp
  show ?thesis
    using rate_limit_outage_fails_closed [OF _ _ v, of "\<lparr>mt_limiter = \<lparr>vk_specs = [], vk_store = [], vk_up = False\<rparr>,
      mt_usage = None, mt_webhooks = None\<rparr>" "default_policy\<lparr>sp_rate_limit := Some ''5/minute''\<rparr>" sample_server "''t''" sample_clock]
    by auto
qed

text \<open>C29. Quotas are exact for calls made one after the other in one period: with \<open>used\<close> calls recorded, the next
  calls pass exactly while the running count is below the budget, and every call is counted once.\<close>

theorem quota_exact:
  assumes "quota_state m key since used" and "ak_quota_calls key = Some q" and "ak_quota_period key = Some period"
    and "\<forall>ck \<in> set cks. utc_ok (ck_utc ck) \<and> period_start period (ck_utc ck) = Inr since"
  shows "fst (quota_run m server tool key cks) = map (\<lambda>i. used + int i < q) [0..<length cks]
    \<and> quota_state (snd (quota_run m server tool key cks)) key since (used + int (length cks))"
  using assms by (rule quota_run_exact)

definition sample_key :: api_key_record where
  "sample_key = \<lparr>ak_id = 7, ak_name = ''ci'', ak_key_prefix = ''mcpg_ab'', ak_enabled = True, ak_server_scopes = None,
     ak_quota_calls = Some 2, ak_quota_period = Some ''day'', ak_project_id = None\<rparr>"

theorem quota_exact_witness:
  "fst (quota_run \<lparr>mt_limiter = (), mt_usage = Some \<lparr>us_up = True, us_rows = []\<rparr>, mt_webhooks = None\<rparr> sample_server ''t''
      sample_key [sample_clock, sample_clock, sample_clock]) = [True, True, False]"
proof -
  let ?m = "\<lparr>mt_limiter = (), mt_usage = Some \<lparr>us_up = True, us_rows = []\<rparr>, mt_webhooks = None\<rparr>"
  have st: "quota_state ?m sample_key (Utc 2026 8 9 0 0 0 0) 0" by (simp add: quota_state_def total_since_def)
  have "fst (quota_run ?m sample_server ''t'' sample_key [sample_clock, sample_clock, sample_clock])
      = map (\<lambda>i. 0 + int i < 2) [0..<length [sample_clock, sample_clock, sample_clock]]"
    by (rule quota_exact [OF st, THEN conjunct1])
      (auto simp: sample_key_def sample_clock_def utc_ok_def period_start_def)
  then show ?thesis by (simp add: upt_rec)
qed

text \<open>Each quota threshold is crossed by exactly one count: the 100 percent event belongs to the call that uses
  up the budget, the 80 percent event to the first call at or over four fifths of it (unless that is the
  same call).\<close>

theorem quota_threshold_unique:
  assumes "0 < q"
  shows "crossed_threshold q p = (if p = q then Some 100
    else if p = (4 * q + 4) div 5 then Some 80 else None)"
  using assms unfolding crossed_threshold_iff [OF assms] by (auto simp: not_less)

theorem quota_threshold_unique_witness:
  "map (crossed_threshold 10) [7, 8, 9, 10] = [None, Some 80, None, Some 100]"
  by (simp add: quota_threshold_unique)

end
