(* ===== verification/Api_Keys.thy ===== *)
theory Api_Keys
  imports Models
begin

text \<open>
  API keys: \<open>archon/auth/apikeys.py\<close> over \<open>ApiKeyRepo\<close> of \<open>db/repo.py\<close>. The table is a list of rows in
  order of their serial ids. \<open>hash\<close> stands for SHA-256 of the UTF-8 text and is a parameter; what the code
  relies on, that different keys have different hashes, is the hypothesis \<open>inj hash\<close> where it is needed.
  \<open>key_hash\<close> is declared unique in the schema, so an insert with a hash already present fails.
\<close>

definition KEY_PREFIX :: string where "KEY_PREFIX = ''acropolis_''"
definition DISPLAY_PREFIX_LEN :: nat where "DISPLAY_PREFIX_LEN = 16"
definition TOUCH_DEBOUNCE_SECONDS :: rat where "TOUCH_DEBOUNCE_SECONDS = 60"

record key_row =
  kr_record :: api_key_record
  kr_hash :: string
  kr_last_used :: "string option"

record key_store =
  ks_rows :: "key_row list"
  ks_next_id :: int
  ks_default_project :: "int option"
  ks_last_touch :: "(int \<times> rat) list"

definition row_id :: "key_row \<Rightarrow> int" where
  "row_id r = ak_id (kr_record r)"

definition find_row :: "key_store \<Rightarrow> (key_row \<Rightarrow> bool) \<Rightarrow> key_row option" where
  "find_row s P = List.find P (ks_rows s)"

definition map_row :: "key_store \<Rightarrow> int \<Rightarrow> (key_row \<Rightarrow> key_row) \<Rightarrow> key_store" where
  "map_row s key_id f = s\<lparr>ks_rows := map (\<lambda>r. if row_id r = key_id then f r else r) (ks_rows s)\<rparr>"

subsection \<open>The repository\<close>

definition key_repo_create ::
    "key_store \<Rightarrow> string \<Rightarrow> string \<Rightarrow> string \<Rightarrow> string list option \<Rightarrow> int option \<Rightarrow> string option \<Rightarrow> int option \<Rightarrow>
     (api_key_record \<times> key_store) option" where
  "key_repo_create s name key_hash key_prefix scopes quota_calls quota_period project_id =
     (if \<exists>r \<in> set (ks_rows s). kr_hash r = key_hash then None
      else let rec = \<lparr>ak_id = ks_next_id s, ak_name = name, ak_key_prefix = key_prefix, ak_enabled = True,
                 ak_server_scopes = (case scopes of Some (x # xs) \<Rightarrow> Some (x # xs) | _ \<Rightarrow> None),
                 ak_quota_calls = quota_calls, ak_quota_period = quota_period,
                 ak_project_id = (case project_id of Some p \<Rightarrow> Some p | None \<Rightarrow> ks_default_project s)\<rparr>
           in Some (rec, s\<lparr>ks_rows := ks_rows s @ [\<lparr>kr_record = rec, kr_hash = key_hash, kr_last_used = None\<rparr>],
                           ks_next_id := ks_next_id s + 1\<rparr>))"

definition get_by_id :: "key_store \<Rightarrow> int \<Rightarrow> api_key_record option" where
  "get_by_id s key_id = map_option kr_record (find_row s (\<lambda>r. row_id r = key_id))"

definition get_by_hash :: "key_store \<Rightarrow> string \<Rightarrow> api_key_record option" where
  "get_by_hash s h = map_option kr_record (find_row s (\<lambda>r. kr_hash r = h \<and> ak_enabled (kr_record r)))"

definition key_repo_list :: "key_store \<Rightarrow> int option \<Rightarrow> api_key_record list" where
  "key_repo_list s project_id = rev (map kr_record (filter (\<lambda>r. case project_id of None \<Rightarrow> True
     | Some p \<Rightarrow> ak_project_id (kr_record r) = Some p) (ks_rows s)))"

definition set_enabled :: "key_store \<Rightarrow> int \<Rightarrow> bool \<Rightarrow> key_store" where
  "set_enabled s key_id b = map_row s key_id (\<lambda>r. r\<lparr>kr_record := (kr_record r)\<lparr>ak_enabled := b\<rparr>\<rparr>)"

definition set_quota :: "key_store \<Rightarrow> int \<Rightarrow> int option \<Rightarrow> string option \<Rightarrow> key_store" where
  "set_quota s key_id calls period =
     map_row s key_id (\<lambda>r. r\<lparr>kr_record := (kr_record r)\<lparr>ak_quota_calls := calls, ak_quota_period := period\<rparr>\<rparr>)"

definition delete_key :: "key_store \<Rightarrow> int \<Rightarrow> key_store" where
  "delete_key s key_id = s\<lparr>ks_rows := filter (\<lambda>r. row_id r \<noteq> key_id) (ks_rows s)\<rparr>"

definition touch_last_used :: "key_store \<Rightarrow> int \<Rightarrow> rat \<Rightarrow> string \<Rightarrow> key_store" where
  "touch_last_used s key_id now ts =
     (if (case map_of (ks_last_touch s) key_id of None \<Rightarrow> False | Some l \<Rightarrow> now - l < TOUCH_DEBOUNCE_SECONDS) then s
      else map_row (s\<lparr>ks_last_touch := AList.update key_id now (ks_last_touch s)\<rparr>) key_id
        (\<lambda>r. r\<lparr>kr_last_used := Some ts\<rparr>))"

subsection \<open>The service\<close>

text \<open>\<open>token\<close> is the random part \<open>secrets.token_urlsafe\<close> returns.\<close>

definition generate_plaintext :: "string \<Rightarrow> string" where
  "generate_plaintext token = KEY_PREFIX @ token"

definition create_key ::
    "(string \<Rightarrow> string) \<Rightarrow> key_store \<Rightarrow> string \<Rightarrow> string \<Rightarrow> string list option \<Rightarrow> int option \<Rightarrow> string option \<Rightarrow> int option \<Rightarrow>
     (api_key_record \<times> string \<times> key_store) option" where
  "create_key hash s token name scopes quota_calls quota_period project_id =
     (let plaintext = generate_plaintext token in
      map_option (\<lambda>(rec, s'). (rec, plaintext, s'))
        (key_repo_create s name (hash plaintext) (take DISPLAY_PREFIX_LEN plaintext) scopes quota_calls quota_period project_id))"

definition is_ascii :: "string \<Rightarrow> bool" where
  "is_ascii s = list_all (\<lambda>c. of_char c < (128 :: nat)) s"

definition verify ::
    "(string \<Rightarrow> string) \<Rightarrow> key_store \<Rightarrow> string \<Rightarrow> rat \<Rightarrow> string \<Rightarrow> api_key_record option \<times> key_store" where
  "verify hash s plaintext now ts =
     (if plaintext = [] \<or> \<not> is_ascii (take (length KEY_PREFIX) plaintext) then (None, s)
      else if take (length KEY_PREFIX) plaintext \<noteq> KEY_PREFIX then (None, s)
      else case get_by_hash s (hash plaintext) of
          None \<Rightarrow> (None, s)
        | Some rec \<Rightarrow> (Some rec, touch_last_used s (ak_id rec) now ts))"

definition key_permits_server :: "api_key_record \<Rightarrow> string \<Rightarrow> bool" where
  "key_permits_server rec slug = (case ak_server_scopes rec of None \<Rightarrow> True | Some scopes \<Rightarrow> slug \<in> set scopes)"

definition key_scope_violation :: "api_key_record \<Rightarrow> string \<Rightarrow> server_record \<Rightarrow> string option" where
  "key_scope_violation rec slug server =
     (let msg = ''key not scoped for server '' @ [CHR 0x27] @ slug @ [CHR 0x27] in
      if \<not> key_permits_server rec slug then Some msg
      else if ak_project_id rec = None \<or> ak_project_id rec \<noteq> sv_project_id server then Some msg
      else None)"

subsection \<open>The table invariant\<close>

definition keys_ok :: "key_store \<Rightarrow> bool" where
  "keys_ok s \<longleftrightarrow> distinct (map row_id (ks_rows s)) \<and> distinct (map kr_hash (ks_rows s))
     \<and> (\<forall>r \<in> set (ks_rows s). row_id r < ks_next_id s)"

lemma map_row_ids:
  assumes "\<And>r. row_id (f r) = row_id r" "\<And>r. kr_hash (f r) = kr_hash r"
  shows "map row_id (ks_rows (map_row s k f)) = map row_id (ks_rows s)"
    "map kr_hash (ks_rows (map_row s k f)) = map kr_hash (ks_rows s)"
  using assms by (simp_all add: map_row_def comp_def if_distrib cong: if_cong)

lemma map_row_ok:
  assumes "keys_ok s" "\<And>r. row_id (f r) = row_id r" "\<And>r. kr_hash (f r) = kr_hash r"
  shows "keys_ok (map_row s k f)"
proof -
  have "row_id ` set (ks_rows (map_row s k f)) = row_id ` set (ks_rows s)"
    using arg_cong [OF map_row_ids(1) [OF assms(2,3)], of set s k] by simp
  moreover have "ks_next_id (map_row s k f) = ks_next_id s" by (simp add: map_row_def)
  ultimately show ?thesis
    using assms(1) map_row_ids [OF assms(2,3), of s k] unfolding keys_ok_def by (metis (no_types, lifting) imageE imageI)
qed

lemma set_enabled_ok: "keys_ok s \<Longrightarrow> keys_ok (set_enabled s k b)"
  unfolding set_enabled_def by (rule map_row_ok) (simp_all add: row_id_def)

lemma set_quota_ok: "keys_ok s \<Longrightarrow> keys_ok (set_quota s k c p)"
  unfolding set_quota_def by (rule map_row_ok) (simp_all add: row_id_def)

lemma touch_ok: "keys_ok s \<Longrightarrow> keys_ok (touch_last_used s k now ts)"
proof -
  assume "keys_ok s"
  then have "keys_ok (s\<lparr>ks_last_touch := t\<rparr>)" for t by (simp add: keys_ok_def)
  then have "keys_ok (map_row (s\<lparr>ks_last_touch := t\<rparr>) k (\<lambda>r. r\<lparr>kr_last_used := Some ts\<rparr>))" for t
    by (rule map_row_ok) (simp_all add: row_id_def)
  with \<open>keys_ok s\<close> show ?thesis by (simp add: touch_last_used_def)
qed

lemma delete_key_ok: "keys_ok s \<Longrightarrow> keys_ok (delete_key s k)"
  by (auto simp: keys_ok_def delete_key_def distinct_map_filter)

lemma verify_ok: "keys_ok s \<Longrightarrow> keys_ok (snd (verify hash s p now ts))"
  by (auto simp: verify_def touch_ok split: option.splits)

lemma key_repo_create_ok:
  "keys_ok s \<Longrightarrow> key_repo_create s n h pre sc qc qp pid = Some (rec, s') \<Longrightarrow> keys_ok s'"
  by (fastforce simp: key_repo_create_def keys_ok_def Let_def row_id_def split: if_splits)

subsection \<open>Lookup\<close>

lemma find_append: "List.find P (xs @ ys) = (case List.find P xs of None \<Rightarrow> List.find P ys | Some x \<Rightarrow> Some x)"
  by (induction xs) auto

lemma get_by_hash_mem:
  assumes "get_by_hash s h = Some rec"
  shows "\<exists>r \<in> set (ks_rows s). kr_record r = rec \<and> kr_hash r = h \<and> ak_enabled rec"
proof -
  obtain r where r: "List.find (\<lambda>r. kr_hash r = h \<and> ak_enabled (kr_record r)) (ks_rows s) = Some r" "rec = kr_record r"
    using assms by (auto simp: get_by_hash_def find_row_def)
  then show ?thesis unfolding find_Some_iff by (metis nth_mem)
qed

lemma get_by_hash_none:
  assumes "\<forall>r \<in> set (ks_rows s). kr_hash r = h \<longrightarrow> \<not> ak_enabled (kr_record r)"
  shows "get_by_hash s h = None"
  using assms by (auto simp: get_by_hash_def find_row_def find_None_iff)

lemma verify_prefixed: "take (length KEY_PREFIX) (generate_plaintext token) = KEY_PREFIX"
    "generate_plaintext token \<noteq> []" "is_ascii KEY_PREFIX"
  by (simp_all add: generate_plaintext_def KEY_PREFIX_def is_ascii_def)

lemma verify_generated:
  "fst (verify hash s (generate_plaintext token) now ts) = get_by_hash s (hash (generate_plaintext token))"
  using verify_prefixed by (simp add: verify_def split: option.splits)

lemma verify_Some:
  assumes "verify hash s p now ts = (Some rec, s')"
  shows "get_by_hash s (hash p) = Some rec" "take (length KEY_PREFIX) p = KEY_PREFIX"
  using assms by (auto simp: verify_def split: if_splits option.splits)

text \<open>The row a successful creation adds.\<close>

lemma create_key_row:
  assumes "create_key hash s token n sc qc qp pid = Some (rec, plain, s')"
  shows "plain = generate_plaintext token" "ak_id rec = ks_next_id s" "ak_enabled rec"
    "ks_rows s' = ks_rows s @ [\<lparr>kr_record = rec, kr_hash = hash plain, kr_last_used = None\<rparr>]"
    "\<forall>r \<in> set (ks_rows s). kr_hash r \<noteq> hash plain"
  using assms by (auto simp: create_key_def key_repo_create_def Let_def split: if_splits)

lemma create_key_get:
  assumes "create_key hash s token n sc qc qp pid = Some (rec, plain, s')"
  shows "get_by_hash s' (hash plain) = Some rec"
proof -
  have "List.find (\<lambda>r. kr_hash r = hash plain \<and> ak_enabled (kr_record r)) (ks_rows s) = None"
    using create_key_row(5) [OF assms] by (auto simp: find_None_iff)
  with create_key_row(3,4) [OF assms] show ?thesis by (simp add: get_by_hash_def find_row_def find_append)
qed

lemma other_rows_ids:
  assumes "keys_ok s" "create_key hash s token n sc qc qp pid = Some (rec, plain, s')"
  shows "\<forall>r \<in> set (ks_rows s'). kr_hash r = hash plain \<longrightarrow> row_id r = ak_id rec"
  using create_key_row(4,5) [OF assms(2)] by (auto simp: row_id_def)

subsection \<open>Properties\<close>

text \<open>A key's life: the plaintext handed out at creation authenticates as the new record; after the key is
  disabled, or deleted, the same plaintext authenticates as nobody.\<close>

theorem key_lifecycle:
  assumes "keys_ok s" and "create_key hash s token name scopes qc qp pid = Some (rec, plaintext, s')"
  shows "fst (verify hash s' plaintext now ts) = Some rec
    \<and> fst (verify hash (set_enabled s' (ak_id rec) False) plaintext now ts) = None
    \<and> fst (verify hash (delete_key s' (ak_id rec)) plaintext now ts) = None"
proof -
  note row = create_key_row [OF assms(2)] and ids = other_rows_ids [OF assms]
  have "get_by_hash (set_enabled s' (ak_id rec) False) (hash plaintext) = None"
    by (rule get_by_hash_none) (use ids in \<open>auto simp: set_enabled_def map_row_def\<close>)
  moreover have "get_by_hash (delete_key s' (ak_id rec)) (hash plaintext) = None"
    by (rule get_by_hash_none) (use ids in \<open>auto simp: delete_key_def\<close>)
  ultimately show ?thesis using create_key_get [OF assms(2)] unfolding row(1) verify_generated by simp
qed

definition empty_keys :: key_store where
  "empty_keys = \<lparr>ks_rows = [], ks_next_id = 1, ks_default_project = Some 1, ks_last_touch = []\<rparr>"

theorem key_lifecycle_witness:
  "\<exists>rec plaintext s'. create_key id empty_keys ''abc'' ''ci'' None None None None = Some (rec, plaintext, s') \<and>
     fst (verify id s' plaintext 0 ''t'') = Some rec \<and>
     fst (verify id (set_enabled s' (ak_id rec) False) plaintext 0 ''t'') = None"
proof -
  have ok: "keys_ok empty_keys" by (simp add: keys_ok_def empty_keys_def)
  obtain rec plaintext s' where c: "create_key id empty_keys ''abc'' ''ci'' None None None None = Some (rec, plaintext, s')"
    by (simp add: create_key_def key_repo_create_def empty_keys_def Let_def)
  from key_lifecycle [OF ok c] c show ?thesis by blast
qed

text \<open>Authentication is sound: a plaintext that authenticates has the gateway's prefix and belongs to an enabled
  row of the table with its hash; without hash collisions the plaintext of a created key is the only one that
  authenticates as that key.\<close>

theorem verify_sound:
  assumes "inj hash" and "keys_ok s" and "create_key hash s token name scopes qc qp pid = Some (rec, plaintext, s')"
    and "verify hash s' p now ts = (Some rec', s'')"
  shows "take (length KEY_PREFIX) p = KEY_PREFIX \<and>
    (\<exists>r \<in> set (ks_rows s'). kr_record r = rec' \<and> kr_hash r = hash p \<and> ak_enabled rec') \<and>
    (ak_id rec' = ak_id rec \<longrightarrow> p = plaintext)"
proof -
  note v = verify_Some [OF assms(4)] and row = create_key_row [OF assms(3)]
  obtain r where r: "r \<in> set (ks_rows s')" "kr_record r = rec'" "kr_hash r = hash p" "ak_enabled rec'"
    using get_by_hash_mem [OF v(1)] by blast
  have "p = plaintext" if id: "ak_id rec' = ak_id rec"
  proof -
    have "r \<notin> set (ks_rows s)" using assms(2) r(2) id row(2) by (auto simp: keys_ok_def row_id_def)
    then have "kr_hash r = hash plaintext" using r(1) row(4) by auto
    then show ?thesis using r(3) assms(1) by (simp add: inj_eq)
  qed
  with v(2) r show ?thesis by blast
qed

theorem verify_sound_witness:
  "\<exists>rec s' s''. create_key id empty_keys ''abc'' ''ci'' None None None None = Some (rec, ''acropolis_abc'', s') \<and>
     verify id s' ''acropolis_abc'' 0 ''t'' = (Some rec, s'') \<and> ak_enabled rec"
proof -
  have ok: "keys_ok empty_keys" by (simp add: keys_ok_def empty_keys_def)
  obtain rec plaintext s' where c: "create_key id empty_keys ''abc'' ''ci'' None None None None = Some (rec, plaintext, s')"
    by (simp add: create_key_def key_repo_create_def empty_keys_def Let_def)
  have p: "plaintext = ''acropolis_abc''"
    using create_key_row(1) [OF c] by (simp add: generate_plaintext_def KEY_PREFIX_def)
  have "fst (verify id s' plaintext 0 ''t'') = Some rec"
    using create_key_get [OF c] unfolding create_key_row(1) [OF c] verify_generated by simp
  then obtain s'' where v: "verify id s' plaintext 0 ''t'' = (Some rec, s'')" by (metis prod.collapse)
  from verify_sound [OF _ ok c v] c v p show ?thesis by auto
qed

text \<open>Project isolation: a key may reach a server exactly when its scope list (if it has one) names the server
  and both belong to one and the same project; a key or a server without a project never matches.\<close>

theorem key_scope_isolation:
  "key_scope_violation rec slug server = None \<longleftrightarrow>
     (case ak_server_scopes rec of None \<Rightarrow> True | Some scopes \<Rightarrow> slug \<in> set scopes) \<and>
     (\<exists>p. ak_project_id rec = Some p \<and> sv_project_id server = Some p)"
  by (cases "ak_server_scopes rec"; cases "ak_project_id rec"; cases "sv_project_id server")
    (auto simp: key_scope_violation_def key_permits_server_def Let_def)

text \<open>A key created with an explicit empty scope list is stored without a scope list, so the scope check lets it
  reach every server of its project.\<close>

theorem empty_scope_list_is_unrestricted:
  assumes "create_key hash s token name (Some []) qc qp pid = Some (rec, plaintext, s')"
  shows "ak_server_scopes rec = None \<and> (\<forall>slug. key_permits_server rec slug)"
  using assms by (auto simp: create_key_def key_repo_create_def Let_def key_permits_server_def split: if_splits)

theorem empty_scope_list_is_unrestricted_witness:
  "\<exists>rec s'. create_key id empty_keys ''abc'' ''ci'' (Some []) None None None = Some (rec, ''acropolis_abc'', s') \<and>
     key_permits_server rec ''any''"
proof -
  obtain rec plaintext s' where c: "create_key id empty_keys ''abc'' ''ci'' (Some []) None None None = Some (rec, plaintext, s')"
    by (simp add: create_key_def key_repo_create_def empty_keys_def Let_def)
  have "plaintext = ''acropolis_abc''"
    using create_key_row(1) [OF c] by (simp add: generate_plaintext_def KEY_PREFIX_def)
  with empty_scope_list_is_unrestricted [OF c] c show ?thesis by blast
qed

end
