(* ===== verification/Response_Dlp.thy ===== *)
theory Response_Dlp
  imports Dlp "HOL-Library.Multiset"
begin

text \<open>
  Scanning of upstream responses, \<open>argus/response_dlp.py\<close>: the string leaves of a JSON-RPC message are
  collected, cut to an equal share of the byte budget when they exceed it, redacted, and put back in
  place. Code points are below 256, so UTF-8 uses one or two bytes per character.
\<close>

definition HARD_LIMIT_MARKER :: string where
  "HARD_LIMIT_MARKER = ''[TRUNCATED: response exceeded the hard read limit; narrow the query]''"
definition UNPARSEABLE_MARKER :: string where
  "UNPARSEABLE_MARKER = ''[TRUNCATED: response could not be parsed for scanning]''"
definition HARD_CEILING_FACTOR :: int where "HARD_CEILING_FACTOR = 8"
definition CUT_LOOKAHEAD_CHARS :: nat where "CUT_LOOKAHEAD_CHARS = 4096"
definition SCANNED_MEMBERS :: "string list" where
  "SCANNED_MEMBERS = [''result'', ''error'', ''params'']"

definition format_limit :: "int \<Rightarrow> string" where
  "format_limit limit = (if limit = RESPONSE_DLP_MAX_BYTES_DEFAULT then ''1 MB'' else show_int limit @ '' bytes'')"

definition truncation_marker :: "int \<Rightarrow> string" where
  "truncation_marker limit = ''[TRUNCATED: response exceeded the '' @ format_limit limit @ '' scan limit; narrow the query]''"

record response_scan =
  rs_result :: json
  rs_detectors_fired :: "string list"
  rs_match_count :: nat
  rs_truncated :: bool

definition marker_message :: "json \<Rightarrow> string \<Rightarrow> json" where
  "marker_message rpc_id text = JObj [(''jsonrpc'', JStr ''2.0''), (''id'', rpc_id),
     (''result'', JObj [(''content'', JList [JObj [(''type'', JStr ''text''), (''text'', JStr text)]]),
        (''isError'', JBool False)])]"

definition response_dlp_enabled :: "server_policy \<Rightarrow> json \<Rightarrow> bool" where
  "response_dlp_enabled policy rpc_method = (sp_response_dlp_detectors policy \<noteq> [] \<and> rpc_method = JStr ''tools/call'')"

subsection \<open>Leaves\<close>

fun collect :: "json \<Rightarrow> string list"
  and collect_list :: "json list \<Rightarrow> string list"
  and collect_items :: "json dict \<Rightarrow> string list" where
  "collect (JStr s) = [s]"
| "collect (JObj kvs) = collect_items kvs"
| "collect (JList xs) = collect_list xs"
| "collect JNull = []"
| "collect (JBool b) = []"
| "collect (JInt n) = []"
| "collect (JFloat f) = []"
| "collect_list [] = []"
| "collect_list (x # xs) = collect x @ collect_list xs"
| "collect_items [] = []"
| "collect_items ((k, v) # kvs) = collect v @ collect_items kvs"

text \<open>\<open>None\<close> is the iterator of replacements running out.\<close>

fun rebuild :: "json \<Rightarrow> string list \<Rightarrow> (json \<times> string list) option"
  and rebuild_list :: "json list \<Rightarrow> string list \<Rightarrow> (json list \<times> string list) option"
  and rebuild_items :: "json dict \<Rightarrow> string list \<Rightarrow> (json dict \<times> string list) option" where
  "rebuild (JStr s) rs = (case rs of [] \<Rightarrow> None | r # rs' \<Rightarrow> Some (JStr r, rs'))"
| "rebuild (JObj kvs) rs = map_option (\<lambda>(kvs', rs'). (JObj kvs', rs')) (rebuild_items kvs rs)"
| "rebuild (JList xs) rs = map_option (\<lambda>(xs', rs'). (JList xs', rs')) (rebuild_list xs rs)"
| "rebuild JNull rs = Some (JNull, rs)"
| "rebuild (JBool b) rs = Some (JBool b, rs)"
| "rebuild (JInt n) rs = Some (JInt n, rs)"
| "rebuild (JFloat f) rs = Some (JFloat f, rs)"
| "rebuild_list [] rs = Some ([], rs)"
| "rebuild_list (x # xs) rs = Option.bind (rebuild x rs) (\<lambda>(x', rs1).
     Option.bind (rebuild_list xs rs1) (\<lambda>(xs', rs2). Some (x' # xs', rs2)))"
| "rebuild_items [] rs = Some ([], rs)"
| "rebuild_items ((k, v) # kvs) rs = Option.bind (rebuild v rs) (\<lambda>(v', rs1).
     Option.bind (rebuild_items kvs rs1) (\<lambda>(kvs', rs2). Some ((k, v') # kvs', rs2)))"

fun collect_members :: "json dict \<Rightarrow> string list \<Rightarrow> string list" where
  "collect_members m [] = []"
| "collect_members m (k # ks) = (case map_of m k of None \<Rightarrow> collect_members m ks
     | Some v \<Rightarrow> collect v @ collect_members m ks)"

fun rebuild_members :: "json dict \<Rightarrow> string list \<Rightarrow> string list \<Rightarrow> (json dict \<times> string list) option" where
  "rebuild_members m [] rs = Some (m, rs)"
| "rebuild_members m (k # ks) rs = (case map_of m k of None \<Rightarrow> rebuild_members m ks rs
     | Some v \<Rightarrow> Option.bind (rebuild v rs) (\<lambda>(v', rs1). rebuild_members (AList.update k v' m) ks rs1))"

fun collect_message :: "json \<Rightarrow> string list" where
  "collect_message (JObj m) = collect_members m SCANNED_MEMBERS"
| "collect_message _ = []"

fun rebuild_message :: "json \<Rightarrow> string list \<Rightarrow> (json \<times> string list) option" where
  "rebuild_message (JObj m) rs = map_option (\<lambda>(m', rs'). (JObj m', rs')) (rebuild_members m SCANNED_MEMBERS rs)"
| "rebuild_message m rs = Some (m, rs)"

fun rebuild_messages :: "json list \<Rightarrow> string list \<Rightarrow> (json list \<times> string list) option" where
  "rebuild_messages [] rs = Some ([], rs)"
| "rebuild_messages (m # ms) rs = Option.bind (rebuild_message m rs) (\<lambda>(m', rs1).
     Option.bind (rebuild_messages ms rs1) (\<lambda>(ms', rs2). Some (m' # ms', rs2)))"

definition messages_of :: "json \<Rightarrow> json list" where
  "messages_of message = (case message of JList ms \<Rightarrow> ms | m \<Rightarrow> [m])"

definition leaves_of :: "json \<Rightarrow> string list" where
  "leaves_of message = concat (map collect_message (messages_of message))"

subsection \<open>The byte budget\<close>

fun share_loop :: "int \<Rightarrow> int list \<Rightarrow> int option" where
  "share_loop remaining [] = None"
| "share_loop remaining (sz # sizes) =
     (let share = remaining div int (length (sz # sizes)) in
      if sz > share then Some share else share_loop (remaining - sz) sizes)"

definition equal_share_cap :: "int list \<Rightarrow> int \<Rightarrow> int" where
  "equal_share_cap sizes budget =
     (case share_loop budget (sort sizes) of Some share \<Rightarrow> share
      | None \<Rightarrow> if sizes = [] then 0 else Max (set sizes))"

definition utf8_char :: "char \<Rightarrow> string" where
  "utf8_char c = (let n = of_char c :: nat in
     if n < 128 then [c] else [char_of (192 + n div 64), char_of (128 + n mod 64)])"

definition utf8_encode :: "string \<Rightarrow> string" where
  "utf8_encode s = concat (map utf8_char s)"

text \<open>\<open>decode("utf-8", errors="ignore")\<close> on bytes that encode code points below 256.\<close>

fun utf8_decode_ignore :: "string \<Rightarrow> string" where
  "utf8_decode_ignore [] = []"
| "utf8_decode_ignore (b # bs) =
     (let n = of_char b :: nat in
      if n < 128 then b # utf8_decode_ignore bs
      else if n = 194 \<or> n = 195 then
        (case bs of [] \<Rightarrow> []
         | c # cs \<Rightarrow> if 128 \<le> (of_char c :: nat) \<and> (of_char c :: nat) < 192
             then char_of ((n - 192) * 64 + (of_char c - 128)) # utf8_decode_ignore cs
             else utf8_decode_ignore bs)
      else utf8_decode_ignore bs)"

definition cut :: "string \<Rightarrow> int \<Rightarrow> string" where
  "cut text max_bytes = utf8_decode_ignore (take (nat max_bytes) (utf8_encode text))"

definition byte_size :: "string \<Rightarrow> int" where
  "byte_size s = int (length (utf8_encode s))"

subsection \<open>Scanning\<close>

definition redact_names :: "server_policy \<Rightarrow> string list" where
  "redact_names policy = sort (remdups (map fst (filter (\<lambda>(n, a). a = ''redact'') (sp_response_dlp_detectors policy))))"

definition active_builtins :: "server_policy \<Rightarrow> detector list" where
  "active_builtins policy = List.map_filter (map_of BUILTIN_DETECTORS) (redact_names policy)"

definition active_customs :: "server_policy \<Rightarrow> dlp_custom_pattern list" where
  "active_customs policy = map (\<lambda>p. p\<lparr>cp_action := ''redact''\<rparr>)
     (filter (\<lambda>p. cp_name p \<in> set (redact_names policy)) (sp_dlp_custom_patterns policy))"

fun customs_found :: "regex_env \<Rightarrow> string \<Rightarrow> dlp_custom_pattern list \<Rightarrow> eval_exn + finding list" where
  "customs_found env text [] = Inr []"
| "customs_found env text (p # ps) = rbind (scan_value_with_custom_pattern env text p) (\<lambda>fs.
     rbind (customs_found env text ps) (\<lambda>rest. Inr (fs @ rest)))"

definition findings_in ::
    "regex_env \<Rightarrow> string \<Rightarrow> detector list \<Rightarrow> dlp_custom_pattern list \<Rightarrow> eval_exn + finding list" where
  "findings_in env text builtins customs =
     rbind (customs_found env text customs) (\<lambda>cs. Inr (concat (map (scan_value_with_detector text) builtins) @ cs))"

definition clip_findings :: "nat \<Rightarrow> finding list \<Rightarrow> finding list" where
  "clip_findings n fs = map (\<lambda>f. \<lparr>f_detector = f_detector f, f_start = f_start f, f_end = min (f_end f) n, f_text = []\<rparr>)
     (filter (\<lambda>f. f_start f < n) fs)"

definition scan_leaf ::
    "regex_env \<Rightarrow> server_policy \<Rightarrow> int option \<Rightarrow> string \<Rightarrow> eval_exn + string \<times> finding list" where
  "scan_leaf env policy cap text =
     (let builtins = active_builtins policy; customs = active_customs policy in
      case cap of
        Some c \<Rightarrow>
          if byte_size text > c then
            (let head = cut text c; window = take (length head + CUT_LOOKAHEAD_CHARS) text in
             rbind (findings_in env window builtins customs) (\<lambda>all.
               let fs = clip_findings (length head) all in
               Inr (apply_redactions head fs @ truncation_marker (sp_response_dlp_max_bytes policy), fs)))
          else rbind (findings_in env text builtins customs) (\<lambda>fs.
            Inr (if fs \<noteq> [] then apply_redactions text fs else text, fs))
      | None \<Rightarrow> rbind (findings_in env text builtins customs) (\<lambda>fs.
            Inr (if fs \<noteq> [] then apply_redactions text fs else text, fs)))"

fun scan_leaves ::
    "regex_env \<Rightarrow> server_policy \<Rightarrow> int option \<Rightarrow> string list \<Rightarrow> eval_exn + (string \<times> finding list) list" where
  "scan_leaves env policy cap [] = Inr []"
| "scan_leaves env policy cap (x # xs) = rbind (scan_leaf env policy cap x) (\<lambda>r.
     rbind (scan_leaves env policy cap xs) (\<lambda>rs. Inr (r # rs)))"

definition leaf_cap :: "server_policy \<Rightarrow> string list \<Rightarrow> int option" where
  "leaf_cap policy leaves =
     (let sizes = map byte_size leaves; budget = sp_response_dlp_max_bytes policy in
      if sum_list sizes > budget then Some (equal_share_cap sizes budget) else None)"

datatype scan_exn = ScanEval eval_exn | ScanIteratorExhausted

definition scan_result :: "regex_env \<Rightarrow> json \<Rightarrow> server_policy \<Rightarrow> scan_exn + response_scan" where
  "scan_result env message policy =
     (let leaves = leaves_of message; cap = leaf_cap policy leaves in
      case scan_leaves env policy cap leaves of
        Inl e \<Rightarrow> Inl (ScanEval e)
      | Inr rs \<Rightarrow>
          (case rebuild_messages (messages_of message) (map fst rs) of
             None \<Rightarrow> Inl ScanIteratorExhausted
           | Some (ms, _) \<Rightarrow> Inr
               \<lparr>rs_result = (case message of JList _ \<Rightarrow> JList ms | _ \<Rightarrow> hd ms),
                rs_detectors_fired = sort (remdups (map f_detector (concat (map snd rs)))),
                rs_match_count = length (concat (map snd rs)), rs_truncated = (cap \<noteq> None)\<rparr>))"

subsection \<open>Leaves are put back where they came from\<close>

lemma rebuild_append:
  "length rs = length (collect v) \<Longrightarrow> \<exists>v'. rebuild v (rs @ rest) = Some (v', rest) \<and> collect v' = rs"
  "length rs = length (collect_list vs) \<Longrightarrow> \<exists>vs'. rebuild_list vs (rs @ rest) = Some (vs', rest) \<and> collect_list vs' = rs"
  "length rs = length (collect_items kvs) \<Longrightarrow>
     \<exists>kvs'. rebuild_items kvs (rs @ rest) = Some (kvs', rest) \<and> collect_items kvs' = rs \<and> map fst kvs' = map fst kvs"
proof (induction v and vs and kvs arbitrary: rs rest and rs rest and rs rest rule: collect_collect_list_collect_items.induct)
  case (1 s)
  then show ?case by (cases rs) auto
next
  case (2 kvs)
  then show ?case by fastforce
next
  case (3 xs)
  then show ?case by fastforce
next
  case (9 x xs)
  let ?a = "take (length (collect x)) rs" and ?b = "drop (length (collect x)) rs"
  have ab: "rs @ rest = ?a @ (?b @ rest)" by simp
  obtain x' where x': "rebuild x (?a @ (?b @ rest)) = Some (x', ?b @ rest)" "collect x' = ?a"
    using 9(1) [of ?a "?b @ rest"] 9(3) by auto
  obtain xs' where xs': "rebuild_list xs (?b @ rest) = Some (xs', rest)" "collect_list xs' = ?b"
    using 9(2) [of ?b rest] 9(3) by auto
  show ?case unfolding ab using x' xs' by simp
next
  case (11 k x xs)
  let ?a = "take (length (collect x)) rs" and ?b = "drop (length (collect x)) rs"
  have ab: "rs @ rest = ?a @ (?b @ rest)" by simp
  obtain x' where x': "rebuild x (?a @ (?b @ rest)) = Some (x', ?b @ rest)" "collect x' = ?a"
    using 11(1) [of ?a "?b @ rest"] 11(3) by auto
  obtain xs' where xs': "rebuild_items xs (?b @ rest) = Some (xs', rest)" "collect_items xs' = ?b" "map fst xs' = map fst xs"
    using 11(2) [of ?b rest] 11(3) by auto
  show ?case unfolding ab using x' xs' by simp
qed auto

lemma collect_members_update:
  "k \<notin> set ks \<Longrightarrow> collect_members (AList.update k v m) ks = collect_members m ks"
  by (induction ks) (auto simp: update_conv' split: option.splits)

lemma rebuild_members_append:
  assumes "distinct ks" and "length rs = length (collect_members m ks)"
  shows "\<exists>m'. rebuild_members m ks (rs @ rest) = Some (m', rest) \<and> collect_members m' ks = rs \<and>
    (\<forall>j. j \<notin> set ks \<longrightarrow> map_of m' j = map_of m j) \<and> dom (map_of m') = dom (map_of m)"
  using assms
proof (induction ks arbitrary: m rs)
  case (Cons k ks)
  show ?case
  proof (cases "map_of m k")
    case None
    with Cons.IH [of rs m] Cons.prems obtain m' where m': "rebuild_members m ks (rs @ rest) = Some (m', rest)"
      "collect_members m' ks = rs" "\<forall>j. j \<notin> set ks \<longrightarrow> map_of m' j = map_of m j" "dom (map_of m') = dom (map_of m)" by auto
    with None Cons.prems(1) show ?thesis by (intro exI [of _ m']) auto
  next
    case (Some v)
    let ?a = "take (length (collect v)) rs" and ?b = "drop (length (collect v)) rs"
    have ab: "rs @ rest = ?a @ (?b @ rest)" by simp
    obtain v' where v': "rebuild v (?a @ (?b @ rest)) = Some (v', ?b @ rest)" "collect v' = ?a"
      using rebuild_append(1) [of ?a v "?b @ rest"] Cons.prems(2) Some by auto
    let ?m = "AList.update k v' m"
    have "length ?b = length (collect_members ?m ks)"
      using Cons.prems Some by (simp add: collect_members_update)
    with Cons.IH [of ?b ?m] Cons.prems(1) obtain m' where m': "rebuild_members ?m ks (?b @ rest) = Some (m', rest)"
      "collect_members m' ks = ?b" "\<forall>j. j \<notin> set ks \<longrightarrow> map_of m' j = map_of ?m j" "dom (map_of m') = dom (map_of ?m)" by auto
    have "map_of m' k = Some v'" using m'(3) Cons.prems(1) by (simp add: update_conv')
    moreover have "dom (map_of m') = dom (map_of m)" using m'(4) Some by (auto simp: update_conv')
    ultimately show ?thesis unfolding ab using Some v' m' Cons.prems(1)
      by (intro exI [of _ m']) (auto simp: update_conv')
  qed
qed simp

lemma SCANNED_MEMBERS_distinct: "distinct SCANNED_MEMBERS"
  by (simp add: SCANNED_MEMBERS_def)

text \<open>Two messages agree outside the scanned members.\<close>

fun same_frame :: "json \<Rightarrow> json \<Rightarrow> bool" where
  "same_frame (JObj m) (JObj m') \<longleftrightarrow> (\<forall>j. j \<notin> set SCANNED_MEMBERS \<longrightarrow> map_of m' j = map_of m j) \<and> dom (map_of m') = dom (map_of m)"
| "same_frame m m' \<longleftrightarrow> m' = m"

lemma rebuild_message_append:
  assumes "length rs = length (collect_message m)"
  shows "\<exists>m'. rebuild_message m (rs @ rest) = Some (m', rest) \<and> collect_message m' = rs \<and> same_frame m m'"
proof (cases m)
  case (JObj d)
  with assms rebuild_members_append [OF SCANNED_MEMBERS_distinct, of rs d rest] show ?thesis by auto
qed (use assms in auto)

lemma rebuild_messages_append:
  assumes "length rs = length (concat (map collect_message ms))"
  shows "\<exists>ms'. rebuild_messages ms (rs @ rest) = Some (ms', rest) \<and> concat (map collect_message ms') = rs \<and>
    list_all2 same_frame ms ms'"
  using assms
proof (induction ms arbitrary: rs)
  case (Cons m ms)
  let ?a = "take (length (collect_message m)) rs" and ?b = "drop (length (collect_message m)) rs"
  have ab: "rs @ rest = ?a @ (?b @ rest)" by simp
  obtain m' where "rebuild_message m (?a @ (?b @ rest)) = Some (m', ?b @ rest)" "collect_message m' = ?a" "same_frame m m'"
    using rebuild_message_append [of ?a m "?b @ rest"] Cons.prems by auto
  moreover obtain ms' where "rebuild_messages ms (?b @ rest) = Some (ms', rest)"
    "concat (map collect_message ms') = ?b" "list_all2 same_frame ms ms'"
    using Cons.IH [of ?b] Cons.prems by auto
  ultimately show ?case unfolding ab by simp
qed simp

subsection \<open>The equal share is the largest that fits\<close>

definition capped_sum :: "int \<Rightarrow> int list \<Rightarrow> int" where
  "capped_sum c sizes = sum_list (map (min c) sizes)"

lemma capped_sum_simps [simp]: "capped_sum c [] = 0" "capped_sum c (x # xs) = min c x + capped_sum c xs"
  by (simp_all add: capped_sum_def)

lemma capped_sum_upper: "capped_sum c xs \<le> c * int (length xs)"
  by (induction xs) (auto simp: algebra_simps)

lemma capped_sum_all: "\<forall>x \<in> set xs. c \<le> x \<Longrightarrow> capped_sum c xs = c * int (length xs)"
  by (induction xs) (auto simp: algebra_simps)

lemma capped_sum_sort: "capped_sum c (sort xs) = capped_sum c xs"
  unfolding capped_sum_def by (metis mset_map mset_sort sum_mset_sum_list)

lemma div_share:
  fixes n r :: int
  assumes "0 < n" "0 \<le> r"
  shows "0 \<le> r div n" "r div n * n \<le> r" "r < (r div n + 1) * n"
proof -
  have split: "r div n * n + r mod n = r" by (rule div_mult_mod_eq)
  have "0 \<le> r mod n" "r mod n < n" using assms(1) by simp_all
  with split have "r div n * n \<le> r" "r < r div n * n + n" by linarith+
  then show "r div n * n \<le> r" "r < (r div n + 1) * n" by (simp_all only: distrib_right mult_1)
  show "0 \<le> r div n" using assms by (simp add: pos_imp_zdiv_nonneg_iff)
qed

lemma share_loop_exact:
  assumes "sorted xs" and "0 \<le> r" and "sum_list xs > r"
  shows "\<exists>c. share_loop r xs = Some c \<and> 0 \<le> c \<and> capped_sum c xs \<le> r \<and> r < capped_sum (c + 1) xs"
  using assms
proof (induction xs arbitrary: r)
  case (Cons x xs)
  let ?n = "int (length (x # xs))" and ?share = "r div int (length (x # xs))"
  have share: "0 \<le> ?share" "?share * ?n \<le> r" "r < (?share + 1) * ?n"
    using div_share [of ?n r] Cons.prems(2) by simp_all
  show ?case
  proof (cases "x > ?share")
    case True
    then have "\<forall>y \<in> set (x # xs). ?share + 1 \<le> y" using Cons.prems(1) by fastforce
    then have "capped_sum ?share (x # xs) = ?share * ?n" "capped_sum (?share + 1) (x # xs) = (?share + 1) * ?n"
      using capped_sum_all [of "x # xs" ?share] capped_sum_all [of "x # xs" "?share + 1"] by fastforce+
    with share True show ?thesis by simp
  next
    case False
    have lower: "?share * int (length xs) \<le> r - x" using share(2) False by (simp add: algebra_simps)
    with share(1) have "0 \<le> r - x" by (meson mult_nonneg_nonneg of_nat_0_le_iff order_trans)
    then obtain c where c: "share_loop (r - x) xs = Some c" "0 \<le> c" "capped_sum c xs \<le> r - x" "r - x < capped_sum (c + 1) xs"
      using Cons.IH [of "r - x"] Cons.prems by auto
    have "?share * int (length xs) < (c + 1) * int (length xs)"
      using lower c(4) capped_sum_upper [of "c + 1" xs] by linarith
    then have "?share \<le> c" by (simp add: mult_less_cancel_right)
    with False c show ?thesis by auto
  qed
qed simp

lemma equal_share_cap_exact:
  assumes "0 \<le> budget" and "sum_list sizes > budget"
  shows "0 \<le> equal_share_cap sizes budget \<and> capped_sum (equal_share_cap sizes budget) sizes \<le> budget
    \<and> budget < capped_sum (equal_share_cap sizes budget + 1) sizes"
proof -
  have "sum_list (sort sizes) = sum_list sizes" by (metis mset_sort sum_mset_sum_list)
  with share_loop_exact [of "sort sizes" budget] assms obtain c where
    "share_loop budget (sort sizes) = Some c" "0 \<le> c" "capped_sum c (sort sizes) \<le> budget"
    "budget < capped_sum (c + 1) (sort sizes)" by auto
  then show ?thesis by (simp add: equal_share_cap_def capped_sum_sort)
qed

subsection \<open>Cutting at a character boundary\<close>

fun fit_chars :: "nat \<Rightarrow> string \<Rightarrow> nat" where
  "fit_chars n [] = 0"
| "fit_chars n (c # s) = (if length (utf8_char c) \<le> n then Suc (fit_chars (n - length (utf8_char c)) s) else 0)"

lemma utf8_encode_simps [simp]: "utf8_encode [] = []" "utf8_encode (c # s) = utf8_char c @ utf8_encode s"
  by (simp_all add: utf8_encode_def)

lemma fit_chars_le: "fit_chars n s \<le> length s"
  by (induction n s rule: fit_chars.induct) auto

lemma fit_chars_bytes: "length (utf8_encode (take (fit_chars n s) s)) \<le> n"
  by (induction n s rule: fit_chars.induct) auto

lemma fit_chars_maximal: "fit_chars n s < length s \<Longrightarrow> n < length (utf8_encode (take (Suc (fit_chars n s)) s))"
  by (induction n s rule: fit_chars.induct) (auto split: if_splits)

lemma utf8_two_bytes:
  assumes "128 \<le> n" "n < (256 :: nat)"
  shows "utf8_decode_ignore [char_of (192 + n div 64)] = []"
    "utf8_decode_ignore (char_of (192 + n div 64) # char_of (128 + n mod 64) # bs) = char_of n # utf8_decode_ignore bs"
proof -
  have d: "n div 64 = 2 \<or> n div 64 = 3" using assms by auto
  have m: "n mod 64 < 64" by simp
  have b1: "of_char (char_of (192 + n div 64) :: char) = 192 + n div 64" using d by (auto simp: of_char_of)
  have b2: "of_char (char_of (128 + n mod 64) :: char) = 128 + n mod 64" using m by (simp add: of_char_of)
  show "utf8_decode_ignore [char_of (192 + n div 64)] = []" using d by (auto simp: b1 Let_def)
  have n: "(192 + n div 64 - 192) * 64 + (128 + n mod 64 - 128) = n" by simp
  have lead: "\<not> 192 + n div 64 < 128" "192 + n div 64 = 194 \<or> 192 + n div 64 = 195" using d by auto
  have cont: "128 \<le> 128 + n mod 64 \<and> 128 + n mod 64 < 192" using m by simp
  show "utf8_decode_ignore (char_of (192 + n div 64) # char_of (128 + n mod 64) # bs) = char_of n # utf8_decode_ignore bs"
    unfolding utf8_decode_ignore.simps Let_def list.case b1 b2 n if_not_P [OF lead(1)] if_P [OF lead(2)] if_P [OF cont] ..
qed

lemma decode_take_char:
  "utf8_decode_ignore (take n (utf8_char c @ bs)) =
     (if length (utf8_char c) \<le> n then c # utf8_decode_ignore (take (n - length (utf8_char c)) bs) else [])"
proof (cases "(of_char c :: nat) < 128")
  case True
  then show ?thesis by (cases n) (simp_all add: utf8_char_def Let_def)
next
  case False
  let ?n = "of_char c :: nat"
  have n: "128 \<le> ?n" "?n < 256" using False by simp_all
  note two = utf8_two_bytes [OF n]
  consider "n = 0" | "n = 1" | m where "n = Suc (Suc m)" by (metis One_nat_def not0_implies_Suc)
  then show ?thesis
  proof cases
    case 3
    then show ?thesis using False two(2) by (simp add: utf8_char_def Let_def del: utf8_decode_ignore.simps(2))
  qed (use False two(1) in \<open>simp_all add: utf8_char_def Let_def del: utf8_decode_ignore.simps(2)\<close>)
qed

lemma cut_take: "cut s n = take (fit_chars (nat n) s) s"
proof -
  have "utf8_decode_ignore (take m (utf8_encode s)) = take (fit_chars m s) s" for m
    by (induction m s rule: fit_chars.induct) (simp_all add: decode_take_char del: utf8_decode_ignore.simps(2) take_append)
  then show ?thesis by (simp add: cut_def)
qed

subsection \<open>What a scanned leaf looks like\<close>

lemma active_builtins_mem: "d \<in> set (active_builtins policy) \<Longrightarrow> \<exists>n. map_of BUILTIN_DETECTORS n = Some d"
  by (auto simp: active_builtins_def map_filter_def)

lemma customs_found_ok:
  assumes "engine_ok env"
  shows "customs_found env s ps = Inr fs \<Longrightarrow> f \<in> set fs \<Longrightarrow> finding_ok s f"
proof (induction ps arbitrary: fs)
  case (Cons p ps)
  then show ?case using scan_custom_ok [OF assms] by (auto simp: rbind_eq_Inr)
qed simp

lemma findings_in_ok:
  assumes "engine_ok env" and "findings_in env s (active_builtins policy) customs = Inr fs"
  shows "\<forall>f \<in> set fs. finding_ok s f"
proof
  fix f assume f: "f \<in> set fs"
  obtain cs where cs: "customs_found env s customs = Inr cs"
    "fs = concat (map (scan_value_with_detector s) (active_builtins policy)) @ cs"
    using assms(2) by (auto simp: findings_in_def rbind_eq_Inr)
  then consider d where "d \<in> set (active_builtins policy)" "f \<in> set (scan_value_with_detector s d)" | "f \<in> set cs"
    using f by auto
  then show "finding_ok s f"
    using active_builtins_mem scan_detector_ok customs_found_ok [OF assms(1) cs(1)] by cases blast+
qed

lemma clip_covered: "i < n \<Longrightarrow> covered (clip_findings n fs) i \<longleftrightarrow> covered fs i"
  by (fastforce simp: covered_def clip_findings_def)

lemma clip_ok:
  assumes "\<forall>f \<in> set fs. finding_ok s f"
  shows "\<forall>f \<in> set (clip_findings (length head) fs). finding_ok head f"
  using assms by (auto simp: clip_findings_def finding_ok_def)

lemma kept_mem: "Keep i \<in> set ps \<Longrightarrow> i \<in> set (kept ps)"
  by (force simp: kept_def)

lemma render_take:
  assumes "\<forall>i \<in> set (kept ps). i < n"
  shows "concat (map (render (take n s)) ps) = concat (map (render s) ps)"
proof -
  have "render (take n s) p = render s p" if p: "p \<in> set ps" for p
  proof (cases p)
    case (Keep i)
    then have "i < n" using p assms kept_mem by blast
    then show ?thesis using Keep by simp
  qed simp
  then show ?thesis by (metis map_cong)
qed

text \<open>
  \<open>out\<close> is the first \<open>n\<close> characters of \<open>s\<close> without those that a finding covers (found in the text up to
  the lookahead), with placeholders in between; either all of \<open>s\<close> is used, or the used part fits the cap
  and the truncation marker follows.
\<close>

definition leaf_clean :: "regex_env \<Rightarrow> server_policy \<Rightarrow> int option \<Rightarrow> string \<Rightarrow> string \<Rightarrow> bool" where
  "leaf_clean env policy cap s out \<longleftrightarrow> (\<exists>n fs ps mark. n \<le> length s \<and>
     findings_in env (take (n + CUT_LOOKAHEAD_CHARS) s) (active_builtins policy) (active_customs policy) = Inr fs \<and>
     out = concat (map (render s) ps) @ mark \<and> kept ps = filter (\<lambda>i. \<not> covered fs i) [0..<n] \<and>
     (n = length s \<and> mark = [] \<or>
      (\<exists>c. cap = Some c \<and> byte_size (take n s) \<le> c) \<and> mark = truncation_marker (sp_response_dlp_max_bytes policy)))"

lemma scan_whole_clean:
  assumes "engine_ok env" and "findings_in env s (active_builtins policy) (active_customs policy) = Inr fs"
  shows "leaf_clean env policy cap s (if fs \<noteq> [] then apply_redactions s fs else s)"
proof -
  obtain ps where ps: "apply_redactions s fs = concat (map (render s) ps)" "kept ps = filter (\<lambda>i. \<not> covered fs i) [0..<length s]"
    using apply_redactions_pieces [OF findings_in_ok [OF assms]] by blast
  have "fs = [] \<Longrightarrow> apply_redactions s fs = s" by (simp add: apply_redactions_def merge_spans_def sort_findings_def)
  with ps assms(2) show ?thesis
    unfolding leaf_clean_def by (intro exI [of _ "length s"] exI [of _ fs] exI [of _ ps] exI [of _ "[]"]) auto
qed

lemma scan_cut_clean:
  assumes "engine_ok env" and "0 \<le> c" and "head = cut s c"
    and "findings_in env (take (length head + CUT_LOOKAHEAD_CHARS) s) (active_builtins policy) (active_customs policy) = Inr fs"
  shows "leaf_clean env policy (Some c) s
    (apply_redactions head (clip_findings (length head) fs) @ truncation_marker (sp_response_dlp_max_bytes policy))"
proof -
  let ?n = "fit_chars (nat c) s"
  have head: "head = take ?n s" "length head = ?n" using assms(3) fit_chars_le [of "nat c" s] by (simp_all add: cut_take)
  have ok: "\<forall>f \<in> set (clip_findings (length head) fs). finding_ok head f"
    using clip_ok findings_in_ok [OF assms(1,4)] by blast
  obtain ps where ps: "apply_redactions head (clip_findings (length head) fs) = concat (map (render head) ps)"
    "kept ps = filter (\<lambda>i. \<not> covered (clip_findings (length head) fs) i) [0..<length head]"
    using apply_redactions_pieces [OF ok] by blast
  have k: "kept ps = filter (\<lambda>i. \<not> covered fs i) [0..<?n]"
    unfolding ps(2) head(2) by (rule filter_cong) (simp_all add: clip_covered)
  then have "concat (map (render head) ps) = concat (map (render s) ps)"
    unfolding head(1) by (intro render_take) simp
  moreover have "byte_size (take ?n s) \<le> c" using fit_chars_bytes [of "nat c" s] assms(2) by (simp add: byte_size_def)
  ultimately show ?thesis
    using ps(1) k assms(4) head(2) fit_chars_le [of "nat c" s] unfolding leaf_clean_def
    by (intro exI [of _ ?n] exI [of _ fs] exI [of _ ps] exI [of _ "truncation_marker (sp_response_dlp_max_bytes policy)"]) auto
qed

lemma scan_leaf_clean:
  assumes "engine_ok env" and "\<forall>c. cap = Some c \<longrightarrow> 0 \<le> c" and "scan_leaf env policy cap s = Inr (out, fs)"
  shows "leaf_clean env policy cap s out"
proof (cases "\<exists>c. cap = Some c \<and> byte_size s > c")
  case True
  with assms show ?thesis
    by (auto simp: scan_leaf_def Let_def rbind_eq_Inr intro!: scan_cut_clean)
next
  case False
  with assms(3) obtain fs' where "findings_in env s (active_builtins policy) (active_customs policy) = Inr fs'"
    "out = (if fs' \<noteq> [] then apply_redactions s fs' else s)"
    by (auto simp: scan_leaf_def Let_def rbind_eq_Inr split: option.splits)
  with scan_whole_clean [OF assms(1)] show ?thesis by simp
qed

lemma scan_leaves_length: "scan_leaves env policy cap xs = Inr rs \<Longrightarrow> length rs = length xs"
  by (induction xs arbitrary: rs) (auto simp: rbind_eq_Inr)

lemma scan_leaves_clean:
  assumes "engine_ok env" and "\<forall>c. cap = Some c \<longrightarrow> 0 \<le> c"
  shows "scan_leaves env policy cap xs = Inr rs \<Longrightarrow> list_all2 (leaf_clean env policy cap) xs (map fst rs)"
proof (induction xs arbitrary: rs)
  case (Cons x xs)
  then obtain r rs' where "scan_leaf env policy cap x = Inr r" "scan_leaves env policy cap xs = Inr rs'" "rs = r # rs'"
    by (auto simp: rbind_eq_Inr)
  with Cons.IH scan_leaf_clean [OF assms, of policy x "fst r" "snd r"] show ?case by simp
qed simp

lemma byte_size_nonneg [simp]: "0 \<le> byte_size s" by (simp add: byte_size_def)

lemma leaf_cap_nonneg:
  assumes "0 \<le> sp_response_dlp_max_bytes policy" and "leaf_cap policy leaves = Some c"
  shows "0 \<le> c"
  using assms equal_share_cap_exact [of "sp_response_dlp_max_bytes policy" "map byte_size leaves"]
  by (auto simp: leaf_cap_def Let_def split: if_splits)

lemma messages_of_rebuilt:
  assumes "list_all2 same_frame (messages_of message) ms'"
  shows "messages_of (case message of JList _ \<Rightarrow> JList ms' | _ \<Rightarrow> hd ms') = ms'"
proof -
  have "messages_of (hd ms') = ms'" if "\<forall>xs. message \<noteq> JList xs"
  proof -
    have "messages_of message = [message]" using that by (cases message) (auto simp: messages_of_def)
    then obtain m' where "ms' = [m']" "same_frame message m'"
      using assms by (auto simp: list_all2_Cons1)
    with that show ?thesis by (cases message; cases m') (auto simp: messages_of_def)
  qed
  then show ?thesis by (cases message) (auto simp: messages_of_def)
qed

lemma scan_result_shape:
  assumes "scan_leaves env policy (leaf_cap policy (leaves_of message)) (leaves_of message) = Inr rs"
  shows "\<exists>r. scan_result env message policy = Inr r \<and> leaves_of (rs_result r) = map fst rs \<and>
    list_all2 same_frame (messages_of message) (messages_of (rs_result r)) \<and>
    rs_truncated r = (leaf_cap policy (leaves_of message) \<noteq> None)"
proof -
  have len: "length (map fst rs) = length (concat (map collect_message (messages_of message)))"
    using scan_leaves_length [OF assms] by (simp add: leaves_of_def)
  obtain ms' where "rebuild_messages (messages_of message) (map fst rs) = Some (ms', [])"
    "concat (map collect_message ms') = map fst rs" "list_all2 same_frame (messages_of message) ms'"
    using rebuild_messages_append [OF len, of "[]"] by auto
  with assms messages_of_rebuilt [of message ms'] show ?thesis
    by (auto simp: scan_result_def Let_def leaves_of_def)
qed

lemma scan_result_leaves:
  assumes "scan_result env message policy = Inr r"
  obtains rs where "scan_leaves env policy (leaf_cap policy (leaves_of message)) (leaves_of message) = Inr rs"
    "leaves_of (rs_result r) = map fst rs" "list_all2 same_frame (messages_of message) (messages_of (rs_result r))"
    "rs_match_count r = length (concat (map snd rs))" "rs_truncated r = (leaf_cap policy (leaves_of message) \<noteq> None)"
proof -
  obtain rs where rs: "scan_leaves env policy (leaf_cap policy (leaves_of message)) (leaves_of message) = Inr rs"
    using assms by (auto simp: scan_result_def Let_def split: sum.splits)
  moreover have "rs_match_count r = length (concat (map snd rs))"
    using assms rs by (auto simp: scan_result_def Let_def split: option.splits)
  ultimately show thesis using scan_result_shape [OF rs] assms that by auto
qed

lemma policy_cap_nonneg: "policy_ok env policy \<Longrightarrow> leaf_cap policy leaves = Some c \<Longrightarrow> 0 \<le> c"
  using policy_ok_fields [of env policy] leaf_cap_nonneg [of policy leaves c]
  by (auto simp: validate_policy_fields_def validate_response_dlp_max_bytes_def split: if_splits)

lemma scan_result_clean:
  assumes "engine_ok env" and "policy_ok env policy" and "scan_result env message policy = Inr r"
  shows "list_all2 same_frame (messages_of message) (messages_of (rs_result r))"
    "list_all2 (leaf_clean env policy (leaf_cap policy (leaves_of message))) (leaves_of message) (leaves_of (rs_result r))"
  using scan_result_leaves [OF assms(3)] scan_leaves_clean [OF assms(1)] policy_cap_nonneg [OF assms(2)] by metis+

text \<open>A scan that found nothing and did not truncate changes no leaf.\<close>

lemma scan_leaves_untouched:
  "scan_leaves env policy None xs = Inr rs \<Longrightarrow> concat (map snd rs) = [] \<Longrightarrow> map fst rs = xs"
  by (induction xs arbitrary: rs) (auto simp: rbind_eq_Inr scan_leaf_def Let_def)

lemma scan_result_untouched:
  assumes "scan_result env message policy = Inr r" and "rs_match_count r = 0" and "\<not> rs_truncated r"
  shows "leaves_of (rs_result r) = leaves_of message"
proof -
  obtain rs where rs: "scan_leaves env policy (leaf_cap policy (leaves_of message)) (leaves_of message) = Inr rs"
    "leaves_of (rs_result r) = map fst rs" "rs_match_count r = length (concat (map snd rs))"
    "rs_truncated r = (leaf_cap policy (leaves_of message) \<noteq> None)"
    using scan_result_leaves [OF assms(1)] by metis
  then have "concat (map snd rs) = []" "leaf_cap policy (leaves_of message) = None"
    using assms(2,3) by auto
  then show ?thesis using rs(1,2) scan_leaves_untouched by metis
qed

subsection \<open>Properties\<close>


definition sample_response_policy :: server_policy where
  "sample_response_policy = default_policy\<lparr>sp_dlp_custom_patterns := [\<lparr>cp_name = ''pin'', cp_pattern = ''42'', cp_action = ''allow''\<rparr>],
     sp_response_dlp_detectors := [(''pin'', ''redact'')]\<rparr>"

definition sample_message :: json where
  "sample_message = JObj [(''jsonrpc'', JStr ''2.0''), (''result'', JList [JStr ''a42'', JInt 42])]"

lemma sample_builtins: "active_builtins sample_response_policy = []"
proof -
  have "redact_names sample_response_policy = [''pin'']" by code_simp
  moreover have "''pin'' \<notin> set (map fst BUILTIN_DETECTORS)" unfolding builtin_names by (simp add: VALID_DLP_DETECTOR_NAMES_def)
  then have "map_of BUILTIN_DETECTORS ''pin'' = None" by (simp add: map_of_eq_None_iff)
  ultimately show ?thesis by (simp add: active_builtins_def map_filter_simps)
qed


text \<open>The equal share is fair and tight: it is the largest per-leaf cap under which the leaves fit the byte budget.\<close>

theorem equal_share_cap_tight:
  assumes "0 \<le> budget" and "sum_list sizes > budget"
  shows "sum_list (map (min (equal_share_cap sizes budget)) sizes) \<le> budget \<and>
    (\<forall>c > equal_share_cap sizes budget. sum_list (map (min c) sizes) > budget)"
proof -
  note ex = equal_share_cap_exact [OF assms]
  have mono: "capped_sum c xs \<le> capped_sum c' xs" if "c \<le> c'" for c c' and xs :: "int list"
    using that by (induction xs) auto
  have "budget < capped_sum c sizes" if "equal_share_cap sizes budget < c" for c
    using ex mono [of "equal_share_cap sizes budget + 1" c sizes] that by linarith
  with ex show ?thesis by (simp add: capped_sum_def)
qed

theorem equal_share_cap_tight_witness:
  "equal_share_cap [10, 2, 7] 12 = 5 \<and> sum_list (map (min 5) [10, 2, 7]) \<le> (12 :: int) \<and>
   sum_list (map (min 6) [10, 2, 7]) > (12 :: int)"
proof -
  have "equal_share_cap [10, 2, 7] 12 = 5" by code_simp
  with equal_share_cap_tight [of 12 "[10, 2, 7]"] show ?thesis by simp
qed

text \<open>What a truncated response still carries fits the budget: the parts of the leaves that are kept, before
  redaction, have together at most the configured number of bytes.\<close>

theorem truncated_response_fits_budget:
  assumes "policy_ok env policy" and "leaf_cap policy leaves = Some c"
  shows "sum_list (map (\<lambda>t. byte_size (if byte_size t > c then cut t c else t)) leaves) \<le> sp_response_dlp_max_bytes policy"
proof -
  let ?b = "sp_response_dlp_max_bytes policy"
  have b: "0 \<le> ?b"
    using policy_ok_fields [OF assms(1)]
    by (auto simp: validate_policy_fields_def validate_response_dlp_max_bytes_def split: if_splits)
  have c: "c = equal_share_cap (map byte_size leaves) ?b" "sum_list (map byte_size leaves) > ?b"
    using assms(2) by (auto simp: leaf_cap_def Let_def split: if_splits)
  note ex = equal_share_cap_exact [OF b c(2), folded c(1)]
  have "byte_size (if byte_size t > c then cut t c else t) \<le> min c (byte_size t)" for t
    using fit_chars_bytes [of "nat c" t] ex by (auto simp: byte_size_def cut_take)
  then have "sum_list (map (\<lambda>t. byte_size (if byte_size t > c then cut t c else t)) leaves)
      \<le> sum_list (map (\<lambda>t. min c (byte_size t)) leaves)" by (intro sum_list_mono) auto
  also have "\<dots> = capped_sum c (map byte_size leaves)" by (simp add: capped_sum_def comp_def)
  finally show ?thesis using ex by linarith
qed

theorem truncated_response_fits_budget_witness:
  "let p = default_policy\<lparr>sp_response_dlp_max_bytes := 1024\<rparr>; ls = [replicate 2000 CHR ''a'', ''b'']; c = 1023 in
   leaf_cap p ls = Some c \<and> sum_list (map (\<lambda>t. byte_size (if byte_size t > c then cut t c else t)) ls) \<le> 1024"
proof -
  let ?p = "default_policy\<lparr>sp_response_dlp_max_bytes := 1024\<rparr>" and ?ls = "[replicate 2000 CHR ''a'', ''b'']"
  have ok: "policy_ok literal_env ?p" by code_simp
  have enc: "utf8_encode (replicate n CHR ''a'') = replicate n CHR ''a''" for n
    by (induction n) (simp_all add: utf8_char_def)
  have "byte_size (replicate 2000 CHR ''a'') = 2000" "byte_size ''b'' = 1"
    by (simp_all only: byte_size_def enc length_replicate) (simp_all add: utf8_char_def)
  then have c: "leaf_cap ?p ?ls = Some 1023"
    by (simp add: leaf_cap_def Let_def equal_share_cap_def)
  from truncated_response_fits_budget [OF ok c] c show ?thesis by (simp add: Let_def)
qed

end
