(* ===== verification/Sse.thy ===== *)
theory Sse
  imports Prelude
begin

text \<open>
  Server-sent events, \<open>argus/sse.py\<close>: splitting a body into events, reading and replacing the data of an
  event, and printing events. Bytes are characters; text is kept as its UTF-8 bytes, so decoding is the
  test \<open>utf8_valid\<close> of strict UTF-8 and the field separators, which are ASCII, are found on the bytes.
\<close>

definition LF :: char where "LF = CHR 0x0A"
definition CR :: char where "CR = CHR 0x0D"

datatype sse_error = IncompleteStream | DecodeError | NotASingleLine

record sse_event =
  ev_raw_lines :: "string list"
  ev_terminator :: string
  ev_new_data :: "string option"

subsection \<open>Strict UTF-8\<close>

definition is_cont :: "char \<Rightarrow> bool" where
  "is_cont c = (128 \<le> (of_char c :: nat) \<and> (of_char c :: nat) < 192)"

definition between :: "nat \<Rightarrow> nat \<Rightarrow> char \<Rightarrow> bool" where
  "between lo hi c = (lo \<le> of_char c \<and> of_char c \<le> hi)"

fun utf8_valid :: "string \<Rightarrow> bool" where
  "utf8_valid [] = True"
| "utf8_valid [a] = between 0 127 a"
| "utf8_valid [a, b] =
     ((between 0 127 a \<and> utf8_valid [b]) \<or> (between 194 223 a \<and> is_cont b))"
| "utf8_valid [a, b, c] =
     ((between 0 127 a \<and> utf8_valid [b, c]) \<or> (between 194 223 a \<and> is_cont b \<and> utf8_valid [c])
      \<or> (between 224 224 a \<and> between 160 191 b \<and> is_cont c)
      \<or> ((between 225 236 a \<or> between 238 239 a) \<and> is_cont b \<and> is_cont c)
      \<or> (between 237 237 a \<and> between 128 159 b \<and> is_cont c))"
| "utf8_valid (a # b # c # d # s) =
     ((between 0 127 a \<and> utf8_valid (b # c # d # s)) \<or> (between 194 223 a \<and> is_cont b \<and> utf8_valid (c # d # s))
      \<or> (between 224 224 a \<and> between 160 191 b \<and> is_cont c \<and> utf8_valid (d # s))
      \<or> ((between 225 236 a \<or> between 238 239 a) \<and> is_cont b \<and> is_cont c \<and> utf8_valid (d # s))
      \<or> (between 237 237 a \<and> between 128 159 b \<and> is_cont c \<and> utf8_valid (d # s))
      \<or> (between 240 240 a \<and> between 144 191 b \<and> is_cont c \<and> is_cont d \<and> utf8_valid s)
      \<or> (between 241 243 a \<and> is_cont b \<and> is_cont c \<and> is_cont d \<and> utf8_valid s)
      \<or> (between 244 244 a \<and> between 128 143 b \<and> is_cont c \<and> is_cont d \<and> utf8_valid s))"

declare utf8_valid.simps [simp del]

subsection \<open>Lines and fields\<close>

text \<open>The first match of \<open>[^\r\n]*(\r\n|\r|\n)\<close>: the line with its ending, and the rest.\<close>

fun next_line :: "string \<Rightarrow> (string \<times> string) option" where
  "next_line [] = None"
| "next_line (c # s) =
     (if c = LF then Some ([c], s)
      else if c = CR then (case s of [] \<Rightarrow> Some ([c], s) | d # r \<Rightarrow> if d = LF then Some ([c, d], r) else Some ([c], s))
      else map_option (\<lambda>(l, r). (c # l, r)) (next_line s))"

lemma next_line_append: "next_line s = Some (l, r) \<Longrightarrow> s = l @ r \<and> l \<noteq> []"
proof (induction s arbitrary: l)
  case (Cons c s)
  consider "c = LF" | "c \<noteq> LF" "c = CR" | "c \<noteq> LF" "c \<noteq> CR" by blast
  then show ?case
  proof cases
    case 2
    with Cons.prems show ?thesis by (cases s) (auto split: if_splits)
  next
    case 3
    with Cons.prems obtain l' where "l = c # l'" "next_line s = Some (l', r)" by auto
    with Cons.IH show ?thesis by simp
  qed (use Cons.prems in auto)
qed simp

function sse_lines :: "string \<Rightarrow> string list \<times> string" where
  "sse_lines s = (case next_line s of None \<Rightarrow> ([], s) | Some (l, r) \<Rightarrow> (let (ls, rest) = sse_lines r in (l # ls, rest)))"
  by auto
termination
  by (relation "measure length") (auto dest!: next_line_append)

declare sse_lines.simps [simp del]

definition is_newline :: "char \<Rightarrow> bool" where
  "is_newline c \<longleftrightarrow> c = CR \<or> c = LF"

definition rstrip_newlines :: "string \<Rightarrow> string" where
  "rstrip_newlines l = rev (dropWhile is_newline (rev l))"

definition split_field :: "string \<Rightarrow> (string \<times> string) option" where
  "split_field line =
     (let t = rstrip_newlines line in
      if \<not> utf8_valid t then None
      else Some (if t \<noteq> [] \<and> hd t = CHR '':'' then ('''', t)
           else case str_partition '':'' t of
               None \<Rightarrow> (t, '''')
             | Some (name, v) \<Rightarrow> (name, if v \<noteq> [] \<and> hd v = CHR '' '' then tl v else v)))"

definition is_data_line :: "string \<Rightarrow> bool" where
  "is_data_line line = (case split_field line of Some (name, _) \<Rightarrow> name = ''data'' | None \<Rightarrow> False)"

definition data_values :: "string list \<Rightarrow> string list" where
  "data_values lines = List.map_filter (\<lambda>l. case split_field l of
     Some (name, v) \<Rightarrow> if name = ''data'' then Some v else None | None \<Rightarrow> None) lines"

text \<open>\<open>ev.data\<close>; the events of a parsed body have decodable lines.\<close>

definition event_data :: "sse_event \<Rightarrow> string option" where
  "event_data ev = (case data_values (ev_raw_lines ev) of [] \<Rightarrow> None | vs \<Rightarrow> Some (str_join [LF] vs))"

definition replace_data :: "sse_event \<Rightarrow> string \<Rightarrow> sse_error + sse_event" where
  "replace_data ev data = (if LF \<in> set data \<or> CR \<in> set data then Inl NotASingleLine
     else Inr (ev\<lparr>ev_new_data := Some data\<rparr>))"

definition line_ending :: "string \<Rightarrow> string" where
  "line_ending line = drop (length (rstrip_newlines line)) line"

fun replaced_lines :: "string \<Rightarrow> bool \<Rightarrow> string list \<Rightarrow> string list" where
  "replaced_lines data placed [] = []"
| "replaced_lines data placed (l # ls) =
     (if \<not> is_data_line l then l # replaced_lines data placed ls
      else if \<not> placed then (''data: '' @ data @ line_ending l) # replaced_lines data True ls
      else replaced_lines data placed ls)"

definition serialize_event :: "sse_event \<Rightarrow> string" where
  "serialize_event ev =
     (case ev_new_data ev of
        None \<Rightarrow> concat (ev_raw_lines ev) @ ev_terminator ev
      | Some data \<Rightarrow> concat (replaced_lines data False (ev_raw_lines ev)) @ ev_terminator ev)"

subsection \<open>Parsing and printing a stream\<close>

definition BOM :: string where "BOM = [CHR 0xEF, CHR 0xBB, CHR 0xBF]"

definition strip_bom :: "string \<Rightarrow> string" where
  "strip_bom body = (if take 3 body = BOM then drop 3 body else body)"

definition is_blank_line :: "string \<Rightarrow> bool" where
  "is_blank_line l \<longleftrightarrow> l = [CR, LF] \<or> l = [LF] \<or> l = [CR]"

definition mk_event :: "string list \<Rightarrow> string \<Rightarrow> sse_event" where
  "mk_event lines term = \<lparr>ev_raw_lines = lines, ev_terminator = term, ev_new_data = None\<rparr>"

fun parse_lines :: "sse_event list \<Rightarrow> string list \<Rightarrow> string list \<Rightarrow> sse_event list \<times> string list" where
  "parse_lines evs pending [] = (evs, pending)"
| "parse_lines evs pending (l # ls) =
     (if is_blank_line l then
        (if pending \<noteq> [] then parse_lines (evs @ [mk_event pending l]) [] ls
         else if evs \<noteq> [] then parse_lines (butlast evs @ [(last evs)\<lparr>ev_terminator := ev_terminator (last evs) @ l\<rparr>]) [] ls
         else parse_lines [mk_event [] l] [] ls)
      else parse_lines evs (pending @ [l]) ls)"

definition parse_events :: "string \<Rightarrow> sse_error + sse_event list" where
  "parse_events body =
     (let (ls, rest) = sse_lines (strip_bom body); (evs, pending) = parse_lines [] [] ls in
      if pending \<noteq> [] \<or> rest \<noteq> [] then Inl IncompleteStream
      else if \<exists>ev \<in> set evs. \<exists>l \<in> set (ev_raw_lines ev). split_field l = None then Inl DecodeError
      else Inr evs)"

definition serialize :: "sse_event list \<Rightarrow> string" where
  "serialize evs = concat (map serialize_event evs)"

subsection \<open>Lemmas\<close>

lemma sse_lines_append: "sse_lines s = (ls, rest) \<Longrightarrow> s = concat ls @ rest"
proof (induction s arbitrary: ls rest rule: sse_lines.induct)
  case (1 s)
  show ?case
  proof (cases "next_line s")
    case None
    with 1(2) show ?thesis by (subst (asm) sse_lines.simps) auto
  next
    case (Some lr)
    obtain l r where lr: "lr = (l, r)" by fastforce
    obtain ls' rest' where r: "sse_lines r = (ls', rest')" by fastforce
    have "ls = l # ls'" "rest = rest'" using 1(2) Some lr r by (subst (asm) sse_lines.simps, simp)+
    moreover have "r = concat ls' @ rest'" using 1(1) [OF Some lr [symmetric] r] .
    ultimately show ?thesis using next_line_append [of s l r] Some lr by simp
  qed
qed

lemma serialize_append: "serialize (xs @ ys) = serialize xs @ serialize ys"
  by (simp add: serialize_def)

lemma serialize_mk_event: "serialize [mk_event ls l] = concat ls @ l"
  by (simp add: serialize_def serialize_event_def mk_event_def)

lemma parse_lines_text:
  assumes "parse_lines evs pending ls = (evs', pending')" and "\<forall>ev \<in> set evs. ev_new_data ev = None"
  shows "serialize evs' @ concat pending' = serialize evs @ concat pending @ concat ls
    \<and> (\<forall>ev \<in> set evs'. ev_new_data ev = None)"
  using assms
proof (induction evs pending ls rule: parse_lines.induct)
  case (2 evs pending l ls)
  note ih = 2(1-4) and prem = 2(5,6)
  show ?case
  proof (cases "is_blank_line l \<and> pending = [] \<and> evs \<noteq> []")
    case True
    let ?e = "last evs" and ?evs = "butlast evs @ [(last evs)\<lparr>ev_terminator := ev_terminator (last evs) @ l\<rparr>]"
    have ev: "evs = butlast evs @ [?e]" using True by simp
    have nd: "\<forall>ev \<in> set ?evs. ev_new_data ev = None" using 2(6) True by (auto dest: in_set_butlastD)
    have "serialize (butlast evs @ [?e]) = serialize (butlast evs) @ concat (ev_raw_lines ?e) @ ev_terminator ?e"
      using 2(6) True by (simp add: serialize_append serialize_def serialize_event_def del: append_butlast_last_id)
    moreover have "serialize ?evs = serialize (butlast evs) @ concat (ev_raw_lines ?e) @ ev_terminator ?e @ l"
      using 2(6) True by (simp add: serialize_append serialize_def serialize_event_def)
    ultimately have "serialize ?evs = serialize evs @ l" using ev by simp
    with 2(2) True 2(5) nd show ?thesis by simp
  next
    case False
    have new: "\<forall>ev \<in> set (evs @ [mk_event ls' l']). ev_new_data ev = None" for ls' l'
      using 2(6) by (auto simp: mk_event_def)
    consider "is_blank_line l" "pending \<noteq> []" | "is_blank_line l" "pending = []" "evs = []" | "\<not> is_blank_line l"
      using False by blast
    then show ?thesis
    proof cases
      case 1
      with 2(1) [OF 1] 2(5) new show ?thesis by (simp add: serialize_append serialize_mk_event)
    next
      case 2
      then have p: "parse_lines [mk_event [] l] [] ls = (evs', pending')" using prem(1) by simp
      have n: "\<forall>ev \<in> set [mk_event [] l]. ev_new_data ev = None" by (simp add: mk_event_def)
      have "serialize evs' @ concat pending' = serialize [mk_event [] l] @ concat [] @ concat ls \<and> (\<forall>ev \<in> set evs'. ev_new_data ev = None)"
        by (rule ih(3) [OF _ _ _ p n]) (use 2 in simp_all)
      then show ?thesis using 2 unfolding serialize_mk_event by (simp add: serialize_def)
    next
      case 3
      with 2(4) [OF 3] 2(5,6) show ?thesis by simp
    qed
  qed
qed simp

lemma parse_events_text:
  assumes "parse_events body = Inr evs"
  shows "serialize evs = strip_bom body" "\<forall>ev \<in> set evs. ev_new_data ev = None"
    "\<forall>ev \<in> set evs. \<forall>l \<in> set (ev_raw_lines ev). split_field l \<noteq> None"
proof -
  obtain ls rest where ls: "sse_lines (strip_bom body) = (ls, rest)" by fastforce
  obtain evs' pending where p: "parse_lines [] [] ls = (evs', pending)" by fastforce
  from assms ls p have e: "evs' = evs" "pending = []" "rest = []"
    "\<forall>ev \<in> set evs. \<forall>l \<in> set (ev_raw_lines ev). split_field l \<noteq> None"
    by (auto simp: parse_events_def split: if_splits)
  from parse_lines_text [OF p] e sse_lines_append [OF ls]
  show "serialize evs = strip_bom body" "\<forall>ev \<in> set evs. ev_new_data ev = None"
    by (simp_all add: serialize_def)
  from e show "\<forall>ev \<in> set evs. \<forall>l \<in> set (ev_raw_lines ev). split_field l \<noteq> None" by simp
qed

subsection \<open>Replacing the data\<close>

lemma rstrip_no_newline: "\<forall>c \<in> set s. \<not> is_newline c \<Longrightarrow> rstrip_newlines s = s"
  by (cases s rule: rev_cases) (auto simp: rstrip_newlines_def)

lemma rstrip_append:
  assumes "\<forall>c \<in> set s. \<not> is_newline c" "\<forall>c \<in> set e. is_newline c"
  shows "rstrip_newlines (s @ e) = s"
proof -
  have "dropWhile is_newline (rev e @ rev s) = dropWhile is_newline (rev s)"
    by (rule dropWhile_append2) (use assms(2) in auto)
  then show ?thesis using rstrip_no_newline [OF assms(1)] by (simp add: rstrip_newlines_def)
qed

lemma line_ending_newlines: "\<forall>c \<in> set (line_ending l). is_newline c"
proof -
  have "l = rstrip_newlines l @ rev (takeWhile is_newline (rev l))"
    by (metis rev_append rev_rev_ident rstrip_newlines_def takeWhile_dropWhile_id)
  then have "line_ending l = rev (takeWhile is_newline (rev l))"
    unfolding line_ending_def by (metis append_eq_conv_conj)
  then show ?thesis using set_takeWhileD by fastforce
qed

lemma utf8_valid_ascii: "(of_char c :: nat) < 128 \<Longrightarrow> utf8_valid (c # s) \<longleftrightarrow> utf8_valid s"
proof -
  assume c: "(of_char c :: nat) < 128"
  then have "between 0 127 c" by (simp add: between_def)
  moreover have "\<not> between lo hi c" if "128 \<le> lo" for lo hi using c that by (simp add: between_def)
  ultimately show ?thesis
    by (cases s; cases "tl s"; cases "tl (tl s)") (auto simp: utf8_valid.simps)
qed

lemma split_new_data_line:
  assumes "LF \<notin> set data" "CR \<notin> set data" "utf8_valid data"
  shows "split_field (''data: '' @ data @ line_ending l) = Some (''data'', data)"
proof -
  have ne: "\<forall>c \<in> set (''data: '' @ data). \<not> is_newline c"
    using assms(1,2) by (auto simp: is_newline_def LF_def CR_def)
  have "rstrip_newlines ((''data: '' @ data) @ line_ending l) = ''data: '' @ data"
    by (rule rstrip_append [OF ne line_ending_newlines])
  moreover have "str_partition '':'' (''data'' @ '':'' @ ('' '' @ data)) = Some (''data'', '' '' @ data)"
    by (rule str_partition_prefix) simp
  moreover have "utf8_valid (''data: '' @ data)" using assms(3) by (simp add: utf8_valid_ascii)
  ultimately show ?thesis by (simp add: split_field_def Let_def)
qed

lemma data_values_Cons:
  "data_values (l # ls) = (case split_field l of Some (n, v) \<Rightarrow> if n = ''data'' then v # data_values ls else data_values ls
     | None \<Rightarrow> data_values ls)"
  by (auto simp: data_values_def map_filter_simps split: option.splits prod.splits)

lemma replaced_lines_data:
  assumes "LF \<notin> set data" "CR \<notin> set data" "utf8_valid data"
  shows "data_values (replaced_lines data True ls) = []"
    "data_values (replaced_lines data False ls) = (if data_values ls = [] then [] else [data])"
proof -
  show all: "data_values (replaced_lines data True ls) = []" for ls
    by (induction ls) (auto simp: data_values_Cons is_data_line_def split: option.splits, simp add: data_values_def map_filter_simps)
  show "data_values (replaced_lines data False ls) = (if data_values ls = [] then [] else [data])"
  proof (induction ls)
    case (Cons l ls)
    show ?case
    proof (cases "is_data_line l")
      case True
      then obtain v where "split_field l = Some (''data'', v)" by (auto simp: is_data_line_def split: option.splits)
      then show ?thesis using split_new_data_line [OF assms, of l] all [of ls] True
        by (simp add: data_values_Cons del: append_Cons)
    next
      case False
      then show ?thesis using Cons by (auto simp: data_values_Cons is_data_line_def split: option.splits)
    qed
  qed (simp add: data_values_def map_filter_simps)
qed

lemma replaced_lines_others:
  "filter (\<lambda>l. \<not> is_data_line l) (replaced_lines data True ls) = filter (\<lambda>l. \<not> is_data_line l) ls"
  by (induction ls) auto

lemma replaced_lines_others_False:
  assumes "LF \<notin> set data" "CR \<notin> set data" "utf8_valid data"
  shows "filter (\<lambda>l. \<not> is_data_line l) (replaced_lines data False ls) = filter (\<lambda>l. \<not> is_data_line l) ls"
proof (induction ls)
  case (Cons l ls)
  have "is_data_line (''data: '' @ data @ line_ending l)"
    unfolding is_data_line_def split_new_data_line [OF assms] by simp
  with Cons show ?case by (simp add: replaced_lines_others del: append_Cons)
qed simp

subsection \<open>Properties\<close>

text \<open>Reading a stream loses nothing: printing the events of a body that parses gives the body back byte for
  byte, less a leading byte-order mark.\<close>

theorem sse_round_trip:
  assumes "parse_events body = Inr evs"
  shows "serialize evs = strip_bom body"
  using assms by (rule parse_events_text(1))

definition sample_stream :: string where
  "sample_stream = BOM @ ''event: m'' @ [CR, LF] @ ''data: a'' @ [LF, LF, CR, LF]"

theorem sse_round_trip_witness:
  "\<exists>evs. parse_events sample_stream = Inr evs \<and> serialize evs = ''event: m'' @ [CR, LF] @ ''data: a'' @ [LF, LF, CR, LF]"
proof -
  have "case parse_events sample_stream of Inl _ \<Rightarrow> False | Inr evs \<Rightarrow> True" by code_simp
  then obtain evs where e: "parse_events sample_stream = Inr evs" by (auto split: sum.splits)
  moreover have "strip_bom sample_stream = ''event: m'' @ [CR, LF] @ ''data: a'' @ [LF, LF, CR, LF]" by code_simp
  ultimately show ?thesis using sse_round_trip [OF e] by auto
qed

text \<open>Replacing the data of an event with one line of text makes that line its whole data and leaves every other
  line of the event, and its terminator, as they were.\<close>

theorem sse_replace_exact:
  assumes "event_data ev \<noteq> None" and "replace_data ev data = Inr ev'" and "utf8_valid data"
  shows "\<exists>lines. serialize_event ev' = concat lines @ ev_terminator ev \<and> data_values lines = [data] \<and>
    filter (\<lambda>l. \<not> is_data_line l) lines = filter (\<lambda>l. \<not> is_data_line l) (ev_raw_lines ev)"
proof -
  let ?lines = "replaced_lines data False (ev_raw_lines ev)"
  have single: "LF \<notin> set data" "CR \<notin> set data" and ev': "ev' = ev\<lparr>ev_new_data := Some data\<rparr>"
    using assms(2) by (auto simp: replace_data_def split: if_splits)
  have "data_values (ev_raw_lines ev) \<noteq> []" using assms(1) by (auto simp: event_data_def split: list.splits)
  then show ?thesis
    using replaced_lines_data(2) [OF single assms(3), of "ev_raw_lines ev"]
      replaced_lines_others_False [OF single assms(3), of "ev_raw_lines ev"] ev'
    by (intro exI [of _ ?lines]) (simp add: serialize_event_def)
qed

theorem sse_replace_exact_witness:
  "\<exists>ev' lines. replace_data (mk_event [''id: 1'' @ [LF], ''data: a'' @ [LF], ''data: b'' @ [LF]] [LF]) ''x'' = Inr ev' \<and>
     serialize_event ev' = concat lines @ [LF] \<and> data_values lines = [''x'']"
proof -
  let ?ev = "mk_event [''id: 1'' @ [LF], ''data: a'' @ [LF], ''data: b'' @ [LF]] [LF]"
  have d: "event_data ?ev \<noteq> None" by code_simp
  have r: "replace_data ?ev ''x'' = Inr (?ev\<lparr>ev_new_data := Some ''x''\<rparr>)" by (simp add: replace_data_def LF_def CR_def)
  have u: "utf8_valid ''x''" by code_simp
  from sse_replace_exact [OF d r u] r show ?thesis by (auto simp: mk_event_def)
qed

text \<open>With mixed line endings the frame can break: here the first data line ends in a carriage return, the dropped
  second one in a line feed, and after replacing the data the carriage return and the blank line's line feed run
  together, so that the printed event has no terminator any more.\<close>

theorem sse_replace_mixed_endings:
  "case parse_events (''data: a'' @ [CR] @ ''data: b'' @ [LF, LF]) of
     Inr [ev] \<Rightarrow> (case replace_data ev ''x'' of
         Inr ev' \<Rightarrow> parse_events (serialize_event ev') = Inl IncompleteStream
       | Inl _ \<Rightarrow> False)
   | _ \<Rightarrow> False"
  by code_simp

end
