(* ===== verification/Audit_Log.thy ===== *)
theory Audit_Log
  imports Py_Value
begin

text \<open>
  The audit log, \<open>argus/audit.py\<close>: events are queued, broadcast to bounded subscriber queues, and written
  in batches by a background task. The time stamp and the latency of an event, which only read clocks, are
  left out. A batch write can fail (\<open>write_ok\<close>); the code logs the failure and drops the batch.
\<close>

record audit_event =
  ae_server_slug :: "string option"
  ae_tool :: json
  ae_decision :: string
  ae_endpoint :: "string option"
  ae_rpc_method :: json
  ae_api_key_id :: "int option"
  ae_client_ip :: "string option"
  ae_rule :: "string option"
  ae_matched :: "string option"
  ae_args_summary :: "string dict option"
  ae_reason :: "string option"
  ae_bridged :: bool
  ae_status_code :: "nat option"
  ae_origin :: "string option"
  ae_dlp_detector :: "string option"
  ae_dlp_action :: "string option"
  ae_dlp_match_count :: "nat option"
  ae_response_dlp_detectors_fired :: "string option"
  ae_response_dlp_match_count :: "nat option"
  ae_response_truncated :: "bool option"

text \<open>The defaults of the keyword arguments of \<open>log\<close>.\<close>

definition base_event :: "string option \<Rightarrow> json \<Rightarrow> string \<Rightarrow> audit_event" where
  "base_event slug tool decision = \<lparr>ae_server_slug = slug, ae_tool = tool, ae_decision = decision, ae_endpoint = None,
     ae_rpc_method = JNull, ae_api_key_id = None, ae_client_ip = None, ae_rule = None, ae_matched = None,
     ae_args_summary = None, ae_reason = None, ae_bridged = False, ae_status_code = None, ae_origin = None,
     ae_dlp_detector = None, ae_dlp_action = None, ae_dlp_match_count = None,
     ae_response_dlp_detectors_fired = None, ae_response_dlp_match_count = None, ae_response_truncated = None\<rparr>"

definition MAX_BATCH_SIZE :: nat where "MAX_BATCH_SIZE = 200"
definition SUBSCRIBER_QUEUE_SIZE :: nat where "SUBSCRIBER_QUEUE_SIZE = 1000"

record audit_logger =
  al_queue :: "audit_event list"
  al_subscribers :: "(nat \<times> audit_event list) list"
  al_next_sub :: nat
  al_rows :: "audit_event list"

definition audit_init :: audit_logger where
  "audit_init = \<lparr>al_queue = [], al_subscribers = [], al_next_sub = 0, al_rows = []\<rparr>"

definition put_nowait :: "audit_event \<Rightarrow> audit_event list \<Rightarrow> audit_event list" where
  "put_nowait e q = (if length q < SUBSCRIBER_QUEUE_SIZE then q @ [e] else q)"

definition broadcast :: "audit_logger \<Rightarrow> audit_event \<Rightarrow> audit_logger" where
  "broadcast a e = a\<lparr>al_subscribers := map (\<lambda>(i, q). (i, put_nowait e q)) (al_subscribers a)\<rparr>"

definition audit_log :: "audit_logger \<Rightarrow> audit_event \<Rightarrow> audit_logger" where
  "audit_log a e = broadcast (a\<lparr>al_queue := al_queue a @ [e]\<rparr>) e"

definition subscribe :: "audit_logger \<Rightarrow> nat \<times> audit_logger" where
  "subscribe a = (al_next_sub a, a\<lparr>al_subscribers := al_subscribers a @ [(al_next_sub a, [])], al_next_sub := Suc (al_next_sub a)\<rparr>)"

definition unsubscribe :: "audit_logger \<Rightarrow> nat \<Rightarrow> audit_logger" where
  "unsubscribe a i = a\<lparr>al_subscribers := filter (\<lambda>(j, q). j \<noteq> i) (al_subscribers a)\<rparr>"

definition flush_batch :: "bool \<Rightarrow> audit_logger \<Rightarrow> audit_logger" where
  "flush_batch write_ok a =
     (let batch = take MAX_BATCH_SIZE (al_queue a); a1 = a\<lparr>al_queue := drop MAX_BATCH_SIZE (al_queue a)\<rparr> in
      if batch \<noteq> [] \<and> write_ok then a1\<lparr>al_rows := al_rows a1 @ batch\<rparr> else a1)"

text \<open>Stopping flushes once.\<close>

definition audit_on_stop :: "bool \<Rightarrow> audit_logger \<Rightarrow> audit_logger" where
  "audit_on_stop write_ok a = flush_batch write_ok a"

subsection \<open>Runs of the logger\<close>

datatype audit_op = Log audit_event | Flush bool

fun audit_step :: "audit_logger \<Rightarrow> audit_op \<Rightarrow> audit_logger" where
  "audit_step a (Log e) = audit_log a e"
| "audit_step a (Flush ok) = flush_batch ok a"

definition logged :: "audit_op list \<Rightarrow> audit_event list" where
  "logged steps = List.map_filter (\<lambda>s. case s of Log e \<Rightarrow> Some e | Flush _ \<Rightarrow> None) steps"

lemma logged_simps [simp]:
  "logged [] = []" "logged (Log e # ss) = e # logged ss" "logged (Flush b # ss) = logged ss"
  by (simp_all add: logged_def map_filter_simps)

lemma audit_log_simps [simp]:
  "al_queue (audit_log a e) = al_queue a @ [e]" "al_rows (audit_log a e) = al_rows a"
  by (simp_all add: audit_log_def broadcast_def)

lemma flush_ok: "al_rows (flush_batch True a) @ al_queue (flush_batch True a) = al_rows a @ al_queue a"
  by (auto simp: flush_batch_def Let_def)

lemma audit_run_order:
  assumes "\<forall>b. Flush b \<in> set steps \<longrightarrow> b"
  shows "al_rows (foldl audit_step a steps) @ al_queue (foldl audit_step a steps) = al_rows a @ al_queue a @ logged steps"
  using assms
proof (induction steps arbitrary: a)
  case (Cons s steps)
  show ?case
  proof (cases s)
    case (Log e)
    then show ?thesis using Cons.IH [of "audit_log a e"] Cons.prems by simp
  next
    case (Flush b)
    then have "b" using Cons.prems by auto
    have "al_rows (flush_batch True a) @ al_queue (flush_batch True a) @ logged steps = al_rows a @ al_queue a @ logged steps"
      using flush_ok [of a] by (metis append_assoc)
    then show ?thesis using Cons.IH [of "flush_batch True a"] Cons.prems Flush \<open>b\<close> by simp
  qed
qed simp

lemma flush_queue [simp]: "al_queue (flush_batch ok a) = drop MAX_BATCH_SIZE (al_queue a)"
  by (simp add: flush_batch_def Let_def)

lemma flush_drains:
  "length (al_queue a) \<le> n * MAX_BATCH_SIZE \<Longrightarrow> al_queue ((flush_batch ok ^^ n) a) = []"
proof (induction n arbitrary: a)
  case (Suc n)
  have "length (al_queue (flush_batch ok a)) \<le> n * MAX_BATCH_SIZE"
    using Suc.prems by simp
  then show ?case using Suc.IH [of "flush_batch ok a"] by (simp add: funpow_swap1)
qed simp

subsection \<open>Properties\<close>

text \<open>C32. The audit trail is complete and in order: as long as writes succeed, the rows written so far followed by the
  queue are exactly the events logged, in order and each once; and enough flushes write them all.\<close>

theorem audit_trail_complete:
  assumes "\<forall>b. Flush b \<in> set steps \<longrightarrow> b" and "length (logged steps) \<le> n * MAX_BATCH_SIZE"
  shows "al_rows (foldl audit_step audit_init steps) @ al_queue (foldl audit_step audit_init steps) = logged steps
    \<and> al_rows (foldl audit_step audit_init (steps @ replicate n (Flush True))) = logged steps"
proof -
  let ?a = "foldl audit_step audit_init steps"
  have ord: "al_rows ?a @ al_queue ?a = logged steps"
    using audit_run_order [OF assms(1), of audit_init] by (simp add: audit_init_def)
  have fl: "foldl audit_step a (replicate m (Flush True)) = (flush_batch True ^^ m) a" for a m
    by (induction m arbitrary: a) (simp_all add: funpow_swap1)
  have "length (al_queue ?a) \<le> n * MAX_BATCH_SIZE" using ord assms(2) by (metis add_leD2 le_trans length_append)
  then have "al_queue ((flush_batch True ^^ n) ?a) = []" by (rule flush_drains)
  moreover have "\<forall>b. Flush b \<in> set (steps @ replicate n (Flush True)) \<longrightarrow> b" using assms(1) by auto
  from audit_run_order [OF this, of audit_init]
  have "al_rows (foldl audit_step audit_init (steps @ replicate n (Flush True)))
      @ al_queue (foldl audit_step audit_init (steps @ replicate n (Flush True))) = logged (steps @ replicate n (Flush True))"
    by (simp add: audit_init_def)
  moreover have "logged (steps @ replicate n (Flush True)) = logged steps"
    by (simp add: logged_def map_filter_def)
  ultimately show ?thesis using ord by (simp add: fl)
qed

theorem audit_trail_complete_witness:
  "let e = base_event None JNull ''ERROR'' in
   al_rows (foldl audit_step audit_init ([Log e, Flush True, Log e] @ replicate 1 (Flush True))) = [e, e]"
  using audit_trail_complete [of "[Log (base_event None JNull ''ERROR''), Flush True, Log (base_event None JNull ''ERROR'')]" 1]
  by (simp add: MAX_BATCH_SIZE_def Let_def)

text \<open>Stopping the logger writes at most one batch: events queued beyond it are still in the queue, that is lost,
  when the logger has stopped.\<close>

theorem audit_stop_loses_events:
  "al_rows (audit_on_stop True (a\<lparr>al_queue := es\<rparr>)) = al_rows a @ take MAX_BATCH_SIZE es \<and>
   al_queue (audit_on_stop True (a\<lparr>al_queue := es\<rparr>)) = drop MAX_BATCH_SIZE es"
  by (auto simp: audit_on_stop_def flush_batch_def Let_def)
end
