(* ===== verification/Pipeline.thy ===== *)
theory Pipeline
  imports Tools_Cache Metering Api_Keys Response_Dlp Sse Audit_Log
begin

text \<open>
  The data plane, \<open>argus/pipeline.py\<close>: one request to one server. \<open>gateway\<close> is the state the request
  reads and changes (limiter, usage and webhooks, API keys, audit queue, what was sent upstream, the tool
  catalogue, and the server and policy tables), \<open>gateway_env\<close> what it only reads. A request sees one value of
  each clock. Database reads of servers, policies and settings are taken to succeed. \<open>ge_url\<close> is the URL
  library (\<open>None\<close>: it rejects the text), \<open>ge_cut\<close> after how many bytes of its body the upstream connection breaks (\<open>None\<close>: it does not), \<open>ge_trace\<close> the headers the tracing manager adds, \<open>ge_dumps\<close> and
  \<open>ge_dumps_compact\<close> the JSON printer. Spans and log lines are left out. A \<open>payload\<close> \<open>JsonPayload v\<close> is the
  text \<open>json.dumps(v)\<close>.
\<close>

subsection \<open>State, requests and responses\<close>

record 's gateway_env =
  ge_catalog :: catalog_env
  ge_regex :: regex_env
  ge_hash :: "string \<Rightarrow> string"
  ge_limiter :: "'s limiter_ops"
  ge_clock :: clock
  ge_loads_strict :: "string \<Rightarrow> json option"
  ge_dumps :: "json \<Rightarrow> string"
  ge_dumps_compact :: "json \<Rightarrow> string"
  ge_url :: "string \<Rightarrow> string \<Rightarrow> string option"
  ge_cut :: "http_request list \<Rightarrow> nat option"
  ge_trace :: "(string \<times> string) list"
  ge_secrets :: "string \<Rightarrow> secret_error + string"
  ge_issuer :: "(string \<Rightarrow> string option) option"
  ge_max_body_bytes :: int
  ge_auth_mode :: string
  ge_bridge :: bool
  ge_tools_cache :: bool

record 's gateway =
  gw_metering :: "'s metering"
  gw_keys :: key_store
  gw_audit :: audit_logger
  gw_upstream :: upstream_state
  gw_tools :: "tool_row list"
  gw_servers :: "server_record list"
  gw_policies :: "(int \<times> server_policy) list"
  gw_auth_mode :: "string option"

record request =
  rq_method :: string
  rq_headers :: "(string \<times> string) list"
  rq_body :: string
  rq_query :: string
  rq_client_ip :: "string option"

datatype response =
  Response (rp_status: nat) (rp_headers: "(string \<times> string) list") (rp_media: "string option") (rp_body: payload)

datatype gateway_exn = RoutingError nat json | GatewayUncaught

definition json_response :: "nat \<Rightarrow> json \<Rightarrow> response" where
  "json_response status v = Response status [] (Some ''application/json'') (JsonPayload v)"

definition SINGLE_MESSAGE_RULE :: string where "SINGLE_MESSAGE_RULE = ''single_message''"

definition gw_log :: "'s gateway \<Rightarrow> audit_event \<Rightarrow> 's gateway" where
  "gw_log g e = g\<lparr>gw_audit := audit_log (gw_audit g) e\<rparr>"

text \<open>The audit fields every row of a request on a server shares; tool, decision and the rest are set by the caller.\<close>

definition row_for :: "server_record \<Rightarrow> json \<Rightarrow> api_key_record option \<Rightarrow> string option \<Rightarrow> audit_event" where
  "row_for server rpc_method key ip = (base_event (Some (sv_slug server)) JNull '''')\<lparr>ae_endpoint := Some ''per-server'',
     ae_rpc_method := rpc_method, ae_api_key_id := map_option ak_id key, ae_client_ip := ip\<rparr>"

definition refuse :: "'s gateway \<Rightarrow> audit_event \<Rightarrow> json \<Rightarrow> string \<Rightarrow> nat \<Rightarrow> int \<Rightarrow> json dict option \<Rightarrow> response \<times> 's gateway" where
  "refuse g e rpc_id message status code data =
     (json_response status (rpc_error rpc_id message code data),
      gw_log g (e\<lparr>ae_decision := ''BLOCKED'', ae_reason := (case ae_reason e of None \<Rightarrow> Some message | r \<Rightarrow> r)\<rparr>))"

definition error_response :: "'s gateway \<Rightarrow> audit_event \<Rightarrow> nat \<Rightarrow> json \<Rightarrow> string \<Rightarrow> response \<times> 's gateway" where
  "error_response g e status content reason =
     (json_response status content,
      gw_log g (e\<lparr>ae_decision := ''ERROR'', ae_reason := Some reason, ae_status_code := Some status\<rparr>))"

subsection \<open>Servers, keys and bodies\<close>

definition server_get :: "'s gateway \<Rightarrow> string \<Rightarrow> server_record option" where
  "server_get g slug = List.find (\<lambda>s. sv_slug s = slug) (gw_servers g)"

definition get_policy :: "'s gateway \<Rightarrow> int \<Rightarrow> server_policy" where
  "get_policy g server_id = (case map_of (gw_policies g) server_id of None \<Rightarrow> default_policy | Some p \<Rightarrow> p)"

definition resolve_server :: "'s gateway \<Rightarrow> string \<Rightarrow> gateway_exn + server_record" where
  "resolve_server g slug =
     (case server_get g slug of
        None \<Rightarrow> Inl (RoutingError 404 (rpc_error JNull (''unknown server '' @ quoted slug) INVALID_REQUEST None))
      | Some server \<Rightarrow>
          if \<not> sv_enabled server
          then Inl (RoutingError 404 (rpc_error JNull (''server '' @ quoted slug @ '' is disabled'') INVALID_REQUEST None))
          else Inr server)"

definition current_auth_mode :: "'s gateway_env \<Rightarrow> 's gateway \<Rightarrow> string" where
  "current_auth_mode env g = (case gw_auth_mode g of Some m \<Rightarrow> m | None \<Rightarrow> ge_auth_mode env)"

definition authenticate_no_scope ::
    "'s gateway_env \<Rightarrow> 's gateway \<Rightarrow> request \<Rightarrow> (gateway_exn + api_key_record option) \<times> 's gateway" where
  "authenticate_no_scope env g request =
     (if current_auth_mode env g = ''open'' then (Inr None, g)
      else let auth = (case header_get (rq_headers request) ''authorization'' of None \<Rightarrow> '''' | Some v \<Rightarrow> v) in
        if take 7 (str_lower auth) \<noteq> ''bearer ''
        then (Inl (RoutingError 401 (rpc_error JNull ''missing bearer token'' INVALID_REQUEST None)), g)
        else (case verify (ge_hash env) (gw_keys g) (drop 7 auth) (ck_mono (ge_clock env)) (isoformat (ck_utc (ge_clock env))) of
            (None, keys) \<Rightarrow>
              (Inl (RoutingError 401 (rpc_error JNull ''invalid or disabled api key'' INVALID_REQUEST None)), g\<lparr>gw_keys := keys\<rparr>)
          | (Some rec, keys) \<Rightarrow> (Inr (Some rec), g\<lparr>gw_keys := keys\<rparr>)))"

definition check_key_scope :: "api_key_record \<Rightarrow> string \<Rightarrow> server_record \<Rightarrow> gateway_exn option" where
  "check_key_scope rec slug server =
     (case key_scope_violation rec slug server of
        None \<Rightarrow> None
      | Some violation \<Rightarrow> Some (RoutingError 403 (rpc_error JNull violation INVALID_REQUEST None)))"

definition authenticate ::
    "'s gateway_env \<Rightarrow> 's gateway \<Rightarrow> request \<Rightarrow> string \<Rightarrow> server_record \<Rightarrow> (gateway_exn + api_key_record option) \<times> 's gateway" where
  "authenticate env g request slug server =
     (case authenticate_no_scope env g request of
        (Inl e, g1) \<Rightarrow> (Inl e, g1)
      | (Inr None, g1) \<Rightarrow> (Inr None, g1)
      | (Inr (Some rec), g1) \<Rightarrow>
          (case check_key_scope rec slug server of Some e \<Rightarrow> (Inl e, g1) | None \<Rightarrow> (Inr (Some rec), g1)))"

definition guard_body_size :: "'s gateway_env \<Rightarrow> string \<Rightarrow> gateway_exn + string" where
  "guard_body_size env body =
     (if int (length body) > ge_max_body_bytes env
      then Inl (RoutingError 413 (rpc_error JNull ''payload too large'' INVALID_REQUEST None)) else Inr body)"

definition read_body_guarded :: "'s gateway_env \<Rightarrow> request \<Rightarrow> gateway_exn + string" where
  "read_body_guarded env request =
     (case header_get (rq_headers request) ''content-length'' of
        None \<Rightarrow> guard_body_size env (rq_body request)
      | Some cl \<Rightarrow>
          if cl = [] then guard_body_size env (rq_body request)
          else (case int_of_string cl of
              None \<Rightarrow> Inl (RoutingError 400 (rpc_error JNull ''invalid content-length header'' INVALID_REQUEST None))
            | Some n \<Rightarrow> if n > ge_max_body_bytes env
                then Inl (RoutingError 413 (rpc_error JNull ''payload too large'' INVALID_REQUEST None))
                else guard_body_size env (rq_body request)))"

subsection \<open>Enforcement\<close>

datatype enforcement = Blocked response | Allowed decision server_policy "audit_event option"

text \<open>The refusal of a metering verdict. Its row has neither the origin of the call nor the bridged flag.\<close>

definition refuse_metered ::
    "'s gateway \<Rightarrow> server_record \<Rightarrow> string \<Rightarrow> api_key_record option \<Rightarrow> string option \<Rightarrow> json \<Rightarrow> metering_verdict \<Rightarrow>
     response \<times> 's gateway" where
  "refuse_metered g server tool key ip rpc_id v =
     refuse g ((row_for server (JStr ''tools/call'') key ip)\<lparr>ae_tool := JStr tool, ae_rule := mv_rule v, ae_reason := mv_reason v\<rparr>)
       rpc_id (case mv_message v of Some m \<Rightarrow> m | None \<Rightarrow> '''') (mv_status v) INVALID_REQUEST (mv_data v)"

definition gw_record_usage ::
    "'s gateway_env \<Rightarrow> 's gateway \<Rightarrow> server_record \<Rightarrow> string \<Rightarrow> api_key_record option \<Rightarrow> 's gateway" where
  "gw_record_usage env g server tool key =
     g\<lparr>gw_metering := record_usage (gw_metering g) server (Some tool) (map_option ak_id key) (ge_clock env)\<rparr>"

definition opt_json :: "string option \<Rightarrow> json" where
  "opt_json x = (case x of None \<Rightarrow> JNull | Some s \<Rightarrow> JStr s)"

definition decision_row :: "audit_event \<Rightarrow> string \<Rightarrow> decision \<Rightarrow> audit_event" where
  "decision_row common tool d = common\<lparr>ae_tool := JStr tool, ae_decision := (if dc_blocked d then ''BLOCKED'' else ''ALLOWED''),
     ae_rule := dc_rule d, ae_matched := dc_matched d, ae_args_summary := dc_args_summary d, ae_reason := dc_reason d,
     ae_dlp_detector := dc_dlp_detector d, ae_dlp_action := dc_dlp_action d, ae_dlp_match_count := Some (dc_dlp_match_count d)\<rparr>"

definition blocked_response :: "json \<Rightarrow> string \<Rightarrow> decision \<Rightarrow> response" where
  "blocked_response rpc_id tool d = json_response 403 (rpc_error rpc_id
     (''Blocked by acropolis: '' @ (case dc_reason d of Some r \<Rightarrow> r | None \<Rightarrow> ''None'')) INVALID_REQUEST
     (Some [(''tool'', JStr tool), (''rule'', opt_json (dc_rule d)), (''matched'', opt_json (dc_matched d))]))"

text \<open>What follows the evaluation of the policy.\<close>

definition enforce_decision ::
    "'s gateway_env \<Rightarrow> 's gateway \<Rightarrow> server_record \<Rightarrow> server_policy \<Rightarrow> json \<Rightarrow> json \<Rightarrow> string \<Rightarrow> api_key_record option \<Rightarrow>
     audit_event \<Rightarrow> decision \<Rightarrow> enforcement \<times> 's gateway" where
  "enforce_decision env g server policy rpc_method rpc_id tool key common d =
     (let row = decision_row common tool d;
          pending = (if \<not> dc_blocked d \<and> response_dlp_enabled policy rpc_method then Some row else None);
          g1 = (if pending = None then gw_log g row else g);
          g2 = gw_record_usage env g1 server tool key
      in (if dc_blocked d then Blocked (blocked_response rpc_id tool d) else Allowed d policy pending, g2))"

definition enforce_named ::
    "'s gateway_env \<Rightarrow> 's gateway \<Rightarrow> server_record \<Rightarrow> json \<Rightarrow> json \<Rightarrow> json dict \<Rightarrow> string \<Rightarrow> api_key_record option \<Rightarrow>
     string option \<Rightarrow> audit_event \<Rightarrow> (gateway_exn + enforcement) \<times> 's gateway" where
  "enforce_named env g server rpc_method rpc_id params tool key ip common =
     (let policy = get_policy g (sv_id server) in
      case check_rate_limits (ge_limiter env) (gw_metering g) server policy tool (ge_clock env) of
        (Inl _, m1) \<Rightarrow> (Inl GatewayUncaught, g\<lparr>gw_metering := m1\<rparr>)
      | (Inr v, m1) \<Rightarrow>
          (let g1 = g\<lparr>gw_metering := m1\<rparr> in
           if \<not> mv_allowed v
           then (let (r, g2) = refuse_metered g1 server tool key ip rpc_id v in
                 (Inr (Blocked r), gw_record_usage env g2 server tool key))
           else let (q, m2) = check_quota m1 server tool key (ge_clock env); g2 = g\<lparr>gw_metering := m2\<rparr> in
             if \<not> mv_allowed q
             then (let (r, g3) = refuse_metered g2 server tool key ip rpc_id q in
                   (Inr (Blocked r), gw_record_usage env g3 server tool key))
             else (case or_default (obj_get params ''arguments'') (JObj []) of
                 JObj arguments \<Rightarrow>
                   (case evaluate (ge_regex env) (ce_fr (ge_catalog env)) tool arguments (sv_name server) policy of
                      Inl _ \<Rightarrow> (Inl GatewayUncaught, g2)
                    | Inr d \<Rightarrow> (let (r, g3) = enforce_decision env g2 server policy rpc_method rpc_id tool key common d in (Inr r, g3)))
               | _ \<Rightarrow> (Inl GatewayUncaught, g2))))"

definition enforce ::
    "'s gateway_env \<Rightarrow> 's gateway \<Rightarrow> server_record \<Rightarrow> json \<Rightarrow> json \<Rightarrow> json dict \<Rightarrow> json \<Rightarrow> api_key_record option \<Rightarrow>
     string option \<Rightarrow> string option \<Rightarrow> bool \<Rightarrow> (gateway_exn + enforcement) \<times> 's gateway" where
  "enforce env g server rpc_method rpc_id params tool_name key ip origin bridged =
     (let common = (row_for server rpc_method key ip)\<lparr>ae_origin := origin, ae_bridged := bridged\<rparr> in
      case tool_name of
        JStr (c # cs) \<Rightarrow> enforce_named env g server rpc_method rpc_id params (c # cs) key ip common
      | _ \<Rightarrow> (let (r, g1) = refuse g (common\<lparr>ae_tool := JStr ''<missing>'', ae_status_code := Some 400\<rparr>) rpc_id
                 (''tools/call missing required '' @ quoted ''name'' @ '' field'') 400 INVALID_REQUEST None
             in (Inr (Blocked r), g1)))"

subsection \<open>Credentials, discovery, listings\<close>

text \<open>\<open>Inl (Inl e)\<close> is an exception, \<open>Inl (Inr r)\<close> the response the caller returns.\<close>

definition resolve_credential ::
    "'s gateway_env \<Rightarrow> 's gateway \<Rightarrow> server_record \<Rightarrow> audit_event \<Rightarrow> json \<Rightarrow>
     ((gateway_exn + response) + string option) \<times> 's gateway" where
  "resolve_credential env g server row rpc_id =
     (case resolve_upstream_credential (ge_secrets env) (ge_issuer env) server of
        Inr auth \<Rightarrow> (Inr auth, g)
      | Inl CredentialUncaught \<Rightarrow> (Inl (Inl GatewayUncaught), g)
      | Inl (UpstreamCredentialError reason _) \<Rightarrow>
          (let (r, g1) = error_response g row 502 (rpc_error rpc_id reason INVALID_REQUEST None) reason in (Inl (Inr r), g1)))"

definition rpc_result :: "json \<Rightarrow> json \<Rightarrow> json" where
  "rpc_result rpc_id result = JObj [(''jsonrpc'', JStr ''2.0''), (''id'', sanitize_rpc_id rpc_id), (''result'', result)]"

definition handle_discover :: "'s gateway_env \<Rightarrow> server_record \<Rightarrow> json \<Rightarrow> gateway_exn + response" where
  "handle_discover env server rpc_id =
     (case synthesize_server_discover (ce_loads (ge_catalog env)) server of
        Inl _ \<Rightarrow> Inl GatewayUncaught
      | Inr result \<Rightarrow> Inr (json_response 200 (rpc_result rpc_id (JObj result))))"

definition handle_tools_list ::
    "'s gateway_env \<Rightarrow> 's gateway \<Rightarrow> server_record \<Rightarrow> json \<Rightarrow> api_key_record option \<Rightarrow> string option \<Rightarrow>
     (gateway_exn + response) \<times> 's gateway" where
  "handle_tools_list env g server rpc_id key ip =
     (let row = row_for server (JStr ''tools/list'') key ip in
      case resolve_credential env g server row rpc_id of
        (Inl r, g1) \<Rightarrow> (r, g1)
      | (Inr auth, g1) \<Rightarrow>
          (case get_filtered_tools (ge_catalog env) (gw_tools g1) (gw_upstream g1) (sv_id server) (sv_upstream_url server)
                  (get_policy g1 (sv_id server)) False auth of
             (tools, table, up) \<Rightarrow>
               (let g2 = g1\<lparr>gw_tools := table, gw_upstream := up\<rparr> in
                case tools of
                  None \<Rightarrow> (Inl GatewayUncaught, g2)
                | Some ts \<Rightarrow> (Inr (json_response 200 (rpc_result rpc_id (JObj [(''tools'', JList ts)]))),
                    gw_log g2 (row\<lparr>ae_decision := ''PASSTHROUGH''\<rparr>)))))"

subsection \<open>Response scanning\<close>

definition scan_message :: "'s gateway_env \<Rightarrow> json \<Rightarrow> server_policy \<Rightarrow> json \<Rightarrow> json \<times> response_scan" where
  "scan_message env message policy rpc_id =
     (case Response_Dlp.scan_result (ge_regex env) message policy of
        Inr scan \<Rightarrow> (rs_result scan, scan)
      | Inl _ \<Rightarrow> (let marker = marker_message (sanitize_rpc_id rpc_id) UNPARSEABLE_MARKER in
          (marker, \<lparr>rs_result = marker, rs_detectors_fired = [], rs_match_count = 0, rs_truncated = True\<rparr>)))"

definition log_deferred_allowed :: "'s gateway \<Rightarrow> audit_event option \<Rightarrow> response_scan option \<Rightarrow> 's gateway" where
  "log_deferred_allowed g pending scan =
     (case pending of
        None \<Rightarrow> g
      | Some row \<Rightarrow> gw_log g (row\<lparr>ae_response_dlp_detectors_fired := map_option (\<lambda>s. str_join '','' (rs_detectors_fired s)) scan,
          ae_response_dlp_match_count := map_option rs_match_count scan, ae_response_truncated := map_option rs_truncated scan\<rparr>))"

definition marker_response :: "json \<Rightarrow> string \<Rightarrow> (string \<times> string) list \<Rightarrow> response \<times> response_scan" where
  "marker_response rpc_id marker_text headers =
     (let marker = marker_message (sanitize_rpc_id rpc_id) marker_text in
      (Response 200 (filter (\<lambda>(k, v). str_lower k \<noteq> ''content-type'') headers) (Some ''application/json'') (JsonPayload marker),
       \<lparr>rs_result = marker, rs_detectors_fired = [], rs_match_count = 0, rs_truncated = True\<rparr>))"

fun all_some :: "('a \<Rightarrow> 'b option) \<Rightarrow> 'a list \<Rightarrow> 'b list option" where
  "all_some f [] = Some []"
| "all_some f (x # xs) = (case f x of None \<Rightarrow> None | Some y \<Rightarrow> map_option (Cons y) (all_some f xs))"

text \<open>The events of a scanned stream: where a message changed its event gets the new text. \<open>None\<close> is an exception.\<close>

fun replace_events ::
    "(json \<Rightarrow> string) \<Rightarrow> sse_event list \<Rightarrow> json list \<Rightarrow> json list \<Rightarrow> sse_event list option" where
  "replace_events dumps [] _ _ = Some []"
| "replace_events dumps (ev # evs) before after =
     (case event_data ev of
        None \<Rightarrow> map_option (Cons ev) (replace_events dumps evs before after)
      | Some _ \<Rightarrow>
          (case (before, after) of
             (b # bs, a # as) \<Rightarrow>
               (case (if a = b then Inr ev else replace_data ev (dumps a)) of
                  Inl _ \<Rightarrow> None
                | Inr ev' \<Rightarrow> map_option (Cons ev') (replace_events dumps evs bs as))
           | _ \<Rightarrow> Some (ev # evs)))"

definition media_type_of :: "(string \<times> string) list \<Rightarrow> string" where
  "media_type_of hs = str_lower (str_strip (hd (str_split CHR '';'' (header_or hs ''content-type'' ''''))))"

definition is_json_media :: "string \<Rightarrow> bool" where
  "is_json_media t \<longleftrightarrow> t = ''application/json'' \<or> drop (length t - 5) t = ''+json''"

definition scan_json_body :: "'s gateway_env \<Rightarrow> string \<Rightarrow> server_policy \<Rightarrow> json \<Rightarrow> (payload \<times> response_scan) option" where
  "scan_json_body env buf policy rpc_id =
     (case ge_loads_strict env buf of
        None \<Rightarrow> None
      | Some message \<Rightarrow>
          (let (scanned, scan) = scan_message env message policy rpc_id in
           Some (if rs_match_count scan = 0 \<and> \<not> rs_truncated scan then RawPayload buf
                 else RawPayload (ge_dumps_compact env scanned), scan)))"

definition scan_sse_body :: "'s gateway_env \<Rightarrow> string \<Rightarrow> server_policy \<Rightarrow> json \<Rightarrow> (payload \<times> response_scan) option" where
  "scan_sse_body env buf policy rpc_id =
     (case parse_events buf of
        Inl _ \<Rightarrow> None
      | Inr events \<Rightarrow>
          (case all_some (ge_loads_strict env) (List.map_filter event_data events) of
             None \<Rightarrow> None
           | Some messages \<Rightarrow>
               (let (scanned, scan) = scan_message env (JList messages) policy rpc_id in
                case scanned of
                  JList after \<Rightarrow> map_option (\<lambda>evs. (RawPayload (serialize evs), scan))
                    (replace_events (ge_dumps_compact env) events messages after)
                | _ \<Rightarrow> None)))"

text \<open>\<open>sent\<close> is what the upstream sent of its body and \<open>broken\<close> whether the connection broke after it.\<close>

definition scan_passthrough_response ::
    "'s gateway_env \<Rightarrow> nat \<Rightarrow> (string \<times> string) list \<Rightarrow> string \<Rightarrow> bool \<Rightarrow> server_policy \<Rightarrow> json \<Rightarrow> response \<times> response_scan" where
  "scan_passthrough_response env status hs sent broken policy rpc_id =
     (let headers = filter (\<lambda>(k, v). str_lower k \<notin> {''content-length'', ''content-encoding'', ''transfer-encoding''})
            (filter_response_headers hs);
          ceiling = HARD_CEILING_FACTOR * sp_response_dlp_max_bytes policy;
          encoding = str_lower (str_strip (header_or hs ''content-encoding'' ''identity''));
          content_type = media_type_of hs in
      if int (length sent) > ceiling then marker_response rpc_id HARD_LIMIT_MARKER headers
      else if broken then marker_response rpc_id UNPARSEABLE_MARKER headers
      else if sent = [] then (Response status headers None (RawPayload ''''),
        \<lparr>rs_result = JNull, rs_detectors_fired = [], rs_match_count = 0, rs_truncated = False\<rparr>)
      else case (if encoding \<notin> {'''', ''identity''} then None
                 else if is_json_media content_type then scan_json_body env sent policy rpc_id
                 else if content_type = ''text/event-stream'' then scan_sse_body env sent policy rpc_id
                 else None) of
          None \<Rightarrow> marker_response rpc_id UNPARSEABLE_MARKER headers
        | Some (out, scan) \<Rightarrow> (Response status headers None out, scan))"

subsection \<open>Forwarding\<close>

definition bad_path :: "string \<Rightarrow> bool" where
  "bad_path path \<longleftrightarrow> path \<noteq> [] \<and> (hd path = CHR ''/'' \<or> has_substring ''/../'' (''/'' @ path @ ''/'') \<or> path \<in> {''..'', ''.''})"

definition rstrip_slashes :: "string \<Rightarrow> string" where
  "rstrip_slashes s = rev (dropWhile (\<lambda>c. c = CHR ''/'') (rev s))"

definition forward_target :: "server_record \<Rightarrow> string \<Rightarrow> string" where
  "forward_target server path =
     (if path \<noteq> [] then rstrip_slashes (sv_upstream_url server @ ''/'' @ path) else sv_upstream_url server)"

definition forward_headers ::
    "'s gateway_env \<Rightarrow> request \<Rightarrow> string option \<Rightarrow> bool \<Rightarrow> (string \<times> string) list" where
  "forward_headers env request auth scanned =
     (let hs = strip_hop_by_hop (rq_headers request);
          hs1 = (case auth of
              Some (c # cs) \<Rightarrow> filter (\<lambda>(k, v). bytes_lower k \<noteq> ''authorization'') hs @ [(''authorization'', c # cs)]
            | _ \<Rightarrow> hs);
          hs2 = (if scanned then filter (\<lambda>(k, v). bytes_lower k \<noteq> ''accept-encoding'') hs1 @ [(''accept-encoding'', ''identity'')]
                 else hs1)
      in hs2 @ ge_trace env)"

definition forward ::
    "'s gateway_env \<Rightarrow> 's gateway \<Rightarrow> request \<Rightarrow> server_record \<Rightarrow> string \<Rightarrow> payload \<Rightarrow> string option \<Rightarrow> server_policy option \<Rightarrow>
     json \<Rightarrow> (gateway_exn + response) \<times> response_scan option \<times> 's gateway" where
  "forward env g request server path body auth scan_policy rpc_id =
     (if bad_path path then (Inl (RoutingError 400 (rpc_error JNull ''invalid upstream path'' INVALID_REQUEST None)), None, g)
      else case ge_url env (forward_target server path) (rq_query request) of
          None \<Rightarrow> (Inl GatewayUncaught, None, g)
        | Some url \<Rightarrow>
            (let (a, up) = send (ce_net (ge_catalog env)) (gw_upstream g) \<lparr>hq_method = rq_method request, hq_url = url,
                    hq_headers = forward_headers env request auth (scan_policy \<noteq> None), hq_body = body\<rparr>;
                 g1 = g\<lparr>gw_upstream := up\<rparr>;
                 failed = (\<lambda>m. (Inl (RoutingError 502 (rpc_error JNull (''upstream request failed: '' @ m) INVALID_REQUEST None)), None, g1)) in
             case a of
               HttpFailure m \<Rightarrow> failed m
             | HttpDeadline \<Rightarrow> failed ''timeout''
             | HttpAnswer status hs content \<Rightarrow>
                 (let cut = ge_cut env (up_history up); sent = (case cut of None \<Rightarrow> content | Some n \<Rightarrow> take n content) in
                  case scan_policy of
                    None \<Rightarrow> (Inr (Response status (filter_response_headers hs) None (RawPayload sent)), None, g1)
                  | Some policy \<Rightarrow>
                      (let (r, scan) = scan_passthrough_response env status hs sent (cut \<noteq> None) policy rpc_id
                       in (Inr r, Some scan, g1)))))"

text \<open>Credential, forwarding and the deferred audit row, which is written whatever happened.\<close>

definition deliver ::
    "'s gateway_env \<Rightarrow> 's gateway \<Rightarrow> request \<Rightarrow> server_record \<Rightarrow> string \<Rightarrow> payload \<Rightarrow> audit_event \<Rightarrow> json \<Rightarrow> server_policy option \<Rightarrow>
     audit_event option \<Rightarrow> (gateway_exn + response) \<times> 's gateway" where
  "deliver env g request server path body row rpc_id scan_policy pending =
     (case resolve_credential env g server row rpc_id of
        (Inl r, g1) \<Rightarrow> (r, log_deferred_allowed g1 pending None)
      | (Inr auth, g1) \<Rightarrow>
          (case forward env g1 request server path body auth scan_policy rpc_id of
             (r, scan, g2) \<Rightarrow> (r, log_deferred_allowed g2 pending scan)))"

subsection \<open>Bridged calls\<close>

definition bridged_send ::
    "'s gateway_env \<Rightarrow> 's gateway \<Rightarrow> server_record \<Rightarrow> json \<Rightarrow> json \<Rightarrow> json \<Rightarrow> json \<Rightarrow> audit_event \<Rightarrow> json \<Rightarrow> server_policy option \<Rightarrow>
     audit_event option \<Rightarrow> (gateway_exn + response) \<times> 's gateway" where
  "bridged_send env g server rpc_method rpc_id params meta row tool scan_policy pending =
     (case resolve_credential env g server (row\<lparr>ae_tool := tool\<rparr>) rpc_id of
        (Inl r, g1) \<Rightarrow> (r, log_deferred_allowed g1 pending None)
      | (Inr auth, g1) \<Rightarrow>
          (let ce = ge_catalog env in
           case bridge_call (ce_fr ce) (ce_net ce) (ce_loads ce) (gw_upstream g1) (ce_hs_id ce) (sv_id server)
                  (sv_upstream_url server) rpc_method rpc_id params meta auth (ce_mono ce) of
             (Inl (BridgeError status body), up) \<Rightarrow>
               (let (r, g2) = error_response (g1\<lparr>gw_upstream := up\<rparr>) row status body (take 200 (ge_dumps env body))
                in (Inr r, log_deferred_allowed g2 pending None))
           | (Inl BridgeUncaught, up) \<Rightarrow> (Inl GatewayUncaught, log_deferred_allowed (g1\<lparr>gw_upstream := up\<rparr>) pending None)
           | (Inr (status, body), up) \<Rightarrow>
               (case scan_policy of
                  None \<Rightarrow> (Inr (json_response status body), log_deferred_allowed (g1\<lparr>gw_upstream := up\<rparr>) pending None)
                | Some policy \<Rightarrow>
                    (let (b, scan) = scan_message env body policy rpc_id in
                     (Inr (json_response status b), log_deferred_allowed (g1\<lparr>gw_upstream := up\<rparr>) pending (Some scan))))))"

definition redacted_params :: "json dict \<Rightarrow> decision \<Rightarrow> json dict" where
  "redacted_params params d = (case dc_dlp_redacted_arguments d of
     None \<Rightarrow> params | Some args \<Rightarrow> AList.update ''arguments'' (JObj args) params)"

text \<open>The body forwarded for an allowed call: as it came, or with the redacted arguments.\<close>

definition call_payload :: "string \<Rightarrow> json dict \<Rightarrow> json dict \<Rightarrow> decision \<Rightarrow> payload" where
  "call_payload body body_json params d =
     (if dc_dlp_redacted_arguments d = None then RawPayload body
      else JsonPayload (JObj (AList.update ''params'' (JObj (redacted_params params d)) body_json)))"

definition scan_policy_of :: "server_policy \<Rightarrow> json \<Rightarrow> server_policy option" where
  "scan_policy_of policy rpc_method = (if response_dlp_enabled policy rpc_method then Some policy else None)"

definition handle_bridged ::
    "'s gateway_env \<Rightarrow> 's gateway \<Rightarrow> server_record \<Rightarrow> json \<Rightarrow> json \<Rightarrow> json \<Rightarrow> json \<Rightarrow> api_key_record option \<Rightarrow> string option \<Rightarrow>
     string option \<Rightarrow> (gateway_exn + response) \<times> 's gateway" where
  "handle_bridged env g server rpc_method rpc_id params meta key ip origin =
     (let row = (row_for server rpc_method key ip)\<lparr>ae_bridged := True, ae_origin := origin\<rparr> in
      if rpc_method = JStr ''tools/call'' then
        (case params of
           JObj ps \<Rightarrow>
             (case enforce env g server rpc_method rpc_id ps (obj_get ps ''name'') key ip origin True of
                (Inl e, g1) \<Rightarrow> (Inl e, g1)
              | (Inr (Blocked r), g1) \<Rightarrow> (Inr r, g1)
              | (Inr (Allowed d policy pending), g1) \<Rightarrow>
                  bridged_send env g1 server rpc_method rpc_id (JObj (redacted_params ps d)) meta row (obj_get ps ''name'')
                    (scan_policy_of policy rpc_method) (if response_dlp_enabled policy rpc_method then pending else None))
         | _ \<Rightarrow> (Inl GatewayUncaught, g))
      else bridged_send env (gw_log g (row\<lparr>ae_decision := ''PASSTHROUGH''\<rparr>)) server rpc_method rpc_id params meta row JNull None None)"

subsection \<open>One request\<close>

definition passthrough_call ::
    "'s gateway_env \<Rightarrow> 's gateway \<Rightarrow> request \<Rightarrow> server_record \<Rightarrow> string \<Rightarrow> string \<Rightarrow> json dict \<Rightarrow> json dict \<Rightarrow> json \<Rightarrow> api_key_record option \<Rightarrow>
     string option \<Rightarrow> (gateway_exn + response) \<times> 's gateway" where
  "passthrough_call env g request server path body body_json ps rpc_id key origin =
     (let ip = rq_client_ip request; rpc_method = JStr ''tools/call'' in
      case enforce env g server rpc_method rpc_id ps (obj_get ps ''name'') key ip origin False of
        (Inl e, g1) \<Rightarrow> (Inl e, g1)
      | (Inr (Blocked r), g1) \<Rightarrow> (Inr r, g1)
      | (Inr (Allowed d policy pending), g1) \<Rightarrow>
          deliver env g1 request server path
            (call_payload body body_json ps d)
            ((row_for server rpc_method key ip)\<lparr>ae_tool := obj_get ps ''name'', ae_origin := origin\<rparr>) rpc_id
            (scan_policy_of policy rpc_method) (if response_dlp_enabled policy rpc_method then pending else None))"

definition process_message ::
    "'s gateway_env \<Rightarrow> 's gateway \<Rightarrow> request \<Rightarrow> server_record \<Rightarrow> string \<Rightarrow> string \<Rightarrow> json dict \<Rightarrow> api_key_record option \<Rightarrow>
     client_generation option \<Rightarrow> string option \<Rightarrow> (gateway_exn + response) \<times> 's gateway" where
  "process_message env g request server path body body_json key force_generation origin =
     (let rpc_id = obj_get body_json ''id'';
          rpc_method = (case map_of body_json ''method'' of None \<Rightarrow> JStr '''' | Some v \<Rightarrow> v);
          params = or_default (obj_get body_json ''params'') (JObj []);
          ip = rq_client_ip request; row = row_for server rpc_method key ip in
      case extract_name_from_params rpc_method params of
        Inl _ \<Rightarrow> (Inl GatewayUncaught, g)
      | Inr body_name \<Rightarrow>
          if force_generation = None \<and> \<not> header_matches_body (header_get (rq_headers request) ''Mcp-Method'')
               (header_get (rq_headers request) ''Mcp-Name'') rpc_method body_name
          then (let (r, g1) = error_response g (row\<lparr>ae_tool := body_name\<rparr>) 400
                  (rpc_error JNull ''Mcp-Method/Mcp-Name header does not match request body'' HEADER_MISMATCH_ERROR None)
                  ''Mcp-Method/Mcp-Name header mismatch'' in (Inr r, g1))
          else let generation = (case force_generation of Some x \<Rightarrow> x | None \<Rightarrow> detect_client_generation (rq_headers request)) in
            if rpc_method = JStr ''server/discover'' then (handle_discover env server rpc_id, g)
            else if rpc_method = JStr ''tools/list'' \<and> ge_tools_cache env then handle_tools_list env g server rpc_id key ip
            else if generation = GEN_2026 \<and> ge_bridge env
              then handle_bridged env g server rpc_method rpc_id params (obj_get body_json ''_meta'') key ip origin
            else if rpc_method = JStr ''tools/call'' then
              (case params of
                 JObj ps \<Rightarrow> passthrough_call env g request server path body body_json ps rpc_id key origin
               | _ \<Rightarrow> (Inl GatewayUncaught, g))
            else deliver env (gw_log g (row\<lparr>ae_tool := body_name, ae_decision := ''PASSTHROUGH''\<rparr>)) request server path
                   (RawPayload body) (row\<lparr>ae_origin := origin\<rparr>) rpc_id None None)"

definition process ::
    "'s gateway_env \<Rightarrow> 's gateway \<Rightarrow> request \<Rightarrow> server_record \<Rightarrow> string \<Rightarrow> string \<Rightarrow> api_key_record option \<Rightarrow>
     client_generation option \<Rightarrow> string option \<Rightarrow> (gateway_exn + response) \<times> 's gateway" where
  "process env g request server path body key force_generation origin =
     (let row = (row_for server JNull key (rq_client_ip request))\<lparr>ae_rule := Some SINGLE_MESSAGE_RULE, ae_origin := origin,
            ae_status_code := Some 400\<rparr> in
      if rq_method request \<noteq> ''POST'' \<and> body \<noteq> [] then
        (let (r, g1) = refuse g row JNull (''a request body is only accepted on POST, not '' @ rq_method request) 400 INVALID_REQUEST None
         in (Inr r, g1))
      else if body \<noteq> [] then
        (case parse_single_message (ce_loads (ge_catalog env)) body of
           Inl (NotASingleMessage code reason) \<Rightarrow>
             (let (r, g1) = refuse g row JNull reason 400 code None in (Inr r, g1))
         | Inr body_json \<Rightarrow> process_message env g request server path body body_json key force_generation origin)
      else deliver env g request server path (RawPayload body)
             ((row_for server (JStr '''') key (rq_client_ip request))\<lparr>ae_origin := origin\<rparr>) JNull None None)"

text \<open>Who is calling: the control plane without a key, the aggregate endpoint with a key it has verified, or a client.\<close>

definition admit ::
    "'s gateway_env \<Rightarrow> 's gateway \<Rightarrow> request \<Rightarrow> string \<Rightarrow> server_record \<Rightarrow> bool \<Rightarrow> api_key_record option \<Rightarrow>
     (gateway_exn + api_key_record option) \<times> 's gateway" where
  "admit env g request slug server skip_api_key_auth pre_authenticated =
     (if skip_api_key_auth then (Inr None, g)
      else case pre_authenticated of
          Some rec \<Rightarrow> (case check_key_scope rec slug server of Some e \<Rightarrow> Inl e | None \<Rightarrow> Inr (Some rec), g)
        | None \<Rightarrow> authenticate env g request slug server)"

definition run_request ::
    "'s gateway_env \<Rightarrow> 's gateway \<Rightarrow> request \<Rightarrow> string \<Rightarrow> string \<Rightarrow> string option \<Rightarrow> client_generation option \<Rightarrow> bool \<Rightarrow> string option \<Rightarrow>
     api_key_record option \<Rightarrow> server_record option \<Rightarrow> (gateway_exn + response) \<times> 's gateway" where
  "run_request env g request slug path body_override force_generation skip_api_key_auth origin pre_authenticated resolved_server =
     (case (case resolved_server of Some s \<Rightarrow> Inr s | None \<Rightarrow> resolve_server g slug) of
        Inl e \<Rightarrow> (Inl e, g)
      | Inr server \<Rightarrow>
          (case admit env g request slug server skip_api_key_auth pre_authenticated of
             (Inl e, g1) \<Rightarrow> (Inl e, g1)
           | (Inr key, g1) \<Rightarrow>
               (case (case body_override of Some b \<Rightarrow> guard_body_size env b | None \<Rightarrow> read_body_guarded env request) of
                  Inl e \<Rightarrow> (Inl e, g1)
                | Inr body \<Rightarrow> process env g1 request server path body key force_generation origin)))"

text \<open>\<open>handle\<close>: \<open>None\<close> is an exception that reaches the framework, which answers 500.\<close>

definition handle ::
    "'s gateway_env \<Rightarrow> 's gateway \<Rightarrow> request \<Rightarrow> string \<Rightarrow> string \<Rightarrow> string option \<Rightarrow> client_generation option \<Rightarrow> bool \<Rightarrow> string option \<Rightarrow>
     api_key_record option \<Rightarrow> server_record option \<Rightarrow> response option \<times> 's gateway" where
  "handle env g request slug path body_override force_generation skip_api_key_auth origin pre_authenticated resolved_server =
     (if skip_api_key_auth \<and> pre_authenticated \<noteq> None then (None, g)
      else case run_request env g request slug path body_override force_generation skip_api_key_auth origin
                  pre_authenticated resolved_server of
          (Inr r, g1) \<Rightarrow> (Some r, g1)
        | (Inl GatewayUncaught, g1) \<Rightarrow> (None, g1)
        | (Inl (RoutingError status body), g1) \<Rightarrow>
            (let (r, g2) = error_response g1 ((base_event (Some slug) JNull '''')\<lparr>ae_endpoint := Some ''per-server'',
                   ae_client_ip := rq_client_ip request, ae_origin := origin\<rparr>) status body (take 200 (ge_dumps env body))
             in (Some r, g2)))"

end
