(* ===== verification/Pipeline_Correct.thy ===== *)
theory Pipeline_Correct
  imports Pipeline
begin

text \<open>
  What the data plane guarantees. First what each step of a request leaves alone and records, then the
  cases of \<open>handle\<close>, then the properties of a whole request.
\<close>

subsection \<open>What the steps leave alone\<close>

lemma gw_log_simps [simp]:
  "gw_upstream (gw_log g e) = gw_upstream g" "gw_metering (gw_log g e) = gw_metering g" "gw_keys (gw_log g e) = gw_keys g"
  "gw_tools (gw_log g e) = gw_tools g" "gw_servers (gw_log g e) = gw_servers g" "gw_policies (gw_log g e) = gw_policies g"
  "al_queue (gw_audit (gw_log g e)) = al_queue (gw_audit g) @ [e]"
  by (simp_all add: gw_log_def)

lemma gw_record_usage_simps [simp]:
  "gw_upstream (gw_record_usage env g server tool key) = gw_upstream g" "gw_audit (gw_record_usage env g server tool key) = gw_audit g"
  "gw_keys (gw_record_usage env g server tool key) = gw_keys g" "gw_tools (gw_record_usage env g server tool key) = gw_tools g"
  "gw_policies (gw_record_usage env g server tool key) = gw_policies g"
  by (simp_all add: gw_record_usage_def)

lemma log_deferred_simps [simp]:
  "gw_upstream (log_deferred_allowed g pending scan) = gw_upstream g"
  "gw_metering (log_deferred_allowed g pending scan) = gw_metering g"
  "gw_tools (log_deferred_allowed g pending scan) = gw_tools g"
  by (simp_all add: log_deferred_allowed_def split: option.splits)

lemma mt_usage_record: "mt_usage m = mt_usage m' \<Longrightarrow> mt_usage (record_usage m server tool k ck) = mt_usage (record_usage m' server tool k ck)"
  by (auto simp: record_usage_def split: option.splits sum.splits)

lemma enforce_named_cases:
  assumes "enforce_named env g server rpc_method rpc_id params tool key ip common = (res, g')"
  obtains (exn) m where "res = Inl GatewayUncaught" "g' = g\<lparr>gw_metering := m\<rparr>" "mt_usage m = mt_usage (gw_metering g)"
    | (refused) m r row where "res = Inr (Blocked r)" "g' = gw_record_usage env (gw_log (g\<lparr>gw_metering := m\<rparr>) row) server tool key"
        "mt_usage m = mt_usage (gw_metering g)" "ae_decision row = ''BLOCKED''" "ae_origin row = None" "ae_tool row = JStr tool"
    | (decided) m args d r where "res = Inr r" "or_default (obj_get params ''arguments'') (JObj []) = JObj args"
        "evaluate (ge_regex env) (ce_fr (ge_catalog env)) tool args (sv_name server) (get_policy g (sv_id server)) = Inr d"
        "enforce_decision env (g\<lparr>gw_metering := m\<rparr>) server (get_policy g (sv_id server)) rpc_method rpc_id tool key common d = (r, g')"
        "mt_usage m = mt_usage (gw_metering g)"
proof -
  let ?p = "get_policy g (sv_id server)" and ?ck = "ge_clock env"
  obtain v m1 where rl: "check_rate_limits (ge_limiter env) (gw_metering g) server ?p tool ?ck = (v, m1)" by fastforce
  note u1 = check_rate_limits_frame(1) [OF rl]
  have met: thesis
    if "refuse_metered (g\<lparr>gw_metering := m\<rparr>) server tool key ip rpc_id w = (r, g3)" "res = Inr (Blocked r)"
      "g' = gw_record_usage env g3 server tool key" "mt_usage m = mt_usage (gw_metering g)" for m w r g3
    using that by (intro refused [of r m]) (auto simp: refuse_metered_def refuse_def row_for_def base_event_def)
  show thesis
  proof (cases v)
    case (Inl e)
    then show ?thesis using assms rl u1 by (intro exn [of m1]) (simp_all add: enforce_named_def)
  next
    case (Inr v')
    obtain q m2 where qt: "check_quota m1 server tool key ?ck = (q, m2)" by fastforce
    note u2 = check_quota_frame(1) [OF qt]
    consider (rate) "\<not> mv_allowed v'" | (quota) "mv_allowed v'" "\<not> mv_allowed q" | (passed) "mv_allowed v'" "mv_allowed q" by blast
    then show ?thesis
    proof cases
      case rate
      obtain r g3 where "refuse_metered (g\<lparr>gw_metering := m1\<rparr>) server tool key ip rpc_id v' = (r, g3)" by fastforce
      then show ?thesis using met assms rl Inr rate u1 by (simp add: enforce_named_def Let_def)
    next
      case quota
      obtain r g3 where "refuse_metered (g\<lparr>gw_metering := m2\<rparr>) server tool key ip rpc_id q = (r, g3)" by fastforce
      then show ?thesis using met assms rl Inr quota qt u1 u2 by (simp add: enforce_named_def Let_def)
    next
      case passed
      let ?rest = "case or_default (obj_get params ''arguments'') (JObj []) of
           JObj arguments \<Rightarrow> (case evaluate (ge_regex env) (ce_fr (ge_catalog env)) tool arguments (sv_name server) ?p of
               Inl _ \<Rightarrow> (Inl GatewayUncaught, g\<lparr>gw_metering := m2\<rparr>)
             | Inr d \<Rightarrow> (let (r, g3) = enforce_decision env (g\<lparr>gw_metering := m2\<rparr>) server ?p rpc_method rpc_id tool key common d in (Inr r, g3)))
         | _ \<Rightarrow> (Inl GatewayUncaught, g\<lparr>gw_metering := m2\<rparr>)"
      have res: "(res, g') = ?rest" using assms rl Inr passed qt by (simp add: enforce_named_def Let_def)
      have exn': thesis if "(res, g') = (Inl GatewayUncaught, g\<lparr>gw_metering := m2\<rparr>)"
        using that u1 u2 by (intro exn [of m2]) simp_all
      show ?thesis
      proof (cases "\<exists>args. or_default (obj_get params ''arguments'') (JObj []) = JObj args")
        case True
        then obtain args where args: "or_default (obj_get params ''arguments'') (JObj []) = JObj args" by blast
        show ?thesis
        proof (cases "evaluate (ge_regex env) (ce_fr (ge_catalog env)) tool args (sv_name server) ?p")
          case (Inl e)
          then show ?thesis using exn' res args by simp
        next
          case (Inr d)
          obtain r g3 where "enforce_decision env (g\<lparr>gw_metering := m2\<rparr>) server ?p rpc_method rpc_id tool key common d = (r, g3)" by fastforce
          then show ?thesis using res args Inr u1 u2 by (intro decided [of r args d m2]) simp_all
        qed
      next
        case False
        then have "?rest = (Inl GatewayUncaught, g\<lparr>gw_metering := m2\<rparr>)" by (auto split: json.splits)
        then show ?thesis using exn' res by simp
      qed
    qed
  qed
qed

lemma enforce_decision_simps:
  assumes "enforce_decision env g server policy rpc_method rpc_id tool key common d = (r, g')"
  shows "gw_upstream g' = gw_upstream g" "gw_tools g' = gw_tools g"
    "mt_usage (gw_metering g') = mt_usage (record_usage (gw_metering g) server (Some tool) (map_option ak_id key) (ge_clock env))"
    "r = (if dc_blocked d then Blocked (blocked_response rpc_id tool d)
      else Allowed d policy (if response_dlp_enabled policy rpc_method then Some (decision_row common tool d) else None))"
    "al_queue (gw_audit g') = al_queue (gw_audit g) @
      (if \<not> dc_blocked d \<and> response_dlp_enabled policy rpc_method then [] else [decision_row common tool d])"
  using assms by (auto simp: enforce_decision_def Let_def gw_record_usage_def split: if_splits)

lemma enforce_upstream:
  assumes "enforce env g server rpc_method rpc_id params tool_name key ip origin bridged = (res, g')"
  shows "gw_upstream g' = gw_upstream g \<and> gw_tools g' = gw_tools g"
proof (cases "\<exists>c cs. tool_name = JStr (c # cs)")
  case True
  then obtain c cs where t: "tool_name = JStr (c # cs)" by blast
  from assms have "enforce_named env g server rpc_method rpc_id params (c # cs) key ip
      ((row_for server rpc_method key ip)\<lparr>ae_origin := origin, ae_bridged := bridged\<rparr>) = (res, g')"
    by (simp add: enforce_def t)
  then show ?thesis by (cases rule: enforce_named_cases) (auto dest: enforce_decision_simps)
next
  case False
  then show ?thesis using assms by (auto simp: enforce_def refuse_def Let_def split: json.splits list.splits)
qed

lemma enforce_Allowed:
  assumes "enforce env g server rpc_method rpc_id params tool_name key ip origin bridged = (Inr (Allowed d policy pending), g')"
  shows "\<exists>tool args. tool_name = JStr tool \<and> tool \<noteq> [] \<and> or_default (obj_get params ''arguments'') (JObj []) = JObj args
    \<and> evaluate (ge_regex env) (ce_fr (ge_catalog env)) tool args (sv_name server) policy = Inr d \<and> \<not> dc_blocked d
    \<and> policy = get_policy g (sv_id server)"
proof -
  obtain c cs where t: "tool_name = JStr (c # cs)"
    using assms by (auto simp: enforce_def refuse_def Let_def split: json.splits list.splits)
  from assms have "enforce_named env g server rpc_method rpc_id params (c # cs) key ip
      ((row_for server rpc_method key ip)\<lparr>ae_origin := origin, ae_bridged := bridged\<rparr>) = (Inr (Allowed d policy pending), g')"
    by (simp add: enforce_def t)
  then show ?thesis
  proof (cases rule: enforce_named_cases)
    case (decided m args d' r)
    note e = enforce_decision_simps(4) [OF decided(4)]
    from decided(1) e have "d' = d \<and> \<not> dc_blocked d \<and> policy = get_policy g (sv_id server)" by (auto split: if_splits)
    then show ?thesis using decided t by auto
  qed auto
qed

text \<open>The rows that record the decision on a call, as opposed to errors and relayed messages.\<close>

definition decision_rows :: "audit_event list \<Rightarrow> audit_event list" where
  "decision_rows rows = filter (\<lambda>e. ae_decision e \<in> {''ALLOWED'', ''BLOCKED''}) rows"

definition logs :: "'s gateway \<Rightarrow> 's gateway \<Rightarrow> audit_event list \<Rightarrow> bool" where
  "logs g g' rows \<longleftrightarrow> al_queue (gw_audit g') = al_queue (gw_audit g) @ rows"

lemma decision_rows_simps [simp]:
  "decision_rows [] = []" "decision_rows (xs @ ys) = decision_rows xs @ decision_rows ys"
  "decision_rows (e # xs) = (if ae_decision e \<in> {''ALLOWED'', ''BLOCKED''} then e # decision_rows xs else decision_rows xs)"
  by (simp_all add: decision_rows_def)

lemma logs_trans: "logs g g1 r1 \<Longrightarrow> logs g1 g2 r2 \<Longrightarrow> logs g g2 (r1 @ r2)"
  by (simp add: logs_def)

lemma logs_gw_log [simp]: "logs g (gw_log g e) [e]"
  by (simp add: logs_def)

text \<open>A call with a tool name that is enforced without an exception is counted once and gets one row, now or deferred.\<close>

lemma enforce_accounts:
  assumes "enforce env g server rpc_method rpc_id params (JStr tool) key ip origin bridged = (Inr x, g')" and "tool \<noteq> []"
  shows "mt_usage (gw_metering g') = mt_usage (record_usage (gw_metering g) server (Some tool) (map_option ak_id key) (ge_clock env))
    \<and> (\<exists>row. (case x of
        Blocked r \<Rightarrow> logs g g' [row] \<and> ae_decision row = ''BLOCKED''
      | Allowed d p pending \<Rightarrow> ae_decision row = ''ALLOWED'' \<and> ae_tool row = JStr tool \<and>
          pending = (if response_dlp_enabled p rpc_method then Some row else None) \<and> logs g g' (if pending = None then [row] else [])))"
proof -
  let ?c = "(row_for server rpc_method key ip)\<lparr>ae_origin := origin, ae_bridged := bridged\<rparr>"
  from assms have "enforce_named env g server rpc_method rpc_id params tool key ip ?c = (Inr x, g')"
    by (cases tool) (simp_all add: enforce_def)
  then show ?thesis
  proof (cases rule: enforce_named_cases)
    case (refused m r row)
    then show ?thesis by (auto simp: logs_def gw_record_usage_def intro!: exI [of _ row] mt_usage_record)
  next
    case (decided m args d r)
    note e = enforce_decision_simps [OF decided(4)]
    let ?row = "decision_row ?c tool d"
    have row: "ae_decision ?row = (if dc_blocked d then ''BLOCKED'' else ''ALLOWED'')" "ae_tool ?row = JStr tool"
      by (simp_all add: decision_row_def)
    have q: "al_queue (gw_audit g') = al_queue (gw_audit g) @
        (if \<not> dc_blocked d \<and> response_dlp_enabled (get_policy g (sv_id server)) rpc_method then [] else [?row])"
      using e(5) by simp
    have "r = x" using decided(1) by simp
    from e(4) [unfolded this] show ?thesis
      using e(3) mt_usage_record [OF decided(5)] by (simp add: q row logs_def exI [of _ ?row])
  qed simp
qed

subsection \<open>Sending\<close>

lemma log_deferred_logs: "\<exists>rows. logs g (log_deferred_allowed g pending scan) rows \<and>
    map ae_decision (decision_rows rows) = (case pending of None \<Rightarrow> [] | Some row \<Rightarrow> map ae_decision (decision_rows [row]))"
proof (cases pending)
  case None
  then show ?thesis by (auto simp: log_deferred_allowed_def logs_def)
next
  case (Some row)
  let ?row = "row\<lparr>ae_response_dlp_detectors_fired := map_option (\<lambda>s. str_join '','' (rs_detectors_fired s)) scan,
      ae_response_dlp_match_count := map_option rs_match_count scan, ae_response_truncated := map_option rs_truncated scan\<rparr>"
  have "logs g (log_deferred_allowed g pending scan) [?row]" by (simp add: Some log_deferred_allowed_def)
  then show ?thesis using Some by fastforce
qed

lemma resolve_credential_frame:
  assumes "resolve_credential env g server row rpc_id = (res, g1)"
  shows "gw_upstream g1 = gw_upstream g" "gw_metering g1 = gw_metering g" "gw_tools g1 = gw_tools g"
    "\<exists>rows. logs g g1 rows \<and> decision_rows rows = []"
    "res = Inr auth \<Longrightarrow> g1 = g \<and> resolve_upstream_credential (ge_secrets env) (ge_issuer env) server = Inr auth"
  using assms
  by (auto simp: resolve_credential_def error_response_def logs_def split: sum.splits credential_error.splits)

lemma forward_frame:
  assumes "forward env g request server path body auth scan_policy rpc_id = (r, scan, g')"
  shows "gw_audit g' = gw_audit g" "gw_metering g' = gw_metering g"
    "extends_with (\<lambda>q. hq_body q = body \<and> hq_headers q = forward_headers env request auth (scan_policy \<noteq> None) \<and> \<not> bad_path path)
       (gw_upstream g) (gw_upstream g')"
proof -
  have "gw_audit g' = gw_audit g \<and> gw_metering g' = gw_metering g \<and>
    extends_with (\<lambda>q. hq_body q = body \<and> hq_headers q = forward_headers env request auth (scan_policy \<noteq> None) \<and> \<not> bad_path path)
       (gw_upstream g) (gw_upstream g')"
  proof (cases "bad_path path \<or> ge_url env (forward_target server path) (rq_query request) = None")
    case True
    then show ?thesis using assms by (auto simp: forward_def split: if_splits)
  next
    case False
    then obtain url where url: "\<not> bad_path path"
        "ge_url env (forward_target server path) (rq_query request) = Some url"
      by blast
    let ?q = "\<lparr>hq_method = rq_method request, hq_url = url,
        hq_headers = forward_headers env request auth (scan_policy \<noteq> None), hq_body = body\<rparr>"
    obtain a up where sd: "send (ce_net (ge_catalog env)) (gw_upstream g) ?q = (a, up)" by fastforce
    have "g' = g\<lparr>gw_upstream := up\<rparr>" using assms url sd
      by (auto simp: forward_def Let_def split: http_answer.splits option.splits prod.splits)
    then show ?thesis using send_extends [OF sd] url(1) by simp
  qed
  then show "gw_audit g' = gw_audit g" "gw_metering g' = gw_metering g"
    "extends_with (\<lambda>q. hq_body q = body \<and> hq_headers q = forward_headers env request auth (scan_policy \<noteq> None) \<and> \<not> bad_path path)
       (gw_upstream g) (gw_upstream g')" by blast+
qed

text \<open>The predicates on requests of the two ways to send a call.\<close>

definition relayed :: "'s gateway_env \<Rightarrow> request \<Rightarrow> server_record \<Rightarrow> string \<Rightarrow> payload \<Rightarrow> bool \<Rightarrow> http_request \<Rightarrow> bool" where
  "relayed env request server path body scanned q \<longleftrightarrow> hq_body q = body \<and> \<not> bad_path path \<and>
     (\<exists>auth. resolve_upstream_credential (ge_secrets env) (ge_issuer env) server = Inr auth
        \<and> hq_headers q = forward_headers env request auth scanned)"

definition bridged :: "'s gateway_env \<Rightarrow> server_record \<Rightarrow> json \<Rightarrow> json \<Rightarrow> json \<Rightarrow> http_request \<Rightarrow> bool" where
  "bridged env server rpc_method rpc_id params q \<longleftrightarrow>
     (\<exists>auth. resolve_upstream_credential (ge_secrets env) (ge_issuer env) server = Inr auth
        \<and> sends_to (sv_upstream_url server) auth
            (insert (upstream_body rpc_method rpc_id (if truthy params then params else JObj [])) (handshake_bodies (ce_hs_id (ge_catalog env)))) q)"

lemma deliver_frame:
  assumes "deliver env g request server path body row rpc_id scan_policy pending = (r, g')"
  shows "gw_metering g' = gw_metering g"
    "\<exists>rows. logs g g' rows \<and>
      map ae_decision (decision_rows rows) = (case pending of None \<Rightarrow> [] | Some row \<Rightarrow> map ae_decision (decision_rows [row]))"
    "extends_with (relayed env request server path body (scan_policy \<noteq> None)) (gw_upstream g) (gw_upstream g')"
proof -
  obtain c g1 where c: "resolve_credential env g server row rpc_id = (c, g1)" by fastforce
  note cf = resolve_credential_frame [OF c]
  obtain g2 scan where g2: "g' = log_deferred_allowed g2 pending scan" "gw_metering g2 = gw_metering g1" "gw_audit g2 = gw_audit g1"
    "extends_with (relayed env request server path body (scan_policy \<noteq> None)) (gw_upstream g) (gw_upstream g2)"
  proof (cases c)
    case (Inl x)
    then show ?thesis using that [of g1 None] assms c cf(1) by (simp add: deliver_def)
  next
    case (Inr auth)
    obtain r2 sc g2 where f: "forward env g1 request server path body auth scan_policy rpc_id = (r2, sc, g2)" by (metis prod_cases3)
    have "extends_with (relayed env request server path body (scan_policy \<noteq> None)) (gw_upstream g1) (gw_upstream g2)"
      by (rule extends_with_mono [OF forward_frame(3) [OF f]]) (use cf(5) [OF Inr] in \<open>auto simp: relayed_def\<close>)
    then show ?thesis using that [of g2 sc] assms c f Inr forward_frame(1,2) [OF f] cf(1) by (simp add: deliver_def)
  qed
  show "gw_metering g' = gw_metering g" using g2 cf(2) by simp
  show "extends_with (relayed env request server path body (scan_policy \<noteq> None)) (gw_upstream g) (gw_upstream g')" using g2 by simp
  obtain rows where rows: "logs g2 g' rows"
    "map ae_decision (decision_rows rows) = (case pending of None \<Rightarrow> [] | Some row \<Rightarrow> map ae_decision (decision_rows [row]))"
    using log_deferred_logs [of g2 pending scan] g2(1) by auto
  obtain rows1 where "logs g g2 rows1" "decision_rows rows1 = []" using cf(4) g2(3) by (auto simp: logs_def)
  with rows logs_trans [of g g2 rows1 g' rows] show "\<exists>rows. logs g g' rows \<and>
      map ae_decision (decision_rows rows) = (case pending of None \<Rightarrow> [] | Some row \<Rightarrow> map ae_decision (decision_rows [row]))"
    by (auto intro!: exI [of _ "rows1 @ rows"])
qed

lemma bridged_send_frame:
  assumes "bridged_send env g server rpc_method rpc_id params meta row tool scan_policy pending = (r, g')"
  shows "gw_metering g' = gw_metering g"
    "\<exists>rows. logs g g' rows \<and>
      map ae_decision (decision_rows rows) = (case pending of None \<Rightarrow> [] | Some row \<Rightarrow> map ae_decision (decision_rows [row]))"
    "extends_with (bridged env server rpc_method rpc_id params) (gw_upstream g) (gw_upstream g')"
proof -
  let ?ce = "ge_catalog env"
  obtain c g1 where c: "resolve_credential env g server (row\<lparr>ae_tool := tool\<rparr>) rpc_id = (c, g1)" by fastforce
  note cf = resolve_credential_frame [OF c]
  obtain g2 scan where g2: "g' = log_deferred_allowed g2 pending scan" "gw_metering g2 = gw_metering g1"
    "\<exists>rows. logs g1 g2 rows \<and> decision_rows rows = []"
    "extends_with (bridged env server rpc_method rpc_id params) (gw_upstream g) (gw_upstream g2)"
  proof (cases c)
    case (Inl x)
    then show ?thesis using that [of g1 None] assms c cf(1) by (simp add: bridged_send_def logs_def)
  next
    case (Inr auth)
    obtain r2 up where b: "bridge_call (ce_fr ?ce) (ce_net ?ce) (ce_loads ?ce) (gw_upstream g1) (ce_hs_id ?ce) (sv_id server)
        (sv_upstream_url server) rpc_method rpc_id params meta auth (ce_mono ?ce) = (r2, up)" by fastforce
    have ext: "extends_with (bridged env server rpc_method rpc_id params) (gw_upstream g) up"
      by (rule extends_with_mono [of _ _ up, OF bridge_call_sends [OF b, unfolded cf(1)]]) (use cf(5) [OF Inr] in \<open>auto simp: bridged_def\<close>)
    let ?g1 = "g1\<lparr>gw_upstream := up\<rparr>"
    have "\<exists>g2 scan. g' = log_deferred_allowed g2 pending scan \<and> (g2 = ?g1 \<or> (\<exists>st body rs. g2 = snd (error_response ?g1 row st body rs)))"
    proof (cases r2)
      case (Inl e)
      show ?thesis
      proof (cases e)
        case (BridgeError st body)
        let ?er = "error_response ?g1 row st body (take 200 (ge_dumps env body))"
        have "g' = log_deferred_allowed (snd ?er) pending None"
          using assms c b \<open>c = Inr auth\<close> Inl BridgeError by (simp add: bridged_send_def Let_def split_def)
        then show ?thesis by blast
      next
        case BridgeUncaught
        then show ?thesis using assms c b \<open>c = Inr auth\<close> Inl by (auto simp: bridged_send_def)
      qed
    next
      case (Inr x)
      then show ?thesis using assms c b \<open>c = Inr auth\<close>
        by (cases x; cases scan_policy) (auto simp: bridged_send_def Let_def split: prod.splits)
    qed
    then obtain g2 scan where "g' = log_deferred_allowed g2 pending scan" "g2 = ?g1 \<or> (\<exists>st body rs. g2 = snd (error_response ?g1 row st body rs))"
      by blast
    then show ?thesis using that [of g2 scan] ext by (auto simp: error_response_def logs_def)
  qed
  show "gw_metering g' = gw_metering g" using g2 cf(2) by simp
  show "extends_with (bridged env server rpc_method rpc_id params) (gw_upstream g) (gw_upstream g')" using g2 by simp
  obtain rows where rows: "logs g2 g' rows"
    "map ae_decision (decision_rows rows) = (case pending of None \<Rightarrow> [] | Some row \<Rightarrow> map ae_decision (decision_rows [row]))"
    using log_deferred_logs [of g2 pending scan] g2(1) by auto
  obtain rows1 rows2 where "logs g g1 rows1" "decision_rows rows1 = []" "logs g1 g2 rows2" "decision_rows rows2 = []"
    using cf(4) g2(3) by blast
  with rows show "\<exists>rows. logs g g' rows \<and>
      map ae_decision (decision_rows rows) = (case pending of None \<Rightarrow> [] | Some row \<Rightarrow> map ae_decision (decision_rows [row]))"
    by (intro exI [of _ "rows1 @ rows2 @ rows"]) (auto simp: logs_def)
qed

subsection \<open>A tool call from arrival to upstream\<close>

text \<open>What may be sent for an allowed call: the message itself, redacted where the decision says so, relayed or bridged.\<close>

definition carries ::
    "'s gateway_env \<Rightarrow> request \<Rightarrow> server_record \<Rightarrow> string \<Rightarrow> string \<Rightarrow> json dict \<Rightarrow> json dict \<Rightarrow> decision \<Rightarrow> http_request \<Rightarrow> bool" where
  "carries env request server path body body_json ps d q \<longleftrightarrow>
     bridged env server (JStr ''tools/call'') (obj_get body_json ''id'') (JObj (redacted_params ps d)) q
     \<or> (\<exists>scanned. relayed env request server path (call_payload body body_json ps d) scanned q)"

definition sent_decision :: "audit_event option \<Rightarrow> string list" where
  "sent_decision pending = (case pending of None \<Rightarrow> [] | Some row \<Rightarrow> map ae_decision (decision_rows [row]))"

lemma tools_call_dispatch:
  assumes "process_message env g request server path body body_json key force origin = (res, g')"
    and "map_of body_json ''method'' = Some (JStr ''tools/call'')"
    and "or_default (obj_get body_json ''params'') (JObj []) = JObj ps"
  obtains (mismatch) row where "force = None"
      "\<not> header_matches_body (header_get (rq_headers request) ''Mcp-Method'') (header_get (rq_headers request) ''Mcp-Name'')
         (JStr ''tools/call'') (obj_get ps ''name'')"
      "g' = gw_log g row" "ae_decision row = ''ERROR''"
    | (enforced) e g1 b where
      "enforce env g server (JStr ''tools/call'') (obj_get body_json ''id'') ps (obj_get ps ''name'') key (rq_client_ip request) origin b = (e, g1)"
      "\<And>x. e = Inl x \<Longrightarrow> res = Inl x \<and> g' = g1" "\<And>r. e = Inr (Blocked r) \<Longrightarrow> res = Inr r \<and> g' = g1"
      "\<And>d p pending. e = Inr (Allowed d p pending) \<Longrightarrow> gw_metering g' = gw_metering g1
         \<and> extends_with (carries env request server path body body_json ps d) (gw_upstream g1) (gw_upstream g')
         \<and> (\<exists>rows. logs g1 g' rows \<and> map ae_decision (decision_rows rows) =
              sent_decision (if response_dlp_enabled p (JStr ''tools/call'') then pending else None))"
proof -
  let ?m = "JStr ''tools/call''" and ?id = "obj_get body_json ''id''" and ?ip = "rq_client_ip request" and ?name = "obj_get ps ''name''"
  have name: "extract_name_from_params ?m (JObj ps) = Inr ?name" by (simp add: extract_name_from_params_def)
  let ?bridge = "(case force of Some x \<Rightarrow> x | None \<Rightarrow> detect_client_generation (rq_headers request)) = GEN_2026 \<and> ge_bridge env"
  consider (mm) "force = None" "\<not> header_matches_body (header_get (rq_headers request) ''Mcp-Method'')
        (header_get (rq_headers request) ''Mcp-Name'') ?m ?name"
    | (bridge) "?bridge" "handle_bridged env g server ?m ?id (JObj ps) (obj_get body_json ''_meta'') key ?ip origin = (res, g')"
    | (pass) "passthrough_call env g request server path body body_json ps ?id key origin = (res, g')"
    using assms name by (auto simp: process_message_def Let_def split: if_splits)
  then show thesis
  proof cases
    case mm
    let ?row = "(row_for server ?m key ?ip)\<lparr>ae_tool := ?name, ae_decision := ''ERROR'',
        ae_reason := Some ''Mcp-Method/Mcp-Name header mismatch'', ae_status_code := Some 400\<rparr>"
    have "g' = gw_log g ?row" using assms name mm by (auto simp: process_message_def error_response_def)
    with mm show ?thesis by (intro mismatch [of ?row]) simp_all
  next
    case bridge
    let ?row = "(row_for server ?m key ?ip)\<lparr>ae_bridged := True, ae_origin := origin\<rparr>"
    obtain e g1 where e: "enforce env g server ?m ?id ps ?name key ?ip origin True = (e, g1)" by fastforce
    show ?thesis
    proof (rule enforced [OF e])
      fix d p pending
      assume a: "e = Inr (Allowed d p pending)"
      then have "bridged_send env g1 server ?m ?id (JObj (redacted_params ps d)) (obj_get body_json ''_meta'') ?row ?name
          (scan_policy_of p ?m) (if response_dlp_enabled p ?m then pending else None) = (res, g')"
        using bridge(2) e by (simp add: handle_bridged_def Let_def)
      from bridged_send_frame [OF this]
      show "gw_metering g' = gw_metering g1
         \<and> extends_with (carries env request server path body body_json ps d) (gw_upstream g1) (gw_upstream g')
         \<and> (\<exists>rows. logs g1 g' rows \<and> map ae_decision (decision_rows rows) =
              sent_decision (if response_dlp_enabled p ?m then pending else None))"
        unfolding sent_decision_def by (auto elim: extends_with_mono simp: carries_def)
    qed (use bridge(2) e in \<open>auto simp: handle_bridged_def Let_def\<close>)
  next
    case pass
    obtain e g1 where e: "enforce env g server ?m ?id ps ?name key ?ip origin False = (e, g1)" by fastforce
    show ?thesis
    proof (rule enforced [OF e])
      fix d p pending
      assume a: "e = Inr (Allowed d p pending)"
      then have "deliver env g1 request server path (call_payload body body_json ps d)
          ((row_for server ?m key ?ip)\<lparr>ae_tool := ?name, ae_origin := origin\<rparr>) ?id
          (scan_policy_of p ?m) (if response_dlp_enabled p ?m then pending else None) = (res, g')"
        using pass e by (simp add: passthrough_call_def Let_def)
      from deliver_frame [OF this]
      show "gw_metering g' = gw_metering g1
         \<and> extends_with (carries env request server path body body_json ps d) (gw_upstream g1) (gw_upstream g')
         \<and> (\<exists>rows. logs g1 g' rows \<and> map ae_decision (decision_rows rows) =
              sent_decision (if response_dlp_enabled p ?m then pending else None))"
        unfolding sent_decision_def by (auto elim!: extends_with_mono simp: carries_def)
    qed (use pass e in \<open>auto simp: passthrough_call_def Let_def\<close>)
  qed
qed

subsection \<open>The whole request\<close>

definition request_body :: "request \<Rightarrow> string option \<Rightarrow> string" where
  "request_body request body_override = (case body_override of Some b \<Rightarrow> b | None \<Rightarrow> rq_body request)"

lemma body_read:
  "(case body_override of Some b \<Rightarrow> guard_body_size env b | None \<Rightarrow> read_body_guarded env request) = Inr body \<Longrightarrow>
     body = request_body request body_override \<and> int (length body) \<le> ge_max_body_bytes env"
  by (auto simp: guard_body_size_def read_body_guarded_def request_body_def split: option.splits if_splits)

lemma admit_frame:
  assumes "admit env g request slug server skip pre = (res, g1)"
  shows "\<exists>ks. g1 = g\<lparr>gw_keys := ks\<rparr>"
  using assms
  by (auto simp: admit_def authenticate_def authenticate_no_scope_def Let_def
      split: if_splits option.splits sum.splits prod.splits intro: exI [of _ "gw_keys g"])

text \<open>The request carries a bearer token that verifies as the key.\<close>

definition bearer_key :: "'s gateway_env \<Rightarrow> 's gateway \<Rightarrow> request \<Rightarrow> api_key_record \<Rightarrow> bool" where
  "bearer_key env g request rec \<longleftrightarrow> (\<exists>bearer token.
     header_get (rq_headers request) ''authorization'' = Some (bearer @ token) \<and> length bearer = 7 \<and> str_lower bearer = ''bearer '' \<and>
     fst (verify (ge_hash env) (gw_keys g) token (ck_mono (ge_clock env)) (isoformat (ck_utc (ge_clock env)))) = Some rec)"

text \<open>Who may use a server: the control plane, anyone in open mode, or a key in scope (verified here or by the caller).\<close>

definition authorised ::
    "'s gateway_env \<Rightarrow> 's gateway \<Rightarrow> request \<Rightarrow> string \<Rightarrow> server_record \<Rightarrow> bool \<Rightarrow> api_key_record option \<Rightarrow> bool" where
  "authorised env g request slug server skip pre \<longleftrightarrow> skip \<or>
     (pre = None \<and> current_auth_mode env g = ''open'') \<or>
     (\<exists>rec. key_scope_violation rec slug server = None \<and> (pre = Some rec \<or> (pre = None \<and> bearer_key env g request rec)))"

lemma bearer_length: "length ''bearer '' = 7"
  by simp

lemma authenticate_no_scope_cases:
  assumes "authenticate_no_scope env g request = (Inr key, g1)"
  shows "case key of None \<Rightarrow> current_auth_mode env g = ''open'' | Some rec \<Rightarrow> bearer_key env g request rec"
proof (cases "current_auth_mode env g = ''open''")
  case True
  then show ?thesis using assms by (auto simp: authenticate_no_scope_def)
next
  case False
  let ?auth = "case header_get (rq_headers request) ''authorization'' of None \<Rightarrow> '''' | Some v \<Rightarrow> v"
  let ?v = "verify (ge_hash env) (gw_keys g) (drop 7 ?auth) (ck_mono (ge_clock env)) (isoformat (ck_utc (ge_clock env)))"
  from False assms obtain rec where rec: "take 7 (str_lower ?auth) = ''bearer ''" "fst ?v = Some rec" "key = Some rec"
    by (auto simp: authenticate_no_scope_def Let_def split: if_splits option.splits prod.splits)
  obtain auth where auth: "header_get (rq_headers request) ''authorization'' = Some auth"
    using rec(1) by (cases "header_get (rq_headers request) ''authorization''") (simp_all add: str_lower_def)
  have low: "str_lower (take 7 auth) = ''bearer ''" using rec(1) auth by (simp add: str_lower_def take_map)
  then have len: "length (take 7 auth) = 7" by (metis bearer_length length_map str_lower_def)
  have "fst (verify (ge_hash env) (gw_keys g) (drop 7 auth) (ck_mono (ge_clock env)) (isoformat (ck_utc (ge_clock env)))) = Some rec"
    using rec(2) auth by simp
  moreover have "auth = take 7 auth @ drop 7 auth" by simp
  ultimately have "bearer_key env g request rec" using auth low len unfolding bearer_key_def by metis
  then show ?thesis using rec(3) by simp
qed

lemma admit_authorised:
  assumes "admit env g request slug server skip pre = (Inr key, g1)"
  shows "authorised env g request slug server skip pre"
proof (cases "skip \<or> pre \<noteq> None")
  case True
  then show ?thesis using assms
    by (auto simp: admit_def authorised_def check_key_scope_def split: if_splits option.splits)
next
  case False
  with assms have "authenticate env g request slug server = (Inr key, g1)" by (simp add: admit_def)
  then obtain k h where k: "authenticate_no_scope env g request = (Inr k, h)"
    "\<forall>rec. k = Some rec \<longrightarrow> key_scope_violation rec slug server = None"
    by (auto simp: authenticate_def check_key_scope_def split: prod.splits sum.splits option.splits)
  show ?thesis using authenticate_no_scope_cases [OF k(1)] k(2) False by (cases k) (auto simp: authorised_def)
qed

lemma handle_cases:
  assumes "handle env g request slug path body_override force skip origin pre resolved = (r, g')"
  obtains (refused) "gw_upstream g' = gw_upstream g" "gw_metering g' = gw_metering g" "gw_tools g' = gw_tools g"
      "\<exists>rows. logs g g' rows \<and> decision_rows rows = []" "\<forall>x. r = Some x \<longrightarrow> rp_status x \<in> {400, 401, 403, 404, 413}"
    | (processed) server key ks body res g2 where
      "resolved = Some server \<or> (resolved = None \<and> server_get g slug = Some server \<and> sv_enabled server)"
      "authorised env g request slug server skip pre" "body = request_body request body_override"
      "int (length body) \<le> ge_max_body_bytes env"
      "process env (g\<lparr>gw_keys := ks\<rparr>) request server path body key force origin = (res, g2)"
      "gw_upstream g' = gw_upstream g2" "gw_metering g' = gw_metering g2" "gw_tools g' = gw_tools g2"
      "\<exists>rows. logs g2 g' rows \<and> decision_rows rows = []"
proof (cases "skip \<and> pre \<noteq> None")
  case True
  then show thesis using assms refused by (auto simp: handle_def logs_def)
next
  case False
  obtain res g2 where rr: "run_request env g request slug path body_override force skip origin pre resolved = (res, g2)" by fastforce
  have after: "gw_upstream g' = gw_upstream g2 \<and> gw_metering g' = gw_metering g2 \<and> gw_tools g' = gw_tools g2 \<and>
      (\<exists>rows. logs g2 g' rows \<and> decision_rows rows = [])"
    "\<And>st b. res = Inl (RoutingError st b) \<Longrightarrow> \<exists>x. r = Some x \<and> rp_status x = st"
    using assms rr False
    by (auto simp: handle_def error_response_def json_response_def logs_def Let_def split: sum.splits gateway_exn.splits)
  have early: thesis if "\<exists>ks. g2 = g\<lparr>gw_keys := ks\<rparr>" "\<exists>st b. res = Inl (RoutingError st b) \<and> st \<in> {400, 401, 403, 404, 413}"
    using that after by (intro refused) (auto simp: logs_def)
  let ?srv = "case resolved of Some s \<Rightarrow> Inr s | None \<Rightarrow> resolve_server g slug"
  show thesis
  proof (cases ?srv)
    case (Inl e)
    then have "res = Inl e" "g2 = g" "\<exists>st b. e = RoutingError st b \<and> st \<in> {400, 401, 403, 404, 413}"
      using rr by (auto simp: run_request_def resolve_server_def split: option.splits if_splits)
    then show ?thesis using early by (metis gateway.surjective gateway.update_convs(2))
  next
    case (Inr server)
    obtain a g1 where a: "admit env g request slug server skip pre = (a, g1)" by fastforce
    then obtain ks where ks: "g1 = g\<lparr>gw_keys := ks\<rparr>" using admit_frame by blast
    have srv: "resolved = Some server \<or> (resolved = None \<and> server_get g slug = Some server \<and> sv_enabled server)"
      using Inr by (auto simp: resolve_server_def split: option.splits if_splits)
    show ?thesis
    proof (cases a)
      case (Inl e)
      then have "\<exists>st b. e = RoutingError st b \<and> st \<in> {400, 401, 403, 404, 413}" using a
        by (auto simp: admit_def authenticate_def authenticate_no_scope_def check_key_scope_def Let_def
            split: if_splits option.splits sum.splits prod.splits)
      then show ?thesis using rr \<open>?srv = Inr server\<close> a Inl ks by (intro early) (auto simp: run_request_def)
    next
      case (Inr key)
      let ?b = "case body_override of Some b \<Rightarrow> guard_body_size env b | None \<Rightarrow> read_body_guarded env request"
      show ?thesis
      proof (cases ?b)
        case (Inl e)
        then have "\<exists>st b. e = RoutingError st b \<and> st \<in> {400, 401, 403, 404, 413}"
          by (auto simp: guard_body_size_def read_body_guarded_def split: option.splits if_splits)
        then show ?thesis using rr \<open>?srv = Inr server\<close> a \<open>a = Inr key\<close> Inl ks by (intro early) (auto simp: run_request_def)
      next
        case b: (Inr body)
        have "process env (g\<lparr>gw_keys := ks\<rparr>) request server path body key force origin = (res, g2)"
          using rr \<open>?srv = Inr server\<close> a Inr b ks by (simp add: run_request_def)
        then show ?thesis using processed srv admit_authorised [OF a [unfolded Inr]] body_read [OF b] after(1) by blast
      qed
    qed
  qed
qed

lemma process_call:
  assumes "process env g request server path body key force origin = (res, g')"
    and "parse_single_message (ce_loads (ge_catalog env)) body = Inr body_json"
  shows "(body \<noteq> [] \<and> process_message env g request server path body body_json key force origin = (res, g'))
    \<or> (rq_method request \<noteq> ''POST'' \<and> (\<exists>row. g' = gw_log g row))
    \<or> body = []"
  using assms by (auto simp: process_def refuse_def Let_def split: if_splits)

lemma tools_call_sent:
  assumes "process_message env g request server path body body_json key force origin = (res, g')"
    and "map_of body_json ''method'' = Some (JStr ''tools/call'')" and "or_default (obj_get body_json ''params'') (JObj []) = JObj ps"
    and "gw_upstream g' \<noteq> gw_upstream g"
  shows "\<exists>tool args d. obj_get ps ''name'' = JStr tool \<and> tool \<noteq> [] \<and> or_default (obj_get ps ''arguments'') (JObj []) = JObj args
    \<and> evaluate (ge_regex env) (ce_fr (ge_catalog env)) tool args (sv_name server) (get_policy g (sv_id server)) = Inr d \<and> \<not> dc_blocked d
    \<and> extends_with (carries env request server path body body_json ps d) (gw_upstream g) (gw_upstream g')"
  using assms(1-3)
proof (cases rule: tools_call_dispatch)
  case (mismatch row)
  then show ?thesis using assms(4) by simp
next
  case (enforced e g1 b)
  have up: "gw_upstream g1 = gw_upstream g" using enforce_upstream [OF enforced(1)] by simp
  have "\<not> (\<exists>x. e = Inl x)" "\<not> (\<exists>r. e = Inr (Blocked r))" using enforced(2,3) up assms(4) by auto
  then obtain d p pending where e: "e = Inr (Allowed d p pending)" by (metis enforcement.exhaust sum.exhaust_sel)
  show ?thesis using enforce_Allowed [OF enforced(1) [unfolded e]] enforced(4) [OF e] up by auto
qed

lemma handle_call_sent:
  assumes "handle env g request slug path body_override force skip origin pre resolved = (r, g')"
    and "parse_single_message (ce_loads (ge_catalog env)) (request_body request body_override) = Inr body_json"
    and "map_of body_json ''method'' = Some (JStr ''tools/call'')" and "or_default (obj_get body_json ''params'') (JObj []) = JObj ps"
    and "request_body request body_override \<noteq> []"
    and "gw_upstream g' \<noteq> gw_upstream g"
  shows "\<exists>server tool args d. (resolved = Some server \<or> (resolved = None \<and> server_get g slug = Some server \<and> sv_enabled server))
    \<and> authorised env g request slug server skip pre
    \<and> obj_get ps ''name'' = JStr tool \<and> tool \<noteq> [] \<and> or_default (obj_get ps ''arguments'') (JObj []) = JObj args
    \<and> evaluate (ge_regex env) (ce_fr (ge_catalog env)) tool args (sv_name server) (get_policy g (sv_id server)) = Inr d \<and> \<not> dc_blocked d
    \<and> extends_with (carries env request server path (request_body request body_override) body_json ps d) (gw_upstream g) (gw_upstream g')"
  using assms(1)
proof (cases rule: handle_cases)
  case refused
  then show ?thesis using assms(6) by simp
next
  case (processed server key ks body res g2)
  let ?g = "g\<lparr>gw_keys := ks\<rparr>"
  have ne: "gw_upstream g2 \<noteq> gw_upstream ?g" using processed(6) assms(6) by simp
  with process_call [OF processed(5)] assms(2,5) processed(3)
  have "process_message env ?g request server path body body_json key force origin = (res, g2)" by auto
  from tools_call_sent [OF this assms(3,4) ne] processed(1-3,6) show ?thesis by (auto simp: get_policy_def)
qed

subsection \<open>Properties\<close>

text \<open>C1. No tool call reaches an upstream unless the policy allows it: if anything is sent on behalf of a \<open>tools/call\<close>,
  the server is known and enabled, the caller is authorised for it, the call names a tool, the policy stored
  for that server was evaluated on exactly those arguments and did not block, and everything sent carries
  that call, with the redacted arguments if the decision redacts.\<close>

theorem forwarded_call_allowed:
  assumes "handle env g request slug path body_override force skip origin pre resolved = (r, g')"
    and "parse_single_message (ce_loads (ge_catalog env)) (request_body request body_override) = Inr body_json"
    and "map_of body_json ''method'' = Some (JStr ''tools/call'')" and "or_default (obj_get body_json ''params'') (JObj []) = JObj ps"
    and "request_body request body_override \<noteq> []"
    and "gw_upstream g' \<noteq> gw_upstream g"
  shows "\<exists>server tool args d. (resolved = Some server \<or> (resolved = None \<and> server_get g slug = Some server \<and> sv_enabled server))
    \<and> authorised env g request slug server skip pre
    \<and> obj_get ps ''name'' = JStr tool \<and> tool \<noteq> [] \<and> or_default (obj_get ps ''arguments'') (JObj []) = JObj args
    \<and> evaluate (ge_regex env) (ce_fr (ge_catalog env)) tool args (sv_name server) (get_policy g (sv_id server)) = Inr d \<and> \<not> dc_blocked d
    \<and> extends_with (carries env request server path (request_body request body_override) body_json ps d) (gw_upstream g) (gw_upstream g')"
  using assms by (rule handle_call_sent)

definition sample_call :: json where
  "sample_call = JObj [(''jsonrpc'', JStr ''2.0''), (''id'', JInt 1), (''method'', JStr ''tools/call''),
     (''params'', JObj [(''name'', JStr ''run'')])]"

definition sample_gateway_server :: server_record where
  "sample_gateway_server = \<lparr>sv_id = 1, sv_slug = ''files'', sv_name = ''files'', sv_upstream_url = ''http://u'', sv_enabled = True,
     sv_in_aggregate = True, sv_upstream_protocol = None, sv_discover_json = None, sv_upstream_auth_header = None,
     sv_credential_mode = ''static'', sv_project_id = None\<rparr>"

definition sample_gateway :: "server_policy \<Rightarrow> in_memory gateway" where
  "sample_gateway policy = \<lparr>gw_metering = \<lparr>mt_limiter = in_memory_init, mt_usage = Some \<lparr>us_up = True, us_rows = []\<rparr>, mt_webhooks = None\<rparr>,
     gw_keys = empty_keys, gw_audit = audit_init, gw_upstream = sample_upstream, gw_tools = [], gw_servers = [sample_gateway_server],
     gw_policies = [(1, policy)], gw_auth_mode = Some ''open''\<rparr>"

definition sample_gateway_env :: "in_memory gateway_env" where
  "sample_gateway_env = \<lparr>ge_catalog = (sample_catalog_env (\<lambda>_. HttpAnswer 200 [] ''ok'') 0)
        \<lparr>ce_loads := (\<lambda>_. Some sample_call)\<rparr>,
     ge_regex = literal_env, ge_hash = (\<lambda>s. s), ge_limiter = in_memory_ops, ge_clock = sample_clock,
     ge_loads_strict = (\<lambda>_. Some (JObj [(''result'', JObj [(''content'', JList [JStr ''ok''])])])), ge_dumps = (\<lambda>_. ''json''), ge_dumps_compact = (\<lambda>_. ''json''),
     ge_url = (\<lambda>u q. Some u), ge_cut = (\<lambda>_. None), ge_trace = [], ge_secrets = (\<lambda>s. Inr s), ge_issuer = None,
     ge_max_body_bytes = 1000, ge_auth_mode = ''required'', ge_bridge = True, ge_tools_cache = True\<rparr>"

definition sample_request :: request where
  "sample_request = \<lparr>rq_method = ''POST'', rq_headers = [], rq_body = ''call'', rq_query = '''',
     rq_client_ip = None\<rparr>"

theorem forwarded_call_allowed_witness:
  "let g = sample_gateway sample_policy; (r, g') = handle sample_gateway_env g sample_request ''files'' '''' None None False None None None in
   gw_upstream g' \<noteq> gw_upstream g \<and> (\<exists>d. evaluate literal_env (\<lambda>_. ''0'') ''run'' [] ''files'' sample_policy = Inr d \<and> \<not> dc_blocked d)"
proof -
  let ?g = "sample_gateway sample_policy"
  obtain r g' where h: "handle sample_gateway_env ?g sample_request ''files'' '''' None None False None None None = (r, g')" by fastforce
  have "length (up_history (gw_upstream (snd (handle sample_gateway_env ?g sample_request ''files'' '''' None None False None None None)))) = 1"
    by code_simp
  then have sent: "gw_upstream g' \<noteq> gw_upstream ?g" unfolding h by (auto simp: sample_gateway_def sample_upstream_def)
  let ?ps = "[(''name'', JStr ''run'')]"
  let ?msg = "[(''jsonrpc'', JStr ''2.0''), (''id'', JInt 1), (''method'', JStr ''tools/call''), (''params'', JObj ?ps)]"
  have p: "parse_single_message (ce_loads (ge_catalog sample_gateway_env)) (request_body sample_request None) = Inr ?msg" by code_simp
  have ps: "or_default (obj_get ?msg ''params'') (JObj []) = JObj ?ps" by code_simp
  have b: "request_body sample_request None \<noteq> []" by code_simp
  from forwarded_call_allowed [OF h p _ ps b sent] obtain server tool args d where
    "server_get ?g ''files'' = Some server" "obj_get ?ps ''name'' = JStr tool" "or_default (obj_get ?ps ''arguments'') (JObj []) = JObj args"
    "evaluate (ge_regex sample_gateway_env) (ce_fr (ge_catalog sample_gateway_env)) tool args (sv_name server) (get_policy ?g (sv_id server)) = Inr d"
    "\<not> dc_blocked d" by auto
  moreover from this(1) have "server = sample_gateway_server" by (simp add: server_get_def sample_gateway_def sample_gateway_server_def)
  ultimately have "evaluate literal_env (\<lambda>_. ''0'') ''run'' [] ''files'' sample_policy = Inr d \<and> \<not> dc_blocked d"
    by (simp add: obj_get_def or_default_def get_policy_def sample_gateway_def sample_gateway_server_def sample_gateway_env_def sample_catalog_env_def)
  then show ?thesis using sent unfolding Let_def h by auto
qed

text \<open>C2. Nothing happens for a caller who is not authorised: unless the request comes from the control plane, the mode
  is open, or a verified key is in scope for the server, nothing is sent, metered or cached, no decision is
  recorded, and the answer is an error.\<close>

theorem unauthorised_has_no_effect:
  assumes "handle env g request slug path body_override force skip origin pre resolved = (r, g')"
    and "\<forall>server. (resolved = Some server \<or> server_get g slug = Some server) \<longrightarrow> \<not> authorised env g request slug server skip pre"
  shows "gw_upstream g' = gw_upstream g \<and> gw_metering g' = gw_metering g \<and> gw_tools g' = gw_tools g
    \<and> (\<exists>rows. logs g g' rows \<and> decision_rows rows = []) \<and> (\<forall>x. r = Some x \<longrightarrow> rp_status x \<in> {400, 401, 403, 404, 413})"
  using assms(1)
proof (cases rule: handle_cases)
  case refused
  then show ?thesis by blast
next
  case (processed server key ks body res g2)
  then show ?thesis using assms(2) by blast
qed

theorem unauthorised_has_no_effect_witness:
  "let g = (sample_gateway default_policy)\<lparr>gw_auth_mode := None\<rparr>;
       (r, g') = handle sample_gateway_env g sample_request ''files'' '''' None None False None None None in
   gw_upstream g' = gw_upstream g \<and> (case r of None \<Rightarrow> True | Some x \<Rightarrow> rp_status x \<in> {400, 401, 403, 404, 413})"
proof -
  let ?g = "(sample_gateway default_policy)\<lparr>gw_auth_mode := None\<rparr>"
  obtain r g' where h: "handle sample_gateway_env ?g sample_request ''files'' '''' None None False None None None = (r, g')" by fastforce
  have "\<not> authorised sample_gateway_env ?g sample_request ''files'' server False None" for server
    by (simp add: authorised_def bearer_key_def sample_request_def header_get_def current_auth_mode_def sample_gateway_env_def)
  with unauthorised_has_no_effect [OF h] show ?thesis unfolding Let_def h by (cases r) auto
qed

text \<open>C3. Every tool call is decided and counted once: a \<open>tools/call\<close> that names a tool and passes the header check, and
  that ends in an answer or a routing error, leaves exactly one row with its decision and adds one call to
  the usage of its key, server and tool, whether it was refused by a limit, blocked, or sent and answered
  in any way; and if the row says it was blocked, nothing was sent.\<close>

theorem call_decided_and_counted_once:
  assumes "process_message env g request server path body body_json key force origin = (res, g')"
    and "map_of body_json ''method'' = Some (JStr ''tools/call'')" and "or_default (obj_get body_json ''params'') (JObj []) = JObj ps"
    and "obj_get ps ''name'' = JStr tool" and "tool \<noteq> []" and "res \<noteq> Inl GatewayUncaught"
    and "force \<noteq> None \<or> header_matches_body (header_get (rq_headers request) ''Mcp-Method'')
           (header_get (rq_headers request) ''Mcp-Name'') (JStr ''tools/call'') (JStr tool)"
  shows "\<exists>rows row. logs g g' rows \<and> decision_rows rows = [row]
    \<and> mt_usage (gw_metering g') = mt_usage (record_usage (gw_metering g) server (Some tool) (map_option ak_id key) (ge_clock env))
    \<and> (ae_decision row = ''BLOCKED'' \<longrightarrow> gw_upstream g' = gw_upstream g)"
  using assms(1-3)
proof (cases rule: tools_call_dispatch)
  case (mismatch row)
  then show ?thesis using assms(4,7) by simp
next
  case (enforced e g1 b)
  note en = enforced(1) [unfolded assms(4)]
  have up: "gw_upstream g1 = gw_upstream g" using enforce_upstream [OF en] by simp
  have "\<not> (\<exists>x. e = Inl x)"
  proof
    assume "\<exists>x. e = Inl x"
    then obtain x where x: "e = Inl x" by blast
    then have "x = GatewayUncaught" using en assms(5)
      by (cases tool) (auto simp: enforce_def elim: enforce_named_cases)
    then show False using enforced(2) [OF x] assms(6) by simp
  qed
  then obtain y where y: "e = Inr y" by (metis sum.exhaust_sel)
  note acc = enforce_accounts [OF en [unfolded y] assms(5)]
  show ?thesis
  proof (cases y)
    case (Blocked r)
    then obtain row where row: "logs g g1 [row]" "ae_decision row = ''BLOCKED''" using acc by auto
    show ?thesis by (rule exI [of _ "[row]"], rule exI [of _ row]) (use row acc up enforced(3) [of r] y Blocked in auto)
  next
    case (Allowed d p pending)
    let ?on = "response_dlp_enabled p (JStr ''tools/call'')"
    from acc Allowed obtain row where row: "ae_decision row = ''ALLOWED''" "pending = (if ?on then Some row else None)"
      "logs g g1 (if pending = None then [row] else [])" by auto
    from enforced(4) [OF y [unfolded Allowed]] obtain rows where rows: "gw_metering g' = gw_metering g1" "logs g1 g' rows"
      "map ae_decision (decision_rows rows) = sent_decision (if ?on then pending else None)" by blast
    have "\<exists>row'. decision_rows ((if pending = None then [row] else []) @ rows) = [row'] \<and> ae_decision row' = ''ALLOWED''"
      using row(1,2) rows(3) by (auto simp: sent_decision_def split: if_splits)
    with logs_trans [OF row(3) rows(2)] rows(1) acc show ?thesis by fastforce
  qed
qed

theorem call_decided_and_counted_once_witness:
  "let g = sample_gateway default_policy;
       (res, g') = process_message sample_gateway_env g sample_request sample_gateway_server '''' ''call''
         [(''method'', JStr ''tools/call''), (''params'', JObj [(''name'', JStr ''run'')])] None None None in
   \<exists>rows row. logs g g' rows \<and> decision_rows rows = [row]"
proof -
  let ?g = "sample_gateway default_policy" and ?ps = "[(''name'', JStr ''run'')]"
  let ?msg = "[(''method'', JStr ''tools/call''), (''params'', JObj ?ps)]"
  let ?p = "process_message sample_gateway_env ?g sample_request sample_gateway_server '''' ''call'' ?msg None None None"
  obtain res g' where p: "?p = (res, g')" by fastforce
  have "(case fst ?p of Inr _ \<Rightarrow> True | _ \<Rightarrow> False)" by code_simp
  then have ok: "res \<noteq> Inl GatewayUncaught" unfolding p by auto
  have ps: "or_default (obj_get ?msg ''params'') (JObj []) = JObj ?ps" by code_simp
  have hd: "header_matches_body (header_get (rq_headers sample_request) ''Mcp-Method'')
      (header_get (rq_headers sample_request) ''Mcp-Name'') (JStr ''tools/call'') (JStr ''run'')"
    by (simp add: header_matches_body_def header_get_def sample_request_def)
  have "\<exists>rows row. logs ?g g' rows \<and> decision_rows rows = [row]"
    using call_decided_and_counted_once [OF p _ ps _ _ ok disjI2 [OF hd]] by (auto simp: obj_get_def)
  then show ?thesis unfolding Let_def p by simp
qed

lemma process_no_credential:
  assumes "process env g request server path body key force origin = (res, g')"
    and "resolve_upstream_credential (ge_secrets env) (ge_issuer env) server = Inl e"
  shows "gw_upstream g' = gw_upstream g"
proof -
  have rc: "\<exists>x g1. resolve_credential env h server row rid = (Inl x, g1) \<and> gw_upstream g1 = gw_upstream h" for h row rid
    using assms(2) by (cases e) (auto simp: resolve_credential_def error_response_def)
  have dl: "gw_upstream g1 = gw_upstream h" if "deliver env h request server p b row rid sp pd = (r, g1)" for h p b row rid sp pd r g1
    using that rc [of h row rid] by (auto simp: deliver_def)
  have bs: "gw_upstream g1 = gw_upstream h" if "bridged_send env h server m rid ps meta row t sp pd = (r, g1)" for h m rid ps meta row t sp pd r g1
    using that rc [of h "row\<lparr>ae_tool := t\<rparr>" rid] by (auto simp: bridged_send_def)
  have hb: "gw_upstream g1 = gw_upstream g" if "handle_bridged env g server m rid ps meta key ip origin = (r, g1)" for m rid ps meta ip r g1
    using that
    by (auto simp: handle_bridged_def Let_def split: if_splits json.splits prod.splits sum.splits enforcement.splits
        dest!: bs dest: enforce_upstream)
  have pc: "gw_upstream g1 = gw_upstream g" if "passthrough_call env g request server path body bj ps rid key origin = (r, g1)" for bj ps rid r g1
    using that
    by (auto simp: passthrough_call_def Let_def split: if_splits prod.splits sum.splits enforcement.splits
        dest!: dl dest: enforce_upstream)
  have tl: "gw_upstream g1 = gw_upstream g" if "handle_tools_list env g server rid key ip = (r, g1)" for rid ip r g1
    using that rc [of g "row_for server (JStr ''tools/list'') key ip" rid] by (auto simp: handle_tools_list_def Let_def)
  have "gw_upstream g1 = gw_upstream g" if "process_message env g request server path body bj key force origin = (r, g1)" for bj r g1
    using that hb pc tl dl
    by (auto simp: process_message_def error_response_def Let_def split: if_splits sum.splits json.splits dest!: dl)
  then show ?thesis using assms(1) dl
    by (auto simp: process_def refuse_def Let_def split: if_splits sum.splits not_a_single_message.splits)
qed

text \<open>C22. A credential that cannot be resolved stops the request: whatever the request, if the credential of the server
  cannot be resolved nothing is sent to its upstream, not even without a credential.\<close>

theorem unresolved_credential_sends_nothing:
  assumes "handle env g request slug path body_override force skip origin pre resolved = (r, g')"
    and "\<forall>server. resolved = Some server \<or> (resolved = None \<and> server_get g slug = Some server) \<longrightarrow>
      (\<exists>e. resolve_upstream_credential (ge_secrets env) (ge_issuer env) server = Inl e)"
  shows "gw_upstream g' = gw_upstream g"
  using assms(1)
proof (cases rule: handle_cases)
  case (processed server key ks body res g2)
  then obtain e where "resolve_upstream_credential (ge_secrets env) (ge_issuer env) server = Inl e" using assms(2) by blast
  from process_no_credential [OF processed(5) this] processed(6) show ?thesis by simp
qed

theorem unresolved_credential_sends_nothing_witness:
  "let g = sample_gateway default_policy; s = sample_gateway_server\<lparr>sv_credential_mode := ''token''\<rparr>;
       (r, g') = handle sample_gateway_env g sample_request ''files'' '''' None None True None None (Some s) in
   gw_upstream g' = gw_upstream g"
proof -
  let ?g = "sample_gateway default_policy" and ?s = "sample_gateway_server\<lparr>sv_credential_mode := ''token''\<rparr>"
  obtain r g' where h: "handle sample_gateway_env ?g sample_request ''files'' '''' None None True None None (Some ?s) = (r, g')" by fastforce
  have "resolve_upstream_credential (ge_secrets sample_gateway_env) (ge_issuer sample_gateway_env) ?s
      = Inl (UpstreamCredentialError ''token signing is not configured (ACROPOLIS_TOKEN_SIGNING_KEY_REF)'' TOKEN_NOT_CONFIGURED)"
    by (simp add: resolve_upstream_credential_def sample_gateway_env_def)
  with unresolved_credential_sends_nothing [OF h] show ?thesis unfolding Let_def h by auto
qed

text \<open>A path from the client cannot leave the upstream's URL: whenever a request is relayed, no segment of the path
  the client appended is a parent reference, and the path does not start with a slash.\<close>

theorem relayed_path_confined:
  assumes "forward env g request server path body auth scan_policy rpc_id = (r, scan, g')" and "gw_upstream g' \<noteq> gw_upstream g"
  shows "''..'' \<notin> set (str_split CHR ''/'' path) \<and> (path \<noteq> [] \<longrightarrow> hd path \<noteq> CHR ''/'')"
proof -
  have ok: "\<not> bad_path path" using assms by (auto simp: forward_def split: if_splits)
  have "path = [] \<longrightarrow> ''..'' \<notin> set (str_split CHR ''/'' path)" by simp
  moreover have "\<not> has_substring ''/../'' (CHR ''/'' # path @ ''/'')" if "path \<noteq> []" using ok that by (auto simp: bad_path_def)
  ultimately show ?thesis using ok str_split_part [of "''..''" "CHR ''/''" path] by (auto simp: bad_path_def)
qed

theorem relayed_path_confined_witness:
  "let g = sample_gateway default_policy;
       (r, scan, g') = forward sample_gateway_env g sample_request sample_gateway_server ''a/b'' (RawPayload ''x'') None None JNull in
   gw_upstream g' \<noteq> gw_upstream g \<and> ''..'' \<notin> set (str_split CHR ''/'' ''a/b'')"
proof -
  let ?g = "sample_gateway default_policy"
  obtain r scan g' where f: "forward sample_gateway_env ?g sample_request sample_gateway_server ''a/b'' (RawPayload ''x'') None None JNull
      = (r, scan, g')" by (metis prod_cases3)
  have "length (up_history (gw_upstream (snd (snd (forward sample_gateway_env ?g sample_request sample_gateway_server ''a/b'' (RawPayload ''x'') None None JNull))))) = 1"
    by code_simp
  then have ne: "gw_upstream g' \<noteq> gw_upstream ?g" unfolding f by (auto simp: sample_gateway_def sample_upstream_def)
  with relayed_path_confined [OF f ne] show ?thesis unfolding Let_def f by simp
qed

subsection \<open>Scanned responses\<close>

text \<open>The event of a stream after its message changed or not.\<close>

definition event_update :: "(json \<Rightarrow> string) \<Rightarrow> json \<Rightarrow> json \<Rightarrow> string option" where
  "event_update dumps before after = (if after = before then None else Some (dumps after))"

lemma replace_events_updates:
  assumes "replace_events dumps evs before after = Some evs'" and "\<forall>ev \<in> set evs. ev_new_data ev = None"
    and "length before = length (List.map_filter event_data evs)" and "length after = length before"
  shows "map ev_raw_lines evs' = map ev_raw_lines evs \<and>
    map ev_new_data (filter (\<lambda>e. event_data e \<noteq> None) evs') = map2 (event_update dumps) before after"
  using assms
proof (induction evs arbitrary: before after evs')
  case (Cons ev evs)
  show ?case
  proof (cases "event_data ev")
    case None
    with Cons show ?thesis by (auto simp: map_filter_simps)
  next
    case (Some d)
    with Cons.prems obtain b bs a as where ba: "before = b # bs" "after = a # as"
      by (cases before; cases after) (auto simp: map_filter_simps)
    then obtain ev' rest where ev: "(if a = b then Inr ev else replace_data ev (dumps a)) = Inr ev'"
      "replace_events dumps evs bs as = Some rest" "evs' = ev' # rest"
      using Cons.prems(1) Some by (auto split: sum.splits)
    have new: "ev_raw_lines ev' = ev_raw_lines ev" "ev_new_data ev' = event_update dumps b a" "event_data ev' = Some d"
      using ev(1) Cons.prems(2) Some by (auto simp: replace_data_def event_update_def event_data_def split: if_splits)
    have "map ev_raw_lines rest = map ev_raw_lines evs \<and>
        map ev_new_data (filter (\<lambda>e. event_data e \<noteq> None) rest) = map2 (event_update dumps) bs as"
      by (rule Cons.IH [OF ev(2)]) (use Cons.prems(2-4) ba Some in \<open>auto simp: map_filter_simps\<close>)
    then show ?thesis using new ev(3) ba by simp
  qed
qed simp

lemma all_some_length: "all_some f xs = Some ys \<Longrightarrow> length ys = length xs"
  by (induction xs arbitrary: ys) (auto split: option.splits)

text \<open>\<open>clean\<close> is \<open>message\<close> with every scanned leaf in its clean form and nothing else changed.\<close>

definition cleaned :: "regex_env \<Rightarrow> server_policy \<Rightarrow> json \<Rightarrow> json \<Rightarrow> bool" where
  "cleaned env policy message clean \<longleftrightarrow> list_all2 same_frame (messages_of message) (messages_of clean) \<and>
     list_all2 (leaf_clean env policy (leaf_cap policy (leaves_of message))) (leaves_of message) (leaves_of clean)"

lemma scan_message_cases:
  assumes "engine_ok (ge_regex env)" and "policy_ok (ge_regex env) policy" and "scan_message env message policy rpc_id = (out, scan)"
  shows "(out = marker_message (sanitize_rpc_id rpc_id) UNPARSEABLE_MARKER \<and> rs_truncated scan)
    \<or> (cleaned (ge_regex env) policy message out \<and> (rs_match_count scan = 0 \<and> \<not> rs_truncated scan \<longrightarrow> leaves_of out = leaves_of message))"
  using assms(3) scan_result_clean [OF assms(1,2)] scan_result_untouched
  by (auto simp: scan_message_def cleaned_def Let_def split: sum.splits)

text \<open>A body that may be returned: a marker, nothing, the printed clean form, the bytes as sent where their clean form has
  the same leaves, or the stream with the data of each changed message replaced by its printed clean form.\<close>

definition scanned_body :: "'s gateway_env \<Rightarrow> server_policy \<Rightarrow> json \<Rightarrow> string \<Rightarrow> payload \<Rightarrow> bool" where
  "scanned_body env policy rpc_id sent out \<longleftrightarrow>
     (let marker = marker_message (sanitize_rpc_id rpc_id) in
      out \<in> {JsonPayload (marker HARD_LIMIT_MARKER), JsonPayload (marker UNPARSEABLE_MARKER), RawPayload (ge_dumps_compact env (marker UNPARSEABLE_MARKER))}
      \<or> (out = RawPayload [] \<and> sent = [])
      \<or> (\<exists>message clean. ge_loads_strict env sent = Some message \<and> cleaned (ge_regex env) policy message clean \<and>
           (out = RawPayload (ge_dumps_compact env clean) \<or> (out = RawPayload sent \<and> leaves_of clean = leaves_of message)))
      \<or> (\<exists>events messages after events'. parse_events sent = Inr events \<and>
           all_some (ge_loads_strict env) (List.map_filter event_data events) = Some messages \<and>
           cleaned (ge_regex env) policy (JList messages) (JList after) \<and> out = RawPayload (serialize events') \<and>
           map ev_raw_lines events' = map ev_raw_lines events \<and>
           map ev_new_data (filter (\<lambda>e. event_data e \<noteq> None) events') = map2 (event_update (ge_dumps_compact env)) messages after))"

lemma scan_json_body_scanned:
  assumes "engine_ok (ge_regex env)" and "policy_ok (ge_regex env) policy" and "scan_json_body env sent policy rpc_id = Some (out, scan)"
  shows "scanned_body env policy rpc_id sent out"
proof -
  obtain message res where m: "ge_loads_strict env sent = Some message" "scan_message env message policy rpc_id = (res, scan)"
    "out = (if rs_match_count scan = 0 \<and> \<not> rs_truncated scan then RawPayload sent else RawPayload (ge_dumps_compact env res))"
    using assms(3) by (auto simp: scan_json_body_def Let_def split: option.splits prod.splits)
  from scan_message_cases [OF assms(1,2) m(2)] m show ?thesis unfolding scanned_body_def Let_def by auto
qed

lemma scan_sse_body_scanned:
  assumes "engine_ok (ge_regex env)" and "policy_ok (ge_regex env) policy" and "scan_sse_body env sent policy rpc_id = Some (out, scan)"
  shows "scanned_body env policy rpc_id sent out"
proof -
  obtain events messages after events' where ev: "parse_events sent = Inr events"
    "all_some (ge_loads_strict env) (List.map_filter event_data events) = Some messages"
    "scan_message env (JList messages) policy rpc_id = (JList after, scan)"
    "replace_events (ge_dumps_compact env) events messages after = Some events'" "out = RawPayload (serialize events')"
    using assms(3) by (auto simp: scan_sse_body_def Let_def split: sum.splits option.splits prod.splits json.splits)
  from scan_message_cases [OF assms(1,2) ev(3)] have cl: "cleaned (ge_regex env) policy (JList messages) (JList after)"
    by (auto simp: marker_message_def)
  then have len: "length after = length messages" by (auto simp: cleaned_def messages_of_def dest: list_all2_lengthD)
  from replace_events_updates [OF ev(4) parse_events_text(2) [OF ev(1)] _ len] all_some_length [OF ev(2)] ev cl
  show ?thesis unfolding scanned_body_def Let_def by (intro disjI2) blast
qed

text \<open>What the upstream sent of its answer before the connection broke, if it broke.\<close>

definition upstream_sent :: "'s gateway_env \<Rightarrow> 's gateway \<Rightarrow> string \<Rightarrow> string" where
  "upstream_sent env g content = (case ge_cut env (up_history (gw_upstream g)) of None \<Rightarrow> content | Some n \<Rightarrow> take n content)"



text \<open>A call refused by a rate limit is logged without its origin: the row of a test call from the control plane
  refused this way has no origin and is not marked as bridged, so it looks like client traffic.\<close>

theorem rate_limited_test_call_untagged:
  assumes "check_rate_limits (ge_limiter env) (gw_metering g) server (get_policy g (sv_id server)) tool (ge_clock env) = (Inr v, m)"
    and "\<not> mv_allowed v" and "tool \<noteq> []"
  shows "\<exists>row. logs g (snd (enforce env g server (JStr ''tools/call'') rpc_id params (JStr tool) key ip (Some ''test'') True)) [row]
    \<and> ae_decision row = ''BLOCKED'' \<and> ae_origin row = None \<and> \<not> ae_bridged row"
proof -
  obtain c cs where "tool = c # cs" using assms(3) by (cases tool) auto
  then show ?thesis using assms(1,2)
    by (auto simp: enforce_def enforce_named_def refuse_metered_def refuse_def row_for_def base_event_def logs_def Let_def)
qed

theorem rate_limited_test_call_untagged_witness:
  "let m = \<lparr>mt_limiter = \<lparr>vk_specs = [], vk_store = [], vk_up = False\<rparr>, mt_usage = None, mt_webhooks = None\<rparr>;
       p = default_policy\<lparr>sp_rate_limit := Some ''5/minute''\<rparr>;
       g = \<lparr>gw_metering = m, gw_keys = empty_keys, gw_audit = audit_init, gw_upstream = sample_upstream, gw_tools = [],
         gw_servers = [], gw_policies = [(1, p)], gw_auth_mode = None\<rparr>;
       env = \<lparr>ge_catalog = sample_catalog_env (\<lambda>_. HttpDeadline) 0, ge_regex = literal_env, ge_hash = (\<lambda>s. s), ge_limiter = valkey_ops,
         ge_clock = sample_clock, ge_loads_strict = (\<lambda>_. None), ge_dumps = (\<lambda>_. []), ge_dumps_compact = (\<lambda>_. []), ge_url = (\<lambda>u q. Some u),
         ge_cut = (\<lambda>_. None), ge_trace = [], ge_secrets = Inr, ge_issuer = None, ge_max_body_bytes = 0, ge_auth_mode = [], ge_bridge = True,
         ge_tools_cache = True\<rparr> in
   \<exists>row. logs g (snd (enforce env g sample_gateway_server (JStr ''tools/call'') JNull [] (JStr ''run'') None None (Some ''test'') True)) [row]
     \<and> ae_origin row = None"
  (is "let m = ?m; p = ?p in ?R m p")
proof -
  let ?v = "check_rate_limits valkey_ops ?m sample_gateway_server ?p ''run'' sample_clock"
  have "case fst ?v of Inr v \<Rightarrow> \<not> mv_allowed v | _ \<Rightarrow> False" by code_simp
  then obtain v where "fst ?v = Inr v" "\<not> mv_allowed v" by (auto split: sum.splits)
  then have v: "?v = (Inr v, snd ?v)" "\<not> mv_allowed v" by (metis prod.collapse)+
  show ?thesis unfolding Let_def
    using rate_limited_test_call_untagged [of "\<lparr>ge_catalog = sample_catalog_env (\<lambda>_. HttpDeadline) 0, ge_regex = literal_env, ge_hash = (\<lambda>s. s), ge_limiter = valkey_ops,
         ge_clock = sample_clock, ge_loads_strict = (\<lambda>_. None), ge_dumps = (\<lambda>_. []), ge_dumps_compact = (\<lambda>_. []), ge_url = (\<lambda>u q. Some u),
         ge_cut = (\<lambda>_. None), ge_trace = [], ge_secrets = Inr, ge_issuer = None, ge_max_body_bytes = 0, ge_auth_mode = [], ge_bridge = True,
         ge_tools_cache = True\<rparr>" "\<lparr>gw_metering = ?m, gw_keys = empty_keys, gw_audit = audit_init, gw_upstream = sample_upstream, gw_tools = [],
         gw_servers = [], gw_policies = [(1, ?p)], gw_auth_mode = None\<rparr>" sample_gateway_server "''run''" v "snd ?v" JNull "[]" None None] v
    by (auto simp: get_policy_def sample_gateway_server_def)
qed

end
