(* ===== verification/Policy_Api.thy ===== *)
theory Policy_Api
  imports Pipeline_Correct
begin

text \<open>
  The policy evaluation endpoint, \<open>argus/policy_api.py\<close>: a caller with an API key asks what the data plane
  would decide about a call, without making it. The web framework parses and validates the body; the model
  starts from the parsed request and the length of the raw body. \<open>Inl\<close> is an HTTP error or an exception
  that reaches the framework.
\<close>

record evaluate_request =
  er_server :: string
  er_tool_name :: string
  er_arguments :: "json dict"
  er_harness :: "string option"
  er_host :: "string option"

record evaluate_response =
  ev_blocked :: bool
  ev_reason :: "string option"
  ev_rule :: "string option"
  ev_matched :: "string option"

datatype evaluation_exn = HTTPException nat string | EvaluationUncaught

definition EVALUATION_ENDPOINT :: string where "EVALUATION_ENDPOINT = ''policy-evaluate''"
definition EVALUATION_RPC_METHOD :: string where "EVALUATION_RPC_METHOD = ''tools/call''"

definition evaluation_body_ok :: "'s gateway_env \<Rightarrow> request \<Rightarrow> evaluation_exn option" where
  "evaluation_body_ok env request =
     (let too_large = Some (HTTPException 413 ''payload too large'');
          actual = (if int (length (rq_body request)) > ge_max_body_bytes env then too_large else None) in
      case header_get (rq_headers request) ''content-length'' of
        None \<Rightarrow> actual
      | Some cl \<Rightarrow>
          if cl = [] then actual
          else (case int_of_string cl of
              None \<Rightarrow> Some (HTTPException 400 ''invalid content-length header'')
            | Some declared \<Rightarrow> if declared > ge_max_body_bytes env then too_large else actual))"

definition verify_evaluation_key ::
    "'s gateway_env \<Rightarrow> 's gateway \<Rightarrow> request \<Rightarrow> (evaluation_exn + api_key_record) \<times> 's gateway" where
  "verify_evaluation_key env g request =
     (case evaluation_body_ok env request of
        Some e \<Rightarrow> (Inl e, g)
      | None \<Rightarrow>
          (let auth = (case header_get (rq_headers request) ''authorization'' of None \<Rightarrow> '''' | Some v \<Rightarrow> v) in
           if take 7 (str_lower auth) \<noteq> ''bearer '' then (Inl (HTTPException 401 ''missing bearer token''), g)
           else (case verify (ge_hash env) (gw_keys g) (drop 7 auth) (ck_mono (ge_clock env)) (isoformat (ck_utc (ge_clock env))) of
               (None, keys) \<Rightarrow> (Inl (HTTPException 401 ''invalid or disabled api key''), g\<lparr>gw_keys := keys\<rparr>)
             | (Some rec, keys) \<Rightarrow> (Inr rec, g\<lparr>gw_keys := keys\<rparr>))))"

definition evaluation_row :: "server_record \<Rightarrow> evaluate_request \<Rightarrow> api_key_record \<Rightarrow> string option \<Rightarrow> audit_event" where
  "evaluation_row server body key ip = (base_event (Some (sv_slug server)) (JStr (er_tool_name body)) '''')
     \<lparr>ae_endpoint := Some EVALUATION_ENDPOINT, ae_rpc_method := JStr EVALUATION_RPC_METHOD, ae_api_key_id := Some (ak_id key),
      ae_client_ip := ip, ae_origin := Some (local_origin (ak_name key) (er_harness body) (er_host body))\<rparr>"

definition refuse_evaluation ::
    "'s gateway_env \<Rightarrow> 's gateway \<Rightarrow> server_record \<Rightarrow> evaluate_request \<Rightarrow> api_key_record \<Rightarrow> audit_event \<Rightarrow> metering_verdict \<Rightarrow>
     (evaluation_exn + evaluate_response) \<times> 's gateway" where
  "refuse_evaluation env g server body key row v =
     (let reason = (case mv_reason v of Some (c # cs) \<Rightarrow> Some (c # cs) | _ \<Rightarrow> mv_message v);
          g1 = gw_log g (row\<lparr>ae_decision := ''BLOCKED'', ae_rule := mv_rule v, ae_reason := reason, ae_status_code := Some (mv_status v)\<rparr>)
      in (Inl (HTTPException (mv_status v) (case mv_message v of Some m \<Rightarrow> m | None \<Rightarrow> '''')),
          gw_record_usage env g1 server (er_tool_name body) (Some key)))"

text \<open>Rate limit and quota are both checked before either verdict is looked at.\<close>

definition evaluate_metered ::
    "'s gateway_env \<Rightarrow> 's gateway \<Rightarrow> server_record \<Rightarrow> evaluate_request \<Rightarrow> api_key_record \<Rightarrow> audit_event \<Rightarrow>
     (evaluation_exn + evaluate_response) \<times> 's gateway" where
  "evaluate_metered env g server body key row =
     (let policy = get_policy g (sv_id server); tool = er_tool_name body in
      case check_rate_limits (ge_limiter env) (gw_metering g) server policy tool (ge_clock env) of
        (Inl _, m1) \<Rightarrow> (Inl EvaluationUncaught, g\<lparr>gw_metering := m1\<rparr>)
      | (Inr v, m1) \<Rightarrow>
          (let (q, m2) = check_quota m1 server tool (Some key) (ge_clock env); g2 = g\<lparr>gw_metering := m2\<rparr> in
           if \<not> mv_allowed v then refuse_evaluation env g2 server body key row v
           else if \<not> mv_allowed q then refuse_evaluation env g2 server body key row q
           else case evaluate (ge_regex env) (ce_fr (ge_catalog env)) tool (er_arguments body) (sv_name server) policy of
               Inl _ \<Rightarrow> (Inl EvaluationUncaught, g2)
             | Inr d \<Rightarrow>
                 (Inr \<lparr>ev_blocked = dc_blocked d, ev_reason = dc_reason d, ev_rule = dc_rule d, ev_matched = dc_matched d\<rparr>,
                  gw_record_usage env (gw_log g2 (decision_row (row\<lparr>ae_status_code := Some 200\<rparr>) tool d)) server tool (Some key))))"

definition evaluate_policy ::
    "'s gateway_env \<Rightarrow> 's gateway \<Rightarrow> request \<Rightarrow> evaluate_request \<Rightarrow> (evaluation_exn + evaluate_response) \<times> 's gateway" where
  "evaluate_policy env g request body =
     (case verify_evaluation_key env g request of
        (Inl e, g1) \<Rightarrow> (Inl e, g1)
      | (Inr key, g1) \<Rightarrow>
          (case server_get g1 (er_server body) of
             None \<Rightarrow> (Inl (HTTPException 404 ''server not found''), g1)
           | Some server \<Rightarrow>
               if \<not> sv_enabled server then (Inl (HTTPException 404 ''server not found''), g1)
               else (case key_scope_violation key (er_server body) server of
                   Some violation \<Rightarrow> (Inl (HTTPException 403 violation), g1)
                 | None \<Rightarrow> evaluate_metered env g1 server body key (evaluation_row server body key (rq_client_ip request)))))"

subsection \<open>Lemmas\<close>

lemma verify_evaluation_frame:
  assumes "verify_evaluation_key env g request = (r, g1)"
  shows "\<exists>ks. g1 = g\<lparr>gw_keys := ks\<rparr>"
  using assms
  by (auto simp: verify_evaluation_key_def Let_def split: option.splits if_splits prod.splits intro: exI [of _ "gw_keys g"])

lemma refused_evaluation_logs:
  assumes "refuse_evaluation env g server body key row v = (r, g')" and "ae_tool row = JStr (er_tool_name body)"
  shows "\<exists>x. logs g g' [x] \<and> ae_decision x = ''BLOCKED'' \<and> ae_origin x = ae_origin row
    \<and> r = Inl (HTTPException (mv_status v) (case mv_message v of Some m \<Rightarrow> m | None \<Rightarrow> ''''))
    \<and> g' = gw_record_usage env (gw_log g x) server (er_tool_name body) (Some key)"
  using assms by (auto simp: refuse_evaluation_def logs_def Let_def)

lemma evaluate_metered_sends_nothing:
  "evaluate_metered env g server body key row = (r, g') \<Longrightarrow> gw_upstream g' = gw_upstream g \<and> gw_tools g' = gw_tools g"
  by (auto simp: evaluate_metered_def refuse_evaluation_def Let_def split: prod.splits sum.splits if_splits)

text \<open>The limits of an enforced call and of an evaluated one are the same checks. \<open>same_use\<close>: the two gateways
  charged the limiter and the usage counters alike.\<close>

definition same_use :: "'s gateway \<Rightarrow> 's gateway \<Rightarrow> bool" where
  "same_use g h \<longleftrightarrow> mt_usage (gw_metering g) = mt_usage (gw_metering h) \<and> mt_limiter (gw_metering g) = mt_limiter (gw_metering h)"

definition same_verdict :: "evaluation_exn + evaluate_response \<Rightarrow> gateway_exn + enforcement \<Rightarrow> bool" where
  "same_verdict r x \<longleftrightarrow> (case x of
      Inl _ \<Rightarrow> r = Inl EvaluationUncaught
    | Inr (Blocked resp) \<Rightarrow> (case r of
          Inl (HTTPException st m) \<Rightarrow> rp_status resp = st
        | Inl EvaluationUncaught \<Rightarrow> False
        | Inr ev \<Rightarrow> ev_blocked ev \<and> rp_status resp = 403)
    | Inr (Allowed d p pending) \<Rightarrow> (case r of Inl _ \<Rightarrow> False | Inr ev \<Rightarrow> \<not> ev_blocked ev))"

lemma record_usage_limiter [simp]: "mt_limiter (record_usage m server tool k ck) = mt_limiter m"
  by (auto simp: record_usage_def split: option.splits sum.splits)

lemma same_use_recorded:
  assumes "mt_usage (gw_metering g) = mt_usage (gw_metering h)" and "mt_limiter (gw_metering g) = mt_limiter (gw_metering h)"
  shows "same_use (gw_record_usage env g server tool key) (gw_record_usage env h server tool key)"
  using mt_usage_record [OF assms(1)] assms(2) by (simp add: same_use_def gw_record_usage_def)

lemma evaluation_matches_enforcement:
  assumes ev: "evaluate_metered env g server body key row = (r, g1)" and ne: "er_tool_name body \<noteq> []"
    and args: "or_default (obj_get params ''arguments'') (JObj []) = JObj (er_arguments body)"
    and en: "enforce env h server (JStr ''tools/call'') rpc_id params (JStr (er_tool_name body)) (Some key) ip origin br = (x, h1)"
    and same: "gw_metering h = gw_metering g" "gw_policies h = gw_policies g"
  shows "same_verdict r x \<and> same_use g1 h1"
proof -
  let ?tool = "er_tool_name body" and ?ck = "ge_clock env" and ?p = "get_policy g (sv_id server)"
  let ?c = "(row_for server (JStr ''tools/call'') (Some key) ip)\<lparr>ae_origin := origin, ae_bridged := br\<rparr>"
  have pol: "get_policy h (sv_id server) = ?p" by (simp add: get_policy_def same)
  have en: "enforce_named env h server (JStr ''tools/call'') rpc_id params ?tool (Some key) ip ?c = (x, h1)"
    using en ne by (cases ?tool) (simp_all add: enforce_def)
  obtain v m1 where rl: "check_rate_limits (ge_limiter env) (gw_metering g) server ?p ?tool ?ck = (v, m1)" by fastforce
  obtain q m2 where qt: "check_quota m1 server ?tool (Some key) ?ck = (q, m2)" by fastforce
  note frame = check_quota_frame [OF qt]
  consider (exn) e where "v = Inl e" | (rate) v' where "v = Inr v'" "\<not> mv_allowed v'"
    | (quota) v' where "v = Inr v'" "mv_allowed v'" "\<not> mv_allowed q" | (passed) v' where "v = Inr v'" "mv_allowed v'" "mv_allowed q"
    by (cases v) auto
  then show ?thesis
  proof cases
    case exn
    then show ?thesis using ev en rl same pol
      by (auto simp: evaluate_metered_def enforce_named_def same_verdict_def same_use_def)
  next
    case rate
    then show ?thesis using ev en rl qt same pol frame
      by (auto simp: evaluate_metered_def enforce_named_def refuse_evaluation_def refuse_metered_def refuse_def json_response_def
          same_verdict_def Let_def intro!: same_use_recorded)
  next
    case quota
    then show ?thesis using ev en rl qt same pol frame
      by (auto simp: evaluate_metered_def enforce_named_def refuse_evaluation_def refuse_metered_def refuse_def json_response_def
          same_verdict_def Let_def intro!: same_use_recorded)
  next
    case passed
    show ?thesis
    proof (cases "evaluate (ge_regex env) (ce_fr (ge_catalog env)) ?tool (er_arguments body) (sv_name server) ?p")
      case (Inl e)
      then show ?thesis using ev en rl qt same pol passed args
        by (auto simp: evaluate_metered_def enforce_named_def same_verdict_def same_use_def Let_def)
    next
      case (Inr d)
      obtain y h2 where d: "enforce_decision env (h\<lparr>gw_metering := m2\<rparr>) server ?p (JStr ''tools/call'') rpc_id ?tool (Some key) ?c d = (y, h2)"
        by fastforce
      have x: "x = Inr y" "h1 = h2" using en rl qt same pol passed args Inr d by (auto simp: enforce_named_def Let_def)
      have r: "r = Inr \<lparr>ev_blocked = dc_blocked d, ev_reason = dc_reason d, ev_rule = dc_rule d, ev_matched = dc_matched d\<rparr>"
        "g1 = gw_record_usage env (gw_log (g\<lparr>gw_metering := m2\<rparr>) (decision_row (row\<lparr>ae_status_code := Some 200\<rparr>) ?tool d)) server ?tool (Some key)"
        using ev rl qt passed Inr by (auto simp: evaluate_metered_def Let_def)
      have "mt_limiter (gw_metering h2) = mt_limiter m2" using d
        by (auto simp: enforce_decision_def gw_record_usage_def Let_def)
      then have "same_use g1 h1" using enforce_decision_simps(3) [OF d] x(2) r(2) by (simp add: same_use_def gw_record_usage_def)
      moreover have "same_verdict r x"
        unfolding r(1) x(1) enforce_decision_simps(4) [OF d] by (simp add: same_verdict_def blocked_response_def json_response_def)
      ultimately show ?thesis by blast
    qed
  qed
qed


lemma evaluate_metered_rows:
  assumes "evaluate_metered env g server body key row = (r, g')" and "origin_class (ae_origin row) = ''local''"
    and "ae_tool row = JStr (er_tool_name body)"
  shows "\<exists>rows. logs g g' rows \<and> list_all (\<lambda>row. origin_class (ae_origin row) = ''local'') rows \<and>
    (case r of Inr ev \<Rightarrow> map ae_decision rows = [if ev_blocked ev then ''BLOCKED'' else ''ALLOWED'']
     | Inl (HTTPException status _) \<Rightarrow> map ae_decision rows \<in> {[], [''BLOCKED'']}
     | Inl EvaluationUncaught \<Rightarrow> rows = [])"
proof -
  let ?tool = "er_tool_name body" and ?p = "get_policy g (sv_id server)"
  obtain v m1 where rl: "check_rate_limits (ge_limiter env) (gw_metering g) server ?p ?tool (ge_clock env) = (v, m1)" by fastforce
  obtain q m2 where qt: "check_quota m1 server ?tool (Some key) (ge_clock env) = (q, m2)" by fastforce
  consider (exn) m where "r = Inl EvaluationUncaught" "g' = g\<lparr>gw_metering := m\<rparr>"
    | (refused) w where "refuse_evaluation env (g\<lparr>gw_metering := m2\<rparr>) server body key row w = (r, g')"
    | (decided) d where "r = Inr \<lparr>ev_blocked = dc_blocked d, ev_reason = dc_reason d, ev_rule = dc_rule d, ev_matched = dc_matched d\<rparr>"
        "g' = gw_record_usage env (gw_log (g\<lparr>gw_metering := m2\<rparr>) (decision_row (row\<lparr>ae_status_code := Some 200\<rparr>) ?tool d)) server ?tool (Some key)"
    using assms(1) rl qt by (auto simp: evaluate_metered_def Let_def split: sum.splits if_splits)
  then show ?thesis
  proof cases
    case exn
    then show ?thesis by (auto simp: logs_def intro!: exI [of _ "[]"])
  next
    case (refused w)
    from refused_evaluation_logs [OF this assms(3)] obtain x where "logs (g\<lparr>gw_metering := m2\<rparr>) g' [x]" "ae_decision x = ''BLOCKED''"
      "ae_origin x = ae_origin row" "\<exists>st m. r = Inl (HTTPException st m)" by blast
    then show ?thesis using assms(2) by (auto simp: logs_def intro!: exI [of _ "[x]"])
  next
    case (decided d)
    let ?x = "decision_row (row\<lparr>ae_status_code := Some 200\<rparr>) ?tool d"
    have "logs g g' [?x]" "ae_origin ?x = ae_origin row" "ae_decision ?x = (if dc_blocked d then ''BLOCKED'' else ''ALLOWED'')"
      using decided(2) by (simp_all add: logs_def decision_row_def)
    then show ?thesis using assms(2) decided(1) by (auto intro!: exI [of _ "[?x]"])
  qed
qed

subsection \<open>Properties\<close>

lemma evaluate_policy_passed:
  assumes "verify_evaluation_key env g request = (Inr key, g0)" and "server_get g (er_server body) = Some server"
    and "sv_enabled server" and "key_scope_violation key (er_server body) server = None"
  shows "evaluate_policy env g request body
    = evaluate_metered env g0 server body key (evaluation_row server body key (rq_client_ip request))"
  using assms verify_evaluation_frame [OF assms(1)] by (auto simp: evaluate_policy_def server_get_def)

text \<open>C8. An evaluation predicts enforcement: for a key in scope of an enabled server, the answer is the decision the
  data plane would take on that call in the same state (blocked, allowed, or refused by a limit with the
  same status), and it charges the limiter and the usage counters exactly as the call would.\<close>

theorem evaluation_predicts_enforcement:
  assumes "verify_evaluation_key env g request = (Inr key, g0)" and "server_get g (er_server body) = Some server"
    and "sv_enabled server" and "key_scope_violation key (er_server body) server = None"
    and "er_tool_name body \<noteq> []" and "or_default (obj_get params ''arguments'') (JObj []) = JObj (er_arguments body)"
    and "evaluate_policy env g request body = (r, g1)"
    and "enforce env g0 server (JStr ''tools/call'') rpc_id params (JStr (er_tool_name body)) (Some key) ip origin br = (x, h1)"
  shows "same_verdict r x \<and> same_use g1 h1"
  using evaluation_matches_enforcement [OF _ assms(5,6,8) refl refl] assms(7)
  unfolding evaluate_policy_passed [OF assms(1-4)] .

definition sample_eval_key :: key_row where
  "sample_eval_key = \<lparr>kr_record = sample_key\<lparr>ak_project_id := Some 3, ak_quota_calls := None\<rparr>, kr_hash = ''acropolis_k'', kr_last_used = None\<rparr>"

definition sample_eval_request :: request where
  "sample_eval_request = sample_request\<lparr>rq_headers := [(''authorization'', ''Bearer acropolis_k'')]\<rparr>"

definition sample_eval_gateway :: "in_memory gateway" where
  "sample_eval_gateway = (sample_gateway (default_policy\<lparr>sp_mode := ''denylist'', sp_denied := [''rm'']\<rparr>))
     \<lparr>gw_keys := empty_keys\<lparr>ks_rows := [sample_eval_key]\<rparr>, gw_servers := [sample_gateway_server\<lparr>sv_project_id := Some 3\<rparr>]\<rparr>"

definition sample_evaluation :: evaluate_request where
  "sample_evaluation = \<lparr>er_server = ''files'', er_tool_name = ''rm'', er_arguments = [], er_harness = None, er_host = None\<rparr>"

theorem evaluation_predicts_enforcement_witness:
  "\<exists>key g0. verify_evaluation_key sample_gateway_env sample_eval_gateway sample_eval_request = (Inr key, g0) \<and>
     same_verdict (fst (evaluate_policy sample_gateway_env sample_eval_gateway sample_eval_request sample_evaluation))
       (fst (enforce sample_gateway_env g0 (sample_gateway_server\<lparr>sv_project_id := Some 3\<rparr>) (JStr ''tools/call'') JNull [] (JStr ''rm'') (Some key) None None False))"
proof -
  let ?v = "verify_evaluation_key sample_gateway_env sample_eval_gateway sample_eval_request"
  let ?s = "sample_gateway_server\<lparr>sv_project_id := Some 3\<rparr>"
  have "case fst ?v of Inr k \<Rightarrow> k = kr_record sample_eval_key | _ \<Rightarrow> False" by code_simp
  then have "fst ?v = Inr (kr_record sample_eval_key)" by (auto split: sum.splits)
  then obtain key where key: "?v = (Inr key, snd ?v)" "key = kr_record sample_eval_key" by (simp add: prod_eq_iff)
  have srv: "server_get sample_eval_gateway (er_server sample_evaluation) = Some ?s"
    by (simp add: server_get_def sample_eval_gateway_def sample_gateway_server_def sample_evaluation_def)
  have en: "sv_enabled ?s" by (simp add: sample_gateway_server_def)
  have sc: "key_scope_violation key (er_server sample_evaluation) ?s = None"
    by (simp add: key(2) key_scope_violation_def key_permits_server_def sample_eval_key_def sample_key_def)
  have ne: "er_tool_name sample_evaluation \<noteq> []" by (simp add: sample_evaluation_def)
  have ar: "or_default (obj_get [] ''arguments'') (JObj []) = JObj (er_arguments sample_evaluation)"
    by (simp add: or_default_def obj_get_def sample_evaluation_def)
  have "er_tool_name sample_evaluation = ''rm''" by (simp add: sample_evaluation_def)
  note p = evaluation_predicts_enforcement [OF key(1) srv en sc ne ar prod.collapse [symmetric] prod.collapse [symmetric], unfolded this]
  show ?thesis using key(1) conjunct1 [OF p] by blast
qed

lemma local_origin_class: "origin_class (Some (local_origin name harness host)) = ''local''"
  by (simp add: origin_class_def local_origin_def Let_def)

text \<open>An evaluation is recorded and never executed: nothing is sent, a decision leaves exactly one row that says
  what was answered, marked with a local origin so that it does not count as traffic, and an error leaves
  at most one row.\<close>

theorem evaluation_recorded_not_executed:
  assumes "evaluate_policy env g request body = (r, g1)"
  shows "gw_upstream g1 = gw_upstream g \<and> (\<exists>rows. logs g g1 rows \<and> list_all (\<lambda>row. origin_class (ae_origin row) = ''local'') rows \<and>
    (case r of Inr ev \<Rightarrow> map ae_decision rows = [if ev_blocked ev then ''BLOCKED'' else ''ALLOWED'']
     | Inl (HTTPException status _) \<Rightarrow> map ae_decision rows \<in> {[], [''BLOCKED'']}
     | Inl EvaluationUncaught \<Rightarrow> rows = []))"
proof -
  obtain v g0 where v: "verify_evaluation_key env g request = (v, g0)" by fastforce
  then obtain ks where ks: "g0 = g\<lparr>gw_keys := ks\<rparr>" using verify_evaluation_frame by blast
  have noexn: "v \<noteq> Inl EvaluationUncaught" using v
    by (auto simp: verify_evaluation_key_def evaluation_body_ok_def Let_def split: option.splits if_splits prod.splits)
  consider (early) st m where "r = Inl (HTTPException st m)" "g1 = g0"
    | (run) server key row where "evaluate_metered env g0 server body key row = (r, g1)" "origin_class (ae_origin row) = ''local''"
        "ae_tool row = JStr (er_tool_name body)"
  proof (cases v)
    case (Inl e)
    then show ?thesis using assms v noexn early by (cases e) (auto simp: evaluate_policy_def)
  next
    case (Inr key)
    show ?thesis
    proof (cases "\<exists>server. server_get g0 (er_server body) = Some server \<and> sv_enabled server \<and> key_scope_violation key (er_server body) server = None")
      case True
      then obtain server where "server_get g0 (er_server body) = Some server" "sv_enabled server"
        "key_scope_violation key (er_server body) server = None" by blast
      then show ?thesis using assms v Inr
        by (intro run [of server key "evaluation_row server body key (rq_client_ip request)"])
          (auto simp: evaluate_policy_def evaluation_row_def base_event_def local_origin_class)
    next
      case False
      then show ?thesis using assms v Inr early by (auto simp: evaluate_policy_def split: option.splits if_splits)
    qed
  qed
  then show ?thesis
  proof cases
    case early
    then show ?thesis using ks by (auto simp: logs_def intro!: exI [of _ "[]"])
  next
    case run
    have "\<exists>rows. logs g0 g1 rows \<and> list_all (\<lambda>row. origin_class (ae_origin row) = ''local'') rows \<and>
      (case r of Inr ev \<Rightarrow> map ae_decision rows = [if ev_blocked ev then ''BLOCKED'' else ''ALLOWED'']
       | Inl (HTTPException status _) \<Rightarrow> map ae_decision rows \<in> {[], [''BLOCKED'']}
       | Inl EvaluationUncaught \<Rightarrow> rows = [])"
      using evaluate_metered_rows [OF run] .
    then show ?thesis using evaluate_metered_sends_nothing [OF run(1)] ks by (auto simp: logs_def)
  qed
qed

theorem evaluation_recorded_not_executed_witness:
  "let (r, g1) = evaluate_policy sample_gateway_env sample_eval_gateway sample_eval_request sample_evaluation in
   gw_upstream g1 = gw_upstream sample_eval_gateway \<and> (\<exists>rows. logs sample_eval_gateway g1 rows)"
proof -
  obtain r g1 where e: "evaluate_policy sample_gateway_env sample_eval_gateway sample_eval_request sample_evaluation = (r, g1)" by fastforce
  from evaluation_recorded_not_executed [OF e] show ?thesis unfolding Let_def e by auto
qed

text \<open>The two surfaces treat failed authentication differently: without a bearer token an evaluation leaves no trace,
  while the same request to the data plane of a known server leaves an error row.\<close>

theorem failed_authentication_rows:
  assumes "header_get (rq_headers request) ''authorization'' = None" and "current_auth_mode env g \<noteq> ''open''"
    and "server_get g slug = Some server" and "sv_enabled server"
  shows "gw_audit (snd (evaluate_policy env g request body)) = gw_audit g \<and>
    (\<exists>row. logs g (snd (handle env g request slug path None None False None None None)) [row] \<and> ae_decision row = ''ERROR'' \<and> ae_status_code row = Some 401)"
proof
  have "snd (verify_evaluation_key env g request) = g" "\<exists>e. fst (verify_evaluation_key env g request) = Inl e"
    using assms(1) by (auto simp: verify_evaluation_key_def str_lower_def split: option.splits)
  then show "gw_audit (snd (evaluate_policy env g request body)) = gw_audit g"
    by (cases "verify_evaluation_key env g request") (auto simp: evaluate_policy_def)
  have "run_request env g request slug path None None False None None None
      = (Inl (RoutingError 401 (rpc_error JNull ''missing bearer token'' INVALID_REQUEST None)), g)"
    using assms by (simp add: run_request_def resolve_server_def admit_def authenticate_def authenticate_no_scope_def str_lower_def)
  then show "\<exists>row. logs g (snd (handle env g request slug path None None False None None None)) [row] \<and> ae_decision row = ''ERROR'' \<and> ae_status_code row = Some 401"
    by (auto simp: handle_def error_response_def logs_def)
qed

theorem failed_authentication_rows_witness:
  "let g = (sample_gateway default_policy)\<lparr>gw_auth_mode := None\<rparr> in
   gw_audit (snd (evaluate_policy sample_gateway_env g sample_request sample_evaluation)) = gw_audit g \<and>
   (\<exists>row. logs g (snd (handle sample_gateway_env g sample_request ''files'' '''' None None False None None None)) [row])"
  unfolding Let_def
  using failed_authentication_rows [of sample_request sample_gateway_env "(sample_gateway default_policy)\<lparr>gw_auth_mode := None\<rparr>"
      "''files''" sample_gateway_server sample_evaluation "''''"]
  by (auto simp: sample_request_def header_get_def current_auth_mode_def sample_gateway_env_def server_get_def sample_gateway_def
      sample_gateway_server_def)

end
