(* ===== verification/Aggregate_Pipeline.thy ===== *)
theory Aggregate_Pipeline
  imports Policy_Api
begin

text \<open>
  The aggregate endpoint, \<open>argus/aggregate_pipeline.py\<close>: one URL for all servers, with tool names prefixed by
  the slug of their server. \<open>setting\<close> is the stored setting \<open>aggregate_enabled\<close>. The catalogues are fetched
  concurrently by the code and one after the other here: each fetch touches the rows and the session of its
  own server only. \<open>late\<close> says which fetches are cut off by the deadline and what they had done by then
  (\<open>None\<close>: in time). The order of servers is the database's.
\<close>

type_synonym fetch_deadline = "server_record \<Rightarrow> tool_row list \<times> upstream_state \<Rightarrow> (tool_row list \<times> upstream_state) option"

definition aggregate_enabled :: "string option \<Rightarrow> bool" where
  "aggregate_enabled setting = (case setting of None \<Rightarrow> True | Some s \<Rightarrow> s = ''true'')"

definition server_list :: "'s gateway_env \<Rightarrow> 's gateway \<Rightarrow> int option \<Rightarrow> server_record list" where
  "server_list env g project_id = order_by (ce_collate (ge_catalog env)) sv_slug
     (filter (\<lambda>s. case project_id of None \<Rightarrow> True | Some p \<Rightarrow> sv_project_id s = Some p) (gw_servers g))"

definition caller_project_id :: "api_key_record option \<Rightarrow> int option" where
  "caller_project_id key = (case key of None \<Rightarrow> None | Some rec \<Rightarrow> ak_project_id rec)"

definition aggregate_row :: "json \<Rightarrow> string option \<Rightarrow> audit_event" where
  "aggregate_row rpc_method ip = (base_event None JNull '''')\<lparr>ae_endpoint := Some ''aggregate'', ae_rpc_method := rpc_method,
     ae_client_ip := ip\<rparr>"

subsection \<open>Listing\<close>

text \<open>\<open>None\<close> is an uncaught exception.\<close>

fun namespace_tools :: "string \<Rightarrow> json list \<Rightarrow> json list option" where
  "namespace_tools slug [] = Some []"
| "namespace_tools slug (t # ts) =
     (case t of
        JObj d \<Rightarrow>
          (case namespace_tool_definition slug d of
             Inl _ \<Rightarrow> None
           | Inr None \<Rightarrow> namespace_tools slug ts
           | Inr (Some d') \<Rightarrow> map_option (Cons (JObj d')) (namespace_tools slug ts))
      | _ \<Rightarrow> None)"

definition fetch_one_server ::
    "'s gateway_env \<Rightarrow> fetch_deadline \<Rightarrow> 's gateway \<Rightarrow> server_record \<Rightarrow> server_policy \<Rightarrow> json list option \<times> 's gateway" where
  "fetch_one_server env late g server policy =
     (case late server (gw_tools g, gw_upstream g) of
        Some (table, up) \<Rightarrow> (Some [], g\<lparr>gw_tools := table, gw_upstream := up\<rparr>)
      | None \<Rightarrow>
          (let ce = ge_catalog env;
               fetch = (\<lambda>auth. case get_filtered_tools ce (gw_tools g) (gw_upstream g) (sv_id server) (sv_upstream_url server) policy False auth of
                 (tools, table, up) \<Rightarrow>
                   ((case tools of None \<Rightarrow> None | Some ts \<Rightarrow> namespace_tools (sv_slug server) ts), g\<lparr>gw_tools := table, gw_upstream := up\<rparr>)) in
           if catalog_fresh ce (cached_rows (ce_collate ce) (gw_tools g) (sv_id server)) False then fetch None
           else case resolve_upstream_credential (ge_secrets env) (ge_issuer env) server of
               Inr auth \<Rightarrow> fetch auth
             | Inl (UpstreamCredentialError _ _) \<Rightarrow> (Some [], g)
             | Inl CredentialUncaught \<Rightarrow> (None, g)))"

fun fetch_servers ::
    "'s gateway_env \<Rightarrow> fetch_deadline \<Rightarrow> 's gateway \<Rightarrow> (server_record \<times> server_policy) list \<Rightarrow> json list option \<times> 's gateway" where
  "fetch_servers env late g [] = (Some [], g)"
| "fetch_servers env late g ((server, policy) # rest) =
     (let (tools, g1) = fetch_one_server env late g server policy; (others, g2) = fetch_servers env late g1 rest in
      (case (tools, others) of (Some ts, Some us) \<Rightarrow> Some (ts @ us) | _ \<Rightarrow> None, g2))"

definition aggregate_servers :: "'s gateway_env \<Rightarrow> 's gateway \<Rightarrow> api_key_record option \<Rightarrow> server_record list" where
  "aggregate_servers env g key = filter (\<lambda>s. sv_enabled s \<and> sv_in_aggregate s) (server_list env g (caller_project_id key))"

definition aggregate_tools ::
    "'s gateway_env \<Rightarrow> fetch_deadline \<Rightarrow> 's gateway \<Rightarrow> api_key_record option \<Rightarrow> json list option \<times> 's gateway" where
  "aggregate_tools env late g key =
     fetch_servers env late g (map (\<lambda>s. (s, get_policy g (sv_id s))) (aggregate_servers env g key))"

definition aggregate_tools_list ::
    "'s gateway_env \<Rightarrow> fetch_deadline \<Rightarrow> 's gateway \<Rightarrow> json \<Rightarrow> string option \<Rightarrow> api_key_record option \<Rightarrow> response option \<times> 's gateway" where
  "aggregate_tools_list env late g rpc_id ip key =
     (case aggregate_tools env late g key of
        (None, g1) \<Rightarrow> (None, g1)
      | (Some merged, g1) \<Rightarrow> (Some (json_response 200 (rpc_result rpc_id (JObj [(''tools'', JList merged)]))),
          gw_log g1 ((aggregate_row (JStr ''tools/list'') ip)\<lparr>ae_decision := ''PASSTHROUGH''\<rparr>)))"

definition aggregate_discover :: "'s gateway_env \<Rightarrow> 's gateway \<Rightarrow> json \<Rightarrow> api_key_record option \<Rightarrow> response" where
  "aggregate_discover env g rpc_id key =
     json_response 200 (rpc_result rpc_id (JObj (synthesize_gateway_discover (server_list env g (caller_project_id key)))))"

subsection \<open>Calling\<close>

definition aggregate_call ::
    "'s gateway_env \<Rightarrow> 's gateway \<Rightarrow> request \<Rightarrow> json dict \<Rightarrow> json \<Rightarrow> json \<Rightarrow> api_key_record option \<Rightarrow> response option \<times> 's gateway" where
  "aggregate_call env g request body_json rpc_id params key =
     (let refusal = (\<lambda>status m. (Some (json_response status (rpc_error rpc_id m INVALID_REQUEST None)), g)) in
      case params of
        JObj ps \<Rightarrow>
          (case obj_get ps ''name'' of
             JStr (c # cs) \<Rightarrow>
               (case split_namespaced_tool_name (c # cs) of
                  None \<Rightarrow> refusal 400 (quoted (c # cs) @ '' is not a validly-namespaced aggregate tool name (expected ''
                     @ quoted ''{server_slug}__{tool_name}'' @ '')'')
                | Some (slug, tool_name) \<Rightarrow>
                    (case server_get g slug of
                       None \<Rightarrow> refusal 404 (''unknown server '' @ quoted slug @ '' in aggregate tool name'')
                     | Some server \<Rightarrow>
                         if \<not> sv_enabled server \<or> \<not> sv_in_aggregate server
                         then refusal 404 (''server '' @ quoted slug @ '' is not available on the aggregate endpoint'')
                         else handle env g request slug ''''
                           (Some (ge_dumps env (JObj (AList.update ''params'' (JObj (AList.update ''name'' (JStr tool_name) ps)) body_json))))
                           (Some GEN_2026) False None key (Some server)))
           | _ \<Rightarrow> refusal 400 (''tools/call missing required '' @ quoted ''name'' @ '' field''))
      | _ \<Rightarrow> (None, g))"

definition aggregate_error :: "'s gateway_env \<Rightarrow> 's gateway \<Rightarrow> string option \<Rightarrow> nat \<Rightarrow> json \<Rightarrow> response option \<times> 's gateway" where
  "aggregate_error env g ip status body =
     (let (r, g1) = error_response g (aggregate_row JNull ip) status body (take 200 (ge_dumps env body)) in (Some r, g1))"

definition handle_aggregate ::
    "'s gateway_env \<Rightarrow> fetch_deadline \<Rightarrow> string option \<Rightarrow> 's gateway \<Rightarrow> request \<Rightarrow> response option \<times> 's gateway" where
  "handle_aggregate env late setting g request =
     (let ip = rq_client_ip request in
      if \<not> aggregate_enabled setting
      then (let (r, g1) = error_response g (aggregate_row JNull ip) 404
              (rpc_error JNull ''aggregate endpoint is disabled'' INVALID_REQUEST None) ''aggregate endpoint is disabled in settings''
            in (Some r, g1))
      else case authenticate_no_scope env g request of
          (Inl (RoutingError status body), g1) \<Rightarrow> aggregate_error env g1 ip status body
        | (Inl GatewayUncaught, g1) \<Rightarrow> (None, g1)
        | (Inr key, g1) \<Rightarrow>
            (case read_body_guarded env request of
               Inl (RoutingError status body) \<Rightarrow> aggregate_error env g1 ip status body
             | Inl GatewayUncaught \<Rightarrow> (None, g1)
             | Inr body \<Rightarrow>
                 (case parse_single_message (ce_loads (ge_catalog env)) body of
                    Inl (NotASingleMessage code reason) \<Rightarrow>
                      (let (r, g2) = refuse g1 ((aggregate_row JNull ip)\<lparr>ae_rule := Some SINGLE_MESSAGE_RULE,
                             ae_api_key_id := map_option ak_id key, ae_status_code := Some 400\<rparr>) JNull reason 400 code None
                       in (Some r, g2))
                  | Inr body_json \<Rightarrow>
                      (let rpc_id = obj_get body_json ''id'';
                           rpc_method = (case map_of body_json ''method'' of None \<Rightarrow> JStr '''' | Some v \<Rightarrow> v);
                           params = or_default (obj_get body_json ''params'') (JObj []) in
                       if rpc_method = JStr ''tools/list'' then aggregate_tools_list env late g1 rpc_id ip key
                       else if rpc_method = JStr ''tools/call'' then aggregate_call env g1 request body_json rpc_id params key
                       else if rpc_method = JStr ''server/discover'' then (Some (aggregate_discover env g1 rpc_id key), g1)
                       else (let text = py_str (ce_fr (ge_catalog env)) rpc_method;
                                 (r, g2) = error_response g1 (aggregate_row rpc_method ip) 501
                                   (rpc_error rpc_id (quoted text @ '' is not supported on the aggregate endpoint'') INVALID_REQUEST None)
                                   (''unsupported method on aggregate endpoint: '' @ text)
                             in (Some r, g2))))))"

subsection \<open>Lemmas\<close>

lemma aggregate_servers_mem:
  assumes "server \<in> set (aggregate_servers env g key)"
  shows "server \<in> set (gw_servers g) \<and> sv_enabled server \<and> sv_in_aggregate server \<and>
    (case caller_project_id key of None \<Rightarrow> True | Some p \<Rightarrow> sv_project_id server = Some p)"
  using assms by (auto simp: aggregate_servers_def server_list_def)

lemma namespace_tools_mem:
  assumes "namespace_tools slug ts = Some us" and "u \<in> set us"
  shows "\<exists>d name. JObj d \<in> set ts \<and> map_of d ''name'' = Some (JStr name) \<and> name \<noteq> [] \<and> fits_name_limit slug name \<and>
    u = JObj (AList.update ''name'' (JStr (namespaced_tool_name slug name)) d)"
  using assms
proof (induction ts arbitrary: us)
  case (Cons t ts)
  obtain d where d: "t = JObj d" using Cons.prems by (cases t) auto
  obtain o1 where o1: "namespace_tool_definition slug d = Inr o1" using Cons.prems d by (auto split: sum.splits)
  obtain us' where us': "namespace_tools slug ts = Some us'" "us = (case o1 of None \<Rightarrow> us' | Some d' \<Rightarrow> JObj d' # us')"
    using Cons.prems d o1 by (cases o1) auto
  show ?case
  proof (cases "u \<in> set us'")
    case True
    then show ?thesis using Cons.IH [OF us'(1)] by auto
  next
    case False
    then obtain d' where d': "o1 = Some d'" "u = JObj d'" using Cons.prems us' by (auto split: option.splits)
    then obtain name where "map_of d ''name'' = Some (JStr name)" "name \<noteq> []" "fits_name_limit slug name"
      "d' = AList.update ''name'' (JStr (namespaced_tool_name slug name)) d"
      using o1 by (auto simp: namespace_tool_definition_def split: option.splits json.splits if_splits)
    then show ?thesis using d d' by auto
  qed
qed simp

text \<open>What a listed tool of a server looks like.\<close>

definition listed_for :: "server_record \<Rightarrow> server_policy \<Rightarrow> json \<Rightarrow> bool" where
  "listed_for server policy t \<longleftrightarrow> (\<exists>d name. t = JObj d \<and> name \<noteq> [] \<and>
     map_of d ''name'' = Some (JStr (namespaced_tool_name (sv_slug server) name)) \<and> fits_name_limit (sv_slug server) name \<and>
     tool_is_visible name policy)"

lemma get_filtered_visible:
  assumes "get_filtered_tools env table s i url policy force auth = (Some shown, table', s')" and "JObj d \<in> set shown"
    and "map_of d ''name'' = Some (JStr name)"
  shows "tool_is_visible name policy"
proof -
  obtain raw where "visible_tools policy raw = Some shown"
    using assms(1,2) by (auto simp: get_filtered_tools_def split: prod.splits option.splits json.splits if_splits)
  from visible_tools_all [OF this] show ?thesis using assms(2,3) by auto
qed

lemma fetch_one_listed:
  assumes "fetch_one_server env late g server policy = (Some ts, g1)" and "t \<in> set ts"
  shows "listed_for server policy t"
proof -
  let ?ce = "ge_catalog env"
  obtain auth where "\<exists>shown table up. get_filtered_tools ?ce (gw_tools g) (gw_upstream g) (sv_id server) (sv_upstream_url server) policy False auth
      = (Some shown, table, up) \<and> namespace_tools (sv_slug server) shown = Some ts"
    using assms
    by (auto simp: fetch_one_server_def Let_def split: option.splits prod.splits if_splits sum.splits credential_error.splits)
  then obtain shown table up where f: "get_filtered_tools ?ce (gw_tools g) (gw_upstream g) (sv_id server) (sv_upstream_url server) policy False auth
      = (Some shown, table, up)" "namespace_tools (sv_slug server) shown = Some ts" by blast
  from namespace_tools_mem [OF f(2) assms(2)] obtain d name where "JObj d \<in> set shown" "map_of d ''name'' = Some (JStr name)" "name \<noteq> []"
    "fits_name_limit (sv_slug server) name" "t = JObj (AList.update ''name'' (JStr (namespaced_tool_name (sv_slug server) name)) d)" by blast
  with get_filtered_visible [OF f(1)] show ?thesis by (auto simp: listed_for_def update_conv')
qed

lemma fetch_servers_listed:
  "fetch_servers env late g sps = (Some ts, g1) \<Longrightarrow> t \<in> set ts \<Longrightarrow> \<exists>server policy. (server, policy) \<in> set sps \<and> listed_for server policy t"
proof (induction sps arbitrary: g g1 ts)
  case (Cons sp sps)
  obtain server policy where sp: "sp = (server, policy)" by (cases sp)
  obtain a g2 where a: "fetch_one_server env late g server policy = (a, g2)" by fastforce
  obtain b g3 where b: "fetch_servers env late g2 sps = (b, g3)" by fastforce
  from Cons.prems sp a b obtain us vs where "a = Some us" "b = Some vs" "ts = us @ vs"
    by (auto split: option.splits)
  then show ?case using Cons.IH [OF b [unfolded \<open>b = Some vs\<close>]] fetch_one_listed [OF a [unfolded \<open>a = Some us\<close>]] Cons.prems(2) sp by auto
qed simp

lemma authenticate_no_scope_frame: "authenticate_no_scope env g request = (r, g1) \<Longrightarrow> \<exists>ks. g1 = g\<lparr>gw_keys := ks\<rparr>"
  by (auto simp: authenticate_no_scope_def Let_def split: if_splits option.splits prod.splits intro: exI [of _ "gw_keys g"])

lemma find_distinct_slug:
  "distinct (map sv_slug ss) \<Longrightarrow> s \<in> set ss \<Longrightarrow> List.find (\<lambda>x. sv_slug x = sv_slug s) ss = Some s"
  by (induction ss) auto

subsection \<open>Properties\<close>

text \<open>Everything listed on the aggregate endpoint can be routed back: each listed tool belongs to an enabled server in
  the aggregate and in the project of the key, is visible under that server's policy, and its name splits
  into the slug of that very server and the tool's own name.\<close>

theorem aggregate_lists_routable_tools:
  assumes "aggregate_tools env late g key = (Some tools, g')" and "t \<in> set tools"
    and "distinct (map sv_slug (gw_servers g))" and "\<forall>s \<in> set (gw_servers g). slug_re_match (sv_slug s)"
  shows "\<exists>server d full name. t = JObj d \<and> map_of d ''name'' = Some (JStr full)
    \<and> split_namespaced_tool_name full = Some (sv_slug server, name) \<and> server_get g (sv_slug server) = Some server
    \<and> sv_enabled server \<and> sv_in_aggregate server \<and> tool_is_visible name (get_policy g (sv_id server))
    \<and> (case caller_project_id key of None \<Rightarrow> True | Some p \<Rightarrow> sv_project_id server = Some p)"
proof -
  obtain server where s: "server \<in> set (aggregate_servers env g key)" "listed_for server (get_policy g (sv_id server)) t"
    using fetch_servers_listed [OF assms(1) [unfolded aggregate_tools_def] assms(2)] by auto
  note m = aggregate_servers_mem [OF s(1)]
  from s(2) obtain d name where d: "t = JObj d" "name \<noteq> []" "map_of d ''name'' = Some (JStr (namespaced_tool_name (sv_slug server) name))"
    "tool_is_visible name (get_policy g (sv_id server))" by (auto simp: listed_for_def)
  have slug: "slug_re_match (sv_slug server)" using m assms(4) by blast
  have "split_namespaced_tool_name (namespaced_tool_name (sv_slug server) name) = Some (sv_slug server, name)"
    using slug_name_partition [OF slug, of name] slug_nonempty [OF slug] d(2) by (simp add: split_namespaced_tool_name_def)
  moreover have "server_get g (sv_slug server) = Some server"
    using find_distinct_slug [OF assms(3)] m by (simp add: server_get_def)
  ultimately show ?thesis using d m by blast
qed

definition sample_aggregate :: "in_memory gateway" where
  "sample_aggregate = (sample_gateway default_policy)\<lparr>gw_tools := [sample_row]\<rparr>"

theorem aggregate_lists_routable_tools_witness:
  "case aggregate_tools sample_gateway_env (\<lambda>_ _. None) sample_aggregate None of
     (Some (JObj d # _), _) \<Rightarrow> \<exists>full name. map_of d ''name'' = Some (JStr full) \<and> split_namespaced_tool_name full = Some (''files'', name)
   | _ \<Rightarrow> False"
proof -
  let ?a = "aggregate_tools sample_gateway_env (\<lambda>_ _. None) sample_aggregate None"
  have "case fst ?a of Some (JObj d # _) \<Rightarrow> True | _ \<Rightarrow> False" by code_simp
  then obtain d ts where a: "?a = (Some (JObj d # ts), snd ?a)" by (cases ?a) (auto split: option.splits list.splits json.splits)
  have slugs: "distinct (map sv_slug (gw_servers sample_aggregate))" "\<forall>s \<in> set (gw_servers sample_aggregate). slug_re_match (sv_slug s)"
    "\<forall>server. server_get sample_aggregate (sv_slug server) = Some server \<longrightarrow> sv_slug server = ''files''"
    by (auto simp: sample_aggregate_def sample_gateway_def sample_gateway_server_def slug_re_match_def drop_final_newline_def
        slug_char_def is_lower_az_def server_get_def)
  from aggregate_lists_routable_tools [OF a list.set_intros(1) slugs(1,2)] slugs(3) obtain full name where
    "map_of d ''name'' = Some (JStr full)" "split_namespaced_tool_name full = Some (''files'', name)" by auto
  then show ?thesis by (subst a) auto
qed

text \<open>C5. A call through the aggregate endpoint is governed like a direct one: if anything is sent for it, its name splits
  into the slug of an enabled server of the aggregate and a tool, the caller is authorised for that server
  (open mode, or a verified key in scope), and that server's policy, evaluated for that tool, lets it through.
  The printed message parses back to itself.\<close>

theorem aggregate_call_governed:
  assumes "handle_aggregate env late setting g request = (r, g')" and "gw_upstream g' \<noteq> gw_upstream g"
    and "read_body_guarded env request = Inr body" and "parse_single_message (ce_loads (ge_catalog env)) body = Inr body_json"
    and "map_of body_json ''method'' = Some (JStr ''tools/call'')" and "or_default (obj_get body_json ''params'') (JObj []) = JObj ps"
    and "obj_get ps ''name'' = JStr full"
    and "case split_namespaced_tool_name full of None \<Rightarrow> True | Some (slug, tool) \<Rightarrow>
      (let m = JObj (AList.update ''params'' (JObj (AList.update ''name'' (JStr tool) ps)) body_json) in
       ge_dumps env m \<noteq> [] \<and> ce_loads (ge_catalog env) (ge_dumps env m) = Some m)"
  shows "\<exists>slug tool server args d. split_namespaced_tool_name full = Some (slug, tool) \<and> server_get g slug = Some server
    \<and> sv_enabled server \<and> sv_in_aggregate server \<and> authorised env g request slug server False None
    \<and> or_default (obj_get ps ''arguments'') (JObj []) = JObj args
    \<and> evaluate (ge_regex env) (ce_fr (ge_catalog env)) tool args (sv_name server) (get_policy g (sv_id server)) = Inr d \<and> \<not> dc_blocked d"
proof -
  obtain k g1 where k: "authenticate_no_scope env g request = (k, g1)" by fastforce
  then obtain ks where ks: "g1 = g\<lparr>gw_keys := ks\<rparr>" using authenticate_no_scope_frame by blast
  have "aggregate_enabled setting" "\<exists>key. k = Inr key"
    using assms(1,2) k ks by (auto simp: handle_aggregate_def aggregate_error_def error_response_def Let_def split: if_splits sum.splits gateway_exn.splits)
  then obtain key where key: "k = Inr key" by blast
  have call: "aggregate_call env g1 request body_json (obj_get body_json ''id'') (JObj ps) key = (r, g')"
    using assms(1,3-6) k key \<open>aggregate_enabled setting\<close> by (simp add: handle_aggregate_def)
  have up: "gw_upstream g' \<noteq> gw_upstream g1" using assms(2) ks by simp
  obtain slug tool server where r: "split_namespaced_tool_name full = Some (slug, tool)" "server_get g1 slug = Some server"
    "sv_enabled server" "sv_in_aggregate server"
    using call up assms(7) by (auto simp: aggregate_call_def Let_def split: list.splits option.splits prod.splits if_splits)
  let ?ps = "AList.update ''name'' (JStr tool) ps"
  let ?bj = "AList.update ''params'' (JObj ?ps) body_json"
  have h: "handle env g1 request slug '''' (Some (ge_dumps env (JObj ?bj))) (Some GEN_2026) False None key (Some server) = (r, g')"
    using call up assms(7) r by (auto simp: aggregate_call_def Let_def split: list.splits)
  have parse: "parse_single_message (ce_loads (ge_catalog env)) (request_body request (Some (ge_dumps env (JObj ?bj)))) = Inr ?bj"
    "request_body request (Some (ge_dumps env (JObj ?bj))) \<noteq> []"
    using assms(8) r(1) by (simp_all add: parse_single_message_def request_body_def Let_def)
  have meth: "map_of ?bj ''method'' = Some (JStr ''tools/call'')" using assms(5) by (simp add: update_conv')
  have par: "or_default (obj_get ?bj ''params'') (JObj []) = JObj ?ps"
    by (simp add: obj_get_def update_conv' or_default_def)
  have arg: "obj_get ?ps ''arguments'' = obj_get ps ''arguments''" "obj_get ?ps ''name'' = JStr tool" by (simp_all add: obj_get_def update_conv')
  from handle_call_sent [OF h parse(1) meth par parse(2) up] obtain args d where
    "authorised env g1 request slug server False key" "or_default (obj_get ps ''arguments'') (JObj []) = JObj args"
    "evaluate (ge_regex env) (ce_fr (ge_catalog env)) tool args (sv_name server) (get_policy g1 (sv_id server)) = Inr d" "\<not> dc_blocked d"
    using arg by auto
  moreover have "authorised env g request slug server False None"
    using calculation(1) authenticate_no_scope_cases [OF k [unfolded key]] by (cases key) (auto simp: authorised_def)
  moreover have "server_get g slug = Some server" "get_policy g1 (sv_id server) = get_policy g (sv_id server)"
    using r(2) ks by (simp_all add: server_get_def get_policy_def)
  ultimately show ?thesis using r by auto
qed

definition sample_aggregate_call :: "json dict" where
  "sample_aggregate_call = [(''jsonrpc'', JStr ''2.0''), (''id'', JInt 1), (''method'', JStr ''tools/call''),
     (''params'', JObj [(''name'', JStr ''files__run'')])]"

definition sample_aggregate_env :: "in_memory gateway_env" where
  "sample_aggregate_env = sample_gateway_env\<lparr>ge_catalog := (ge_catalog sample_gateway_env)
     \<lparr>ce_loads := (\<lambda>s. Some (if s = ''call'' then JObj sample_aggregate_call else sample_call))\<rparr>\<rparr>"

theorem aggregate_call_governed_witness:
  "let g = sample_gateway sample_policy; (r, g') = handle_aggregate sample_aggregate_env (\<lambda>_ _. None) None g sample_request in
   gw_upstream g' \<noteq> gw_upstream g \<and> (\<exists>d. evaluate literal_env (\<lambda>_. ''0'') ''run'' [] ''files'' sample_policy = Inr d \<and> \<not> dc_blocked d)"
proof -
  let ?g = "sample_gateway sample_policy" and ?env = sample_aggregate_env and ?ps = "[(''name'', JStr ''files__run'')]"
  let ?h = "handle_aggregate ?env (\<lambda>_ _. None) None ?g sample_request"
  obtain r g' where h: "?h = (r, g')" by fastforce
  have "up_history (gw_upstream (snd ?h)) \<noteq> []" by code_simp
  then have sent: "gw_upstream g' \<noteq> gw_upstream ?g" unfolding h by (auto simp: sample_gateway_def sample_upstream_def)
  have b: "read_body_guarded ?env sample_request = Inr ''call''" by code_simp
  have p: "parse_single_message (ce_loads (ge_catalog ?env)) ''call'' = Inr sample_aggregate_call" by code_simp
  have msg: "map_of sample_aggregate_call ''method'' = Some (JStr ''tools/call'')"
    "or_default (obj_get sample_aggregate_call ''params'') (JObj []) = JObj ?ps" "obj_get ?ps ''name'' = JStr ''files__run''" by code_simp+
  have split: "split_namespaced_tool_name ''files__run'' = Some (''files'', ''run'')" by code_simp
  have rt: "case split_namespaced_tool_name ''files__run'' of None \<Rightarrow> True | Some (slug, tool) \<Rightarrow>
      (let m = JObj (AList.update ''params'' (JObj (AList.update ''name'' (JStr tool) ?ps)) sample_aggregate_call) in
       ge_dumps ?env m \<noteq> [] \<and> ce_loads (ge_catalog ?env) (ge_dumps ?env m) = Some m)" by code_simp
  from aggregate_call_governed [OF h sent b p msg rt] split obtain server args d where
    "server_get ?g ''files'' = Some server" "or_default (obj_get ?ps ''arguments'') (JObj []) = JObj args"
    "evaluate (ge_regex ?env) (ce_fr (ge_catalog ?env)) ''run'' args (sv_name server) (get_policy ?g (sv_id server)) = Inr d"
    "\<not> dc_blocked d" by auto
  moreover from this(1) have "server = sample_gateway_server" by (simp add: server_get_def sample_gateway_def sample_gateway_server_def)
  ultimately have "evaluate literal_env (\<lambda>_. ''0'') ''run'' [] ''files'' sample_policy = Inr d \<and> \<not> dc_blocked d"
    by (simp add: obj_get_def or_default_def get_policy_def sample_gateway_def sample_gateway_server_def sample_gateway_env_def
        sample_aggregate_env_def sample_catalog_env_def)
  then show ?thesis using sent unfolding Let_def h by auto
qed

end
