(* ===== verification/Admin_Audit.thy ===== *)
theory Admin_Audit
  imports Usage
begin

text \<open>
  The control-plane audit log, \<open>archon/admin_audit.py\<close> with \<open>AdminEventRepo.insert\<close> of \<open>db/repo.py\<close>: the event rows,
  the difference of two policies and the events recorded for policy changes, credential changes and
  imports. \<open>dumps\<close> is \<open>json.dumps(..., sort_keys=True)\<close> and \<open>fr\<close> prints floats. Dictionaries are compared as
  Python compares them, whatever their order.
\<close>

record admin_event =
  ev_action :: string
  ev_summary :: string
  ev_actor :: "string option"
  ev_target_type :: "string option"
  ev_target_id :: "string option"
  ev_before :: "string option"
  ev_after :: "string option"
  ev_client_ip :: "string option"

definition record_event ::
    "(json \<Rightarrow> string) \<Rightarrow> admin_event list \<Rightarrow> string \<Rightarrow> string \<Rightarrow> string option \<Rightarrow> string option \<Rightarrow> string option \<Rightarrow>
     json option \<Rightarrow> json option \<Rightarrow> string option \<Rightarrow> admin_event list" where
  "record_event dumps events action summary actor target_type target_id before after ip =
     events @ [\<lparr>ev_action = action, ev_summary = summary, ev_actor = actor, ev_target_type = target_type, ev_target_id = target_id,
       ev_before = map_option dumps before, ev_after = map_option dumps after, ev_client_ip = ip\<rparr>]"

definition RECORDABLE_SERVER_FIELDS :: "string list" where
  "RECORDABLE_SERVER_FIELDS = [''slug'', ''name'', ''upstream_url'', ''enabled'', ''in_aggregate'', ''upstream_protocol'', ''health_status'']"

definition RECORDABLE_SETTINGS_KEYS :: "string list" where
  "RECORDABLE_SETTINGS_KEYS = [''auth_mode'', ''aggregate_enabled'', ''default_ttl_ms'', ''audit_retention_days'', ''webhook_url'',
     ''webhook_enabled'', ''webhook_events'', ''approvals_enabled'', ''approvals_ttl_days'']"

definition filter_server_fields :: "json dict \<Rightarrow> json dict" where
  "filter_server_fields data = filter (\<lambda>(k, v). k \<in> set RECORDABLE_SERVER_FIELDS) data"

definition filter_settings_keys :: "string dict \<Rightarrow> string dict" where
  "filter_settings_keys data = filter (\<lambda>(k, v). k \<in> set RECORDABLE_SETTINGS_KEYS) data"

subsection \<open>Comparing policies\<close>

definition dict_eq :: "('v \<Rightarrow> 'v \<Rightarrow> bool) \<Rightarrow> 'v dict \<Rightarrow> 'v dict \<Rightarrow> bool" where
  "dict_eq eq a b \<longleftrightarrow> length a = length b \<and>
     list_all (\<lambda>(k, v). case map_of b k of None \<Rightarrow> False | Some w \<Rightarrow> eq v w) a"

definition float_opt_eq :: "pyfloat option \<Rightarrow> pyfloat option \<Rightarrow> bool" where
  "float_opt_eq a b \<longleftrightarrow> a = b \<and> a \<noteq> Some NaN"

definition rule_eq :: "param_rule \<Rightarrow> param_rule \<Rightarrow> bool" where
  "rule_eq r s \<longleftrightarrow> pr_max_length r = pr_max_length s \<and> pr_block_patterns r = pr_block_patterns s
     \<and> pr_allow_patterns r = pr_allow_patterns s \<and> float_opt_eq (pr_max_value r) (pr_max_value s)
     \<and> float_opt_eq (pr_min_value r) (pr_min_value s) \<and> pr_denied r = pr_denied s"

abbreviation rules_eq :: "param_rule dict dict \<Rightarrow> param_rule dict dict \<Rightarrow> bool" where
  "rules_eq \<equiv> dict_eq (dict_eq rule_eq)"

definition arrow_text :: "string \<Rightarrow> string \<Rightarrow> string \<Rightarrow> string" where
  "arrow_text field a b = field @ '': '' @ a @ '' -> '' @ b"

definition counts_text :: "string \<Rightarrow> nat \<Rightarrow> nat \<Rightarrow> string \<Rightarrow> string" where
  "counts_text field a b what = arrow_text field (show_nat a) (show_nat b) @ what"

definition none_text :: "string option \<Rightarrow> string" where
  "none_text s = (case s of None \<Rightarrow> ''none'' | Some t \<Rightarrow> if t = [] then ''none'' else t)"

definition policy_diff :: "server_policy \<Rightarrow> server_policy \<Rightarrow> string list" where
  "policy_diff current incoming =
     (if sp_mode current \<noteq> sp_mode incoming then [arrow_text ''mode'' (sp_mode current) (sp_mode incoming)] else [])
   @ (if sp_rate_limit current \<noteq> sp_rate_limit incoming
      then [arrow_text ''rate_limit'' (none_text (sp_rate_limit current)) (none_text (sp_rate_limit incoming))] else [])
   @ (if sort (sp_allowed current) \<noteq> sort (sp_allowed incoming)
      then [counts_text ''allowed'' (length (sp_allowed current)) (length (sp_allowed incoming)) '' tool(s)''] else [])
   @ (if sort (sp_denied current) \<noteq> sort (sp_denied incoming)
      then [counts_text ''denied'' (length (sp_denied current)) (length (sp_denied incoming)) '' tool(s)''] else [])
   @ (if \<not> rules_eq (sp_param_rules current) (sp_param_rules incoming)
      then [counts_text ''param_rules'' (length (sp_param_rules current)) (length (sp_param_rules incoming)) '' tool(s) with rules''] else [])
   @ (if \<not> dict_eq (=) (sp_dlp_detectors current) (sp_dlp_detectors incoming)
      then [counts_text ''dlp_detectors'' (length (sp_dlp_detectors current)) (length (sp_dlp_detectors incoming)) '' configured''] else [])
   @ (if sp_dlp_custom_patterns current \<noteq> sp_dlp_custom_patterns incoming
      then [counts_text ''dlp_custom_patterns'' (length (sp_dlp_custom_patterns current)) (length (sp_dlp_custom_patterns incoming))
        '' configured''] else [])
   @ (if \<not> dict_eq (=) (sp_response_dlp_detectors current) (sp_response_dlp_detectors incoming)
      then [counts_text ''response_dlp_detectors'' (length (sp_response_dlp_detectors current))
        (length (sp_response_dlp_detectors incoming)) '' configured''] else [])
   @ (if sp_response_dlp_max_bytes current \<noteq> sp_response_dlp_max_bytes incoming
      then [arrow_text ''response_dlp_max_bytes'' (show_int (sp_response_dlp_max_bytes current))
        (show_int (sp_response_dlp_max_bytes incoming))] else [])"

subsection \<open>Events\<close>

definition opt_json :: "('a \<Rightarrow> json) \<Rightarrow> 'a option \<Rightarrow> json" where
  "opt_json f v = (case v of None \<Rightarrow> JNull | Some x \<Rightarrow> f x)"

definition dump_rule :: "param_rule \<Rightarrow> json" where
  "dump_rule r = JObj [(''max_length'', opt_json JInt (pr_max_length r)), (''block_patterns'', JList (map JStr (pr_block_patterns r))),
     (''allow_patterns'', JList (map JStr (pr_allow_patterns r))), (''max_value'', opt_json JFloat (pr_max_value r)),
     (''min_value'', opt_json JFloat (pr_min_value r)), (''denied'', JBool (pr_denied r))]"

definition dump_custom :: "dlp_custom_pattern \<Rightarrow> json" where
  "dump_custom p = JObj [(''name'', JStr (cp_name p)), (''pattern'', JStr (cp_pattern p)), (''action'', JStr (cp_action p))]"

definition dump_strings :: "string dict \<Rightarrow> json" where
  "dump_strings d = JObj (map (map_prod id JStr) d)"

definition serialize_policy :: "server_policy \<Rightarrow> json" where
  "serialize_policy p = JObj
     [(''mode'', JStr (sp_mode p)), (''rate_limit'', opt_json JStr (sp_rate_limit p)),
      (''allowed'', JList (map JStr (sort (sp_allowed p)))), (''denied'', JList (map JStr (sort (sp_denied p)))),
      (''param_rules'', JObj (map (map_prod id (\<lambda>rules. JObj (map (map_prod id dump_rule) rules))) (sp_param_rules p))),
      (''dlp_detectors'', dump_strings (sort_key fst (sp_dlp_detectors p))),
      (''dlp_custom_patterns'', JList (map dump_custom (sp_dlp_custom_patterns p))),
      (''response_dlp_detectors'', dump_strings (sort_key fst (sp_response_dlp_detectors p))),
      (''response_dlp_max_bytes'', JInt (sp_response_dlp_max_bytes p))]"

definition record_policy_change ::
    "(json \<Rightarrow> string) \<Rightarrow> admin_event list \<Rightarrow> string \<Rightarrow> server_policy \<Rightarrow> server_policy \<Rightarrow> string option \<Rightarrow> string option \<Rightarrow> admin_event list" where
  "record_policy_change dumps events server_slug current incoming actor ip =
     (let deltas = policy_diff current incoming in
      record_event dumps events ''policy.update'' (if deltas = [] then ''no change'' else str_join ''; '' deltas) actor
        (Some ''server'') (Some server_slug) (Some (JObj [(''policy'', serialize_policy current)]))
        (Some (JObj [(''policy'', serialize_policy incoming)])) ip)"

text \<open>\<open>is_reference\<close> is the test of \<open>archon/secrets\<close>; only the shape of a credential is recorded.\<close>

definition credential_shape :: "(string \<Rightarrow> bool) \<Rightarrow> string option \<Rightarrow> bool \<times> bool" where
  "credential_shape is_reference v = (v \<noteq> None, case v of None \<Rightarrow> False | Some s \<Rightarrow> is_reference s)"

definition shape_json :: "bool \<times> bool \<Rightarrow> json" where
  "shape_json s = JObj [(''upstream_auth_header'', JObj [(''configured'', JBool (fst s)), (''is_reference'', JBool (snd s))])]"

definition credential_summary :: "bool \<times> bool \<Rightarrow> bool \<times> bool \<Rightarrow> string" where
  "credential_summary before after =
     (if \<not> fst before \<and> fst after then ''credential configured'' @ (if snd after then '' (reference)'' else '''')
      else if fst before \<and> \<not> fst after then ''credential cleared''
      else if snd before \<noteq> snd after
        then (if snd after then ''credential externalized to a reference'' else ''credential replaced with a literal'')
      else ''credential value changed'')"

definition record_secret_reference_change ::
    "(json \<Rightarrow> string) \<Rightarrow> (string \<Rightarrow> bool) \<Rightarrow> admin_event list \<Rightarrow> string \<Rightarrow> string option \<Rightarrow> string option \<Rightarrow> string option \<Rightarrow> string option \<Rightarrow>
     admin_event list" where
  "record_secret_reference_change dumps is_reference events server_slug before after actor ip =
     (if before = after then events
      else let b = credential_shape is_reference before; a = credential_shape is_reference after in
        record_event dumps events ''server.secret_reference_change'' (credential_summary b a) actor (Some ''server'') (Some server_slug)
          (Some (shape_json b)) (Some (shape_json a)) ip)"

definition record_config_import ::
    "(json \<Rightarrow> string) \<Rightarrow> admin_event list \<Rightarrow> string list \<Rightarrow> string option \<Rightarrow> string option \<Rightarrow> admin_event list" where
  "record_config_import dumps events actions actor ip =
     record_event dumps events ''config.import''
       (''import applied: '' @ show_nat (length actions) @ '' change(s)''
        @ (if actions = [] then '''' else ''; '' @ str_join ''; '' (take 3 actions)
           @ (if length actions > 3 then ''; ... and '' @ show_nat (length actions - 3) @ '' more'' else '''')))
       actor (Some ''config'') None None (Some (JObj [(''changes'', JList (map JStr actions))])) ip"

subsection \<open>Properties\<close>

text \<open>No credential reaches the control-plane log: the event recorded for a credential change is the same for any two
  secret values of the same shape (configured or not, literal or reference), so it cannot reveal the value.\<close>

theorem credential_change_reveals_shape_only:
  assumes "credential_shape is_reference before = credential_shape is_reference before'"
    and "credential_shape is_reference after = credential_shape is_reference after'"
    and "before \<noteq> after" and "before' \<noteq> after'"
  shows "record_secret_reference_change dumps is_reference events slug before after actor ip =
    record_secret_reference_change dumps is_reference events slug before' after' actor ip"
  using assms by (simp add: record_secret_reference_change_def)

theorem credential_change_reveals_shape_only_witness:
  "record_secret_reference_change (\<lambda>_. ''{}'') (\<lambda>s. take 1 s = ''$'') [] ''files'' (Some ''hunter2'') None None None =
   record_secret_reference_change (\<lambda>_. ''{}'') (\<lambda>s. take 1 s = ''$'') [] ''files'' (Some ''swordfish'') None None None"
  by (rule credential_change_reveals_shape_only) (simp_all add: credential_shape_def)

end
