(* ===== verification/Policy_Store.thy ===== *)
theory Policy_Store
  imports Admin_Audit Policy_Match
begin

text \<open>
  How a policy is stored: \<open>ServerRepo.set_policy\<close> and \<open>get_policies_for\<close> of \<open>db/repo.py\<close> over the tables \<open>server_policies\<close>,
  \<open>tool_policies\<close> and \<open>param_rules\<close>, with the constraints of \<open>db/migrations/0001_init.sql\<close>. A transaction that violates one
  leaves the tables as they were and raises: \<open>None\<close>. A query returns rows in the order they were inserted; a JSON column
  holds the value it was given.
\<close>

record policy_row =
  po_server_id :: int
  po_mode :: string
  po_rate_limit :: "string option"
  po_dlp_config :: "json option"

record tool_policy_row =
  tp_server_id :: int
  tp_tool_name :: string
  tp_action :: string

record param_rule_row =
  pa_server_id :: int
  pa_tool_name :: string
  pa_param_name :: string
  pa_rule :: param_rule

record policy_store =
  st_policies :: "policy_row list"
  st_tools :: "tool_policy_row list"
  st_params :: "param_rule_row list"

subsection \<open>The DLP column\<close>

definition encode_dlp_config :: "server_policy \<Rightarrow> json option" where
  "encode_dlp_config p =
     (let response_set = sp_response_dlp_detectors p \<noteq> [] \<or> sp_response_dlp_max_bytes p \<noteq> RESPONSE_DLP_MAX_BYTES_DEFAULT in
      if sp_dlp_detectors p = [] \<and> sp_dlp_custom_patterns p = [] \<and> \<not> response_set then None
      else Some (JObj ([(''detectors'', dump_strings (sp_dlp_detectors p)), (''custom_patterns'', JList (map dump_custom (sp_dlp_custom_patterns p)))]
        @ (if sp_response_dlp_detectors p \<noteq> [] then [(''response_detectors'', dump_strings (sp_response_dlp_detectors p))] else [])
        @ (if sp_response_dlp_max_bytes p \<noteq> RESPONSE_DLP_MAX_BYTES_DEFAULT
           then [(''response_max_bytes'', JInt (sp_response_dlp_max_bytes p))] else []))))"

record dlp_config =
  dc_detectors :: "string dict"
  dc_custom_patterns :: "dlp_custom_pattern list"
  dc_response_detectors :: "string dict"
  dc_response_max_bytes :: int

text \<open>Values of another shape fail the validation of the models: \<open>None\<close>.\<close>

fun load_strings :: "json \<Rightarrow> string dict option" where
  "load_strings (JObj []) = Some []"
| "load_strings (JObj ((k, JStr v) # d)) = map_option (Cons (k, v)) (load_strings (JObj d))"
| "load_strings _ = None"

definition load_custom :: "json \<Rightarrow> dlp_custom_pattern option" where
  "load_custom v = (case v of
       JObj d \<Rightarrow> (case (map_of d ''name'', map_of d ''pattern'', map_of d ''action'') of
           (Some (JStr n), Some (JStr p), Some (JStr a)) \<Rightarrow> Some \<lparr>cp_name = n, cp_pattern = p, cp_action = a\<rparr>
         | _ \<Rightarrow> None)
     | _ \<Rightarrow> None)"

fun load_customs :: "json list \<Rightarrow> dlp_custom_pattern list option" where
  "load_customs [] = Some []"
| "load_customs (v # vs) = Option.bind (load_custom v) (\<lambda>p. map_option (Cons p) (load_customs vs))"

definition get_or :: "json dict \<Rightarrow> string \<Rightarrow> json \<Rightarrow> json" where
  "get_or d k dflt = (case map_of d k of None \<Rightarrow> dflt | Some v \<Rightarrow> if truthy v then v else dflt)"

definition decode_dlp_config :: "json option \<Rightarrow> dlp_config option" where
  "decode_dlp_config raw =
     (case raw of
        None \<Rightarrow> Some \<lparr>dc_detectors = [], dc_custom_patterns = [], dc_response_detectors = [], dc_response_max_bytes = RESPONSE_DLP_MAX_BYTES_DEFAULT\<rparr>
      | Some (JObj data) \<Rightarrow>
          (case (load_strings (get_or data ''detectors'' (JObj [])), get_or data ''custom_patterns'' (JList []),
                 load_strings (get_or data ''response_detectors'' (JObj [])),
                 get_or data ''response_max_bytes'' (JInt RESPONSE_DLP_MAX_BYTES_DEFAULT)) of
             (Some ds, JList cs, Some rs, JInt n) \<Rightarrow>
               map_option (\<lambda>ps. \<lparr>dc_detectors = ds, dc_custom_patterns = ps, dc_response_detectors = rs, dc_response_max_bytes = n\<rparr>) (load_customs cs)
           | _ \<Rightarrow> None)
      | Some _ \<Rightarrow> None)"

subsection \<open>Writing and reading\<close>

definition param_rows :: "int \<Rightarrow> param_rule dict dict \<Rightarrow> param_rule_row list" where
  "param_rows sid rules = concat (map (\<lambda>(tool, params). map (\<lambda>(param, rule).
     \<lparr>pa_server_id = sid, pa_tool_name = tool, pa_param_name = param, pa_rule = rule\<rparr>) params) rules)"

definition int4 :: "int option \<Rightarrow> bool" where
  "int4 n = (case n of None \<Rightarrow> True | Some i \<Rightarrow> - (2 ^ 31) \<le> i \<and> i < 2 ^ 31)"

definition set_policy :: "policy_store \<Rightarrow> int \<Rightarrow> server_policy \<Rightarrow> policy_store option" where
  "set_policy s sid p =
     (let row = \<lparr>po_server_id = sid, po_mode = sp_mode p, po_rate_limit = sp_rate_limit p, po_dlp_config = encode_dlp_config p\<rparr>;
          tools = map (\<lambda>t. \<lparr>tp_server_id = sid, tp_tool_name = t, tp_action = ''allow''\<rparr>) (sp_allowed p)
            @ map (\<lambda>t. \<lparr>tp_server_id = sid, tp_tool_name = t, tp_action = ''deny''\<rparr>) (sp_denied p);
          params = param_rows sid (sp_param_rules p) in
      if distinct (map tp_tool_name tools) \<and> distinct (map (\<lambda>r. (pa_tool_name r, pa_param_name r)) params)
         \<and> list_all (\<lambda>r. int4 (pr_max_length (pa_rule r))) params
      then Some \<lparr>st_policies = filter (\<lambda>r. po_server_id r \<noteq> sid) (st_policies s) @ [row],
             st_tools = filter (\<lambda>r. tp_server_id r \<noteq> sid) (st_tools s) @ tools,
             st_params = filter (\<lambda>r. pa_server_id r \<noteq> sid) (st_params s) @ params\<rparr>
      else None)"

text \<open>\<open>param_rules_by_id[...].setdefault(tool, {})[param] = rule\<close>, row by row.\<close>

definition add_param :: "param_rule dict dict \<Rightarrow> param_rule_row \<Rightarrow> param_rule dict dict" where
  "add_param d r = AList.update (pa_tool_name r) (AList.update (pa_param_name r) (pa_rule r) (dict_get d (pa_tool_name r) [])) d"

definition stored_policy :: "regex_env \<Rightarrow> policy_store \<Rightarrow> int \<Rightarrow> server_policy option" where
  "stored_policy env s sid =
     (let row = List.find (\<lambda>r. po_server_id r = sid) (st_policies s);
          tools = filter (\<lambda>r. tp_server_id r = sid) (st_tools s);
          params = filter (\<lambda>r. pa_server_id r = sid) (st_params s) in
      case decode_dlp_config (Option.bind row po_dlp_config) of
        None \<Rightarrow> None
      | Some dlp \<Rightarrow>
          (let p = \<lparr>sp_mode = (case row of None \<Rightarrow> ''passthrough'' | Some r \<Rightarrow> po_mode r), sp_rate_limit = Option.bind row po_rate_limit,
                 sp_allowed = map tp_tool_name (filter (\<lambda>r. tp_action r = ''allow'') tools),
                 sp_denied = map tp_tool_name (filter (\<lambda>r. tp_action r \<noteq> ''allow'') tools),
                 sp_param_rules = foldl add_param [] params, sp_dlp_detectors = dc_detectors dlp, sp_dlp_custom_patterns = dc_custom_patterns dlp,
                 sp_response_dlp_detectors = dc_response_detectors dlp, sp_response_dlp_max_bytes = dc_response_max_bytes dlp\<rparr>
           in if policy_ok env p then Some p else None))"

fun get_policies_for :: "regex_env \<Rightarrow> policy_store \<Rightarrow> int list \<Rightarrow> (int \<times> server_policy) list option" where
  "get_policies_for env s [] = Some []"
| "get_policies_for env s (sid # sids) =
     Option.bind (stored_policy env s sid) (\<lambda>p. map_option (Cons (sid, p)) (get_policies_for env s sids))"

subsection \<open>Lemmas\<close>

lemma load_dump_strings [simp]: "load_strings (dump_strings d) = Some d"
  by (induction d) (auto simp: dump_strings_def)

lemma load_dump_customs [simp]: "load_customs (map dump_custom ps) = Some ps"
  by (induction ps) (auto simp: load_custom_def dump_custom_def)

lemma truthy_dumps [simp]: "truthy (dump_strings d) \<longleftrightarrow> d \<noteq> []"
  by (simp add: dump_strings_def)

lemma dump_strings_Nil [simp]: "dump_strings [] = JObj []"
  by (simp add: dump_strings_def)

lemma dlp_config_round_trip:
  assumes "sp_response_dlp_max_bytes p \<noteq> 0"
  shows "decode_dlp_config (encode_dlp_config p) = Some \<lparr>dc_detectors = sp_dlp_detectors p, dc_custom_patterns = sp_dlp_custom_patterns p,
    dc_response_detectors = sp_response_dlp_detectors p, dc_response_max_bytes = sp_response_dlp_max_bytes p\<rparr>"
  using assms by (auto simp: encode_dlp_config_def decode_dlp_config_def Let_def get_or_def)

lemma add_params_of_tool:
  assumes "distinct (map fst params)" and "params \<noteq> []" and "tool \<notin> fst ` set d"
  shows "foldl add_param d (map (\<lambda>(param, rule). \<lparr>pa_server_id = sid, pa_tool_name = tool, pa_param_name = param, pa_rule = rule\<rparr>) params)
    = d @ [(tool, params)]"
proof -
  have new: "AList.update tool v d = d @ [(tool, v)]" for v :: "param_rule dict" using assms(3) by (induction d) auto
  have old: "AList.update tool v (d @ [(tool, w)]) = d @ [(tool, v)]" for v w :: "param_rule dict" using assms(3) by (induction d) auto
  have look: "dict_get (d @ [(tool, w)]) tool [] = w" for w :: "param_rule dict"
    using assms(3) by (simp add: dict_get_def map_of_eq_None_iff [symmetric] map_add_def split: option.splits)
  have snoc: "AList.update k v ps = ps @ [(k, v)]" if "k \<notin> fst ` set ps" for k and v :: param_rule and ps using that by (induction ps) auto
  let ?row = "\<lambda>(param, rule). \<lparr>pa_server_id = sid, pa_tool_name = tool, pa_param_name = param, pa_rule = rule\<rparr>"
  have "distinct (map fst (ps @ qs)) \<Longrightarrow> foldl add_param (d @ [(tool, ps)]) (map ?row qs) = d @ [(tool, ps @ qs)]" for ps qs
  proof (induction qs arbitrary: ps)
    case (Cons q qs)
    obtain k r where q: "q = (k, r)" by (cases q)
    have "k \<notin> fst ` set ps" using Cons.prems q by auto
    then have "add_param (d @ [(tool, ps)]) (?row q) = d @ [(tool, ps @ [q])]" by (simp add: add_param_def look old snoc q)
    then show ?case using Cons.IH [of "ps @ [q]"] Cons.prems by simp
  qed simp
  moreover obtain k r qs where "params = (k, r) # qs" using assms(2) by (cases params) auto
  moreover have "dict_get d tool [] = []" using assms(3) by (simp add: dict_get_def map_of_eq_None_iff [symmetric] split: option.splits)
  ultimately show ?thesis using assms(1) new by (simp add: add_param_def)
qed

definition rules_stored :: "param_rule dict dict \<Rightarrow> bool" where
  "rules_stored rules \<longleftrightarrow> dict_wf rules \<and> (\<forall>(t, ps) \<in> set rules. ps \<noteq> [] \<and> dict_wf ps)"

lemma param_rows_round_trip: "rules_stored rules \<Longrightarrow> foldl add_param [] (param_rows sid rules) = rules"
proof -
  have "rules_stored (d @ rules) \<Longrightarrow> foldl add_param d (param_rows sid rules) = d @ rules" for d rules
  proof (induction rules arbitrary: d)
    case (Cons e rules)
    obtain t ps where e: "e = (t, ps)" by (cases e)
    have "distinct (map fst ps)" "ps \<noteq> []" "t \<notin> fst ` set d" using Cons.prems e by (auto simp: rules_stored_def)
    from add_params_of_tool [OF this, of sid] Cons.IH [of "d @ [e]"] Cons.prems show ?case by (simp add: param_rows_def e)
  qed (simp add: param_rows_def)
  from this [of "[]"] show "rules_stored rules \<Longrightarrow> ?thesis" by simp
qed

lemma find_other: "(\<And>x. P x \<Longrightarrow> Q x) \<Longrightarrow> List.find P (filter Q xs) = List.find P xs"
  by (induction xs) auto

lemma find_snoc: "List.find P (xs @ [x]) = (case List.find P xs of None \<Rightarrow> if P x then Some x else None | Some y \<Rightarrow> Some y)"
  by (induction xs) auto

lemma find_none: "(\<And>x. Q x \<Longrightarrow> \<not> P x) \<Longrightarrow> List.find P (filter Q xs) = None"
  by (simp add: find_None_iff)

lemma set_policy_Some:
  assumes "set_policy s sid p = Some s'"
  shows "st_policies s' = filter (\<lambda>r. po_server_id r \<noteq> sid) (st_policies s)
      @ [\<lparr>po_server_id = sid, po_mode = sp_mode p, po_rate_limit = sp_rate_limit p, po_dlp_config = encode_dlp_config p\<rparr>]"
    "st_tools s' = filter (\<lambda>r. tp_server_id r \<noteq> sid) (st_tools s) @ map (\<lambda>t. \<lparr>tp_server_id = sid, tp_tool_name = t, tp_action = ''allow''\<rparr>) (sp_allowed p)
      @ map (\<lambda>t. \<lparr>tp_server_id = sid, tp_tool_name = t, tp_action = ''deny''\<rparr>) (sp_denied p)"
    "st_params s' = filter (\<lambda>r. pa_server_id r \<noteq> sid) (st_params s) @ param_rows sid (sp_param_rules p)"
  using assms by (auto simp: set_policy_def Let_def split: if_splits)

lemma param_rows_server: "r \<in> set (param_rows sid rules) \<Longrightarrow> pa_server_id r = sid"
  by (auto simp: param_rows_def)

lemma set_policy_other:
  assumes "set_policy s sid p = Some s'" and o: "other \<noteq> sid"
  shows "stored_policy env s' other = stored_policy env s other"
proof -
  note w = set_policy_Some [OF assms(1)]
  have "List.find (\<lambda>r. po_server_id r = other) (st_policies s') = List.find (\<lambda>r. po_server_id r = other) (st_policies s)"
    unfolding w using o find_other [of "\<lambda>r. po_server_id r = other" "\<lambda>r. po_server_id r \<noteq> sid" "st_policies s"]
    by (auto simp: find_snoc split: option.splits)
  moreover have "filter (\<lambda>r. tp_server_id r = other) (st_tools s') = filter (\<lambda>r. tp_server_id r = other) (st_tools s)"
    unfolding w using o by (auto simp: filter_map comp_def intro!: filter_cong)
  moreover have "filter (\<lambda>r. pa_server_id r = other) (st_params s') = filter (\<lambda>r. pa_server_id r = other) (st_params s)"
  proof -
    have "filter (\<lambda>r. pa_server_id r = other) (param_rows sid (sp_param_rules p)) = []" using o param_rows_server by (fastforce simp: filter_empty_conv)
    then show ?thesis unfolding w using o by (auto intro!: filter_cong)
  qed
  ultimately show ?thesis by (simp add: stored_policy_def)
qed

lemma policy_store_round_trip_first:
  assumes "set_policy s sid p = Some s'" and "policy_ok env p" and "rules_stored (sp_param_rules p)"
  shows "stored_policy env s' sid = Some p"
proof -
  note w = set_policy_Some [OF assms(1)]
  have eq: "\<lparr>sp_mode = sp_mode p, sp_rate_limit = sp_rate_limit p, sp_allowed = sp_allowed p, sp_denied = sp_denied p,
      sp_param_rules = sp_param_rules p, sp_dlp_detectors = sp_dlp_detectors p, sp_dlp_custom_patterns = sp_dlp_custom_patterns p,
      sp_response_dlp_detectors = sp_response_dlp_detectors p, sp_response_dlp_max_bytes = sp_response_dlp_max_bytes p\<rparr> = p" by simp
  have "1024 \<le> sp_response_dlp_max_bytes p" using policy_ok_fields [OF assms(2)]
    by (auto simp: validate_policy_fields_def validate_response_dlp_max_bytes_def split: if_splits)
  then have dlp: "sp_response_dlp_max_bytes p \<noteq> 0" by simp
  have "List.find (\<lambda>r. po_server_id r = sid) (st_policies s') =
      Some \<lparr>po_server_id = sid, po_mode = sp_mode p, po_rate_limit = sp_rate_limit p, po_dlp_config = encode_dlp_config p\<rparr>"
    unfolding w by (simp add: find_snoc find_none)
  moreover have "filter (\<lambda>r. tp_server_id r = sid) (st_tools s') = map (\<lambda>t. \<lparr>tp_server_id = sid, tp_tool_name = t, tp_action = ''allow''\<rparr>) (sp_allowed p)
      @ map (\<lambda>t. \<lparr>tp_server_id = sid, tp_tool_name = t, tp_action = ''deny''\<rparr>) (sp_denied p)"
    unfolding w by (simp add: filter_map comp_def)
  moreover have "filter (\<lambda>r. pa_server_id r = sid) (st_params s') = param_rows sid (sp_param_rules p)"
    unfolding w using param_rows_server by (auto simp: filter_id_conv)
  ultimately show ?thesis
    using dlp_config_round_trip [OF dlp] param_rows_round_trip [OF assms(3)] assms(2)
    by (simp add: stored_policy_def Let_def filter_map comp_def eq)
qed

subsection \<open>Properties\<close>

text \<open>C33. What is saved is what is enforced: reading a policy that was just written gives back the same policy, and the policy of
  every other server is untouched. (The policy is valid, no tool has an empty set of parameter rules, and its
  dictionaries have no repeated key.)\<close>

theorem policy_store_round_trip:
  assumes "set_policy s sid p = Some s'" and "policy_ok env p" and "rules_stored (sp_param_rules p)"
  shows "stored_policy env s' sid = Some p \<and> (\<forall>other. other \<noteq> sid \<longrightarrow> stored_policy env s' other = stored_policy env s other)"
  using policy_store_round_trip_first [OF assms] set_policy_other [OF assms(1)] by blast

definition sample_stored_policy :: server_policy where
  "sample_stored_policy = default_policy\<lparr>sp_mode := ''denylist'', sp_denied := [''rm''], sp_param_rules := [(''run'', [(''cmd'', empty_param_rule)])],
     sp_dlp_detectors := [(''email'', ''redact'')]\<rparr>"

theorem policy_store_round_trip_witness:
  "case set_policy \<lparr>st_policies = [], st_tools = [], st_params = []\<rparr> 1 sample_stored_policy of
     Some s \<Rightarrow> stored_policy literal_env s 1 = Some sample_stored_policy | None \<Rightarrow> False"
proof -
  let ?s = "set_policy \<lparr>st_policies = [], st_tools = [], st_params = []\<rparr> 1 sample_stored_policy"
  have "?s \<noteq> None" by code_simp
  then obtain s where s: "?s = Some s" by blast
  have "policy_ok literal_env sample_stored_policy" "rules_stored (sp_param_rules sample_stored_policy)" by code_simp+
  from policy_store_round_trip [OF s this] show ?thesis unfolding s by simp
qed

lemma dict_wf_add_param: "dict_wf d \<Longrightarrow> dict_wf (add_param d r)"
  by (simp add: add_param_def dict_wf_update)

lemma foldl_add_param:
  "dict_wf d \<Longrightarrow> dict_wf (foldl add_param d rows) \<and> fst ` set (foldl add_param d rows) = fst ` set d \<union> pa_tool_name ` set rows"
proof (induction rows arbitrary: d)
  case (Cons r rows)
  have "fst ` set (add_param d r) = insert (pa_tool_name r) (fst ` set d)" by (simp add: add_param_def dom_update [unfolded dom_map_of_conv_image_fst])
  then show ?case using Cons.IH [OF dict_wf_add_param [OF Cons.prems]] by auto
qed simp

text \<open>An empty set of parameter rules is lost: a policy that names a tool with no rules for it is stored without that tool, so
  the stored policy always differs from the one that was saved, and an import of that policy finds a change every
  time it runs.\<close>

theorem empty_rules_never_settle:
  assumes "set_policy s sid p = Some s'" and "stored_policy env s' sid = Some q"
    and "dict_wf (sp_param_rules p)" and "(tool, []) \<in> set (sp_param_rules p)"
  shows "policy_diff q p \<noteq> []"
proof -
  let ?rows = "param_rows sid (sp_param_rules p)" and ?q = "sp_param_rules q"
  have "filter (\<lambda>r. pa_server_id r = sid) (st_params s') = ?rows"
    unfolding set_policy_Some(3) [OF assms(1)] using param_rows_server by (auto simp: filter_id_conv)
  then have q: "?q = foldl add_param [] ?rows" using assms(2) by (auto simp: stored_policy_def Let_def split: option.splits if_splits)
  have "pa_tool_name ` set ?rows \<subseteq> fst ` set (sp_param_rules p) - {tool}"
  proof
    fix t assume "t \<in> pa_tool_name ` set ?rows"
    then obtain ps where "(t, ps) \<in> set (sp_param_rules p)" "ps \<noteq> []" by (fastforce simp: param_rows_def)
    moreover have "t \<noteq> tool" using calculation assms(3,4) by (metis eq_key_imp_eq_value)
    ultimately show "t \<in> fst ` set (sp_param_rules p) - {tool}" by force
  qed
  then have sub: "fst ` set ?q \<subseteq> fst ` set (sp_param_rules p) - {tool}" and wf: "dict_wf ?q" using foldl_add_param [of "[]" ?rows] q by auto
  have "length ?q = card (fst ` set ?q)" using wf by (metis distinct_card length_map set_map)
  also have "\<dots> \<le> card (fst ` set (sp_param_rules p) - {tool})" using sub by (intro card_mono) auto
  also have "\<dots> < card (fst ` set (sp_param_rules p))" using assms(4) by (intro psubset_card_mono) force+
  also have "\<dots> = length (sp_param_rules p)" using assms(3) by (metis distinct_card length_map set_map)
  finally have "\<not> rules_eq ?q (sp_param_rules p)" by (simp add: dict_eq_def)
  then show ?thesis by (simp add: policy_diff_def)
qed

theorem empty_rules_never_settle_witness:
  "\<exists>s q. set_policy \<lparr>st_policies = [], st_tools = [], st_params = []\<rparr> 1 (default_policy\<lparr>sp_param_rules := [(''run'', [])]\<rparr>) = Some s
     \<and> stored_policy literal_env s 1 = Some q \<and> policy_diff q (default_policy\<lparr>sp_param_rules := [(''run'', [])]\<rparr>) \<noteq> []"
proof -
  let ?p = "default_policy\<lparr>sp_param_rules := [(''run'', [])]\<rparr>"
  let ?s = "set_policy \<lparr>st_policies = [], st_tools = [], st_params = []\<rparr> 1 ?p"
  have "?s \<noteq> None" "stored_policy literal_env (the ?s) 1 \<noteq> None" by code_simp+
  then obtain s q where s: "?s = Some s" "stored_policy literal_env s 1 = Some q" by auto
  from empty_rules_never_settle [OF s, of "''run''"] s show ?thesis by auto
qed

text \<open>A valid policy that lists a tool twice cannot be saved: if a tool is on both lists, or twice on one, the write violates
  the key of the tool table and is refused with an exception, although the policy passes every validator.\<close>

theorem tool_listed_twice_refused:
  assumes "\<not> distinct (sp_allowed p @ sp_denied p)"
  shows "set_policy s sid p = None"
  using assms by (auto simp: set_policy_def Let_def comp_def)

theorem tool_listed_twice_refused_witness:
  "set_policy \<lparr>st_policies = [], st_tools = [], st_params = []\<rparr> 1 (default_policy\<lparr>sp_mode := ''allowlist'', sp_allowed := [''run''], sp_denied := [''run'']\<rparr>) = None
   \<and> policy_ok literal_env (default_policy\<lparr>sp_mode := ''allowlist'', sp_allowed := [''run''], sp_denied := [''run'']\<rparr>)"
proof
  show "set_policy \<lparr>st_policies = [], st_tools = [], st_params = []\<rparr> 1 (default_policy\<lparr>sp_mode := ''allowlist'', sp_allowed := [''run''], sp_denied := [''run'']\<rparr>) = None"
    by (rule tool_listed_twice_refused) simp
  show "policy_ok literal_env (default_policy\<lparr>sp_mode := ''allowlist'', sp_allowed := [''run''], sp_denied := [''run'']\<rparr>)" by code_simp
qed

end
