(* ===== verification/Config_Io.thy ===== *)
theory Config_Io
  imports Policy_Store Policy "HOL-Library.Multiset"
begin

text \<open>
  Configuration export and import, \<open>archon/config_io.py\<close>, over the tables it reads and writes. The parameters
  are the YAML reader and printer, the construction of a policy from a mapping by the model library, the URL
  parser and the name resolver behind \<open>_validate_upstream_url\<close>, and the printing of floats. The text fields of a file
  (\<open>slug\<close>, \<open>name\<close>, ...) are texts or absent: on a value of another type the libraries raise, here at once. \<open>None\<close> is an uncaught
  exception.
\<close>

record config_db =
  cd_servers :: "server_record list"
  cd_store :: policy_store
  cd_settings :: "string dict"
  cd_projects :: "(int \<times> string) list"
  cd_next_server :: int

record config_env =
  cf_regex :: regex_env
  cf_yaml_load :: "string \<Rightarrow> string + json"
  cf_yaml_dump :: "json \<Rightarrow> string"
  cf_policy :: "json \<Rightarrow> string + server_policy"
  cf_urlparse :: "string \<Rightarrow> string \<times> string \<times> string option"
  cf_link_local :: "string \<Rightarrow> bool"
  cf_fr :: "pyfloat \<Rightarrow> string"
  cf_utcnow :: string
  cf_le :: "string \<Rightarrow> string \<Rightarrow> bool"

text \<open>The dash of the messages, in UTF-8.\<close>

definition em_dash :: string where "em_dash = [CHR 0xE2, CHR 0x80, CHR 0x94]"

subsection \<open>Repositories\<close>

definition cfg_get :: "config_db \<Rightarrow> string \<Rightarrow> server_record option" where
  "cfg_get d slug = List.find (\<lambda>s. sv_slug s = slug) (cd_servers d)"

definition cfg_list :: "config_env \<Rightarrow> config_db \<Rightarrow> server_record list" where
  "cfg_list env d = order_by (cf_le env) sv_slug (cd_servers d)"

definition default_project_id :: "config_db \<Rightarrow> int option" where
  "default_project_id d = map_option fst (List.find (\<lambda>p. snd p = ''default'') (cd_projects d))"

text \<open>The CHECK on the slug columns; it is stricter than the validator, which lets a final newline pass.\<close>

definition slug_format :: "string \<Rightarrow> bool" where
  "slug_format s \<longleftrightarrow> s \<noteq> [] \<and> list_all slug_char s"

text \<open>\<open>None\<close>: the slug is taken or refused by the CHECK, and the transaction is undone.\<close>

definition cfg_create ::
    "config_db \<Rightarrow> string \<Rightarrow> string \<Rightarrow> string \<Rightarrow> bool \<Rightarrow> bool \<Rightarrow> string option \<Rightarrow> string \<Rightarrow> int option \<Rightarrow> (server_record \<times> config_db) option" where
  "cfg_create d slug name url enabled in_aggregate auth mode project_id =
     (if cfg_get d slug \<noteq> None \<or> \<not> slug_format slug then None
      else let s = \<lparr>sv_id = cd_next_server d, sv_slug = slug, sv_name = name, sv_upstream_url = url, sv_enabled = enabled,
                  sv_in_aggregate = in_aggregate, sv_upstream_protocol = None, sv_discover_json = None, sv_upstream_auth_header = auth,
                  sv_credential_mode = mode, sv_project_id = (if project_id = None then default_project_id d else project_id)\<rparr>
        in Some (s, d\<lparr>cd_servers := cd_servers d @ [s], cd_next_server := cd_next_server d + 1,
             cd_store := (cd_store d)\<lparr>st_policies := st_policies (cd_store d) @
               [\<lparr>po_server_id = sv_id s, po_mode = ''passthrough'', po_rate_limit = None, po_dlp_config = None\<rparr>]\<rparr>\<rparr>))"

definition cfg_update :: "config_db \<Rightarrow> string \<Rightarrow> (server_record \<Rightarrow> server_record) \<Rightarrow> config_db" where
  "cfg_update d slug f = d\<lparr>cd_servers := map (\<lambda>s. if sv_slug s = slug then f s else s) (cd_servers d)\<rparr>"

definition cfg_get_policy :: "config_env \<Rightarrow> config_db \<Rightarrow> int \<Rightarrow> server_policy option" where
  "cfg_get_policy env d sid = stored_policy (cf_regex env) (cd_store d) sid"

definition cfg_set_policy :: "config_db \<Rightarrow> int \<Rightarrow> server_policy \<Rightarrow> config_db option" where
  "cfg_set_policy d sid p = map_option (\<lambda>s. d\<lparr>cd_store := s\<rparr>) (set_policy (cd_store d) sid p)"

subsection \<open>Export\<close>

definition EXPORT_VERSION :: int where "EXPORT_VERSION = 1"

definition EXPORTABLE_SETTINGS :: "string list" where
  "EXPORTABLE_SETTINGS = [''auth_mode'', ''aggregate_enabled'', ''default_ttl_ms'', ''audit_retention_days'', ''approvals_enabled'', ''approvals_ttl_days'']"

definition is_reference :: "string \<Rightarrow> bool" where
  "is_reference v \<longleftrightarrow> prefix ''vault://'' v \<or> prefix ''enc:v1:'' v"

definition CREDENTIALS_WARNING :: string where
  "CREDENTIALS_WARNING = ''WARNING: this file was exported with include_credentials=true and contains PLAINTEXT upstream credentials (upstream_auth_header). Treat it as a secret: do not commit it to version control, and delete it once imported.''"

definition none_free :: "(string \<times> json) list \<Rightarrow> (string \<times> json) list" where
  "none_free kvs = filter (\<lambda>(k, v). v \<noteq> JNull) kvs"

text \<open>\<open>policy.model_dump(exclude_none=True)\<close>.\<close>

definition dump_policy :: "server_policy \<Rightarrow> json" where
  "dump_policy p = JObj (none_free
     [(''mode'', JStr (sp_mode p)), (''rate_limit'', opt_json JStr (sp_rate_limit p)), (''allowed'', JList (map JStr (sp_allowed p))),
      (''denied'', JList (map JStr (sp_denied p))),
      (''param_rules'', JObj (map (map_prod id (\<lambda>rules. JObj (map (map_prod id (\<lambda>r. case dump_rule r of JObj kvs \<Rightarrow> JObj (none_free kvs) | v \<Rightarrow> v)) rules)))
         (sp_param_rules p))),
      (''dlp_detectors'', dump_strings (sp_dlp_detectors p)), (''dlp_custom_patterns'', JList (map dump_custom (sp_dlp_custom_patterns p))),
      (''response_dlp_detectors'', dump_strings (sp_response_dlp_detectors p)),
      (''response_dlp_max_bytes'', JInt (sp_response_dlp_max_bytes p))])"

record export_result =
  ex_data :: "json dict"
  ex_warnings :: "string list"

definition exported_credential :: "bool \<Rightarrow> server_record \<Rightarrow> string option" where
  "exported_credential include server =
     (case sv_upstream_auth_header server of None \<Rightarrow> None | Some v \<Rightarrow> if is_reference v \<or> include then Some v else None)"

definition export_entry :: "config_db \<Rightarrow> bool \<Rightarrow> server_record \<Rightarrow> server_policy \<Rightarrow> json" where
  "export_entry d include server policy = JObj
     ([(''slug'', JStr (sv_slug server)), (''name'', JStr (sv_name server)), (''upstream_url'', JStr (sv_upstream_url server)),
       (''enabled'', JBool (sv_enabled server)), (''in_aggregate'', JBool (sv_in_aggregate server)), (''policy'', dump_policy policy)]
      @ (case Option.bind (sv_project_id server) (map_of (cd_projects d)) of None \<Rightarrow> [] | Some slug \<Rightarrow> [(''project_slug'', JStr slug)])
      @ (case exported_credential include server of None \<Rightarrow> [] | Some v \<Rightarrow> [(''upstream_auth_header'', JStr v)])
      @ (if sv_credential_mode server \<noteq> ''none'' then [(''credential_mode'', JStr (sv_credential_mode server))] else []))"

fun export_servers :: "config_env \<Rightarrow> config_db \<Rightarrow> bool \<Rightarrow> server_record list \<Rightarrow> json list option" where
  "export_servers env d include [] = Some []"
| "export_servers env d include (s # ss) =
     Option.bind (cfg_get_policy env d (sv_id s)) (\<lambda>p. map_option (Cons (export_entry d include s p)) (export_servers env d include ss))"

definition literal_credentials :: "server_record list \<Rightarrow> string list" where
  "literal_credentials ss = map sv_slug (filter (\<lambda>s. case sv_upstream_auth_header s of None \<Rightarrow> False | Some v \<Rightarrow> \<not> is_reference v) ss)"

definition exported_settings :: "string dict \<Rightarrow> string dict" where
  "exported_settings stored = List.map_filter (\<lambda>k. map_option (Pair k) (map_of stored k)) EXPORTABLE_SETTINGS"

definition export_config :: "config_env \<Rightarrow> config_db \<Rightarrow> bool \<Rightarrow> export_result option" where
  "export_config env d include =
     map_option (\<lambda>servers.
       (let creds = literal_credentials (cfg_list env d) in
        \<lparr>ex_data = [(''version'', JInt EXPORT_VERSION), (''exported_at'', JStr (cf_utcnow env)),
            (''settings'', dump_strings (exported_settings (cd_settings d))), (''servers'', JList servers)],
         ex_warnings = (if creds = [] then [] else if include then [CREDENTIALS_WARNING]
           else [''upstream credentials were NOT exported for: '' @ str_join '', '' (sort creds)
             @ ''. Re-enter them after importing, or re-export with include_credentials=true.''])\<rparr>))
       (export_servers env d include (cfg_list env d))"

definition NO_API_KEYS_NOTE :: string where
  "NO_API_KEYS_NOTE = ''API keys are deliberately NOT exported: they are stored only as hashes (show-once by design), so exporting them would be useless to restore from and a liability to hold. Recreate keys through the UI or API after importing.''"

definition export_header :: "export_result \<Rightarrow> string" where
  "export_header r = (let nl = [CHR 0x0A] in
     ''# Acropolis configuration export (version 1)'' @ nl @ ''# '' @ NO_API_KEYS_NOTE
     @ (if \<exists>w \<in> set (ex_warnings r). prefix ''WARNING:'' w then nl @ ''#'' @ nl @ ''# '' @ CREDENTIALS_WARNING else '''') @ nl @ nl)"

definition to_yaml :: "config_env \<Rightarrow> export_result \<Rightarrow> string" where
  "to_yaml env r = export_header r @ cf_yaml_dump env (JObj (ex_data r))"

definition to_stable_yaml :: "config_env \<Rightarrow> export_result \<Rightarrow> string" where
  "to_stable_yaml env r = export_header r @ cf_yaml_dump env (JObj (filter (\<lambda>(k, v). k \<noteq> ''exported_at'') (ex_data r)))"

subsection \<open>Reading a file\<close>

record parsed_server =
  ps_slug :: string
  ps_name :: string
  ps_upstream_url :: string
  ps_enabled :: bool
  ps_in_aggregate :: bool
  ps_policy :: server_policy
  ps_upstream_auth_header :: "string option"
  ps_project_slug :: "string option"
  ps_credential_mode :: "string option"

datatype file_value = Absent | Text string | OtherType

definition text_field :: "json dict \<Rightarrow> string \<Rightarrow> file_value" where
  "text_field d k = (case map_of d k of None \<Rightarrow> Absent | Some JNull \<Rightarrow> Absent | Some (JStr s) \<Rightarrow> Text s | Some _ \<Rightarrow> OtherType)"

definition text_opt :: "file_value \<Rightarrow> string option" where
  "text_opt v = (case v of Text s \<Rightarrow> Some s | _ \<Rightarrow> None)"

text \<open>A URL is accepted with its scheme and host; a host that is or resolves to a link-local address is refused.\<close>

definition validate_upstream_url :: "config_env \<Rightarrow> string \<Rightarrow> string + string" where
  "validate_upstream_url env url =
     (let (scheme, netloc, hostname) = cf_urlparse env (rev (dropWhile (\<lambda>c. c = CHR ''/'') (rev url))) in
      if (scheme \<noteq> ''http'' \<and> scheme \<noteq> ''https'') \<or> netloc = [] then Inl (''upstream_url must be a valid http/https URL, got '' @ repr_str url)
      else if (case hostname of None \<Rightarrow> False | Some h \<Rightarrow> h \<noteq> [] \<and> cf_link_local env h)
        then Inl (''upstream_url resolves to a link-local address ('' @ repr_str url @ '')'')
      else Inr url)"

definition VALID_CREDENTIAL_MODES :: "string list" where
  "VALID_CREDENTIAL_MODES = [''none'', ''static'', ''token'']"

definition truthy_field :: "json dict \<Rightarrow> string \<Rightarrow> bool" where
  "truthy_field d k = (case map_of d k of None \<Rightarrow> True | Some v \<Rightarrow> truthy v)"

definition parse_server :: "config_env \<Rightarrow> nat \<Rightarrow> json \<Rightarrow> (string + parsed_server) option" where
  "parse_server env index raw =
     (case raw of
        JObj d \<Rightarrow>
          (let slug = text_field d ''slug''; url = text_field d ''upstream_url''; mode = text_field d ''credential_mode'';
               name = text_field d ''name''; auth = text_field d ''upstream_auth_header''; project = text_field d ''project_slug'' in
           if slug = OtherType then None
           else if text_opt slug = None \<or> slug = Text '''' then Some (Inl (''servers['' @ show_nat index @ '']: missing '' @ quoted ''slug''))
           else (let s = the (text_opt slug); server = ''server '' @ quoted s @ '': '' in
             if url = OtherType then None
             else if text_opt url = None \<or> url = Text '''' then Some (Inl (server @ ''missing '' @ quoted ''upstream_url''))
             else case validate_upstream_url env (the (text_opt url)) of
                 Inl e \<Rightarrow> Some (Inl (server @ e))
               | Inr u \<Rightarrow>
                   (case cf_policy env (get_or d ''policy'' (JObj [])) of
                      Inl e \<Rightarrow> Some (Inl (server @ ''invalid policy: '' @ e))
                    | Inr p \<Rightarrow>
                        if OtherType \<in> {mode, name, auth, project} then None
                        else if text_opt mode \<noteq> None \<and> the (text_opt mode) \<notin> set VALID_CREDENTIAL_MODES
                          then Some (Inl (server @ ''credential_mode must be one of '' @ py_repr (cf_fr env) (JList (map JStr VALID_CREDENTIAL_MODES))
                            @ '', got '' @ repr_str (the (text_opt mode))))
                        else Some (Inr \<lparr>ps_slug = s,
                            ps_name = (case text_opt name of Some (c # cs) \<Rightarrow> c # cs | _ \<Rightarrow> s), ps_upstream_url = u,
                            ps_enabled = truthy_field d ''enabled'', ps_in_aggregate = truthy_field d ''in_aggregate'', ps_policy = p,
                            ps_upstream_auth_header = text_opt auth, ps_project_slug = text_opt project, ps_credential_mode = text_opt mode\<rparr>))))
      | _ \<Rightarrow> Some (Inl (''servers['' @ show_nat index @ '']: must be a mapping'')))"

fun parse_servers :: "config_env \<Rightarrow> nat \<Rightarrow> json list \<Rightarrow> (parsed_server list \<times> string list) option" where
  "parse_servers env i [] = Some ([], [])"
| "parse_servers env i (v # vs) =
     (case (parse_server env i v, parse_servers env (Suc i) vs) of
        (Some (Inl e), Some (ss, es)) \<Rightarrow> Some (ss, e # es)
      | (Some (Inr s), Some (ss, es)) \<Rightarrow> Some (s # ss, es)
      | _ \<Rightarrow> None)"

fun parse_settings :: "config_env \<Rightarrow> json dict \<Rightarrow> string dict \<times> string list" where
  "parse_settings env [] = ([], [])"
| "parse_settings env ((key, value) # rest) =
     (let (settings, errors) = parse_settings env rest in
      if key \<notin> set EXPORTABLE_SETTINGS
      then (settings, (''setting '' @ quoted key @ '' is not importable (allowed: '' @ str_join '', '' EXPORTABLE_SETTINGS @ '')'') # errors)
      else ((key, py_str (cf_fr env) value) # settings, errors))"

text \<open>\<open>_parse\<close>: servers, settings and errors. The version is compared as a number.\<close>

definition parse_file :: "config_env \<Rightarrow> string \<Rightarrow> (parsed_server list \<times> string dict \<times> string list) option" where
  "parse_file env yaml_text =
     (case cf_yaml_load env yaml_text of
        Inl e \<Rightarrow> Some ([], [], [''could not parse YAML: '' @ e])
      | Inr (JObj data) \<Rightarrow>
          (let version = dict_get data ''version'' JNull in
           if version \<notin> {JInt EXPORT_VERSION, JBool True, JFloat (Fin 1)}
           then Some ([], [], [''unsupported export version '' @ py_repr (cf_fr env) version @ '' (this build understands version 1)''])
           else (let (settings, errors) = (case get_or data ''settings'' (JObj []) of
                       JObj raw \<Rightarrow> parse_settings env raw | _ \<Rightarrow> ([], [quoted ''settings'' @ '' must be a mapping''])) in
             case get_or data ''servers'' (JList []) of
               JList raw \<Rightarrow> map_option (\<lambda>(servers, es). (servers, settings, errors @ es)) (parse_servers env 0 raw)
             | _ \<Rightarrow> Some ([], settings, errors @ [quoted ''servers'' @ '' must be a list''])))
      | Inr _ \<Rightarrow> Some ([], [], [''export file must be a YAML mapping at the top level'']))"

subsection \<open>Import\<close>

record import_action =
  ia_kind :: string
  ia_target :: string
  ia_detail :: string

definition describe :: "bool \<Rightarrow> import_action \<Rightarrow> string" where
  "describe applied a =
     (if ia_kind a = ''create'' then (if applied then ''created'' else ''would create'')
      else if ia_kind a = ''update'' then (if applied then ''updated'' else ''would update'') else ''unchanged'')
     @ '' '' @ ia_target a @ (if ia_detail a \<noteq> [] then '' ('' @ ia_detail a @ '')'' else '''')"

record import_plan =
  ip_actions :: "import_action list"
  ip_warnings :: "string list"
  ip_errors :: "string list"

definition plan_ok :: "import_plan \<Rightarrow> bool" where
  "plan_ok p \<longleftrightarrow> ip_errors p = []"

definition project_of_slug :: "config_db \<Rightarrow> string \<Rightarrow> int option" where
  "project_of_slug d slug = map_option fst (List.find (\<lambda>p. snd p = slug) (cd_projects d))"

definition show_bool :: "bool \<Rightarrow> string" where
  "show_bool b = (if b then ''True'' else ''False'')"

definition target_project :: "config_db \<Rightarrow> parsed_server \<Rightarrow> int option" where
  "target_project d s = (case ps_project_slug s of None \<Rightarrow> default_project_id d | Some slug \<Rightarrow> project_of_slug d slug)"

definition field_deltas :: "config_db \<Rightarrow> server_record \<Rightarrow> server_policy \<Rightarrow> parsed_server \<Rightarrow> string list" where
  "field_deltas d e current s =
     (if sv_upstream_url e \<noteq> ps_upstream_url s then [arrow_text ''upstream_url'' (sv_upstream_url e) (ps_upstream_url s)] else [])
   @ (if sv_name e \<noteq> ps_name s then [arrow_text ''name'' (sv_name e) (ps_name s)] else [])
   @ (if sv_enabled e \<noteq> ps_enabled s then [arrow_text ''enabled'' (show_bool (sv_enabled e)) (show_bool (ps_enabled s))] else [])
   @ (if sv_in_aggregate e \<noteq> ps_in_aggregate s then [arrow_text ''in_aggregate'' (show_bool (sv_in_aggregate e)) (show_bool (ps_in_aggregate s))] else [])
   @ (case ps_project_slug s of None \<Rightarrow> [] | Some slug \<Rightarrow>
        (if target_project d s \<noteq> None \<and> sv_project_id e \<noteq> target_project d s
         then [arrow_text ''project'' (case sv_project_id e of None \<Rightarrow> ''None'' | Some i \<Rightarrow> show_int i) slug] else []))
   @ policy_diff current (ps_policy s)
   @ (if ps_upstream_auth_header s \<noteq> None then [''upstream_auth_header: (set from file)''] else [])
   @ (case ps_credential_mode s of None \<Rightarrow> [] | Some mode \<Rightarrow>
        (if sv_credential_mode e \<noteq> mode then [arrow_text ''credential_mode'' (sv_credential_mode e) mode] else []))"

definition apply_fields :: "config_db \<Rightarrow> parsed_server \<Rightarrow> server_record \<Rightarrow> server_record" where
  "apply_fields d s e =
     (let e1 = e\<lparr>sv_name := ps_name s, sv_upstream_url := ps_upstream_url s, sv_enabled := ps_enabled s, sv_in_aggregate := ps_in_aggregate s\<rparr>;
          e2 = (case ps_upstream_auth_header s of None \<Rightarrow> e1 | Some v \<Rightarrow> e1\<lparr>sv_upstream_auth_header := Some v\<rparr>);
          e3 = (case ps_credential_mode s of None \<Rightarrow> e2 | Some m \<Rightarrow> e2\<lparr>sv_credential_mode := m\<rparr>)
      in if ps_project_slug s \<noteq> None \<and> target_project d s \<noteq> None then e3\<lparr>sv_project_id := target_project d s\<rparr> else e3)"

text \<open>One server of the file. The detail of a new server names its project.\<close>

definition import_server :: "config_env \<Rightarrow> bool \<Rightarrow> config_db \<Rightarrow> parsed_server \<Rightarrow> (import_action \<times> config_db) option" where
  "import_server env apply d s =
     (let target = ''server '' @ quoted (ps_slug s) in
      case cfg_get d (ps_slug s) of
        None \<Rightarrow>
          (let action = \<lparr>ia_kind = ''create'', ia_target = target, ia_detail = ''-> '' @ ps_upstream_url s
                 @ (case ps_project_slug s of None \<Rightarrow> '''' | Some p \<Rightarrow> '' (project: '' @ p @ '')'')\<rparr> in
           if apply
           then (case cfg_create d (ps_slug s) (ps_name s) (ps_upstream_url s) (ps_enabled s) (ps_in_aggregate s) (ps_upstream_auth_header s)
                        (case ps_credential_mode s of Some (c # cs) \<Rightarrow> c # cs | _ \<Rightarrow> ''none'') (target_project d s) of
                   None \<Rightarrow> None
                 | Some (created, d1) \<Rightarrow> map_option (Pair action) (cfg_set_policy d1 (sv_id created) (ps_policy s)))
           else Some (action, d))
      | Some e \<Rightarrow>
          (case cfg_get_policy env d (sv_id e) of
             None \<Rightarrow> None
           | Some current \<Rightarrow>
               (let deltas = field_deltas d e current s in
                if deltas = [] then Some (\<lparr>ia_kind = ''unchanged'', ia_target = target, ia_detail = ''''\<rparr>, d)
                else (let action = \<lparr>ia_kind = ''update'', ia_target = target, ia_detail = str_join ''; '' deltas\<rparr> in
                  if apply then map_option (Pair action) (cfg_set_policy (cfg_update d (ps_slug s) (apply_fields d s)) (sv_id e) (ps_policy s))
                  else Some (action, d)))))"

fun import_servers :: "config_env \<Rightarrow> bool \<Rightarrow> config_db \<Rightarrow> parsed_server list \<Rightarrow> (import_action list \<times> config_db) option" where
  "import_servers env apply d [] = Some ([], d)"
| "import_servers env apply d (s # ss) =
     (case import_server env apply d s of
        None \<Rightarrow> None
      | Some (a, d1) \<Rightarrow> map_option (map_prod (Cons a) id) (import_servers env apply d1 ss))"

definition changed_settings :: "string dict \<Rightarrow> string dict \<Rightarrow> string dict" where
  "changed_settings stored settings = filter (\<lambda>(k, v). map_of stored k \<noteq> Some v) settings"

definition import_settings :: "bool \<Rightarrow> config_db \<Rightarrow> string dict \<Rightarrow> import_action list \<times> config_db" where
  "import_settings apply d settings =
     (if settings = [] then ([], d)
      else let changed = changed_settings (cd_settings d) settings; target = ''gateway settings'' in
        if changed = [] then ([\<lparr>ia_kind = ''unchanged'', ia_target = target, ia_detail = ''''\<rparr>], d)
        else ([\<lparr>ia_kind = ''update'', ia_target = target, ia_detail = str_join ''; '' (map (\<lambda>(k, v).
                arrow_text k (case map_of (cd_settings d) k of None \<Rightarrow> ''unset'' | Some w \<Rightarrow> w) v) (sort_key fst changed))\<rparr>],
              if apply then d\<lparr>cd_settings := foldl (\<lambda>m (k, v). AList.update k v m) (cd_settings d) changed\<rparr> else d))"

definition project_errors :: "config_env \<Rightarrow> config_db \<Rightarrow> parsed_server list \<Rightarrow> string list" where
  "project_errors env d servers = List.map_filter (\<lambda>s. case ps_project_slug s of
       Some p \<Rightarrow> if project_of_slug d p = None then Some (''server '' @ quoted (ps_slug s) @ '': unknown project_slug '' @ repr_str p) else None
     | None \<Rightarrow> None) servers"

text \<open>The plan and the state after it; the repositories of projects are always wired.\<close>

definition plan_import :: "config_env \<Rightarrow> bool \<Rightarrow> config_db \<Rightarrow> string \<Rightarrow> (import_plan \<times> config_db) option" where
  "plan_import env apply d yaml_text =
     (case parse_file env yaml_text of
        None \<Rightarrow> None
      | Some (servers, settings, errors) \<Rightarrow>
          (let errs = errors @ project_errors env d servers in
           if errs \<noteq> [] then Some (\<lparr>ip_actions = [], ip_warnings = [], ip_errors = errs\<rparr>, d)
           else case import_servers env apply d servers of
               None \<Rightarrow> None
             | Some (actions, d1) \<Rightarrow>
                 (let (sa, d2) = import_settings apply d1 settings;
                      extra = filter (\<lambda>slug. slug \<notin> set (map ps_slug servers)) (map sv_slug (cfg_list env d2)) in
                  Some (\<lparr>ip_actions = actions @ sa,
                    ip_warnings = (if extra = [] then [] else
                      [''these servers exist here but are not in the file and were left untouched: '' @ str_join '', '' (sort extra)]),
                    ip_errors = []\<rparr>, d2))))"
subsection \<open>Lemmas\<close>

definition config_wf :: "config_db \<Rightarrow> bool" where
  "config_wf d \<longleftrightarrow> distinct (map sv_id (cd_servers d)) \<and> distinct (map sv_slug (cd_servers d)) \<and> (\<forall>i \<in> set (map sv_id (cd_servers d)). i < cd_next_server d)"

text \<open>The file asks for nothing more for this server.\<close>

definition settled :: "config_env \<Rightarrow> config_db \<Rightarrow> parsed_server \<Rightarrow> bool" where
  "settled env d s \<longleftrightarrow> (\<exists>e p. cfg_get d (ps_slug s) = Some e \<and> cfg_get_policy env d (sv_id e) = Some p \<and> field_deltas d e p s = [])"

text \<open>Both databases show the same server and policy under a slug.\<close>

definition agree_on :: "config_env \<Rightarrow> config_db \<Rightarrow> config_db \<Rightarrow> string \<Rightarrow> bool" where
  "agree_on env d d' slug \<longleftrightarrow> cfg_get d' slug = cfg_get d slug
     \<and> (case cfg_get d slug of None \<Rightarrow> True | Some e \<Rightarrow> cfg_get_policy env d' (sv_id e) = cfg_get_policy env d (sv_id e))"

lemma cfg_get_slug: "cfg_get d slug = Some e \<Longrightarrow> sv_slug e = slug \<and> e \<in> set (cd_servers d)"
  by (auto simp: cfg_get_def find_Some_iff)

lemma cfg_get_update:
  assumes "\<And>s. sv_slug (f s) = sv_slug s"
  shows "cfg_get (cfg_update d slug f) slug' = map_option (\<lambda>s. if sv_slug s = slug then f s else s) (cfg_get d slug')"
proof -
  have "List.find (\<lambda>s. sv_slug s = slug') (map (\<lambda>s. if sv_slug s = slug then f s else s) ss) =
    map_option (\<lambda>s. if sv_slug s = slug then f s else s) (List.find (\<lambda>s. sv_slug s = slug') ss)" for ss
    using assms by (induction ss) auto
  then show ?thesis by (simp add: cfg_get_def cfg_update_def)
qed

lemma apply_fields_keys [simp]: "sv_slug (apply_fields d s e) = sv_slug e" "sv_id (apply_fields d s e) = sv_id e"
  by (auto simp: apply_fields_def Let_def split: option.splits)

lemma stored_policy_new_row:
  "other \<noteq> po_server_id row \<Longrightarrow> stored_policy env (s\<lparr>st_policies := st_policies s @ [row]\<rparr>) other = stored_policy env s other"
proof -
  assume o: "other \<noteq> po_server_id row"
  then have "List.find (\<lambda>r. po_server_id r = other) (st_policies s @ [row]) = List.find (\<lambda>r. po_server_id r = other) (st_policies s)"
    by (auto simp: find_snoc split: option.splits)
  then show ?thesis by (simp add: stored_policy_def)
qed

text \<open>What one server of the file does to the tables.\<close>

lemma import_server_cases:
  assumes "import_server env True d s = Some (a, d')"
  obtains (unchanged) "d' = d" "settled env d s"
  | (create) c d1 where "cfg_get d (ps_slug s) = None"
      "cfg_create d (ps_slug s) (ps_name s) (ps_upstream_url s) (ps_enabled s) (ps_in_aggregate s) (ps_upstream_auth_header s)
         (case ps_credential_mode s of Some (x # xs) \<Rightarrow> x # xs | _ \<Rightarrow> ''none'') (target_project d s) = Some (c, d1)"
      "cfg_set_policy d1 (sv_id c) (ps_policy s) = Some d'"
  | (update) e where "cfg_get d (ps_slug s) = Some e"
      "cfg_set_policy (cfg_update d (ps_slug s) (apply_fields d s)) (sv_id e) (ps_policy s) = Some d'"
proof (cases "cfg_get d (ps_slug s)")
  case None
  then obtain c d1 where "cfg_create d (ps_slug s) (ps_name s) (ps_upstream_url s) (ps_enabled s) (ps_in_aggregate s) (ps_upstream_auth_header s)
         (case ps_credential_mode s of Some (x # xs) \<Rightarrow> x # xs | _ \<Rightarrow> ''none'') (target_project d s) = Some (c, d1)"
      "cfg_set_policy d1 (sv_id c) (ps_policy s) = Some d'"
    using assms by (auto simp: import_server_def Let_def split: option.splits)
  with None show ?thesis by (rule create)
next
  case (Some e)
  then obtain p where p: "cfg_get_policy env d (sv_id e) = Some p" using assms by (auto simp: import_server_def Let_def split: option.splits)
  show ?thesis
  proof (cases "field_deltas d e p s = []")
    case True
    then show ?thesis using assms Some p by (intro unchanged) (auto simp: import_server_def Let_def settled_def)
  next
    case False
    then show ?thesis using assms Some p by (intro update) (auto simp: import_server_def Let_def)
  qed
qed

lemma cfg_create_Some:
  assumes "cfg_create d slug name url en ag auth mode pid = Some (c, d1)"
  shows "c = \<lparr>sv_id = cd_next_server d, sv_slug = slug, sv_name = name, sv_upstream_url = url, sv_enabled = en,
      sv_in_aggregate = ag, sv_upstream_protocol = None, sv_discover_json = None, sv_upstream_auth_header = auth,
      sv_credential_mode = mode, sv_project_id = (if pid = None then default_project_id d else pid)\<rparr>"
    "d1 = d\<lparr>cd_servers := cd_servers d @ [c], cd_next_server := cd_next_server d + 1,
       cd_store := (cd_store d)\<lparr>st_policies := st_policies (cd_store d) @
         [\<lparr>po_server_id = sv_id c, po_mode = ''passthrough'', po_rate_limit = None, po_dlp_config = None\<rparr>]\<rparr>\<rparr>"
    "cfg_get d slug = None"
  using assms by (auto simp: cfg_create_def Let_def split: if_splits)

lemma import_server_effect:
  assumes "import_server env True d s = Some (a, d')" and "config_wf d"
  shows "config_wf d' \<and> cd_projects d' = cd_projects d \<and> cd_settings d' = cd_settings d
    \<and> (\<forall>slug. slug \<noteq> ps_slug s \<longrightarrow> agree_on env d d' slug)
    \<and> (\<forall>P. P (ps_slug s) = False \<longrightarrow> filter P (map sv_slug (cd_servers d')) = filter P (map sv_slug (cd_servers d)))"
  using assms(1)
proof (cases rule: import_server_cases)
  case unchanged
  then show ?thesis using assms(2) by (simp add: agree_on_def split: option.splits)
next
  case (create c d1)
  note c = cfg_create_Some [OF create(2)]
  obtain st where st: "set_policy (cd_store d1) (sv_id c) (ps_policy s) = Some st" "d' = d1\<lparr>cd_store := st\<rparr>"
    using create(3) by (auto simp: cfg_set_policy_def)
  have idc: "sv_id c = cd_next_server d" "sv_slug c = ps_slug s" by (simp_all add: c(1))
  have get: "cfg_get d' slug = (case cfg_get d slug of None \<Rightarrow> if slug = ps_slug s then Some c else None | Some e \<Rightarrow> Some e)" for slug
    by (auto simp: cfg_get_def st(2) c(2) find_snoc idc)
  have pol: "cfg_get_policy env d' i = cfg_get_policy env d i" if "i \<noteq> cd_next_server d" for i
    using set_policy_other [OF st(1)] that stored_policy_new_row [of i "\<lparr>po_server_id = sv_id c, po_mode = ''passthrough'', po_rate_limit = None, po_dlp_config = None\<rparr>"]
    by (simp add: cfg_get_policy_def st(2) c(2) idc)
  have "config_wf d'" using assms(2) create(1) idc
    by (fastforce simp: config_wf_def st(2) c(2) cfg_get_def find_None_iff)
  moreover have "agree_on env d d' slug" if "slug \<noteq> ps_slug s" for slug
    using that get [of slug] pol assms(2) cfg_get_slug [of d slug] by (fastforce simp: agree_on_def config_wf_def split: option.splits)
  ultimately show ?thesis by (simp add: st(2) c(2) idc)
next
  case (update e)
  let ?d1 = "cfg_update d (ps_slug s) (apply_fields d s)"
  obtain st where st: "set_policy (cd_store ?d1) (sv_id e) (ps_policy s) = Some st" "d' = ?d1\<lparr>cd_store := st\<rparr>"
    using update(2) by (auto simp: cfg_set_policy_def)
  have get: "cfg_get d' slug = map_option (\<lambda>x. if sv_slug x = ps_slug s then apply_fields d s x else x) (cfg_get d slug)" for slug
    using cfg_get_update [of "apply_fields d s" d "ps_slug s" slug] by (simp add: st(2) cfg_get_def)
  have maps: "map sv_slug (cd_servers d') = map sv_slug (cd_servers d)" "map sv_id (cd_servers d') = map sv_id (cd_servers d)"
    by (simp_all add: st(2) cfg_update_def)
  have pol: "cfg_get_policy env d' i = cfg_get_policy env d i" if "i \<noteq> sv_id e" for i
    using set_policy_other [OF st(1)] that by (simp add: cfg_get_policy_def st(2) cfg_update_def)
  have "cd_next_server d' = cd_next_server d" by (simp add: st(2) cfg_update_def)
  then have "config_wf d'" using assms(2) unfolding config_wf_def maps by simp
  moreover have "agree_on env d d' slug" if ne: "slug \<noteq> ps_slug s" for slug
  proof -
    have "sv_id x \<noteq> sv_id e" if "cfg_get d slug = Some x" for x
      using cfg_get_slug [OF that] cfg_get_slug [OF update(1)] ne assms(2) by (auto simp: config_wf_def distinct_map inj_on_def)
    then show ?thesis using get [of slug] pol ne cfg_get_slug [of d slug] by (auto simp: agree_on_def split: option.splits)
  qed
  moreover have "cd_projects d' = cd_projects d" "cd_settings d' = cd_settings d" by (simp_all add: st(2) cfg_update_def)
  ultimately show ?thesis unfolding maps by blast
qed
lemma field_deltas_cong: "cd_projects d' = cd_projects d \<Longrightarrow> field_deltas d' e p s = field_deltas d e p s"
proof -
  assume "cd_projects d' = cd_projects d"
  then have "target_project d' s = target_project d s"
    by (cases "ps_project_slug s") (simp_all add: target_project_def default_project_id_def project_of_slug_def)
  then show ?thesis unfolding field_deltas_def by (simp only:)
qed

lemma settled_agree: "agree_on env d d' (ps_slug s) \<Longrightarrow> cd_projects d' = cd_projects d \<Longrightarrow> settled env d s \<Longrightarrow> settled env d' s"
proof -
  assume a: "agree_on env d d' (ps_slug s)" "cd_projects d' = cd_projects d" and "settled env d s"
  then obtain e p where "cfg_get d (ps_slug s) = Some e" "cfg_get_policy env d (sv_id e) = Some p" "field_deltas d e p s = []" by (auto simp: settled_def)
  then show ?thesis using a(1) field_deltas_cong [OF a(2), of e p s] by (auto simp: settled_def agree_on_def)
qed

lemma agree_trans: "agree_on env a b slug \<Longrightarrow> agree_on env b c slug \<Longrightarrow> agree_on env a c slug"
  by (auto simp: agree_on_def split: option.splits)

lemma import_server_dry:
  assumes "import_server env True d s = Some (a, d')" and "agree_on env d0 d (ps_slug s)" and "cd_projects d = cd_projects d0"
  shows "import_server env False d0 s = Some (a, d0)"
proof -
  have tp: "field_deltas d e p s = field_deltas d0 e p s" for e p using field_deltas_cong [OF assms(3)] .
  show ?thesis
  proof (cases "cfg_get d0 (ps_slug s)")
    case None
    then show ?thesis using assms(1,2) by (auto simp: import_server_def agree_on_def Let_def split: option.splits)
  next
    case (Some e)
    then have "cfg_get d (ps_slug s) = Some e" "cfg_get_policy env d (sv_id e) = cfg_get_policy env d0 (sv_id e)" using assms(2) by (auto simp: agree_on_def)
    then show ?thesis using assms(1) Some tp by (auto simp: import_server_def Let_def split: option.splits if_splits)
  qed
qed

lemma import_servers_dry:
  assumes "import_servers env True d ss = Some (as, d')" and "config_wf d" and "distinct (map ps_slug ss)"
    and "\<forall>s \<in> set ss. agree_on env d0 d (ps_slug s)" and "cd_projects d = cd_projects d0"
  shows "import_servers env False d0 ss = Some (as, d0) \<and> config_wf d' \<and> cd_projects d' = cd_projects d \<and> cd_settings d' = cd_settings d
    \<and> (\<forall>slug. slug \<notin> set (map ps_slug ss) \<longrightarrow> agree_on env d d' slug)
    \<and> (\<forall>P. (\<forall>s \<in> set ss. \<not> P (ps_slug s)) \<longrightarrow> filter P (map sv_slug (cd_servers d')) = filter P (map sv_slug (cd_servers d)))"
  using assms
proof (induction ss arbitrary: d as)
  case Nil
  then show ?case by (simp add: agree_on_def split: option.splits)
next
  case (Cons s ss)
  obtain a d1 as' where 1: "import_server env True d s = Some (a, d1)" "import_servers env True d1 ss = Some (as', d')" "as = a # as'"
    using Cons.prems(1) by (auto split: option.splits)
  note e = import_server_effect [OF 1(1) Cons.prems(2)]
  have dry: "import_server env False d0 s = Some (a, d0)" using import_server_dry [OF 1(1)] Cons.prems by simp
  have "agree_on env d0 d1 (ps_slug t)" if "t \<in> set ss" for t
  proof -
    have "ps_slug t \<in> set (map ps_slug ss)" "ps_slug s \<notin> set (map ps_slug ss)" using Cons.prems(3) that by auto
    then have "ps_slug t \<noteq> ps_slug s" by metis
    then show ?thesis using e Cons.prems(4) that by (auto intro: agree_trans)
  qed
  then have all: "\<forall>t \<in> set ss. agree_on env d0 d1 (ps_slug t)" by blast
  have "config_wf d1" "distinct (map ps_slug ss)" "cd_projects d1 = cd_projects d0" using e Cons.prems(3,5) by simp_all
  note ih = Cons.IH [OF 1(2) this(1,2) all this(3)]
  have "agree_on env d d' slug" if "slug \<notin> set (map ps_slug (s # ss))" for slug using e ih that agree_trans by (metis list.set_intros(1) list.set_intros(2) list.simps(9))
  moreover have "filter P (map sv_slug (cd_servers d')) = filter P (map sv_slug (cd_servers d))" if "\<forall>t \<in> set (s # ss). \<not> P (ps_slug t)" for P
    using e ih that by simp
  ultimately show ?case using e ih dry 1(3) by auto
qed

lemma import_settings_dry:
  "import_settings True d settings = (sa, d2) \<Longrightarrow> cd_settings d0 = cd_settings d \<Longrightarrow> import_settings False d0 settings = (sa, d0)"
  by (auto simp: import_settings_def Let_def split: if_splits)

lemma import_settings_frame:
  "import_settings b d settings = (sa, d2) \<Longrightarrow> cd_servers d2 = cd_servers d \<and> cd_store d2 = cd_store d \<and> cd_projects d2 = cd_projects d"
  by (auto simp: import_settings_def Let_def split: if_splits)

lemma mset_order_by: "mset (order_by le key rows) = mset rows"
proof -
  have "mset (insert_by le key r xs) = add_mset r (mset xs)" for r xs by (induction xs) auto
  then have "mset (foldr (insert_by le key) rs []) = mset rs" for rs by (induction rs) auto
  then show ?thesis by (simp add: order_by_def)
qed

lemma sort_extra:
  assumes "filter P (map sv_slug (cd_servers a)) = filter P (map sv_slug (cd_servers b))"
  shows "sort (filter P (map sv_slug (cfg_list env a))) = sort (filter P (map sv_slug (cfg_list env b)))"
    "(filter P (map sv_slug (cfg_list env a)) = []) = (filter P (map sv_slug (cfg_list env b)) = [])"
proof -
  have "mset (filter P (map sv_slug (cfg_list env d))) = mset (filter P (map sv_slug (cd_servers d)))" for d
    by (simp add: cfg_list_def mset_order_by)
  then have m: "mset (filter P (map sv_slug (cfg_list env a))) = mset (filter P (map sv_slug (cfg_list env b)))" using assms by metis
  then show "sort (filter P (map sv_slug (cfg_list env a))) = sort (filter P (map sv_slug (cfg_list env b)))"
    by (intro properties_for_sort) (auto simp del: mset_filter mset_map)
  show "(filter P (map sv_slug (cfg_list env a)) = []) = (filter P (map sv_slug (cfg_list env b)) = [])"
    using m by (metis mset_zero_iff)
qed

subsection \<open>Properties\<close>

text \<open>C18. A dry run tells what an import does: if a file that names each server once is imported without an exception, the dry run
  before it gave exactly the same actions, warnings and errors and changed nothing; and the import changed nothing
  if there was an error, and no server the file does not name.\<close>

theorem dry_run_predicts_import:
  assumes "plan_import env True d yaml = Some (plan, d')" and "config_wf d"
    and "parse_file env yaml = Some (servers, settings, errors)" and "distinct (map ps_slug servers)"
  shows "plan_import env False d yaml = Some (plan, d) \<and> (ip_errors plan \<noteq> [] \<longrightarrow> d' = d)
    \<and> (\<forall>slug. slug \<notin> set (map ps_slug servers) \<longrightarrow> agree_on env d d' slug)"
proof (cases "errors @ project_errors env d servers = []")
  case False
  then show ?thesis using assms by (auto simp: plan_import_def agree_on_def split: option.splits)
next
  case True
  obtain as d1 where 1: "import_servers env True d servers = Some (as, d1)" using assms(1,3) True by (auto simp: plan_import_def split: option.splits)
  obtain sa d2 where 2: "import_settings True d1 settings = (sa, d2)" by fastforce
  have d': "d' = d2" using assms(1,3) True 1 2 by (simp add: plan_import_def Let_def)
  have "\<forall>s \<in> set servers. agree_on env d d (ps_slug s)" by (simp add: agree_on_def split: option.splits)
  note e = import_servers_dry [OF 1 assms(2,4) this refl]
  have dry: "import_servers env False d servers = Some (as, d)" "import_settings False d settings = (sa, d)"
    using e import_settings_dry [OF 2, of d] by auto
  let ?P = "\<lambda>slug. slug \<notin> set (map ps_slug servers)"
  have "filter ?P (map sv_slug (cd_servers d2)) = filter ?P (map sv_slug (cd_servers d))"
  proof -
    have "\<forall>P. (\<forall>s \<in> set servers. \<not> P (ps_slug s)) \<longrightarrow> filter P (map sv_slug (cd_servers d1)) = filter P (map sv_slug (cd_servers d))" using e by blast
    from this [rule_format, of ?P] import_settings_frame [OF 2] show ?thesis by simp
  qed
  note x = sort_extra [OF this, of env]
  have errs: "(errors @ project_errors env d servers \<noteq> []) = False" using True by simp
  note run = plan_import_def [of env _ d yaml, unfolded assms(3) option.case prod.case Let_def errs if_False]
  have "plan_import env False d yaml = Some (plan, d)"
    using assms(1) x unfolding run 1 dry 2 option.case prod.case by (simp only: option.inject prod.inject)
  moreover have "agree_on env d d' slug" if "slug \<notin> set (map ps_slug servers)" for slug
  proof -
    have "agree_on env d d1 slug" using e that by blast
    then show ?thesis using import_settings_frame [OF 2] unfolding d' agree_on_def cfg_get_def cfg_get_policy_def by (simp split: option.splits)
  qed
  moreover have "ip_errors plan = []" using assms(1,3) True 1 2 by (auto simp: plan_import_def Let_def)
  ultimately show ?thesis by simp
qed

lemma dict_eq_refl: "dict_wf d \<Longrightarrow> (\<And>k v. (k, v) \<in> set d \<Longrightarrow> eq v v) \<Longrightarrow> dict_eq eq d d"
proof -
  assume wf: "dict_wf d" and eq: "\<And>k v. (k, v) \<in> set d \<Longrightarrow> eq v v"
  have "map_of d k = Some v" if "(k, v) \<in> set d" for k v using wf that by (simp)
  then show ?thesis using eq by (auto simp: dict_eq_def list_all_iff split: option.splits)
qed

text \<open>A policy equal to itself as Python compares it: no key twice, no NaN.\<close>

definition comparable :: "server_policy \<Rightarrow> bool" where
  "comparable p \<longleftrightarrow> rules_stored (sp_param_rules p) \<and> dict_wf (sp_dlp_detectors p) \<and> dict_wf (sp_response_dlp_detectors p)
     \<and> (\<forall>(t, ps) \<in> set (sp_param_rules p). \<forall>(n, r) \<in> set ps. pr_max_value r \<noteq> Some NaN \<and> pr_min_value r \<noteq> Some NaN)"

lemma policy_diff_refl: "comparable p \<Longrightarrow> policy_diff p p = []"
proof -
  assume c: "comparable p"
  have "rules_eq (sp_param_rules p) (sp_param_rules p)"
  proof (rule dict_eq_refl)
    show "dict_wf (sp_param_rules p)" using c by (simp add: comparable_def rules_stored_def)
    show "dict_eq rule_eq ps ps" if "(t, ps) \<in> set (sp_param_rules p)" for t ps
      using c that by (intro dict_eq_refl) (fastforce simp: comparable_def rules_stored_def rule_eq_def float_opt_eq_def)+
  qed
  moreover have "dict_eq (=) d d" if "dict_wf d" for d :: "string dict" using that by (rule dict_eq_refl) simp
  ultimately show ?thesis using c by (simp add: policy_diff_def comparable_def)
qed

text \<open>A server of a file that can be imported for good: no credential in the file, and a policy that is stored as it is.\<close>

definition importable :: "config_env \<Rightarrow> config_db \<Rightarrow> parsed_server \<Rightarrow> bool" where
  "importable env d s \<longleftrightarrow> ps_upstream_auth_header s = None \<and> policy_ok (cf_regex env) (ps_policy s) \<and> comparable (ps_policy s)
     \<and> ps_credential_mode s \<noteq> Some [] \<and> (case ps_project_slug s of None \<Rightarrow> True | Some p \<Rightarrow> project_of_slug d p \<noteq> None)"

lemma target_project_cong: "cd_projects d' = cd_projects d \<Longrightarrow> target_project d' s = target_project d s"
  by (cases "ps_project_slug s") (simp_all add: target_project_def default_project_id_def project_of_slug_def)

lemma no_deltas:
  assumes "importable env d s" and "sv_upstream_url e = ps_upstream_url s" and "sv_name e = ps_name s" and "sv_enabled e = ps_enabled s"
    and "sv_in_aggregate e = ps_in_aggregate s" and "ps_project_slug s \<noteq> None \<Longrightarrow> sv_project_id e = target_project d s"
    and "ps_credential_mode s \<noteq> None \<Longrightarrow> sv_credential_mode e = the (ps_credential_mode s)"
  shows "field_deltas d e (ps_policy s) s = []"
  using assms policy_diff_refl [of "ps_policy s"] by (auto simp: field_deltas_def importable_def split: option.splits)

lemma import_server_settles:
  assumes "import_server env True d s = Some (a, d')" and "config_wf d" and "importable env d s"
  shows "settled env d' s"
  using assms(1)
proof (cases rule: import_server_cases)
  case unchanged
  then show ?thesis by simp
next
  case (create c d1)
  note c = cfg_create_Some [OF create(2)]
  obtain st where st: "set_policy (cd_store d1) (sv_id c) (ps_policy s) = Some st" "d' = d1\<lparr>cd_store := st\<rparr>"
    using create(3) by (auto simp: cfg_set_policy_def)
  have "cfg_get d' (ps_slug s) = Some c" using c(3) by (simp add: cfg_get_def st(2) c(2) find_snoc) (simp add: c(1))
  moreover have "cfg_get_policy env d' (sv_id c) = Some (ps_policy s)"
    using policy_store_round_trip_first [OF st(1)] assms(3) by (simp add: cfg_get_policy_def st(2) importable_def comparable_def)
  moreover have "field_deltas d c (ps_policy s) s = []"
    using assms(3) by (intro no_deltas [OF assms(3)]) (auto simp: c(1) importable_def target_project_def split: option.splits list.splits)
  moreover have "cd_projects d' = cd_projects d" by (simp add: st(2) c(2))
  ultimately show ?thesis using field_deltas_cong [of d' d c "ps_policy s" s] by (auto simp: settled_def)
next
  case (update e)
  let ?d1 = "cfg_update d (ps_slug s) (apply_fields d s)" and ?e = "apply_fields d s e"
  obtain st where st: "set_policy (cd_store ?d1) (sv_id e) (ps_policy s) = Some st" "d' = ?d1\<lparr>cd_store := st\<rparr>"
    using update(2) by (auto simp: cfg_set_policy_def)
  have "cfg_get d' (ps_slug s) = Some ?e"
    using cfg_get_update [of "apply_fields d s" d "ps_slug s" "ps_slug s"] update(1) cfg_get_slug [OF update(1)] by (simp add: st(2) cfg_get_def)
  moreover have "cfg_get_policy env d' (sv_id ?e) = Some (ps_policy s)"
    using policy_store_round_trip_first [OF st(1)] assms(3) by (simp add: cfg_get_policy_def st(2) importable_def comparable_def)
  moreover have "field_deltas d ?e (ps_policy s) s = []"
    using assms(3) by (intro no_deltas [OF assms(3)])
      (auto simp: apply_fields_def Let_def importable_def target_project_def split: option.splits)
  moreover have "cd_projects d' = cd_projects d" by (simp add: st(2) cfg_update_def)
  ultimately show ?thesis using field_deltas_cong [of d' d ?e "ps_policy s" s] by (auto simp: settled_def)
qed

lemma importable_cong: "cd_projects d' = cd_projects d \<Longrightarrow> importable env d s \<Longrightarrow> importable env d' s"
  by (auto simp: importable_def project_of_slug_def split: option.splits)

lemma import_servers_settle:
  assumes "import_servers env True d ss = Some (as, d')" and "config_wf d" and "distinct (map ps_slug ss)" and "\<forall>s \<in> set ss. importable env d s"
  shows "(\<forall>s \<in> set ss. settled env d' s) \<and> cd_projects d' = cd_projects d"
  using assms
proof (induction ss arbitrary: d as)
  case (Cons s ss)
  obtain a d1 as' where 1: "import_server env True d s = Some (a, d1)" "import_servers env True d1 ss = Some (as', d')"
    using Cons.prems(1) by (auto split: option.splits)
  note e = import_server_effect [OF 1(1) Cons.prems(2)]
  have proj: "cd_projects d1 = cd_projects d" and wf: "config_wf d1" using e by simp_all
  have imp: "\<forall>t \<in> set ss. importable env d1 t" using importable_cong [OF proj] Cons.prems(4) by simp
  have "distinct (map ps_slug ss)" using Cons.prems(3) by simp
  note ih = Cons.IH [OF 1(2) wf this imp]
  have "importable env d s" using Cons.prems(4) by simp
  then have s: "settled env d1 s" using import_server_settles [OF 1(1) Cons.prems(2)] by simp
  have "\<forall>t \<in> set ss. agree_on env d1 d1 (ps_slug t)" by (simp add: agree_on_def split: option.splits)
  from import_servers_dry [OF 1(2) wf \<open>distinct (map ps_slug ss)\<close> this refl] Cons.prems(3)
  have "agree_on env d1 d' (ps_slug s)" by simp
  then have "settled env d' s" using settled_agree s ih by blast
  then show ?case using ih proj by simp
qed simp

lemma import_settled: "settled env d s \<Longrightarrow> \<exists>a. import_server env b d s = Some (a, d) \<and> ia_kind a = ''unchanged''"
  by (auto simp: settled_def import_server_def Let_def)

lemma import_all_settled:
  "\<forall>s \<in> set ss. settled env d s \<Longrightarrow> \<exists>as. import_servers env b d ss = Some (as, d) \<and> (\<forall>a \<in> set as. ia_kind a = ''unchanged'')"
proof (induction ss)
  case (Cons s ss)
  then obtain a as where "import_server env b d s = Some (a, d)" "ia_kind a = ''unchanged''" "import_servers env b d ss = Some (as, d)"
    "\<forall>a \<in> set as. ia_kind a = ''unchanged''" using import_settled [of env d s b] by auto
  then show ?case by auto
qed simp

lemma map_of_updates: "distinct (map fst kvs) \<Longrightarrow> map_of (foldl (\<lambda>m (k, v). AList.update k v m) m kvs) k = (case map_of kvs k of None \<Rightarrow> map_of m k | Some v \<Rightarrow> Some v)"
proof (induction kvs arbitrary: m)
  case (Cons kv kvs)
  obtain k' v' where kv: "kv = (k', v')" by (cases kv)
  then have "map_of kvs k' = None" using Cons.prems by (simp add: map_of_eq_None_iff)
  then show ?case using Cons kv by (auto simp: update_conv' split: option.splits)
qed simp

lemma import_settings_settle:
  assumes "import_settings True d settings = (sa, d')" and "distinct (map fst settings)"
  shows "\<exists>as. import_settings b d' settings = (as, d') \<and> (\<forall>a \<in> set as. ia_kind a = ''unchanged'')"
proof -
  let ?c = "changed_settings (cd_settings d) settings"
  have dist: "distinct (map fst ?c)" using assms(2) by (simp add: changed_settings_def distinct_map_filter)
  have "map_of (cd_settings d') k = Some v" if kv: "(k, v) \<in> set settings" for k v
  proof (cases "(k, v) \<in> set ?c")
    case True
    then have "map_of ?c k = Some v" "?c \<noteq> []" using dist by auto
    moreover have "settings \<noteq> []" using kv by auto
    ultimately show ?thesis using assms(1) map_of_updates [OF dist] by (auto simp: import_settings_def Let_def)
  next
    case False
    then have old: "map_of (cd_settings d) k = Some v" using kv by (auto simp: changed_settings_def)
    have "map_of ?c k = None"
    proof (rule ccontr)
      assume "map_of ?c k \<noteq> None"
      then obtain w where "(k, w) \<in> set settings" "map_of (cd_settings d) k \<noteq> Some w"
        by (auto simp: changed_settings_def dest!: map_of_SomeD)
      then show False using assms(2) kv old by (metis eq_key_imp_eq_value)
    qed
    then show ?thesis using assms(1) map_of_updates [OF dist] old by (auto simp: import_settings_def Let_def split: if_splits)
  qed
  then have "changed_settings (cd_settings d') settings = []" by (auto simp: changed_settings_def filter_empty_conv)
  then show ?thesis by (auto simp: import_settings_def Let_def)
qed

lemma import_converges_to_unchanged:
  assumes "plan_import env True d yaml = Some (plan, d')" and "config_wf d" and "ip_errors plan = []"
    and "parse_file env yaml = Some (servers, settings, errors)" and "distinct (map ps_slug servers)" and "distinct (map fst settings)"
    and "\<forall>s \<in> set servers. importable env d s"
  shows "\<exists>plan'. plan_import env b d' yaml = Some (plan', d') \<and> ip_errors plan' = [] \<and> (\<forall>a \<in> set (ip_actions plan'). ia_kind a = ''unchanged'')"
proof -
  have errs: "errors @ project_errors env d servers = []"
    using assms(1,3,4) by (auto simp: plan_import_def Let_def split: option.splits if_splits prod.splits)
  obtain as d1 where 1: "import_servers env True d servers = Some (as, d1)"
    using assms(1,4) errs by (auto simp: plan_import_def split: option.splits)
  obtain sa d2 where 2: "import_settings True d1 settings = (sa, d2)" by fastforce
  have d': "d' = d2" using assms(1,4) errs 1 2 by (simp add: plan_import_def Let_def)
  note s = import_servers_settle [OF 1 assms(2,5,7)] and f = import_settings_frame [OF 2]
  have "settled env d2 t" if "t \<in> set servers" for t
  proof -
    have "agree_on env d1 d2 (ps_slug t)" using f by (simp add: agree_on_def cfg_get_def cfg_get_policy_def split: option.splits)
    then show ?thesis using settled_agree s f that by blast
  qed
  then obtain as' where 3: "import_servers env b d2 servers = Some (as', d2)" "\<forall>a \<in> set as'. ia_kind a = ''unchanged''"
    using import_all_settled [of servers env d2 b] by blast
  obtain sa' where 4: "import_settings b d2 settings = (sa', d2)" "\<forall>a \<in> set sa'. ia_kind a = ''unchanged''"
    using import_settings_settle [OF 2 assms(6), of b] by blast
  have "project_errors env d2 servers = project_errors env d servers" using s f by (simp add: project_errors_def project_of_slug_def cong: option.case_cong)
  then have errs2: "errors @ project_errors env d2 servers = []" using errs by simp
  show ?thesis unfolding d' using assms(4) errs2 3 4 by (auto simp: plan_import_def Let_def)
qed

subsection \<open>Witnesses\<close>

definition sample_file :: json where
  "sample_file = JObj [(''version'', JInt 1), (''settings'', JObj [(''auth_mode'', JStr ''enforced''), (''aggregate_enabled'', JBool True)]),
     (''servers'', JList [JObj [(''slug'', JStr ''git''), (''name'', JStr ''Git''), (''upstream_url'', JStr ''http://git:9000'')],
        JObj [(''slug'', JStr ''files''), (''upstream_url'', JStr ''http://files''), (''project_slug'', JStr ''default'')]])]"

definition sample_config_env :: config_env where
  "sample_config_env = \<lparr>cf_regex = literal_env, cf_yaml_load = (\<lambda>_. Inr sample_file), cf_yaml_dump = (\<lambda>_. ''''),
     cf_policy = (\<lambda>_. Inr default_policy), cf_urlparse = (\<lambda>u. (''http'', ''host'', Some ''host'')), cf_link_local = (\<lambda>_. False),
     cf_fr = (\<lambda>_. ''0.0''), cf_utcnow = ''2025-01-01T00:00:00Z'', cf_le = (\<le>)\<rparr>"

definition sample_config_db :: config_db where
  "sample_config_db = \<lparr>cd_servers =
       [\<lparr>sv_id = 1, sv_slug = ''git'', sv_name = ''git'', sv_upstream_url = ''http://git'', sv_enabled = True, sv_in_aggregate = True,
         sv_upstream_protocol = None, sv_discover_json = None, sv_upstream_auth_header = None, sv_credential_mode = ''none'', sv_project_id = Some 1\<rparr>,
        \<lparr>sv_id = 2, sv_slug = ''web'', sv_name = ''web'', sv_upstream_url = ''http://web'', sv_enabled = True, sv_in_aggregate = True,
         sv_upstream_protocol = None, sv_discover_json = None, sv_upstream_auth_header = None, sv_credential_mode = ''none'', sv_project_id = Some 1\<rparr>],
     cd_store = \<lparr>st_policies = [\<lparr>po_server_id = 1, po_mode = ''passthrough'', po_rate_limit = None, po_dlp_config = None\<rparr>,
       \<lparr>po_server_id = 2, po_mode = ''passthrough'', po_rate_limit = None, po_dlp_config = None\<rparr>], st_tools = [], st_params = []\<rparr>,
     cd_settings = [(''auth_mode'', ''open'')], cd_projects = [(1, ''default'')], cd_next_server = 3\<rparr>"

definition sample_parsed :: "parsed_server list" where
  "sample_parsed = (case parse_file sample_config_env '''' of Some (ss, _) \<Rightarrow> ss | None \<Rightarrow> [])"

lemma sample_parse:
  "parse_file sample_config_env '''' = Some (sample_parsed, [(''auth_mode'', ''enforced''), (''aggregate_enabled'', ''True'')], [])"
  by code_simp

lemma sample_plan: "\<exists>plan d'. plan_import sample_config_env True sample_config_db '''' = Some (plan, d') \<and> ip_errors plan = [] \<and> length (ip_actions plan) = 3"
proof -
  have "case plan_import sample_config_env True sample_config_db '''' of Some (plan, d') \<Rightarrow> ip_errors plan = [] \<and> length (ip_actions plan) = 3 | None \<Rightarrow> False"
    by code_simp
  then show ?thesis by (auto split: option.splits)
qed

lemma sample_config_wf: "config_wf sample_config_db" by code_simp

theorem dry_run_predicts_import_witness:
  "\<exists>plan d'. plan_import sample_config_env True sample_config_db '''' = Some (plan, d') \<and> length (ip_actions plan) = 3
     \<and> plan_import sample_config_env False sample_config_db '''' = Some (plan, sample_config_db) \<and> agree_on sample_config_env sample_config_db d' ''web''"
proof -
  from sample_plan obtain plan d' where p: "plan_import sample_config_env True sample_config_db '''' = Some (plan, d')" "length (ip_actions plan) = 3" by blast
  have "distinct (map ps_slug sample_parsed)" "''web'' \<notin> set (map ps_slug sample_parsed)" by code_simp+
  with dry_run_predicts_import [OF p(1) sample_config_wf sample_parse] p show ?thesis by blast
qed


text \<open>A switch given as an unquoted boolean is stored as \<open>True\<close>, which the readers of the setting, who compare with \<open>true\<close>, take as off.\<close>

lemma boolean_setting_text:
  "key \<in> set EXPORTABLE_SETTINGS \<Longrightarrow> fst (parse_settings env [(key, JBool True)]) = [(key, ''True'')]"
  by (simp add: py_str_def)

end
