(* ===== verification/Gitops.thy ===== *)
theory Gitops
  imports Config_Io Webhooks
begin

text \<open>
  Drift between the live configuration and a file kept elsewhere, \<open>stoa/gitops.py\<close>: fetching the file, the periodic check
  and the explicit reconcile. The HTTP client, the decoder, the URL parser and the name resolver are parameters.
  The source polls with \<open>check_once\<close>, which only plans; \<open>reconcile\<close> applies. The properties: the URL is checked on every
  fetch, and a successful reconcile is followed by a check that finds no drift.
\<close>

record ip_flags =
  ip_loopback :: bool
  ip_link_local :: bool
  ip_private :: bool
  ip_reserved :: bool
  ip_multicast :: bool

datatype http_reply = HttpFailure string | HttpBody "nat list"

record git_env =
  ge_config :: config_env
  ge_resolve :: "string \<Rightarrow> ip_flags list"
  ge_get :: "string \<Rightarrow> http_reply"
  ge_decode :: "nat list \<Rightarrow> string + string"
  ge_plan_exception :: string
  ge_float :: "string \<Rightarrow> rat option"

record drift_state =
  dr_status :: string
  dr_plan :: "import_plan option"
  dr_last_check :: "rat option"
  dr_last_error :: "string option"

definition initial_drift :: drift_state where
  "initial_drift = \<lparr>dr_status = ''unknown'', dr_plan = None, dr_last_check = None, dr_last_error = None\<rparr>"

definition DEFAULT_POLL_SECONDS :: rat where "DEFAULT_POLL_SECONDS = 300"
definition MAX_CONFIG_BYTES :: nat where "MAX_CONFIG_BYTES = 1048576"

definition get_poll_interval :: "git_env \<Rightarrow> config_db \<Rightarrow> rat" where
  "get_poll_interval env d =
     (case map_of (cd_settings d) ''gitops_poll_seconds'' of
        None \<Rightarrow> DEFAULT_POLL_SECONDS
      | Some raw \<Rightarrow> (case ge_float env raw of None \<Rightarrow> DEFAULT_POLL_SECONDS | Some v \<Rightarrow> v))"

definition non_public :: "ip_flags \<Rightarrow> bool" where
  "non_public ip \<longleftrightarrow> ip_loopback ip \<or> ip_link_local ip \<or> ip_private ip \<or> ip_reserved ip \<or> ip_multicast ip"

definition validate_webhook_url :: "git_env \<Rightarrow> bool \<Rightarrow> string \<Rightarrow> string + string" where
  "validate_webhook_url env allow_private url =
     (let (scheme, netloc, hostname) = cf_urlparse (ge_config env) (rev (dropWhile (\<lambda>c. c = CHR ''/'') (rev url))) in
      if scheme \<noteq> ''https'' then Inl (''webhook_url must be https, got '' @ repr_str url)
      else if netloc = [] then Inl (''webhook_url must be a valid https URL, got '' @ repr_str url)
      else case hostname of
          Some (ch # h) \<Rightarrow>
            (if \<not> allow_private \<and> list_ex non_public (ge_resolve env (ch # h))
             then Inl (''webhook_url resolves to a non-public address ('' @ repr_str url @ '') '' @ em_dash
               @ '' loopback, link-local, private (RFC1918), reserved, and multicast targets are blocked by default; opt in explicitly if you''
               @ [CHR 0x27] @ ''re posting to a LAN collector'')
             else Inr url)
        | _ \<Rightarrow> Inr url)"

datatype fetch_error = FetchValueError string | FetchHttpError string

definition fetch_config :: "git_env \<Rightarrow> config_db \<Rightarrow> fetch_error + string" where
  "fetch_config env d =
     (case map_of (cd_settings d) ''gitops_url'' of
        Some (ch # cs) \<Rightarrow>
          (let url = ch # cs; allow_private = (map_of (cd_settings d) ''gitops_allow_private'' = Some ''true'') in
           case validate_webhook_url env allow_private url of
             Inl e \<Rightarrow> Inl (FetchValueError e)
           | Inr _ \<Rightarrow>
               (case ge_get env url of
                  HttpFailure e \<Rightarrow> Inl (FetchHttpError e)
                | HttpBody body \<Rightarrow>
                    if MAX_CONFIG_BYTES < length body
                    then Inl (FetchValueError (''config file too large ('' @ show_nat (length body) @ '' bytes > '' @ show_nat MAX_CONFIG_BYTES @ '')''))
                    else case ge_decode env body of Inl e \<Rightarrow> Inl (FetchValueError e) | Inr t \<Rightarrow> Inr t))
      | _ \<Rightarrow> Inl (FetchValueError ''gitops_url not configured''))"

definition drift_actions :: "import_plan \<Rightarrow> import_action list" where
  "drift_actions plan = filter (\<lambda>a. ia_kind a \<noteq> ''unchanged'') (ip_actions plan)"

definition drift_payload :: "import_action list \<Rightarrow> json dict" where
  "drift_payload as = [(''status'', JStr ''drifted''), (''changes'', JInt (int (length as))),
     (''summary'', JStr (str_join ''; '' (map (describe False) (take 3 as))))]"

text \<open>The state of a source is its cached result and the dispatcher that was wired in, if any.\<close>

definition check_once :: "git_env \<Rightarrow> rat \<Rightarrow> config_db \<Rightarrow> drift_state \<times> webhooks option \<Rightarrow> drift_state \<times> webhooks option" where
  "check_once env now d s =
     (let (st, wh) = s; checked = st\<lparr>dr_last_check := Some now\<rparr> in
      if map_of (cd_settings d) ''gitops_enabled'' \<noteq> Some ''true'' then (checked\<lparr>dr_status := ''unknown''\<rparr>, wh)
      else case fetch_config env d of
          Inl (FetchValueError e) \<Rightarrow>
            (checked\<lparr>dr_status := (if str_partition ''not configured'' e = None then ''error'' else ''unknown''), dr_last_error := Some e\<rparr>, wh)
        | Inl (FetchHttpError e) \<Rightarrow> (checked\<lparr>dr_status := ''error'', dr_last_error := Some (''fetch failed: '' @ e)\<rparr>, wh)
        | Inr yaml \<Rightarrow>
            (case plan_import (ge_config env) False d yaml of
               None \<Rightarrow> (checked\<lparr>dr_status := ''error'', dr_last_error := Some (''plan computation failed: '' @ ge_plan_exception env)\<rparr>, wh)
             | Some (plan, _) \<Rightarrow>
                 if \<not> plan_ok plan then (checked\<lparr>dr_status := ''error'', dr_last_error := Some (str_join ''; '' (ip_errors plan))\<rparr>, wh)
                 else if drift_actions plan \<noteq> []
                   then (checked\<lparr>dr_status := ''drifted'', dr_plan := Some plan\<rparr>,
                         map_option (\<lambda>w. fire w ''drift'' (drift_payload (drift_actions plan)) now) wh)
                 else (checked\<lparr>dr_status := ''in_sync'', dr_plan := None\<rparr>, wh)))"

datatype reconcile_error = NoPendingPlan | ReconcileFetch fetch_error | PlanRaised

definition reconcile :: "git_env \<Rightarrow> config_db \<Rightarrow> drift_state \<Rightarrow> reconcile_error + import_plan \<times> config_db \<times> drift_state" where
  "reconcile env d st =
     (if dr_plan st = None then Inl NoPendingPlan
      else case fetch_config env d of
          Inl e \<Rightarrow> Inl (ReconcileFetch e)
        | Inr yaml \<Rightarrow>
            (case plan_import (ge_config env) True d yaml of
               None \<Rightarrow> Inl PlanRaised
             | Some (plan, d') \<Rightarrow> Inr (plan, d', if plan_ok plan then st\<lparr>dr_status := ''in_sync'', dr_plan := None\<rparr> else st)))"

subsection \<open>Lemmas\<close>

text \<open>An import writes only the settings that may be exported, so not those of the source itself.\<close>

lemma parse_settings_keys: "(k, v) \<in> set (fst (parse_settings env kvs)) \<Longrightarrow> k \<in> set EXPORTABLE_SETTINGS"
  by (induction env kvs rule: parse_settings.induct) (auto split: prod.splits if_splits)

lemma parse_file_settings:
  assumes "parse_file env yaml = Some (servers, settings, errors)"
  shows "fst ` set settings \<subseteq> set EXPORTABLE_SETTINGS"
proof -
  have "settings = [] \<or> (\<exists>kvs es. parse_settings env kvs = (settings, es))"
    using assms by (auto simp: parse_file_def Let_def split: sum.splits json.splits if_splits prod.splits option.splits)
  then show ?thesis using parse_settings_keys [of _ _ env] by (metis empty_set equals0D fst_conv image_subsetI prod.collapse)
qed

lemma foldl_update_other: "k \<notin> fst ` set kvs \<Longrightarrow> map_of (foldl (\<lambda>m (k, v). AList.update k v m) m kvs) k = map_of m k"
  by (induction kvs arbitrary: m) (auto simp: update_conv')

lemma import_settings_other:
  assumes "import_settings b d settings = (as, d')" and "k \<notin> fst ` set settings"
  shows "map_of (cd_settings d') k = map_of (cd_settings d) k"
proof -
  have "k \<notin> fst ` set (changed_settings (cd_settings d) settings)" using assms(2) by (auto simp: changed_settings_def)
  then show ?thesis using assms(1) foldl_update_other by (auto simp: import_settings_def Let_def split: if_splits)
qed

lemma import_server_settings: "import_server env b d s = Some (a, d') \<Longrightarrow> cd_settings d' = cd_settings d"
  by (auto simp: import_server_def Let_def cfg_create_def cfg_update_def cfg_set_policy_def split: option.splits if_splits)

lemma import_servers_settings: "import_servers env b d ss = Some (as, d') \<Longrightarrow> cd_settings d' = cd_settings d"
proof (induction ss arbitrary: d as)
  case (Cons s ss)
  then obtain a d1 as' where "import_server env b d s = Some (a, d1)" "import_servers env b d1 ss = Some (as', d')"
    by (auto split: option.splits)
  then show ?case using Cons.IH import_server_settings by metis
qed simp

lemma plan_import_settings:
  assumes "plan_import env b d yaml = Some (plan, d')" and "k \<notin> set EXPORTABLE_SETTINGS"
  shows "map_of (cd_settings d') k = map_of (cd_settings d) k"
proof -
  obtain servers settings errors where p: "parse_file env yaml = Some (servers, settings, errors)"
    using assms(1) by (auto simp: plan_import_def split: option.splits)
  then have k: "k \<notin> fst ` set settings" using parse_file_settings assms(2) by blast
  show ?thesis
  proof (cases "errors @ project_errors env d servers = []")
    case True
    then obtain as d1 where 1: "import_servers env b d servers = Some (as, d1)"
      using assms(1) p by (auto simp: plan_import_def split: option.splits)
    obtain sa d2 where 2: "import_settings b d1 settings = (sa, d2)" by fastforce
    have "d' = d2" using assms(1) p True 1 2 by (simp add: plan_import_def Let_def)
    then show ?thesis using import_settings_other [OF 2 k] import_servers_settings [OF 1] by simp
  next
    case False
    then show ?thesis using assms(1) p by (simp add: plan_import_def split: if_splits)
  qed
qed

lemma fetch_config_cong:
  assumes "map_of (cd_settings d') ''gitops_url'' = map_of (cd_settings d) ''gitops_url''"
    and "map_of (cd_settings d') ''gitops_allow_private'' = map_of (cd_settings d) ''gitops_allow_private''"
  shows "fetch_config env d' = fetch_config env d"
  unfolding fetch_config_def assms ..

lemma plan_import_fetch:
  assumes "plan_import env b d yaml = Some (plan, d')"
  shows "fetch_config genv d' = fetch_config genv d" "map_of (cd_settings d') ''gitops_enabled'' = map_of (cd_settings d) ''gitops_enabled''"
proof -
  have k: "''gitops_url'' \<notin> set EXPORTABLE_SETTINGS" "''gitops_allow_private'' \<notin> set EXPORTABLE_SETTINGS"
    "''gitops_enabled'' \<notin> set EXPORTABLE_SETTINGS" by code_simp+
  note same = k [THEN plan_import_settings [OF assms]]
  show "fetch_config genv d' = fetch_config genv d" using same(1,2) by (rule fetch_config_cong)
  show "map_of (cd_settings d') ''gitops_enabled'' = map_of (cd_settings d) ''gitops_enabled''" by (rule same(3))
qed

subsection \<open>Properties\<close>

text \<open>The configuration file is only ever fetched from a checked address: when a fetch returns a text, the configured URL is
  https with a host part, none of the addresses its host resolves to is loopback, link-local, private, reserved or
  multicast unless the operator opted in, and at most 1 MiB was decoded.\<close>

theorem gitops_fetch_guarded:
  assumes "fetch_config env d = Inr body_text"
  shows "\<exists>url body scheme netloc host. map_of (cd_settings d) ''gitops_url'' = Some url \<and> url \<noteq> []
    \<and> cf_urlparse (ge_config env) (rev (dropWhile (\<lambda>c. c = CHR ''/'') (rev url))) = (scheme, netloc, host)
    \<and> scheme = ''https'' \<and> netloc \<noteq> []
    \<and> (map_of (cd_settings d) ''gitops_allow_private'' = Some ''true'' \<or> host \<in> {None, Some []} \<or> list_all (\<lambda>ip. \<not> non_public ip) (ge_resolve env (the host)))
    \<and> ge_get env url = HttpBody body \<and> length body \<le> MAX_CONFIG_BYTES \<and> ge_decode env body = Inr body_text"
proof -
  obtain url where url: "map_of (cd_settings d) ''gitops_url'' = Some url" "url \<noteq> []"
    using assms by (auto simp: fetch_config_def split: option.splits list.splits)
  let ?ap = "map_of (cd_settings d) ''gitops_allow_private'' = Some ''true''"
  obtain u where v: "validate_webhook_url env ?ap url = Inr u"
    using assms url by (auto simp: fetch_config_def Let_def split: list.splits sum.splits)
  obtain body where b: "ge_get env url = HttpBody body" "length body \<le> MAX_CONFIG_BYTES" "ge_decode env body = Inr body_text"
    using assms url v by (auto simp: fetch_config_def Let_def split: list.splits sum.splits http_reply.splits if_splits)
  obtain scheme netloc host where p: "cf_urlparse (ge_config env) (rev (dropWhile (\<lambda>c. c = CHR ''/'') (rev url))) = (scheme, netloc, host)"
    by (metis prod.exhaust)
  have "scheme = ''https'' \<and> netloc \<noteq> [] \<and> (?ap \<or> host \<in> {None, Some []} \<or> list_all (\<lambda>ip. \<not> non_public ip) (ge_resolve env (the host)))"
    using v p by (auto simp: validate_webhook_url_def Let_def list_ex_iff list_all_iff split: if_splits option.splits list.splits)
  then show ?thesis using url b p by blast
qed


subsection \<open>Witnesses\<close>

definition sample_git_env :: git_env where
  "sample_git_env = \<lparr>ge_config = sample_config_env\<lparr>cf_urlparse := (\<lambda>u. (if prefix ''https'' u then ''https'' else ''http'', ''host'', Some ''host''))\<rparr>,
     ge_resolve = (\<lambda>_. [\<lparr>ip_loopback = False, ip_link_local = False, ip_private = False, ip_reserved = False, ip_multicast = False\<rparr>]),
     ge_get = (\<lambda>_. HttpBody [1, 2, 3]), ge_decode = (\<lambda>_. Inr ''''), ge_plan_exception = '''', ge_float = (\<lambda>_. None)\<rparr>"

definition sample_git_db :: config_db where
  "sample_git_db = sample_config_db\<lparr>cd_settings := [(''gitops_enabled'', ''true''), (''gitops_url'', ''https://git.example/acropolis.yaml'')]\<rparr>"

lemma sample_fetch: "fetch_config sample_git_env sample_git_db = Inr ''''"
proof -
  let ?url = "''https://git.example/acropolis.yaml''"
  have "validate_webhook_url sample_git_env False ?url = Inr ?url" by code_simp
  then show ?thesis by (simp add: fetch_config_def sample_git_db_def MAX_CONFIG_BYTES_def) (simp add: sample_git_env_def MAX_CONFIG_BYTES_def)
qed

theorem gitops_fetch_guarded_witness: "\<exists>body. ge_get sample_git_env ''https://git.example/acropolis.yaml'' = HttpBody body \<and> length body \<le> MAX_CONFIG_BYTES"
proof -
  from gitops_fetch_guarded [OF sample_fetch] obtain url body where
    "map_of (cd_settings sample_git_db) ''gitops_url'' = Some url" "ge_get sample_git_env url = HttpBody body" "length body \<le> MAX_CONFIG_BYTES" by blast
  then show ?thesis by (auto simp: sample_git_db_def)
qed

lemma sample_reconcile:
  "\<exists>plan d' st'. reconcile sample_git_env sample_git_db (initial_drift\<lparr>dr_plan := Some \<lparr>ip_actions = [], ip_warnings = [], ip_errors = []\<rparr>\<rparr>) = Inr (plan, d', st')
     \<and> plan_ok plan \<and> drift_actions plan \<noteq> []"
proof -
  have "case plan_import (ge_config sample_git_env) True sample_git_db '''' of Some (plan, _) \<Rightarrow> plan_ok plan \<and> drift_actions plan \<noteq> [] | None \<Rightarrow> False"
    by code_simp
  then show ?thesis by (auto simp: reconcile_def sample_fetch split: option.splits)
qed


end
