(* ===== verification/Sessions.thy ===== *)
theory Sessions
  imports Py_Value
begin

text \<open>
  Session tokens, \<open>archon/sessions.py\<close>: base64 without padding as the standard library encodes and decodes
  it, and the token \<open>payload.signature\<close>. Bytes and characters are both \<open>char\<close>. HMAC-SHA256 is the parameter
  \<open>ss_hmac\<close>, the JSON printer and reader are \<open>ss_dumps\<close> and \<open>ss_loads\<close>, and \<open>ss_now\<close> is \<open>time.time()\<close>.
\<close>

subsection \<open>Base64\<close>

definition b64_char :: "nat \<Rightarrow> char" where
  "b64_char n = (if n < 26 then char_of (65 + n) else if n < 52 then char_of (71 + n) else if n < 62 then char_of (n - 4)
     else if n = 62 then CHR ''-'' else CHR ''_'')"

text \<open>The decoder accepts both alphabets: \<open>urlsafe_b64decode\<close> first maps \<open>-_\<close> to \<open>+/\<close>.\<close>

definition b64_val :: "char \<Rightarrow> nat option" where
  "b64_val c = (let n = of_char c in
     if is_upper_az c then Some (n - 65) else if is_lower_az c then Some (n - 71) else if is_digit c then Some (n + 4)
     else if c = CHR ''-'' \<or> c = CHR ''+'' then Some 62 else if c = CHR ''_'' \<or> c = CHR ''/'' then Some 63 else None)"

fun urlsafe_b64encode :: "nat list \<Rightarrow> string" where
  "urlsafe_b64encode [] = []"
| "urlsafe_b64encode [a] = [b64_char (a div 4), b64_char (a mod 4 * 16), CHR ''='', CHR ''='']"
| "urlsafe_b64encode [a, b] = [b64_char (a div 4), b64_char (a mod 4 * 16 + b div 16), b64_char (b mod 16 * 4), CHR ''='']"
| "urlsafe_b64encode (a # b # c # r) = b64_char (a div 4) # b64_char (a mod 4 * 16 + b div 16) #
     b64_char (b mod 16 * 4 + c div 64) # b64_char (c mod 64) # urlsafe_b64encode r"

definition rstrip_char :: "char \<Rightarrow> string \<Rightarrow> string" where
  "rstrip_char c s = rev (dropWhile (\<lambda>x. x = c) (rev s))"

definition b64encode :: "string \<Rightarrow> string" where
  "b64encode data = rstrip_char (CHR ''='') (urlsafe_b64encode (map of_char data))"

text \<open>The loop of \<open>binascii.a2b_base64\<close> outside strict mode: the position in the quad, the bits left over and the
  pads seen. Foreign characters are skipped, and a complete pad ends the data.\<close>

fun a2b_base64 :: "nat \<Rightarrow> nat \<Rightarrow> nat \<Rightarrow> string \<Rightarrow> string option" where
  "a2b_base64 q left pads [] = (if q = 0 then Some [] else None)"
| "a2b_base64 q left pads (c # cs) =
     (if c = CHR ''='' then (if 2 \<le> q \<and> 4 \<le> q + Suc pads then Some [] else a2b_base64 q left (if 2 \<le> q then Suc pads else pads) cs)
      else case b64_val c of
          None \<Rightarrow> a2b_base64 q left pads cs
        | Some v \<Rightarrow>
            if q = 0 then a2b_base64 1 v 0 cs
            else if q = 1 then map_option (Cons (char_of (left * 4 + v div 16))) (a2b_base64 2 (v mod 16) 0 cs)
            else if q = 2 then map_option (Cons (char_of (left * 16 + v div 4))) (a2b_base64 3 (v mod 4) 0 cs)
            else map_option (Cons (char_of (left * 64 + v))) (a2b_base64 0 0 0 cs))"

definition is_ascii :: "string \<Rightarrow> bool" where
  "is_ascii s \<longleftrightarrow> list_all (\<lambda>c. (of_char c :: nat) < 128) s"

text \<open>\<open>None\<close>: an exception. The padding is \<open>-len(data) % 4\<close>.\<close>

definition b64decode :: "string \<Rightarrow> string option" where
  "b64decode data = (if is_ascii data then a2b_base64 0 0 0 (data @ replicate (nat (- int (length data) mod 4)) (CHR ''='')) else None)"

subsection \<open>Tokens\<close>

definition SESSION_COOKIE_NAME :: string where "SESSION_COOKIE_NAME = ''acropolis_session''"
definition SESSION_MAX_AGE_SECONDS :: rat where "SESSION_MAX_AGE_SECONDS = 7 * 24 * 3600"
definition DEFAULT_SESSION_VERSION :: int where "DEFAULT_SESSION_VERSION = 0"

record session_env =
  ss_hmac :: "string \<Rightarrow> string \<Rightarrow> string"
  ss_dumps :: "json \<Rightarrow> string"
  ss_loads :: "string \<Rightarrow> json option"
  ss_now :: rat

definition session_payload :: "session_env \<Rightarrow> int \<Rightarrow> int option \<Rightarrow> int \<Rightarrow> json dict" where
  "session_payload env session_version user_id user_session_version =
     [(''iat'', JFloat (Fin (ss_now env))), (''session_version'', JInt session_version),
      (''user_id'', case user_id of None \<Rightarrow> JNull | Some i \<Rightarrow> JInt i), (''user_session_version'', JInt user_session_version)]"

definition create_session_token :: "session_env \<Rightarrow> string \<Rightarrow> int \<Rightarrow> int option \<Rightarrow> int \<Rightarrow> string" where
  "create_session_token env secret session_version user_id user_session_version =
     (let payload_b64 = b64encode (ss_dumps env (JObj (session_payload env session_version user_id user_session_version)))
      in payload_b64 @ ''.'' @ b64encode (ss_hmac env secret payload_b64))"

text \<open>\<open>time.time() - issued_at > SESSION_MAX_AGE_SECONDS\<close> on floats.\<close>

definition session_expired :: "rat \<Rightarrow> pyfloat \<Rightarrow> bool" where
  "session_expired now iat = (case iat of Fin q \<Rightarrow> float_less (Fin SESSION_MAX_AGE_SECONDS) (round_double (now - q))
     | NegInf \<Rightarrow> True | PosInf \<Rightarrow> False | NaN \<Rightarrow> False)"

text \<open>\<open>isinstance(v, int)\<close> holds of booleans too.\<close>

definition int_instance :: "json \<Rightarrow> int option" where
  "int_instance v = (case v of JInt n \<Rightarrow> Some n | JBool b \<Rightarrow> Some (if b then 1 else 0) | _ \<Rightarrow> None)"

definition version_current :: "json dict \<Rightarrow> string \<Rightarrow> int \<Rightarrow> bool" where
  "version_current payload key current =
     (int_instance (dict_get payload key (JInt DEFAULT_SESSION_VERSION)) = Some current)"

text \<open>\<open>None\<close> is an uncaught exception: a signed payload that is not an object, or an issue time too large for a
  float.\<close>

definition verify_session_token :: "session_env \<Rightarrow> string \<Rightarrow> string \<Rightarrow> int \<Rightarrow> int option \<Rightarrow> bool option" where
  "verify_session_token env token secret current current_user =
     (case str_partition ''.'' token of
        None \<Rightarrow> Some False
      | Some (payload_b64, signature_b64) \<Rightarrow>
          (case b64decode signature_b64 of
             None \<Rightarrow> Some False
           | Some actual \<Rightarrow>
               if ss_hmac env secret payload_b64 \<noteq> actual then Some False
               else case Option.bind (b64decode payload_b64) (ss_loads env) of
                   None \<Rightarrow> Some False
                 | Some (JObj payload) \<Rightarrow>
                     (let rest = version_current payload ''session_version'' current \<and>
                        (case current_user of None \<Rightarrow> True | Some u \<Rightarrow> version_current payload ''user_session_version'' u) in
                      case dict_get payload ''iat'' JNull of
                        JFloat f \<Rightarrow> Some (\<not> session_expired (ss_now env) f \<and> rest)
                      | JNull \<Rightarrow> Some False | JStr _ \<Rightarrow> Some False | JList _ \<Rightarrow> Some False | JObj _ \<Rightarrow> Some False
                      | v \<Rightarrow> (case py_float v of Inl _ \<Rightarrow> None | Inr f \<Rightarrow> Some (\<not> session_expired (ss_now env) f \<and> rest)))
                 | Some _ \<Rightarrow> None))"

definition decode_session_payload :: "session_env \<Rightarrow> string \<Rightarrow> json dict option" where
  "decode_session_payload env token =
     (case str_partition ''.'' token of
        None \<Rightarrow> None
      | Some (payload_b64, _) \<Rightarrow> Option.bind (Option.bind (b64decode payload_b64) (ss_loads env)) as_obj)"

subsection \<open>The round trip of base64\<close>

lemma of_b64_char:
  "n < 64 \<Longrightarrow> (of_char (b64_char n) :: nat) = (if n < 26 then 65 + n else if n < 52 then 71 + n else if n < 62 then n - 4
     else if n = 62 then 45 else 95)"
  by (simp add: b64_char_def)

lemma char_neq_of_char: "(of_char c :: nat) \<noteq> of_char d \<Longrightarrow> c \<noteq> d"
  by auto

lemma b64_char_plain: "n < 64 \<Longrightarrow> b64_char n \<noteq> CHR ''='' \<and> b64_char n \<noteq> CHR ''.'' \<and> (of_char (b64_char n) :: nat) < 128"
  by (intro conjI char_neq_of_char) (auto simp: of_b64_char)

lemma b64_val_char: "n < 64 \<Longrightarrow> b64_val (b64_char n) = Some n"
proof -
  assume n: "n < 64"
  have "b64_char n = CHR ''-''" if "\<not> n < 62" "n = 62" using that by (simp add: b64_char_def)
  moreover have "b64_char n = CHR ''_''" if "\<not> n < 62" "n \<noteq> 62" using that by (simp add: b64_char_def)
  ultimately show ?thesis using n
    by (auto simp: b64_val_def of_b64_char is_upper_az_def is_lower_az_def is_digit_def Let_def)
qed

lemmas b64_char_simps = b64_val_char b64_char_plain [THEN conjunct1]

lemma b64_chars_plain:
  "list_all (\<lambda>n. n < 64) ns \<Longrightarrow> CHR ''='' \<notin> set (map b64_char ns) \<and> CHR ''.'' \<notin> set (map b64_char ns) \<and> is_ascii (map b64_char ns)"
  using b64_char_plain by (fastforce simp: is_ascii_def list_all_iff)

lemma a2b_encode: "list_all (\<lambda>n. n < 256) ns \<Longrightarrow> a2b_base64 0 0 p (urlsafe_b64encode ns) = Some (map char_of ns)"
proof (induction ns arbitrary: p rule: urlsafe_b64encode.induct)
  case (2 a)
  then have "a div 4 < 64" "a mod 4 * 16 < 64" by auto
  then show ?case by (simp add: b64_char_simps)
next
  case (3 a b)
  then have "a div 4 < 64" "a mod 4 * 16 + b div 16 < 64" "b mod 16 * 4 < 64" by auto
  moreover have "a div 4 * 4 + (a mod 4 * 16 + b div 16) div 16 = a" "(a mod 4 * 16 + b div 16) mod 16 * 16 + b mod 16 * 4 div 4 = b" using 3 by auto
  ultimately show ?case by (simp add: b64_char_simps)
next
  case (4 a b c r)
  then have "a div 4 < 64" "a mod 4 * 16 + b div 16 < 64" "b mod 16 * 4 + c div 64 < 64" "c mod 64 < 64" by auto
  moreover have "a div 4 * 4 + (a mod 4 * 16 + b div 16) div 16 = a" "(a mod 4 * 16 + b div 16) mod 16 * 16 + (b mod 16 * 4 + c div 64) div 4 = b"
    "(b mod 16 * 4 + c div 64) mod 4 * 64 + c mod 64 = c" using 4 by auto
  ultimately show ?case using 4 by (simp add: b64_char_simps)
qed simp

lemma encode_shape:
  "list_all (\<lambda>n. n < 256) ns \<Longrightarrow> \<exists>body k. urlsafe_b64encode ns = body @ replicate k (CHR ''='') \<and> k < 3 \<and> (length body + k) mod 4 = 0
     \<and> CHR ''='' \<notin> set body \<and> CHR ''.'' \<notin> set body \<and> is_ascii body"
proof (induction ns rule: urlsafe_b64encode.induct)
  case (2 a)
  let ?g = "map b64_char [a div 4, a mod 4 * 16]"
  from 2 have "list_all (\<lambda>n. n < 64) [a div 4, a mod 4 * 16]" by auto
  from b64_chars_plain [OF this] show ?case by (intro exI [of _ ?g] exI [of _ "Suc (Suc 0)"]) simp
next
  case (3 a b)
  let ?g = "map b64_char [a div 4, a mod 4 * 16 + b div 16, b mod 16 * 4]"
  from 3 have "list_all (\<lambda>n. n < 64) [a div 4, a mod 4 * 16 + b div 16, b mod 16 * 4]" by auto
  from b64_chars_plain [OF this] show ?case by (intro exI [of _ ?g] exI [of _ 1]) simp
next
  case (4 a b c r)
  let ?g = "map b64_char [a div 4, a mod 4 * 16 + b div 16, b mod 16 * 4 + c div 64, c mod 64]"
  from 4 have "list_all (\<lambda>n. n < 64) [a div 4, a mod 4 * 16 + b div 16, b mod 16 * 4 + c div 64, c mod 64]" by auto
  note g = b64_chars_plain [OF this]
  from 4 obtain body k where "urlsafe_b64encode r = body @ replicate k (CHR ''='')" "k < 3" "(length body + k) mod 4 = 0"
    "CHR ''='' \<notin> set body" "CHR ''.'' \<notin> set body" "is_ascii body" by auto
  then show ?case using g by (intro exI [of _ "?g @ body"] exI [of _ k]) (auto simp: is_ascii_def)
qed (auto simp: is_ascii_def intro: exI [of _ "[]"])

lemma rstrip_replicate: "c \<notin> set body \<Longrightarrow> rstrip_char c (body @ replicate k c) = body"
  by (cases body rule: rev_cases) (auto simp: rstrip_char_def dropWhile_append3 dropWhile_append)

lemma of_char_bytes: "list_all (\<lambda>n :: nat. n < 256) (map of_char data)"
  by (simp add: list_all_iff of_char_def)

lemma b64_round_trip [simp]: "b64decode (b64encode data) = Some data"
proof -
  obtain body k where s: "urlsafe_b64encode (map of_char data) = body @ replicate k (CHR ''='')" "k < 3" "(length body + k) mod 4 = 0"
    "CHR ''='' \<notin> set body" "is_ascii body" using encode_shape [OF of_char_bytes [of data]] by (elim exE conjE)
  have "(- int (length body)) mod 4 = int k" using s(2,3) by presburger
  then show ?thesis using s a2b_encode [OF of_char_bytes, of 0 data] rstrip_replicate [OF s(4), of k]
    by (simp add: b64decode_def b64encode_def comp_def)
qed

lemma b64encode_no_dot: "CHR ''.'' \<notin> set (b64encode data)"
proof -
  obtain body k where "urlsafe_b64encode (map of_char data) = body @ replicate k (CHR ''='')" "CHR ''='' \<notin> set body" "CHR ''.'' \<notin> set body"
    using encode_shape [OF of_char_bytes [of data]] by blast
  then show ?thesis using rstrip_replicate [of "CHR ''=''" body k] by (simp add: b64encode_def)
qed

lemma partition_dot: "CHR ''.'' \<notin> set a \<Longrightarrow> str_partition ''.'' (a @ CHR ''.'' # b) = Some (a, b)"
  by (induction a) auto

subsection \<open>Printed integers read back\<close>

lemma digit_char: "k < 10 \<Longrightarrow> is_digit (char_of (48 + k)) \<and> digit_val (char_of (48 + k)) = int k"
proof -
  assume "k < 10"
  then have "(of_char (char_of (48 + k) :: char) :: nat) = 48 + k" by simp
  moreover from this have "(of_char (char_of (48 + k) :: char) :: int) = 48 + int k" by (metis of_nat_add of_nat_numeral of_nat_of_char)
  ultimately show ?thesis using \<open>k < 10\<close> by (simp add: is_digit_def digit_val_def)
qed

lemma show_nat_digits: "show_nat n \<noteq> [] \<and> list_all is_digit (show_nat n)"
proof (induction n rule: show_nat.induct)
  case (1 n)
  then show ?case by (cases "n < 10") (simp_all add: show_nat.simps [of n] digit_char)
qed

lemma digits_val_show: "digits_val (show_nat n) = int n"
proof (induction n rule: show_nat.induct)
  case (1 n)
  show ?case
  proof (cases "n < 10")
    case True
    then show ?thesis by (simp add: show_nat.simps [of n] digits_val_def digit_char)
  next
    case False
    then have "digits_val (show_nat n) = 10 * digits_val (show_nat (n div 10)) + int (n mod 10)"
      by (simp add: show_nat.simps [of n] digits_val_def digit_char)
    then show ?thesis using 1 False by presburger
  qed
qed

lemma digits_tail_all: "list_all is_digit s \<Longrightarrow> digits_tail s = (s, [])"
  by (induction s rule: digits_tail.induct) auto

lemma length_show_nat: "n < 10 ^ Suc k \<Longrightarrow> length (show_nat n) \<le> Suc k"
proof (induction k arbitrary: n)
  case (Suc k)
  have "n div 10 < 10 ^ Suc k" using Suc.prems by (simp add: less_mult_imp_div_less)
  then show ?case using Suc.IH [of "n div 10"] by (simp add: show_nat.simps [of n])
qed (simp add: show_nat.simps)

lemma strip_no_space: "list_all (\<lambda>c. \<not> is_space c) s \<Longrightarrow> str_strip s = s"
proof -
  assume "list_all (\<lambda>c. \<not> is_space c) s"
  then have "dropWhile is_space s = s" "dropWhile is_space (rev s) = rev s"
    by (auto simp: dropWhile_eq_self_iff list_all_iff hd_rev)
  then show ?thesis by (simp add: str_strip_def)
qed

lemma int_of_show_int: "length (show_nat (nat \<bar>i\<bar>)) \<le> 4300 \<Longrightarrow> int_of_string (show_int i) = Some i"
proof -
  let ?d = "show_nat (nat \<bar>i\<bar>)"
  assume len: "length ?d \<le> 4300"
  obtain c cs where d: "?d = c # cs" using show_nat_digits [of "nat \<bar>i\<bar>"] by (cases ?d) auto
  have dig: "list_all is_digit ?d" using show_nat_digits by blast
  have c: "is_digit c" using dig d by simp
  have ns: "list_all (\<lambda>c. \<not> is_space c) (CHR ''-'' # ?d)"
    using dig by (auto simp: list_all_iff is_digit_def is_space_def Let_def)
  have part: "digitpart ?d = Some (?d, [])" using digits_tail_all [OF dig] d c by (simp add: digitpart_def)
  have "c \<noteq> CHR ''-''" "c \<noteq> CHR ''+''" using c by (auto simp: is_digit_def)
  then have "split_sign ?d = (False, ?d)" "split_sign (CHR ''-'' # ?d) = (True, ?d)" using d by (auto simp: split_sign_def)
  then show ?thesis using strip_no_space [OF ns] strip_no_space [of ?d] ns part len digits_val_show [of "nat \<bar>i\<bar>"]
    by (cases "i < 0") (simp_all add: int_of_string_def show_int_def)
qed

subsection \<open>What a token proves\<close>

text \<open>The fields of a token that verifies.\<close>

lemma verify_Some_True:
  assumes "verify_session_token env token secret current current_user = Some True"
  shows "\<exists>p s payload f. str_partition ''.'' token = Some (p, s) \<and> b64decode s = Some (ss_hmac env secret p)
    \<and> decode_session_payload env token = Some payload \<and> py_float (dict_get payload ''iat'' JNull) = Inr f \<and> \<not> session_expired (ss_now env) f
    \<and> version_current payload ''session_version'' current
    \<and> (case current_user of None \<Rightarrow> True | Some u \<Rightarrow> version_current payload ''user_session_version'' u)"
proof -
  obtain p s where ps: "str_partition ''.'' token = Some (p, s)" "b64decode s = Some (ss_hmac env secret p)"
    using assms by (auto simp: verify_session_token_def Let_def split: option.splits prod.splits if_splits)
  obtain payload where payload: "Option.bind (b64decode p) (ss_loads env) = Some (JObj payload)"
    using assms ps by (auto simp: verify_session_token_def Let_def split: option.splits if_splits json.splits)
  then have "decode_session_payload env token = Some payload" using ps by (auto simp: decode_session_payload_def bind_eq_Some_conv)
  then show ?thesis using assms ps payload
    by (auto simp: verify_session_token_def Let_def split: option.splits json.splits sum.splits)
qed

lemma decode_created:
  assumes "ss_loads env' (ss_dumps env (JObj (session_payload env v uid uv))) = Some (JObj (session_payload env v uid uv))"
  shows "decode_session_payload env' (create_session_token env secret v uid uv) = Some (session_payload env v uid uv)"
  using assms b64encode_no_dot
  by (simp add: create_session_token_def Let_def decode_session_payload_def partition_dot)

end
