(* ===== verification/Passwords.thy ===== *)
theory Passwords
  imports Sessions
begin

text \<open>
  Password hashes, \<open>archon/passwords.py\<close>, in the form \<open>pbkdf2_sha256$iterations$salt$hash\<close>. PBKDF2 is the
  parameter \<open>derive\<close>; \<open>None\<close> is the exception it raises for an iteration count it refuses. The salt that
  \<open>os.urandom\<close> returns is an argument.
\<close>

definition ITERATIONS :: int where "ITERATIONS = 600000"

definition bytes_hex :: "string \<Rightarrow> string" where
  "bytes_hex s = concat (map (\<lambda>c. [hex_digit (of_char c div 16), hex_digit (of_char c mod 16)]) s)"

definition hex_val :: "char \<Rightarrow> nat option" where
  "hex_val c = (let n = of_char c in
     if is_digit c then Some (n - 48) else if 97 \<le> n \<and> n \<le> 102 then Some (n - 87) else if 65 \<le> n \<and> n \<le> 70 then Some (n - 55) else None)"

text \<open>\<open>bytes.fromhex\<close> skips ASCII white space between the bytes.\<close>

fun bytes_fromhex :: "string \<Rightarrow> string option" where
  "bytes_fromhex [] = Some []"
| "bytes_fromhex [c] = (if c \<in> {CHR '' '', CHR 0x09, CHR 0x0A, CHR 0x0B, CHR 0x0C, CHR 0x0D} then Some [] else None)"
| "bytes_fromhex (c # d # r) =
     (if c \<in> {CHR '' '', CHR 0x09, CHR 0x0A, CHR 0x0B, CHR 0x0C, CHR 0x0D} then bytes_fromhex (d # r)
      else case (hex_val c, hex_val d) of
          (Some a, Some b) \<Rightarrow> map_option (Cons (char_of (16 * a + b))) (bytes_fromhex r)
        | _ \<Rightarrow> None)"

type_synonym pbkdf2 = "string \<Rightarrow> string \<Rightarrow> int \<Rightarrow> string option"

definition hash_password :: "pbkdf2 \<Rightarrow> string \<Rightarrow> string \<Rightarrow> string option" where
  "hash_password derive salt password =
     map_option (\<lambda>derived. ''pbkdf2_sha256$'' @ show_int ITERATIONS @ ''$'' @ bytes_hex salt @ ''$'' @ bytes_hex derived)
       (derive password salt ITERATIONS)"

definition verify_password :: "pbkdf2 \<Rightarrow> string \<Rightarrow> string \<Rightarrow> bool option" where
  "verify_password derive password stored_hash =
     (case str_split (CHR ''$'') stored_hash of
        [algorithm, iterations_str, salt_hex, hash_hex] \<Rightarrow>
          if algorithm \<noteq> ''pbkdf2_sha256'' then Some False
          else (case (int_of_string iterations_str, bytes_fromhex salt_hex, bytes_fromhex hash_hex) of
              (Some iterations, Some salt, Some expected) \<Rightarrow> map_option (\<lambda>actual. actual = expected) (derive password salt iterations)
            | _ \<Rightarrow> Some False)
      | _ \<Rightarrow> Some False)"

subsection \<open>Round trips of the texts\<close>

lemma of_hex_digit: "n < 16 \<Longrightarrow> (of_char (hex_digit n) :: nat) = (if n < 10 then 48 + n else 87 + n)"
  by (simp add: hex_digit_def)

lemma hex_val_digit: "n < 16 \<Longrightarrow> hex_val (hex_digit n) = Some n"
  by (auto simp: hex_val_def of_hex_digit is_digit_def Let_def)

lemma hex_digit_neq: "n < 16 \<Longrightarrow> (of_char c :: nat) < 48 \<Longrightarrow> hex_digit n \<noteq> c"
  by (rule char_neq_of_char) (auto simp: of_hex_digit)

lemma fromhex_hex [simp]: "bytes_fromhex (bytes_hex s) = Some s"
proof (induction s)
  case (Cons c s)
  have n: "(of_char c :: nat) div 16 < 16" "(of_char c :: nat) mod 16 < 16" by (simp_all add: of_char_def less_mult_imp_div_less)
  have "16 * (of_char c div 16) + of_char c mod 16 = (of_char c :: nat)" by simp
  then show ?case using Cons hex_digit_neq [OF n(1)] by (simp add: bytes_hex_def hex_val_digit [OF n(1)] hex_val_digit [OF n(2)])
qed (simp add: bytes_hex_def)

lemma hex_no_dollar: "CHR ''$'' \<notin> set (bytes_hex s)"
proof -
  have "hex_digit (of_char c div 16) \<noteq> CHR ''$''" "hex_digit (of_char c mod 16) \<noteq> CHR ''$''" for c :: char
    by (rule hex_digit_neq; simp add: of_char_def less_mult_imp_div_less)+
  then show ?thesis by (fastforce simp: bytes_hex_def)
qed

lemma split_no_sep: "c \<notin> set w \<Longrightarrow> str_split c w = [w]"
  by (induction w) auto

lemma split_append: "c \<notin> set w \<Longrightarrow> str_split c (w @ c # s) = w # str_split c s"
  by (induction w) auto

text \<open>A stored password hash accepts a password exactly when PBKDF2 with the stored salt gives the stored key: the hash of a
  password verifies against itself, and another password verifies only if it derives the same key.\<close>

theorem password_hash_exact:
  assumes "hash_password derive salt password = Some stored"
  shows "verify_password derive other stored = map_option (\<lambda>k. Some k = derive password salt ITERATIONS) (derive other salt ITERATIONS)"
proof -
  obtain k where k: "derive password salt ITERATIONS = Some k"
    "stored = ''pbkdf2_sha256'' @ CHR ''$'' # show_int ITERATIONS @ CHR ''$'' # bytes_hex salt @ CHR ''$'' # bytes_hex k"
    using assms by (auto simp: hash_password_def)
  have "length (show_nat 600000) \<le> Suc 5" by (rule length_show_nat) simp
  then have it: "int_of_string (show_int ITERATIONS) = Some ITERATIONS" "CHR ''$'' \<notin> set (show_int ITERATIONS)"
    using show_nat_digits [of 600000] int_of_show_int [of 600000]
    by (auto simp: ITERATIONS_def show_int_def list_all_iff is_digit_def)
  have "str_split (CHR ''$'') stored = [''pbkdf2_sha256'', show_int ITERATIONS, bytes_hex salt, bytes_hex k]"
    unfolding k(2) by (subst split_append, simp)+ (simp_all add: it hex_no_dollar split_append split_no_sep)
  then show ?thesis using k(1) it(1) by (simp add: verify_password_def cong: option.map_cong)
qed

theorem password_hash_exact_witness:
  "let derive = (\<lambda>p s i. Some p) in case hash_password derive ''salt'' ''secret'' of
     Some stored \<Rightarrow> verify_password derive ''secret'' stored = Some True \<and> verify_password derive ''other'' stored = Some False | None \<Rightarrow> False"
proof -
  obtain stored where h: "hash_password (\<lambda>p s i. Some p) ''salt'' ''secret'' = Some stored" by (simp add: hash_password_def)
  from password_hash_exact [OF h] show ?thesis unfolding Let_def h by simp
qed

end
