(* ===== verification/Control_Plane.thy ===== *)
theory Control_Plane
  imports Passwords Admin_Audit Rate_Limit_Valkey Policy
begin

text \<open>
  Authentication and accounts of the control plane: \<open>archon/admin_auth.py\<close>, the first-run, login and password
  routes of \<open>archon/setup.py\<close>, the account routes of \<open>archon/api.py\<close>, \<open>archon/rbac.py\<close>, and \<open>SettingsRepo\<close> and
  \<open>UserRepo\<close> of \<open>db/repo.py\<close>. A handler takes what it reads of the request (the \<open>authorization\<close> header, the session
  cookie, the client address) and returns an HTTP error or its answer with the new state; \<open>ServerError\<close> is an
  uncaught exception, answered 500. The random salt and secret are arguments of the handlers that draw them.
  \<open>app.py\<close> always wires the user table, the event table and the rate limiter.
\<close>

record user_record =
  ur_id :: int
  ur_username :: string
  ur_email :: "string option"
  ur_password_hash :: "string option"
  ur_role :: string
  ur_auth_source :: string
  ur_oidc_subject :: "string option"
  ur_enabled :: bool
  ur_session_version :: int
  ur_created_at :: string
  ur_last_login_at :: "string option"

record 's control =
  ct_settings :: "string dict"
  ct_users :: "user_record list"
  ct_next_user :: int
  ct_events :: "admin_event list"
  ct_limiter :: 's

record 's control_env =
  cv_session :: session_env
  cv_derive :: pbkdf2
  cv_admin_token :: string
  cv_ops :: "'s limiter_ops"
  cv_clock :: time
  cv_utcnow :: string
  cv_dumps_sorted :: "json \<Rightarrow> string"

datatype http_exn = HttpError nat string | ServerError

subsection \<open>Settings and users\<close>

definition settings_get :: "'s control \<Rightarrow> string \<Rightarrow> string option" where
  "settings_get c key = map_of (ct_settings c) key"

definition settings_set :: "'s control \<Rightarrow> string \<Rightarrow> string \<Rightarrow> 's control" where
  "settings_set c key value = c\<lparr>ct_settings := AList.update key value (ct_settings c)\<rparr>"

definition settings_set_many :: "'s control \<Rightarrow> string dict \<Rightarrow> 's control" where
  "settings_set_many c values = foldl (\<lambda>c (k, v). settings_set c k v) c values"

definition user_get_by_id :: "'s control \<Rightarrow> int \<Rightarrow> user_record option" where
  "user_get_by_id c i = List.find (\<lambda>u. ur_id u = i) (ct_users c)"

definition user_get_by_username :: "'s control \<Rightarrow> string \<Rightarrow> user_record option" where
  "user_get_by_username c name = List.find (\<lambda>u. ur_username u = name) (ct_users c)"

definition user_get_by_subject :: "'s control \<Rightarrow> string \<Rightarrow> user_record option" where
  "user_get_by_subject c sub = List.find (\<lambda>u. ur_oidc_subject u = Some sub) (ct_users c)"

text \<open>\<open>None\<close> is \<open>UsernameConflictError\<close>: either unique column is taken. The identity column goes on even then; only
  fresh ids matter here.\<close>

definition user_create ::
    "'s control \<Rightarrow> string \<Rightarrow> string \<Rightarrow> string option \<Rightarrow> string option \<Rightarrow> string \<Rightarrow> string option \<Rightarrow> string \<Rightarrow> (user_record \<times> 's control) option" where
  "user_create c username role password_hash email auth_source subject now =
     (if user_get_by_username c username \<noteq> None \<or> (case subject of None \<Rightarrow> False | Some s \<Rightarrow> user_get_by_subject c s \<noteq> None) then None
      else let u = \<lparr>ur_id = ct_next_user c, ur_username = username, ur_email = email, ur_password_hash = password_hash, ur_role = role,
                  ur_auth_source = auth_source, ur_oidc_subject = subject, ur_enabled = True, ur_session_version = 0,
                  ur_created_at = now, ur_last_login_at = None\<rparr>
        in Some (u, c\<lparr>ct_users := ct_users c @ [u], ct_next_user := ct_next_user c + 1\<rparr>))"

definition user_update :: "'s control \<Rightarrow> int \<Rightarrow> (user_record \<Rightarrow> user_record) \<Rightarrow> 's control" where
  "user_update c i f = c\<lparr>ct_users := map (\<lambda>u. if ur_id u = i then f u else u) (ct_users c)\<rparr>"

definition update_role :: "'s control \<Rightarrow> int \<Rightarrow> string \<Rightarrow> 's control" where
  "update_role c i role = user_update c i (\<lambda>u. u\<lparr>ur_role := role\<rparr>)"

definition user_set_enabled :: "'s control \<Rightarrow> int \<Rightarrow> bool \<Rightarrow> 's control" where
  "user_set_enabled c i enabled = user_update c i (\<lambda>u. u\<lparr>ur_enabled := enabled\<rparr>)"

definition set_password_hash :: "'s control \<Rightarrow> int \<Rightarrow> string \<Rightarrow> 's control" where
  "set_password_hash c i h = user_update c i (\<lambda>u. u\<lparr>ur_password_hash := Some h\<rparr>)"

definition touch_last_login :: "'s control \<Rightarrow> int \<Rightarrow> string \<Rightarrow> 's control" where
  "touch_last_login c i now = user_update c i (\<lambda>u. u\<lparr>ur_last_login_at := Some now\<rparr>)"

definition bump_session_version :: "'s control \<Rightarrow> int \<Rightarrow> int \<times> 's control" where
  "bump_session_version c i =
     (let c1 = user_update c i (\<lambda>u. u\<lparr>ur_session_version := ur_session_version u + 1\<rparr>)
      in (case user_get_by_id c1 i of None \<Rightarrow> 0 | Some u \<Rightarrow> ur_session_version u, c1))"

subsection \<open>Principals\<close>

record principal =
  pc_role :: string
  pc_user_id :: "int option"
  pc_username :: "string option"
  pc_auth_source :: string

definition actor :: "principal \<Rightarrow> string" where
  "actor p = (case pc_username p of
       Some (ch # name) \<Rightarrow> ch # name
     | _ \<Rightarrow> if pc_auth_source p = ''admin-token'' then ''admin-token'' else ''admin-session'')"

definition LEGACY_ADMIN_PRINCIPAL :: principal where
  "LEGACY_ADMIN_PRINCIPAL = \<lparr>pc_role = ''admin'', pc_user_id = None, pc_username = None, pc_auth_source = ''legacy-admin''\<rparr>"

definition ADMIN_TOKEN_PRINCIPAL :: principal where
  "ADMIN_TOKEN_PRINCIPAL = \<lparr>pc_role = ''admin'', pc_user_id = None, pc_username = None, pc_auth_source = ''admin-token''\<rparr>"

definition user_principal :: "user_record \<Rightarrow> principal" where
  "user_principal u = \<lparr>pc_role = ur_role u, pc_user_id = Some (ur_id u), pc_username = Some (ur_username u), pc_auth_source = ur_auth_source u\<rparr>"

text \<open>\<open>int(v)\<close>; \<open>None\<close> is an exception.\<close>

definition py_int :: "json \<Rightarrow> int option" where
  "py_int v = (case v of JInt n \<Rightarrow> Some n | JBool b \<Rightarrow> Some (if b then 1 else 0) | JStr s \<Rightarrow> int_of_string s
     | JFloat (Fin q) \<Rightarrow> Some (if 0 \<le> q then \<lfloor>q\<rfloor> else \<lceil>q\<rceil>) | _ \<Rightarrow> None)"

definition current_session_version :: "'s control \<Rightarrow> int option" where
  "current_session_version c = (case settings_get c ''session_version'' of None \<Rightarrow> Some DEFAULT_SESSION_VERSION | Some s \<Rightarrow> int_of_string s)"

definition bearer_prefix :: "string \<Rightarrow> bool" where
  "bearer_prefix h \<longleftrightarrow> prefix ''bearer '' (str_lower h)"

text \<open>The token check: \<open>Some True\<close> if the presented token is the configured one; \<open>None\<close> if the configured token has a
  character outside ASCII, on which \<open>hmac.compare_digest\<close> raises.\<close>

definition admin_token_presented :: "'s control_env \<Rightarrow> string option \<Rightarrow> bool option" where
  "admin_token_presented env authorization =
     (case authorization of
        Some h \<Rightarrow>
          if cv_admin_token env \<noteq> [] \<and> h \<noteq> [] \<and> bearer_prefix h
          then (let presented = drop 7 h in
                if \<not> is_ascii presented then Some False
                else if \<not> is_ascii (cv_admin_token env) then None else Some (presented = cv_admin_token env))
          else Some False
      | None \<Rightarrow> Some False)"

definition session_user :: "'s control_env \<Rightarrow> 's control \<Rightarrow> string \<Rightarrow> user_record option" where
  "session_user env c cookie =
     (case decode_session_payload (cv_session env) cookie of
        Some (kv # payload) \<Rightarrow>
          (case dict_get (kv # payload) ''user_id'' JNull of
             JNull \<Rightarrow> None
           | v \<Rightarrow> Option.bind (py_int v) (user_get_by_id c))
      | _ \<Rightarrow> None)"

definition not_authenticated :: http_exn where
  "not_authenticated = HttpError 401 ''not authenticated''"

definition session_principal :: "'s control_env \<Rightarrow> 's control \<Rightarrow> string \<Rightarrow> int \<Rightarrow> string \<Rightarrow> http_exn + principal" where
  "session_principal env c secret current cookie =
     (case session_user env c cookie of
        None \<Rightarrow> Inl not_authenticated
      | Some u \<Rightarrow>
          (case verify_session_token (cv_session env) cookie secret current (Some (ur_session_version u)) of
             None \<Rightarrow> Inl ServerError
           | Some False \<Rightarrow> Inl not_authenticated
           | Some True \<Rightarrow> if ur_enabled u then Inr (user_principal u) else Inl (HttpError 401 ''account disabled'')))"

definition require_admin :: "'s control_env \<Rightarrow> 's control \<Rightarrow> string option \<Rightarrow> string option \<Rightarrow> http_exn + principal" where
  "require_admin env c authorization cookie =
     (case admin_token_presented env authorization of
        None \<Rightarrow> Inl ServerError
      | Some True \<Rightarrow> Inr ADMIN_TOKEN_PRINCIPAL
      | Some False \<Rightarrow>
          if settings_get c ''admin_password_hash'' = None
          then (if cv_admin_token env \<noteq> [] then Inl (HttpError 401 ''missing or invalid bearer token'') else Inr LEGACY_ADMIN_PRINCIPAL)
          else case settings_get c ''session_secret'' of
              None \<Rightarrow> Inl (HttpError 401 ''server misconfigured: no session secret'')
            | Some secret \<Rightarrow>
                (case current_session_version c of
                   None \<Rightarrow> Inl ServerError
                 | Some current \<Rightarrow>
                     (case cookie of
                        Some (ch # rest) \<Rightarrow> session_principal env c secret current (ch # rest)
                      | _ \<Rightarrow> Inl not_authenticated)))"

subsection \<open>Roles\<close>

definition ROLE_RANK :: "(string \<times> nat) list" where
  "ROLE_RANK = [(''viewer'', 10), (''operator'', 20), (''admin'', 30)]"

definition is_valid_role :: "string \<Rightarrow> bool" where
  "is_valid_role role = (map_of ROLE_RANK role \<noteq> None)"

definition role_at_least :: "(string \<times> nat) list \<Rightarrow> string \<Rightarrow> string \<Rightarrow> bool" where
  "role_at_least ranks role minimum = (case (map_of ranks role, map_of ranks minimum) of (Some r, Some m) \<Rightarrow> m \<le> r | _ \<Rightarrow> False)"

definition require_role :: "'s control_env \<Rightarrow> 's control \<Rightarrow> string \<Rightarrow> string option \<Rightarrow> string option \<Rightarrow> http_exn + principal" where
  "require_role env c minimum authorization cookie =
     rbind (require_admin env c authorization cookie)
       (\<lambda>p. if role_at_least ROLE_RANK (pc_role p) minimum then Inr p else Inl (HttpError 403 ''insufficient role''))"

subsection \<open>First run, login, passwords\<close>

definition LOGIN_RATE_LIMIT_SPEC :: string where "LOGIN_RATE_LIMIT_SPEC = ''10/minute''"

definition limit_attempts :: "'s control_env \<Rightarrow> 's control \<Rightarrow> string \<Rightarrow> string option \<Rightarrow> string \<Rightarrow> http_exn option \<times> 's control" where
  "limit_attempts env c kind client_ip detail =
     (let key = kind @ (case client_ip of None \<Rightarrow> ''unknown'' | Some ip \<Rightarrow> ip); ops = cv_ops env; s = ct_limiter c in
      case (if lo_is_registered ops s key then Inr s else lo_ensure_current ops s key LOGIN_RATE_LIMIT_SPEC (cv_clock env)) of
        Inl _ \<Rightarrow> (Some ServerError, c)
      | Inr s1 \<Rightarrow>
          (case lo_check_all ops s1 [key] (cv_clock env) of
             (Inl _, s2) \<Rightarrow> (Some ServerError, c\<lparr>ct_limiter := s2\<rparr>)
           | (Inr ok, s2) \<Rightarrow> (if ok then None else Some (HttpError 429 detail), c\<lparr>ct_limiter := s2\<rparr>)))"

definition mint :: "'s control_env \<Rightarrow> string \<Rightarrow> int \<Rightarrow> int option \<Rightarrow> int \<Rightarrow> string" where
  "mint env secret v uid uv = create_session_token (cv_session env) secret v uid uv"

text \<open>The answer of a handler that sets the cookie is the cookie.\<close>

definition complete_setup ::
    "'s control_env \<Rightarrow> 's control \<Rightarrow> string option \<Rightarrow> string \<Rightarrow> string \<Rightarrow> string \<Rightarrow> string \<Rightarrow> (http_exn + string) \<times> 's control" where
  "complete_setup env c client_ip admin_password auth_mode salt secret =
     (case limit_attempts env c ''setup:'' client_ip ''too many setup attempts, slow down'' of
        (Some e, c1) \<Rightarrow> (Inl e, c1)
      | (None, c1) \<Rightarrow>
          if settings_get c1 ''admin_password_hash'' \<noteq> None then (Inl (HttpError 409 ''setup has already been completed''), c1)
          else if length admin_password < 8 then (Inl (HttpError 400 ''password must be at least 8 characters''), c1)
          else if auth_mode \<noteq> ''open'' \<and> auth_mode \<noteq> ''keyed'' then (Inl (HttpError 400 (''auth_mode must be '' @ quoted ''open'' @ '' or '' @ quoted ''keyed'')), c1)
          else case hash_password (cv_derive env) salt admin_password of
              None \<Rightarrow> (Inl ServerError, c1)
            | Some h \<Rightarrow>
                (let c2 = settings_set_many c1 [(''admin_password_hash'', h), (''session_secret'', secret), (''auth_mode'', auth_mode)] in
                 case user_create c2 ''admin'' ''admin'' (Some h) None ''local'' None (cv_utcnow env) of
                   None \<Rightarrow> (Inl ServerError, c2)
                 | Some (u, c3) \<Rightarrow>
                     (Inr (mint env secret DEFAULT_SESSION_VERSION (Some (ur_id u)) DEFAULT_SESSION_VERSION), c3)))"

definition login :: "'s control_env \<Rightarrow> 's control \<Rightarrow> string option \<Rightarrow> string \<Rightarrow> string \<Rightarrow> (http_exn + string) \<times> 's control" where
  "login env c client_ip username password =
     (case limit_attempts env c ''login:'' client_ip ''too many login attempts, slow down'' of
        (Some e, c1) \<Rightarrow> (Inl e, c1)
      | (None, c1) \<Rightarrow>
          if settings_get c1 ''admin_password_hash'' = None then (Inl (HttpError 400 ''setup has not been completed yet''), c1)
          else case user_get_by_username c1 username of
              None \<Rightarrow> (Inl (HttpError 401 ''incorrect password''), c1)
            | Some u \<Rightarrow>
                (case ur_password_hash u of
                   None \<Rightarrow> (Inl (HttpError 401 ''incorrect password''), c1)
                 | Some h \<Rightarrow>
                     (case verify_password (cv_derive env) password h of
                        None \<Rightarrow> (Inl ServerError, c1)
                      | Some False \<Rightarrow> (Inl (HttpError 401 ''incorrect password''), c1)
                      | Some True \<Rightarrow>
                          if \<not> ur_enabled u then (Inl (HttpError 401 ''account disabled''), c1)
                          else (case settings_get c1 ''session_secret'' of
                              None \<Rightarrow> (Inl (HttpError 500 ''server misconfigured: no session secret''), c1)
                            | Some secret \<Rightarrow>
                                (case current_session_version c1 of
                                   None \<Rightarrow> (Inl ServerError, c1)
                                 | Some v \<Rightarrow> (Inr (mint env secret v (Some (ur_id u)) (ur_session_version u)),
                                     touch_last_login c1 (ur_id u) (cv_utcnow env)))))))"

text \<open>The account a password change is for: the one the cookie names, its signature unread, or \<open>admin\<close>.\<close>

definition change_password_user :: "'s control_env \<Rightarrow> 's control \<Rightarrow> string option \<Rightarrow> user_record option" where
  "change_password_user env c cookie =
     (let payload = (case cookie of Some (ch # rest) \<Rightarrow> decode_session_payload (cv_session env) (ch # rest) | _ \<Rightarrow> None) in
      case payload of
        Some (kv # kvs) \<Rightarrow>
          (case dict_get (kv # kvs) ''user_id'' JNull of
             JNull \<Rightarrow> user_get_by_username c ''admin''
           | v \<Rightarrow> Option.bind (py_int v) (user_get_by_id c))
      | _ \<Rightarrow> user_get_by_username c ''admin'')"

text \<open>\<open>str(n)\<close> raises for more than 4300 digits.\<close>

definition py_str_int :: "int \<Rightarrow> string option" where
  "py_str_int n = (if length (show_nat (nat \<bar>n\<bar>)) \<le> 4300 then Some (show_int n) else None)"

definition store_password :: "'s control_env \<Rightarrow> 's control \<Rightarrow> user_record option \<Rightarrow> string \<Rightarrow> int \<Rightarrow> string \<Rightarrow> string option \<times> 's control" where
  "store_password env c user new_hash new_version vtext =
     (let c1 = settings_set_many c ((''session_version'', vtext) #
            (if (case user of None \<Rightarrow> True | Some u \<Rightarrow> ur_username u = ''admin'') then [(''admin_password_hash'', new_hash)] else []));
          (uv, c2) = (case user of None \<Rightarrow> (DEFAULT_SESSION_VERSION, c1)
            | Some u \<Rightarrow> bump_session_version (set_password_hash c1 (ur_id u) new_hash) (ur_id u)) in
      (map_option (\<lambda>secret. mint env secret new_version (map_option ur_id user) uv) (settings_get c2 ''session_secret''), c2))"

definition change_password ::
    "'s control_env \<Rightarrow> 's control \<Rightarrow> string option \<Rightarrow> string \<Rightarrow> string \<Rightarrow> string \<Rightarrow> (http_exn + string option) \<times> 's control" where
  "change_password env c cookie current_password new_password salt =
     (case settings_get c ''admin_password_hash'' of
        None \<Rightarrow> (Inl (HttpError 400 ''setup has not been completed yet''), c)
      | Some stored_hash \<Rightarrow>
          (let user = change_password_user env c cookie;
               against = (case user of Some u \<Rightarrow> (case ur_password_hash u of Some (ch # h) \<Rightarrow> ch # h | _ \<Rightarrow> stored_hash) | None \<Rightarrow> stored_hash) in
           case verify_password (cv_derive env) current_password against of
             None \<Rightarrow> (Inl ServerError, c)
           | Some False \<Rightarrow> (Inl (HttpError 401 ''incorrect current password''), c)
           | Some True \<Rightarrow>
               if length new_password < 8 then (Inl (HttpError 400 ''password must be at least 8 characters''), c)
               else (case (hash_password (cv_derive env) salt new_password, current_session_version c) of
                   (Some new_hash, Some v) \<Rightarrow>
                     (case py_str_int (v + 1) of
                        None \<Rightarrow> (Inl ServerError, c)
                      | Some text \<Rightarrow>
                          map_prod Inr id (store_password env c user new_hash (v + 1) text))
                 | _ \<Rightarrow> (Inl ServerError, c))))"

definition logout_all :: "'s control \<Rightarrow> (http_exn + unit) \<times> 's control" where
  "logout_all c =
     (case Option.bind (current_session_version c) (\<lambda>v. py_str_int (v + 1)) of
        None \<Rightarrow> (Inl ServerError, c)
      | Some text \<Rightarrow> (Inr (), settings_set c ''session_version'' text))"

subsection \<open>Accounts\<close>

definition log_admin ::
    "'s control_env \<Rightarrow> 's control \<Rightarrow> string \<Rightarrow> string \<Rightarrow> principal \<Rightarrow> int \<Rightarrow> json option \<Rightarrow> json option \<Rightarrow> string option \<Rightarrow> 's control" where
  "log_admin env c action summary p uid before after ip =
     c\<lparr>ct_events := record_event (cv_dumps_sorted env) (ct_events c) action summary (Some (actor p)) (Some ''user'') (Some (show_int uid)) before after ip\<rparr>"

definition bad_role :: "string \<Rightarrow> http_exn" where
  "bad_role role = HttpError 400 (''role must be one of ['admin', 'operator', 'viewer'], got '' @ repr_str role)"

definition create_user ::
    "'s control_env \<Rightarrow> 's control \<Rightarrow> string option \<Rightarrow> string option \<Rightarrow> string option \<Rightarrow> string \<Rightarrow> string \<Rightarrow> string \<Rightarrow> string option \<Rightarrow> string \<Rightarrow>
     (http_exn + user_record) \<times> 's control" where
  "create_user env c authorization cookie ip username role password email salt =
     (case require_role env c ''admin'' authorization cookie of
        Inl e \<Rightarrow> (Inl e, c)
      | Inr p \<Rightarrow>
          if \<not> is_valid_role role then (Inl (bad_role role), c)
          else if length password < 8 then (Inl (HttpError 400 ''password must be at least 8 characters''), c)
          else case hash_password (cv_derive env) salt password of
              None \<Rightarrow> (Inl ServerError, c)
            | Some h \<Rightarrow>
                (case user_create c username role (Some h) email ''local'' None (cv_utcnow env) of
                   None \<Rightarrow> (Inl (HttpError 409 (''username '' @ quoted username @ '' already exists'')), c)
                 | Some (u, c1) \<Rightarrow>
                     (Inr u, log_admin env c1 ''user.create'' (''created user '' @ quoted username @ '' with role '' @ quoted role) p (ur_id u) None
                       (Some (JObj [(''username'', JStr (ur_username u)), (''role'', JStr (ur_role u)), (''auth_source'', JStr (ur_auth_source u))])) ip)))"

definition update_user_role ::
    "'s control_env \<Rightarrow> 's control \<Rightarrow> string option \<Rightarrow> string option \<Rightarrow> string option \<Rightarrow> int \<Rightarrow> string \<Rightarrow> (http_exn + user_record) \<times> 's control" where
  "update_user_role env c authorization cookie ip user_id role =
     (case require_role env c ''admin'' authorization cookie of
        Inl e \<Rightarrow> (Inl e, c)
      | Inr p \<Rightarrow>
          if \<not> is_valid_role role then (Inl (bad_role role), c)
          else case user_get_by_id c user_id of
              None \<Rightarrow> (Inl (HttpError 404 ''user not found''), c)
            | Some before \<Rightarrow>
                (let user = before\<lparr>ur_role := role\<rparr>; c1 = snd (bump_session_version (update_role c user_id role) user_id) in
                 (Inr user,
                  if ur_role before \<noteq> role
                  then log_admin env c1 ''user.role_change''
                    (''changed role of '' @ quoted (ur_username user) @ '': '' @ ur_role before @ '' -> '' @ role) p user_id
                    (Some (JObj [(''role'', JStr (ur_role before))])) (Some (JObj [(''role'', JStr role)])) ip
                  else c1)))"

definition update_user_enabled ::
    "'s control_env \<Rightarrow> 's control \<Rightarrow> string option \<Rightarrow> string option \<Rightarrow> string option \<Rightarrow> int \<Rightarrow> bool \<Rightarrow> (http_exn + user_record) \<times> 's control" where
  "update_user_enabled env c authorization cookie ip user_id enabled =
     (case require_role env c ''admin'' authorization cookie of
        Inl e \<Rightarrow> (Inl e, c)
      | Inr p \<Rightarrow>
          (case user_get_by_id c user_id of
             None \<Rightarrow> (Inl (HttpError 404 ''user not found''), c)
           | Some before \<Rightarrow>
               if \<not> enabled \<and> pc_user_id p = Some user_id then (Inl (HttpError 400 ''cannot disable your own account''), c)
               else
                 (let user = before\<lparr>ur_enabled := enabled\<rparr>; c0 = user_set_enabled c user_id enabled;
                      c1 = (if enabled then c0 else snd (bump_session_version c0 user_id)) in
                  (Inr user,
                   if ur_enabled before \<noteq> enabled
                   then log_admin env c1 ''user.enabled_change''
                     ((if enabled then ''enabled'' else ''disabled'') @ '' user '' @ quoted (ur_username user)) p user_id
                     (Some (JObj [(''enabled'', JBool (ur_enabled before))])) (Some (JObj [(''enabled'', JBool enabled)])) ip
                   else c1))))"

subsection \<open>Reachable states\<close>

inductive ct_step :: "'s control \<Rightarrow> 's control \<Rightarrow> bool" where
  step_setup: "complete_setup env c ip pw mode salt secret = (r, c') \<Longrightarrow> ct_step c c'"
| step_login: "login env c ip username pw = (r, c') \<Longrightarrow> ct_step c c'"
| step_password: "change_password env c cookie cur new salt = (r', c') \<Longrightarrow> ct_step c c'"
| step_logout_all: "logout_all c = (r'', c') \<Longrightarrow> ct_step c c'"
| step_user: "create_user env c auth cookie ip username role pw email salt = (u, c') \<Longrightarrow> ct_step c c'"
| step_role: "update_user_role env c auth cookie ip uid role = (u, c') \<Longrightarrow> ct_step c c'"
| step_enabled: "update_user_enabled env c auth cookie ip uid enabled = (u, c') \<Longrightarrow> ct_step c c'"

definition user_version :: "'s control \<Rightarrow> int \<Rightarrow> int option" where
  "user_version c i = map_option ur_session_version (user_get_by_id c i)"

text \<open>What no step takes back: accounts and their versions, the version of all sessions, the completed setup, and the
  identity of rows.\<close>

definition control_wf :: "'s control \<Rightarrow> bool" where
  "control_wf c \<longleftrightarrow> distinct (map ur_id (ct_users c)) \<and> distinct (map ur_username (ct_users c)) \<and> (\<forall>i \<in> set (map ur_id (ct_users c)). i < ct_next_user c)
     \<and> (\<forall>u \<in> set (ct_users c). is_valid_role (ur_role u))"

definition grows :: "'s control \<Rightarrow> 's control \<Rightarrow> bool" where
  "grows c c' \<longleftrightarrow> (\<forall>i v. user_version c i = Some v \<longrightarrow> (\<exists>v' \<ge> v. user_version c' i = Some v'))
     \<and> (\<forall>v. current_session_version c = Some v \<longrightarrow> (\<exists>v' \<ge> v. current_session_version c' = Some v'))
     \<and> (settings_get c ''admin_password_hash'' \<noteq> None \<longrightarrow> settings_get c' ''admin_password_hash'' \<noteq> None)
     \<and> (control_wf c \<longrightarrow> control_wf c')"

lemma grows_refl [simp]: "grows c c"
  by (auto simp: grows_def)

lemma grows_trans: "grows a b \<Longrightarrow> grows b c \<Longrightarrow> grows a c"
proof -
  assume ab: "grows a b" and bc: "grows b c"
  have "\<exists>v' \<ge> v. user_version c i = Some v'" if v: "user_version a i = Some v" for i v
  proof -
    obtain w where "v \<le> w" "user_version b i = Some w" using ab v unfolding grows_def by blast
    then show ?thesis using bc unfolding grows_def by (meson order_trans)
  qed
  moreover have "\<exists>v' \<ge> v. current_session_version c = Some v'" if v: "current_session_version a = Some v" for v
  proof -
    obtain w where "v \<le> w" "current_session_version b = Some w" using ab v unfolding grows_def by blast
    then show ?thesis using bc unfolding grows_def by (meson order_trans)
  qed
  ultimately show ?thesis using ab bc unfolding grows_def by blast
qed

lemma grows_frame: "ct_settings c' = ct_settings c \<Longrightarrow> ct_users c' = ct_users c \<Longrightarrow> ct_next_user c' = ct_next_user c \<Longrightarrow> grows c c'"
  by (auto simp: grows_def user_version_def user_get_by_id_def current_session_version_def settings_get_def control_wf_def)

lemma user_get_update:
  assumes "\<And>u. ur_id (f u) = ur_id u"
  shows "user_get_by_id (user_update c i f) j = map_option (\<lambda>u. if ur_id u = i then f u else u) (user_get_by_id c j)"
proof -
  have "List.find (\<lambda>u. ur_id u = j) (map (\<lambda>u. if ur_id u = i then f u else u) us) =
    map_option (\<lambda>u. if ur_id u = i then f u else u) (List.find (\<lambda>u. ur_id u = j) us)" for us
    using assms by (induction us) auto
  then show ?thesis by (simp add: user_update_def user_get_by_id_def)
qed

lemma user_get_id: "user_get_by_id c i = Some u \<Longrightarrow> ur_id u = i \<and> u \<in> set (ct_users c)"
  by (auto simp: user_get_by_id_def find_Some_iff)

lemma grows_user_update:
  assumes "\<And>u. ur_id (f u) = ur_id u \<and> ur_username (f u) = ur_username u \<and> ur_session_version u \<le> ur_session_version (f u)
      \<and> (is_valid_role (ur_role u) \<longrightarrow> is_valid_role (ur_role (f u)))"
  shows "grows c (user_update c i f)"
proof -
  have "map ur_id (ct_users (user_update c i f)) = map ur_id (ct_users c)" "map ur_username (ct_users (user_update c i f)) = map ur_username (ct_users c)"
    using assms by (auto simp: user_update_def)
  moreover have "ct_next_user (user_update c i f) = ct_next_user c" by (simp add: user_update_def)
  moreover have "(\<forall>u \<in> set (ct_users c). is_valid_role (ur_role u)) \<Longrightarrow> (\<forall>u \<in> set (ct_users (user_update c i f)). is_valid_role (ur_role u))"
    using assms by (auto simp: user_update_def)
  ultimately have "control_wf c \<Longrightarrow> control_wf (user_update c i f)" unfolding control_wf_def by simp
  moreover have "ct_settings (user_update c i f) = ct_settings c" by (simp add: user_update_def)
  moreover have "user_version (user_update c i f) j = map_option (\<lambda>u. ur_session_version (if ur_id u = i then f u else u)) (user_get_by_id c j)" for j
    using assms by (simp add: user_version_def user_get_update option.map_comp comp_def)
  moreover from this have "\<exists>v' \<ge> v. user_version (user_update c i f) j = Some v'" if "user_version c j = Some v" for j v
    using that assms by (cases "user_get_by_id c j") (auto simp: user_version_def [of c])
  ultimately show ?thesis by (auto simp: grows_def current_session_version_def settings_get_def)
qed

lemma grows_user_create:
  assumes "user_create c name role h email src sub now = Some (u, c')" and "is_valid_role role"
  shows "grows c c' \<and> user_get_by_id c' (ur_id u) \<noteq> None"
proof -
  have c': "c' = c\<lparr>ct_users := ct_users c @ [u], ct_next_user := ct_next_user c + 1\<rparr>" "ur_id u = ct_next_user c" "ur_username u = name" "ur_role u = role"
    "user_get_by_username c name = None"
    using assms(1) by (auto simp: user_create_def Let_def split: if_splits)
  have "user_get_by_id c' i = (case user_get_by_id c i of None \<Rightarrow> if ur_id u = i then Some u else None | Some w \<Rightarrow> Some w)" for i
  proof -
    have "List.find P (us @ [u]) = (case List.find P us of None \<Rightarrow> if P u then Some u else None | Some w \<Rightarrow> Some w)" for P us
      by (induction us) auto
    then show ?thesis by (simp add: c'(1) user_get_by_id_def)
  qed
  moreover have "control_wf c \<Longrightarrow> control_wf c'"
    using c' assms(2) by (fastforce simp: control_wf_def user_get_by_username_def find_None_iff)
  ultimately show ?thesis
    by (auto simp: grows_def user_version_def c' current_session_version_def settings_get_def split: option.splits)
qed

lemma settings_get_set [simp]: "settings_get (settings_set c k v) k' = (if k' = k then Some v else settings_get c k')"
  by (simp add: settings_get_def settings_set_def update_conv')

lemma settings_set_users [simp]:
  "ct_users (settings_set c k v) = ct_users c" "ct_next_user (settings_set c k v) = ct_next_user c"
  "user_get_by_id (settings_set c k v) i = user_get_by_id c i"
  by (simp_all add: settings_set_def user_get_by_id_def)

lemma settings_set_many_simps [simp]:
  "settings_set_many c [] = c" "settings_set_many c ((k, v) # kvs) = settings_set_many (settings_set c k v) kvs"
  by (simp_all add: settings_set_many_def)

lemma grows_set_other: "k \<noteq> ''session_version'' \<Longrightarrow> grows c (settings_set c k v)"
  by (auto simp: grows_def user_version_def current_session_version_def control_wf_def)

lemma py_str_int_back: "py_str_int n = Some s \<Longrightarrow> int_of_string s = Some n"
  by (auto simp: py_str_int_def int_of_show_int split: if_splits)

lemma grows_set_version:
  "current_session_version c = Some v \<Longrightarrow> py_str_int (v + 1) = Some text \<Longrightarrow> grows c (settings_set c ''session_version'' text)"
  by (auto simp: grows_def user_version_def current_session_version_def control_wf_def dest: py_str_int_back)

lemma grows_bump: "grows c (snd (bump_session_version c i))"
  by (simp add: bump_session_version_def Let_def grows_user_update)

lemma bump_version: "user_version c i = Some v \<Longrightarrow> user_version (snd (bump_session_version c i)) i = Some (v + 1)"
proof -
  assume "user_version c i = Some v"
  then obtain u where "user_get_by_id c i = Some u" "ur_session_version u = v" by (auto simp: user_version_def)
  then show ?thesis using user_get_id [of c i u] by (simp add: bump_session_version_def Let_def user_version_def user_get_update)
qed

lemma limit_attempts_frame:
  "limit_attempts env c kind ip detail = (r, c') \<Longrightarrow> ct_settings c' = ct_settings c \<and> ct_users c' = ct_users c \<and> ct_next_user c' = ct_next_user c"
  by (auto simp: limit_attempts_def Let_def split: if_splits sum.splits prod.splits)

lemma log_admin_frame [simp]:
  "ct_settings (log_admin env c a s p i b f ip) = ct_settings c" "ct_users (log_admin env c a s p i b f ip) = ct_users c"
  "ct_next_user (log_admin env c a s p i b f ip) = ct_next_user c"
  by (simp_all add: log_admin_def)

text \<open>States with the same accounts and settings.\<close>

definition same_accounts :: "'s control \<Rightarrow> 's control \<Rightarrow> bool" where
  "same_accounts c c' \<longleftrightarrow> ct_settings c' = ct_settings c \<and> ct_users c' = ct_users c \<and> ct_next_user c' = ct_next_user c"

lemma same_accounts_log [simp]: "same_accounts c (log_admin env c a s p i b f ip)" "same_accounts c c"
  by (simp_all add: same_accounts_def)

lemma same_accounts_reads:
  "same_accounts c c' \<Longrightarrow> user_version c' i = user_version c i \<and> current_session_version c' = current_session_version c
     \<and> user_get_by_id c' i = user_get_by_id c i"
  by (simp add: same_accounts_def user_version_def user_get_by_id_def current_session_version_def settings_get_def)

lemma grows_same: "grows c c' \<Longrightarrow> same_accounts c' c'' \<Longrightarrow> grows c c''"
  by (erule grows_trans) (auto simp: same_accounts_def intro: grows_frame)

lemma grows_log: "grows c c' \<Longrightarrow> grows c (log_admin env c' a s p i b f ip)"
  by (erule grows_same) simp
lemma admin_role_valid: "is_valid_role ''admin''"
  by (simp add: is_valid_role_def ROLE_RANK_def)

lemma grows_setup: "complete_setup env c ip pw mode salt secret = (r, c') \<Longrightarrow> grows c c'"
proof -
  assume h: "complete_setup env c ip pw mode salt secret = (r, c')"
  obtain e c1 where l: "limit_attempts env c ''setup:'' ip ''too many setup attempts, slow down'' = (e, c1)" by fastforce
  have 1: "grows c c1" using limit_attempts_frame [OF l] by (intro grows_frame) auto
  let ?S = "\<lambda>h. settings_set_many c1 [(''admin_password_hash'', h), (''session_secret'', secret), (''auth_mode'', mode)]"
  have 2: "grows c1 (?S h)" for h
    by (auto intro!: grows_trans [OF grows_set_other grows_trans [OF grows_set_other grows_set_other]])
  have "c' = c1 \<or> (\<exists>h. c' = ?S h \<or> (\<exists>u. user_create (?S h) ''admin'' ''admin'' (Some h) None ''local'' None (cv_utcnow env) = Some (u, c')))"
    using h l by (auto simp: complete_setup_def Let_def simp del: settings_set_many_simps split: option.splits if_splits)
  then have "grows c1 c'" using 2 grows_trans [OF 2 conjunct1 [OF grows_user_create]] grows_refl
    by (metis admin_role_valid)
  with 1 show ?thesis by (rule grows_trans)
qed

lemma grows_login: "login env c ip username pw = (r, c') \<Longrightarrow> grows c c'"
proof -
  assume h: "login env c ip username pw = (r, c')"
  obtain e c1 where l: "limit_attempts env c ''login:'' ip ''too many login attempts, slow down'' = (e, c1)" by fastforce
  have 1: "grows c c1" using limit_attempts_frame [OF l] by (intro grows_frame) auto
  have "grows c1 c'" using h l
    by (auto simp: login_def Let_def touch_last_login_def intro!: grows_user_update split: option.splits if_splits bool.splits)
  with 1 show ?thesis by (rule grows_trans)
qed

lemma change_password_cases:
  assumes "change_password env c cookie cur new salt = (r, c')"
  obtains (refused) e where "r = Inl e" "c' = c"
  | (changed) v vtext h t where "r = Inr t" "current_session_version c = Some v" "py_str_int (v + 1) = Some vtext"
      "store_password env c (change_password_user env c cookie) h (v + 1) vtext = (t, c')"
  using assms
  by (cases "store_password env c (change_password_user env c cookie) (the (hash_password (cv_derive env) salt new))
       (the (current_session_version c) + 1) (the (py_str_int (the (current_session_version c) + 1)))")
    (auto simp: change_password_def Let_def split: option.splits bool.splits if_splits)

lemma grows_store:
  assumes "current_session_version c = Some v" "py_str_int (v + 1) = Some vtext" "store_password env c user h (v + 1) vtext = (t, c')"
  shows "grows c c' \<and> current_session_version c' = Some (v + 1)"
proof -
  let ?c0 = "settings_set c ''session_version'' vtext"
  define c1 where "c1 = (if (case user of None \<Rightarrow> True | Some u \<Rightarrow> ur_username u = ''admin'') then settings_set ?c0 ''admin_password_hash'' h else ?c0)"
  have c1: "c1 = ?c0 \<or> c1 = settings_set ?c0 ''admin_password_hash'' h"
    "c' = (case user of None \<Rightarrow> c1 | Some u \<Rightarrow> snd (bump_session_version (set_password_hash c1 (ur_id u) h) (ur_id u)))"
    using assms(3) by (auto simp: c1_def store_password_def Let_def split: option.splits if_splits prod.splits)
  have "grows c c1" using c1 grows_set_version [OF assms(1,2)] by (auto intro: grows_trans [OF _ grows_set_other])
  moreover have "grows c1 (snd (bump_session_version (set_password_hash c1 i h) i))" for i
    by (rule grows_trans [OF _ grows_bump]) (simp add: set_password_hash_def grows_user_update)
  moreover have "current_session_version c' = current_session_version c1"
    by (auto simp: c1(2) current_session_version_def settings_get_def bump_session_version_def Let_def set_password_hash_def user_update_def
        split: option.splits)
  moreover have "current_session_version c1 = Some (v + 1)"
    using c1(1) py_str_int_back [OF assms(2)] by (auto simp: current_session_version_def)
  ultimately show ?thesis unfolding c1(2) by (auto split: option.splits intro: grows_trans)
qed

lemma grows_password: "change_password env c cookie cur new salt = (r, c') \<Longrightarrow> grows c c'"
  by (erule change_password_cases) (auto dest: grows_store)

lemma logout_all_cases:
  assumes "logout_all c = (r, c')"
  obtains "r = Inl ServerError" "c' = c"
  | v vtext where "r = Inr ()" "current_session_version c = Some v" "py_str_int (v + 1) = Some vtext" "c' = settings_set c ''session_version'' vtext"
  using assms by (cases "current_session_version c"; cases "py_str_int (the (current_session_version c) + 1)") (auto simp: logout_all_def)

lemma grows_logout_all: "logout_all c = (r, c') \<Longrightarrow> grows c c'"
  by (erule logout_all_cases) (auto intro: grows_set_version)

lemma grows_create_user: "create_user env c auth cookie ip username role pw email salt = (u, c') \<Longrightarrow> grows c c'"
  by (auto simp: create_user_def intro!: grows_log dest!: grows_user_create split: sum.splits if_splits option.splits prod.splits)

lemma update_user_role_cases:
  assumes "update_user_role env c auth cookie ip uid role = (r, c')"
  obtains e where "r = Inl e" "c' = c"
  | u c1 where "r = Inr u" "is_valid_role role" "c1 = snd (bump_session_version (update_role c uid role) uid)"
      "same_accounts c1 c'"
  using assms by (auto simp: update_user_role_def Let_def split: sum.splits if_splits option.splits)

lemma update_user_enabled_cases:
  assumes "update_user_enabled env c auth cookie ip uid en = (r, c')"
  obtains e where "r = Inl e" "c' = c"
  | u c0 c1 where "r = Inr u" "c0 = user_set_enabled c uid en" "c1 = (if en then c0 else snd (bump_session_version c0 uid))"
      "same_accounts c1 c'"
  using assms unfolding update_user_enabled_def Let_def
  by (auto split: sum.splits if_splits option.splits)

lemma grows_role: "update_user_role env c auth cookie ip uid role = (r, c') \<Longrightarrow> grows c c'"
proof (erule update_user_role_cases)
  fix c1 assume v: "is_valid_role role" and c1: "c1 = snd (bump_session_version (update_role c uid role) uid)"
    and c': "same_accounts c1 c'"
  have "grows c c1" unfolding c1 by (rule grows_trans [OF _ grows_bump]) (simp add: update_role_def grows_user_update v)
  then show "grows c c'" using c' by (rule grows_same)
qed auto

lemma grows_enabled: "update_user_enabled env c auth cookie ip uid en = (r, c') \<Longrightarrow> grows c c'"
proof (erule update_user_enabled_cases)
  fix c0 c1 assume c1: "c0 = user_set_enabled c uid en" "c1 = (if en then c0 else snd (bump_session_version c0 uid))"
    and c': "same_accounts c1 c'"
  have "grows c c0" unfolding c1 by (simp add: user_set_enabled_def grows_user_update)
  then have "grows c c1" using grows_trans [OF \<open>grows c c0\<close> grows_bump] by (auto simp: c1(2))
  then show "grows c c'" using c' by (rule grows_same)
qed auto

lemma ct_step_grows: "ct_step c c' \<Longrightarrow> grows c c'"
  by (induction rule: ct_step.induct)
    (blast intro: grows_setup grows_login grows_password grows_logout_all grows_create_user grows_role grows_enabled)+

lemma ct_steps_grow: "ct_step\<^sup>*\<^sup>* c c' \<Longrightarrow> grows c c'"
  by (induction rule: rtranclp_induct) (auto intro: grows_trans ct_step_grows)
subsection \<open>Properties\<close>

text \<open>C6. Nobody enters the control plane without a credential: a principal comes from the configured bearer token, from an
  instance that has neither a token nor a completed setup, or from a cookie whose signature verifies under the
  session secret, that is not expired, whose two versions are the current ones, and that names an enabled
  account; its role is then the one stored for that account now.\<close>

theorem admin_session_sound:
  assumes "require_admin env c authorization cookie = Inr p"
  shows "(p = ADMIN_TOKEN_PRINCIPAL \<and> cv_admin_token env \<noteq> [] \<and> (\<exists>h. authorization = Some h \<and> bearer_prefix h \<and> drop 7 h = cv_admin_token env))
    \<or> (p = LEGACY_ADMIN_PRINCIPAL \<and> cv_admin_token env = [] \<and> settings_get c ''admin_password_hash'' = None)
    \<or> (\<exists>token secret v u payload signed signature f. cookie = Some token \<and> settings_get c ''session_secret'' = Some secret
        \<and> str_partition ''.'' token = Some (signed, signature) \<and> b64decode signature = Some (ss_hmac (cv_session env) secret signed)
        \<and> decode_session_payload (cv_session env) token = Some payload
        \<and> py_float (dict_get payload ''iat'' JNull) = Inr f \<and> \<not> session_expired (ss_now (cv_session env)) f
        \<and> current_session_version c = Some v \<and> version_current payload ''session_version'' v
        \<and> user_get_by_id c (ur_id u) = Some u \<and> py_int (dict_get payload ''user_id'' JNull) = Some (ur_id u)
        \<and> version_current payload ''user_session_version'' (ur_session_version u) \<and> ur_enabled u \<and> p = user_principal u)"
proof (cases "admin_token_presented env authorization = Some True")
  case True
  then have "p = ADMIN_TOKEN_PRINCIPAL" using assms by (simp add: require_admin_def)
  then show ?thesis using True by (auto simp: admin_token_presented_def Let_def split: option.splits if_splits)
next
  case False
  then have tok: "admin_token_presented env authorization = Some False" using assms by (auto simp: require_admin_def split: option.splits bool.splits)
  show ?thesis
  proof (cases "settings_get c ''admin_password_hash''")
    case None
    then show ?thesis using assms tok by (auto simp: require_admin_def split: if_splits)
  next
    case (Some h)
    then obtain secret v token where s: "settings_get c ''session_secret'' = Some secret" "current_session_version c = Some v"
      "cookie = Some token" "session_principal env c secret v token = Inr p"
      using assms tok by (auto simp: require_admin_def split: option.splits list.splits)
    then obtain u where u: "session_user env c token = Some u" "ur_enabled u" "p = user_principal u"
      "verify_session_token (cv_session env) token secret v (Some (ur_session_version u)) = Some True"
      by (auto simp: session_principal_def split: option.splits bool.splits if_splits)
    obtain payload where payload: "decode_session_payload (cv_session env) token = Some payload"
      "Option.bind (py_int (dict_get payload ''user_id'' JNull)) (user_get_by_id c) = Some u"
      using u(1) by (fastforce simp: session_user_def split: option.splits list.splits json.splits)
    then obtain i where "py_int (dict_get payload ''user_id'' JNull) = Some i" "user_get_by_id c i = Some u" by (auto simp: bind_eq_Some_conv)
    then have "py_int (dict_get payload ''user_id'' JNull) = Some (ur_id u)" "user_get_by_id c (ur_id u) = Some u" using user_get_id by auto
    then show ?thesis using verify_Some_True [OF u(4)] s u payload by auto
  qed
qed
definition sample_session :: session_env where
  "sample_session = \<lparr>ss_hmac = (\<lambda>k m. k @ m), ss_dumps = (\<lambda>_. ''payload''),
     ss_loads = (\<lambda>_. Some (JObj [(''iat'', JFloat (Fin 5)), (''session_version'', JInt 0), (''user_id'', JInt 1), (''user_session_version'', JInt 0)])),
     ss_now = 5\<rparr>"

definition sample_control_env :: "in_memory control_env" where
  "sample_control_env = \<lparr>cv_session = sample_session, cv_derive = (\<lambda>p s i. Some p), cv_admin_token = [], cv_ops = in_memory_ops,
     cv_clock = 0, cv_utcnow = ''now'', cv_dumps_sorted = (\<lambda>_. ''{}'')\<rparr>"

definition sample_hash :: string where
  "sample_hash = ''pbkdf2_sha256$1$00$'' @ bytes_hex ''swordfish''"

definition sample_user :: user_record where
  "sample_user = \<lparr>ur_id = 1, ur_username = ''admin'', ur_email = None, ur_password_hash = Some sample_hash, ur_role = ''admin'',
     ur_auth_source = ''local'', ur_oidc_subject = None, ur_enabled = True, ur_session_version = 0, ur_created_at = ''then'', ur_last_login_at = None\<rparr>"

definition sample_control :: "in_memory control" where
  "sample_control = \<lparr>ct_settings = [(''admin_password_hash'', sample_hash), (''session_secret'', ''key'')], ct_users = [sample_user],
     ct_next_user = 2, ct_events = [], ct_limiter = in_memory_init\<rparr>"

definition sample_cookie :: string where
  "sample_cookie = create_session_token sample_session ''key'' 0 (Some 1) 0"

lemma sample_payload: "ss_loads sample_session x = Some (JObj (session_payload sample_session 0 (Some 1) 0))"
  by (simp add: sample_session_def session_payload_def)

theorem admin_session_sound_witness:
  "case require_admin sample_control_env sample_control None (Some sample_cookie) of
     Inr p \<Rightarrow> p = user_principal sample_user \<and> (\<exists>signed signature. str_partition ''.'' sample_cookie = Some (signed, signature)
        \<and> b64decode signature = Some (''key'' @ signed))
   | Inl _ \<Rightarrow> False"
proof -
  have r: "require_admin sample_control_env sample_control None (Some sample_cookie) = Inr (user_principal sample_user)" by code_simp
  have "user_principal sample_user \<noteq> ADMIN_TOKEN_PRINCIPAL" "user_principal sample_user \<noteq> LEGACY_ADMIN_PRINCIPAL" by code_simp+
  moreover have "settings_get sample_control ''session_secret'' = Some ''key''" by code_simp
  ultimately show ?thesis using admin_session_sound [OF r] unfolding r
    by (auto simp: sample_control_env_def sample_session_def)
qed

lemma round_double_0 [simp]: "round_double 0 = Fin 0"
  by (simp add: round_double_def)

lemma created_nonempty: "create_session_token env secret v uid uv \<noteq> []"
  by (simp add: create_session_token_def Let_def)

lemma verify_created:
  assumes "ss_loads env (ss_dumps env (JObj (session_payload env v uid uv))) = Some (JObj (session_payload env v uid uv))"
  shows "verify_session_token env (create_session_token env secret v uid uv) secret v (Some uv) = Some True"
  using assms b64encode_no_dot
  by (simp add: verify_session_token_def create_session_token_def Let_def partition_dot session_payload_def dict_get_def
      version_current_def int_instance_def session_expired_def SESSION_MAX_AGE_SECONDS_def)

lemma session_user_created:
  assumes "ss_loads (cv_session env') (ss_dumps env (JObj (session_payload env v (Some i) uv))) = Some (JObj (session_payload env v (Some i) uv))"
  shows "session_user env' c (create_session_token env secret v (Some i) uv) = user_get_by_id c i"
  using decode_created [OF assms, of secret]
  by (simp add: session_user_def session_payload_def dict_get_def py_int_def)

lemma require_admin_cookie:
  assumes "settings_get c ''admin_password_hash'' = Some h" and "settings_get c ''session_secret'' = Some secret"
    and "current_session_version c = Some v" and "token \<noteq> []"
  shows "require_admin env c None (Some token) = session_principal env c secret v token"
  using assms by (cases token) (auto simp: require_admin_def admin_token_presented_def)

lemma login_cases:
  assumes "login env c ip name pw = (Inr token, c')"
  obtains c1 u h secret v where "same_accounts c c1" "user_get_by_username c name = Some u" "ur_enabled u"
    "settings_get c ''admin_password_hash'' = Some h" "settings_get c ''session_secret'' = Some secret" "current_session_version c = Some v"
    "token = create_session_token (cv_session env) secret v (Some (ur_id u)) (ur_session_version u)"
    "c' = touch_last_login c1 (ur_id u) (cv_utcnow env)"
proof -
  obtain e c1 where l: "limit_attempts env c ''login:'' ip ''too many login attempts, slow down'' = (e, c1)" by fastforce
  then have same: "same_accounts c c1" using limit_attempts_frame by (simp add: same_accounts_def)
  then have reads: "settings_get c1 = settings_get c" "user_get_by_username c1 = user_get_by_username c" "current_session_version c1 = current_session_version c"
    by (auto simp: same_accounts_def settings_get_def user_get_by_username_def current_session_version_def)
  show thesis using assms l same that
    by (auto simp: login_def reads mint_def split: option.splits if_splits bool.splits)
qed

lemma user_by_name_id: "control_wf c \<Longrightarrow> user_get_by_username c name = Some u \<Longrightarrow> user_get_by_id c (ur_id u) = Some u"
proof -
  assume "control_wf c" "user_get_by_username c name = Some u"
  moreover have "distinct (map ur_id us) \<Longrightarrow> u \<in> set us \<Longrightarrow> List.find (\<lambda>w. ur_id w = ur_id u) us = Some u" for us by (induction us) auto
  ultimately show ?thesis by (auto simp: control_wf_def user_get_by_username_def user_get_by_id_def find_Some_iff)
qed

text \<open>Whoever logs in is let in: the cookie a successful login returns is accepted at once and gives the principal of the
  account that logged in. (The printed payload reads back.)\<close>

theorem login_session_accepted:
  assumes "login env c ip name pw = (Inr token, c')" and "control_wf c"
    and "user_get_by_username c name = Some u" and "current_session_version c = Some v"
    and "let p = JObj (session_payload (cv_session env) v (Some (ur_id u)) (ur_session_version u)) in
      ss_loads (cv_session env) (ss_dumps (cv_session env) p) = Some p"
  shows "require_admin env c' None (Some token) = Inr (user_principal u)"
  using assms(1)
proof (cases rule: login_cases)
  case (1 c1 u' h secret v')
  note [simp] = 1(2) [unfolded assms(3), simplified, symmetric] 1(6) [unfolded assms(4), simplified, symmetric]
  let ?u = "u\<lparr>ur_last_login_at := Some (cv_utcnow env)\<rparr>"
  have "user_get_by_id c1 (ur_id u) = Some u" using same_accounts_reads [OF 1(1)] user_by_name_id [OF assms(2,3)] by simp
  then have u: "user_get_by_id c' (ur_id u) = Some ?u" using 1(8) by (simp add: touch_last_login_def user_get_update)
  have set: "ct_settings c' = ct_settings c" using 1(1,8) by (simp add: same_accounts_def touch_last_login_def user_update_def)
  then have "require_admin env c' None (Some token) = session_principal env c' secret v token"
    using 1(4-7) created_nonempty by (intro require_admin_cookie) (auto simp: settings_get_def current_session_version_def)
  moreover have "session_user env c' token = Some ?u" using session_user_created [OF assms(5) [unfolded Let_def], of c'] u 1(7) by simp
  moreover have "verify_session_token (cv_session env) token secret v (Some (ur_session_version ?u)) = Some True"
    using verify_created [OF assms(5) [unfolded Let_def]] 1(7) by simp
  ultimately show ?thesis using 1(3) by (simp add: session_principal_def user_principal_def)
qed

theorem login_session_accepted_witness:
  "case login sample_control_env sample_control None ''admin'' ''swordfish'' of
     (Inr token, c') \<Rightarrow> require_admin sample_control_env c' None (Some token) = Inr (user_principal sample_user)
   | _ \<Rightarrow> False"
proof -
  let ?l = "login sample_control_env sample_control None ''admin'' ''swordfish''"
  have "case fst ?l of Inr _ \<Rightarrow> True | Inl _ \<Rightarrow> False" by code_simp
  then obtain token c' where l: "?l = (Inr token, c')" by (cases ?l) (auto split: sum.splits)
  have wf: "control_wf sample_control" "user_get_by_username sample_control ''admin'' = Some sample_user"
    "current_session_version sample_control = Some 0" by code_simp+
  from login_session_accepted [OF l wf] show ?thesis unfolding l
    by (simp add: sample_control_env_def sample_payload sample_user_def)
qed
subsection \<open>Revocation\<close>

text \<open>The actions that end the sessions of an account.\<close>

inductive revokes :: "int \<Rightarrow> 's control \<Rightarrow> 's control \<Rightarrow> bool" where
  by_logout_all: "logout_all c = (Inr (), c') \<Longrightarrow> revokes i c c'"
| by_disabling: "update_user_enabled env c auth cookie ip i False = (Inr u, c') \<Longrightarrow> revokes i c c'"
| by_role_change: "update_user_role env c auth cookie ip i role = (Inr u, c') \<Longrightarrow> revokes i c c'"
| by_password_change: "change_password env c cookie' cur new salt = (Inr t, c') \<Longrightarrow> revokes i c c'"

lemma user_version_update:
  "(\<And>u. ur_id (f u) = ur_id u) \<Longrightarrow> (\<And>u. ur_session_version (f u) = ur_session_version u) \<Longrightarrow>
   user_version (user_update c i f) j = user_version c j"
  by (cases "user_get_by_id c j") (simp_all add: user_version_def user_get_update)

lemma grows_version: "grows c c' \<Longrightarrow> current_session_version c = Some v \<Longrightarrow> current_session_version c' = Some v' \<Longrightarrow> v \<le> v'"
  by (fastforce simp: grows_def)

lemma grows_user_version: "grows c c' \<Longrightarrow> user_version c i = Some v \<Longrightarrow> user_version c' i = Some v' \<Longrightarrow> v \<le> v'"
  by (fastforce simp: grows_def)

lemma revokes_bumps:
  assumes "revokes i c c'" and "current_session_version c = Some v" and "user_version c i = Some uv"
  shows "grows c c' \<and> (current_session_version c' = Some (v + 1) \<or> user_version c' i = Some (uv + 1))"
  using assms(1)
proof cases
  case by_logout_all
  from this show ?thesis
  proof (cases rule: logout_all_cases)
    case (2 v' vtext)
    then show ?thesis using assms(2) grows_logout_all [OF by_logout_all] py_str_int_back [of "v + 1" vtext]
      by (simp add: current_session_version_def)
  qed simp
next
  case (by_disabling env auth cookie ip u)
  have "user_version (user_set_enabled c i False) i = Some uv"
    using assms(3) by (simp add: user_set_enabled_def user_version_update)
  note bump = bump_version [OF this]
  obtain c1 where "same_accounts c1 c'" "c1 = snd (bump_session_version (user_set_enabled c i False) i)"
    using by_disabling by (auto elim!: update_user_enabled_cases)
  then show ?thesis using bump grows_enabled [OF by_disabling] same_accounts_reads [of c1 c' i] by simp
next
  case (by_role_change env auth cookie ip role u)
  have "user_version (update_role c i role) i = Some uv"
    using assms(3) by (simp add: update_role_def user_version_update)
  note bump = bump_version [OF this]
  obtain c1 where "same_accounts c1 c'" "c1 = snd (bump_session_version (update_role c i role) i)"
    using by_role_change by (auto elim!: update_user_role_cases)
  then show ?thesis using bump grows_role [OF by_role_change] same_accounts_reads [of c1 c' i] by simp
next
  case (by_password_change env cookie' cur new salt t)
  from this show ?thesis
  proof (cases rule: change_password_cases)
    case (changed v' vtext h t')
    then show ?thesis using assms(2) grows_store [OF changed(2-4)] by auto
  qed simp
qed

text \<open>C7. A revoked session never comes back: take any cookie a login returned; once all sessions are logged out, or the account is
  disabled, or its role changes, or a password is changed, no sequence of later actions makes the gateway accept that
  cookie again.\<close>

theorem revoked_session_stays_out:
  assumes "login env c ip name pw = (Inr token, c1)" and "control_wf c" and "user_get_by_username c name = Some u"
    and "current_session_version c = Some v"
    and "ct_step\<^sup>*\<^sup>* c1 c2" and "revokes (ur_id u) c2 c3" and "ct_step\<^sup>*\<^sup>* c3 c4"
    and "let p = JObj (session_payload (cv_session env) v (Some (ur_id u)) (ur_session_version u)) in
      ss_loads (cv_session env') (ss_dumps (cv_session env) p) = Some p"
  shows "\<exists>e. require_admin env' c4 None (Some token) = Inl e"
  using assms(1)
proof (cases rule: login_cases)
  case (1 c0 u' h secret v')
  let ?i = "ur_id u" and ?p = "session_payload (cv_session env) v (Some (ur_id u)) (ur_session_version u)"
  have eq: "u' = u" "v' = v" using 1(2,6) assms(3,4) by auto
  have tok: "token = create_session_token (cv_session env) secret v (Some ?i) (ur_session_version u)" using 1(7) eq by simp
  have g2: "grows c c2" using grows_trans [OF grows_login [OF assms(1)] ct_steps_grow [OF assms(5)]] .
  have "user_version c ?i = Some (ur_session_version u)" using user_by_name_id [OF assms(2,3)] by (simp add: user_version_def)
  then obtain v2 uv2 where 2: "v \<le> v2" "current_session_version c2 = Some v2" "ur_session_version u \<le> uv2" "user_version c2 ?i = Some uv2"
    using g2 assms(4) unfolding grows_def by blast
  note r = revokes_bumps [OF assms(6) 2(2,4)]
  have g4: "grows c3 c4" using ct_steps_grow [OF assms(7)] .
  have g: "grows c2 c4" using r g4 grows_trans by blast
  obtain v4 uv4 where 4: "current_session_version c4 = Some v4" "user_version c4 ?i = Some uv4" "v < v4 \<or> ur_session_version u < uv4"
  proof -
    obtain v4 uv4 where "current_session_version c4 = Some v4" "user_version c4 ?i = Some uv4" using g 2 unfolding grows_def by blast
    moreover have "v2 \<le> v4" "ur_session_version u \<le> uv4"
      using grows_version [OF g 2(2) calculation(1)] grows_user_version [OF g 2(4) calculation(2)] 2 by auto
    moreover have "v2 + 1 \<le> v4 \<or> uv2 + 1 \<le> uv4" using r grows_version [OF g4 _ calculation(1)] grows_user_version [OF g4 _ calculation(2)] by blast
    ultimately show thesis using that 2 by auto
  qed
  have hash: "settings_get c4 ''admin_password_hash'' \<noteq> None" using g2 g 1(4) unfolding grows_def by auto
  have dec: "decode_session_payload (cv_session env') token = Some ?p" using decode_created assms(8) tok by (simp add: Let_def)
  have "\<not> version_current ?p ''session_version'' v4 \<or> \<not> version_current ?p ''user_session_version'' uv4"
    using 4(3) by (auto simp: version_current_def session_payload_def dict_get_def int_instance_def)
  then have ver: "verify_session_token (cv_session env') token s v4 (Some uv4) \<noteq> Some True" for s
    using verify_Some_True [of "cv_session env'" token s v4 "Some uv4"] dec by auto
  obtain u4 where u4: "session_user env' c4 token = Some u4" "ur_session_version u4 = uv4"
    using session_user_created [OF assms(8) [unfolded Let_def], of c4 secret] tok 4(2) by (auto simp: user_version_def)
  show ?thesis
  proof (cases "settings_get c4 ''session_secret''")
    case None
    then show ?thesis using hash by (auto simp: require_admin_def admin_token_presented_def)
  next
    case (Some s)
    have "token \<noteq> []" using tok created_nonempty by simp
    from require_admin_cookie [OF _ Some 4(1) this] hash show ?thesis
      using ver [of s] u4 by (auto simp: session_principal_def split: option.splits bool.splits)
  qed
qed
theorem revoked_session_stays_out_witness:
  "case login sample_control_env sample_control None ''admin'' ''swordfish'' of
     (Inr token, c1) \<Rightarrow> (\<exists>c3 e. logout_all c1 = (Inr (), c3) \<and> require_admin sample_control_env c3 None (Some token) = Inl e)
   | _ \<Rightarrow> False"
proof -
  let ?l = "login sample_control_env sample_control None ''admin'' ''swordfish''"
  have "case ?l of (Inr _, c1) \<Rightarrow> fst (logout_all c1) = Inr () | _ \<Rightarrow> False" by code_simp
  then obtain token c1 c3 where l: "?l = (Inr token, c1)" "logout_all c1 = (Inr (), c3)" by (auto simp: prod_eq_iff split: prod.splits sum.splits)
  have wf: "control_wf sample_control" "user_get_by_username sample_control ''admin'' = Some sample_user"
    "current_session_version sample_control = Some 0" by code_simp+
  have "let p = JObj (session_payload (cv_session sample_control_env) 0 (Some (ur_id sample_user)) (ur_session_version sample_user)) in
      ss_loads (cv_session sample_control_env) (ss_dumps (cv_session sample_control_env) p) = Some p"
    by (simp add: sample_control_env_def sample_payload sample_user_def)
  from revoked_session_stays_out [OF l(1) wf rtranclp.rtrancl_refl by_logout_all [OF l(2)] rtranclp.rtrancl_refl this]
  show ?thesis unfolding l(1) using l(2) by auto
qed



text \<open>A change of password never looks at the signature of the cookie: two cookies with the same payload part, however signed,
  are treated alike, so an unsigned cookie chooses the account whose password is tried; and the route is not
  rate limited, so it tells any caller whether a guess is the password of that account, as often as asked.\<close>

theorem change_password_ignores_signature:
  assumes "CHR ''.'' \<notin> set payload"
  shows "change_password env c (Some (payload @ ''.'' @ signature)) cur new salt = change_password env c (Some (payload @ ''.'' @ forged)) cur new salt
    \<and> ct_limiter (snd (change_password env c (Some (payload @ ''.'' @ forged)) cur new salt)) = ct_limiter c"
proof -
  have p: "str_partition ''.'' (payload @ CHR ''.'' # s) = Some (payload, s)" for s using assms by (rule partition_dot)
  then have "decode_session_payload (cv_session env) (payload @ ''.'' @ signature) = decode_session_payload (cv_session env) (payload @ ''.'' @ forged)"
    by (simp add: decode_session_payload_def)
  then have "change_password_user env c (Some (payload @ ''.'' @ signature)) = change_password_user env c (Some (payload @ ''.'' @ forged))"
    by (cases payload) (simp_all add: change_password_user_def)
  then have same: "change_password env c (Some (payload @ ''.'' @ signature)) cur new salt = change_password env c (Some (payload @ ''.'' @ forged)) cur new salt"
    unfolding change_password_def by (simp only:)
  obtain r c' where h: "change_password env c (Some (payload @ ''.'' @ forged)) cur new salt = (r, c')" by fastforce
  have "ct_limiter c' = ct_limiter c" using h
  proof (cases rule: change_password_cases)
    case (changed v vtext nh t)
    then show ?thesis
      by (auto simp: store_password_def Let_def settings_set_def bump_session_version_def set_password_hash_def user_update_def
          split: option.splits if_splits prod.splits)
  qed simp
  then show ?thesis using same h by simp
qed

theorem change_password_ignores_signature_witness:
  "change_password sample_control_env sample_control (Some (b64encode ''payload'' @ ''.'' @ ''forged'')) ''swordfish'' ''hijacked!'' ''s''
   = change_password sample_control_env sample_control (Some (b64encode ''payload'' @ ''.'' @ b64encode (''key'' @ b64encode ''payload''))) ''swordfish'' ''hijacked!'' ''s''"
  using change_password_ignores_signature [OF b64encode_no_dot] by blast

end
