(* ===== verification/Approvals.thy ===== *)
theory Approvals
  imports Config_Io Webhooks Tools_Cache Control_Plane
begin

text \<open>
  Four-eyes change control: \<open>ProposalRepo\<close> of \<open>db/repo.py\<close>, the service of \<open>archon/approvals.py\<close> and the sweep of
  \<open>stoa/proposals.py\<close>. A payload is kept as the value its JSON text denotes; the column is JSONB, which refuses NaN,
  infinities and NUL characters, and the snapshot in it is compared as Python compares values. The audit log and the
  tool cache are wired, the dispatcher may be absent. \<open>approve\<close> is split at its database accesses, so that the same pieces
  give the uninterrupted call and the interleaved one of the theory \<open>Approval_Races\<close>.
\<close>

subsection \<open>Python equality of decoded JSON\<close>

definition json_num :: "json \<Rightarrow> pyfloat option" where
  "json_num v = (case v of JInt i \<Rightarrow> Some (Fin (rat_of_int i)) | JBool b \<Rightarrow> Some (Fin (if b then 1 else 0)) | JFloat f \<Rightarrow> Some f | _ \<Rightarrow> None)"

function (sequential) json_eq :: "json \<Rightarrow> json \<Rightarrow> bool" where
  "json_eq JNull w = (w = JNull)"
| "json_eq (JStr s) w = (w = JStr s)"
| "json_eq (JList xs) w = (case w of JList ys \<Rightarrow> length xs = length ys \<and> (\<forall>(x, y) \<in> set (zip xs ys). json_eq x y) | _ \<Rightarrow> False)"
| "json_eq (JObj a) w = (case w of
     JObj b \<Rightarrow> length a = length b \<and> (\<forall>(k, v) \<in> set a. case map_of b k of None \<Rightarrow> False | Some u \<Rightarrow> json_eq v u) | _ \<Rightarrow> False)"
| "json_eq v w = (case (json_num v, json_num w) of (Some a, Some b) \<Rightarrow> a \<noteq> NaN \<and> a = b | _ \<Rightarrow> False)"

  by pat_completeness auto
termination
  by (relation "measure (\<lambda>(v, w). size v)") (auto dest!: set_zip_leftD intro!: le_imp_less_Suc size_list_estimation' simp: less_Suc_eq_le intro: size_list_estimation'
      dest: size_list_estimation' [OF _ order_refl, where f = "\<lambda>x. Suc (size (snd x))"])

primrec jsonb_ok :: "json \<Rightarrow> bool" where
  "jsonb_ok JNull = True"
| "jsonb_ok (JBool b) = True"
| "jsonb_ok (JInt i) = True"
| "jsonb_ok (JFloat f) = (f \<notin> {NaN, PosInf, NegInf})"
| "jsonb_ok (JStr s) = (CHR 0x00 \<notin> set s)"
| "jsonb_ok (JList vs) = list_all (\<lambda>b. b) (map jsonb_ok vs)"
| "jsonb_ok (JObj kvs) = list_all (\<lambda>(k, b). CHR 0x00 \<notin> set k \<and> b) (map (map_prod id jsonb_ok) kvs)"

subsection \<open>The repository\<close>

record proposal =
  pp_id :: int
  pp_target_type :: string
  pp_target_id :: string
  pp_payload :: json
  pp_proposer_user_id :: "int option"
  pp_proposer :: string
  pp_state :: string
  pp_created_at :: string
  pp_resolved_at :: "string option"
  pp_resolver_user_id :: "int option"
  pp_resolver :: "string option"
  pp_resolution_reason :: "string option"
  pp_project_id :: "int option"

record approvals =
  av_db :: config_db
  av_proposals :: "proposal list"
  av_next :: int
  av_events :: "admin_event list"
  av_tools :: "tool_row list"
  av_hooks :: "webhooks option"

text \<open>The clocks of one call, the printer of audit values, and the text order of the database.\<close>

record approval_env =
  ae_config :: config_env
  ae_dumps :: "json \<Rightarrow> string"
  ae_now :: rat
  ae_ts :: string
  ae_cutoff :: "int \<Rightarrow> string option"
  ae_text_less :: "string \<Rightarrow> string \<Rightarrow> bool"

definition proposal_create ::
    "approval_env \<Rightarrow> approvals \<Rightarrow> string \<Rightarrow> string \<Rightarrow> json \<Rightarrow> int option \<Rightarrow> string \<Rightarrow> int option \<Rightarrow> (proposal \<times> approvals) option" where
  "proposal_create env s target_type target_id payload uid proposer project_id =
     (if \<not> jsonb_ok payload then None
      else let p = \<lparr>pp_id = av_next s, pp_target_type = target_type, pp_target_id = target_id, pp_payload = payload,
                  pp_proposer_user_id = uid, pp_proposer = proposer, pp_state = ''pending'', pp_created_at = ae_ts env, pp_resolved_at = None,
                  pp_resolver_user_id = None, pp_resolver = None, pp_resolution_reason = None, pp_project_id = project_id\<rparr>
        in Some (p, s\<lparr>av_proposals := av_proposals s @ [p], av_next := av_next s + 1\<rparr>))"

definition proposal_get :: "approvals \<Rightarrow> int \<Rightarrow> proposal option" where
  "proposal_get s i = List.find (\<lambda>p. pp_id p = i) (av_proposals s)"

text \<open>Newest first: \<open>ORDER BY created_at DESC, id DESC LIMIT\<close>.\<close>

definition proposal_list :: "approval_env \<Rightarrow> approvals \<Rightarrow> string option \<Rightarrow> int option \<Rightarrow> nat \<Rightarrow> proposal list" where
  "proposal_list env s state project_id limit =
     take limit (order_by (\<lambda>(t, i) (t', i'). ae_text_less env t' t \<or> (\<not> ae_text_less env t t' \<and> i' \<le> i)) (\<lambda>p. (pp_created_at p, pp_id p))
       (filter (\<lambda>p. (state = None \<or> Some (pp_state p) = state) \<and> (project_id = None \<or> pp_project_id p = project_id)) (av_proposals s)))"

text \<open>The compare-and-swap: only a pending row is updated.\<close>

definition proposal_resolve ::
    "approval_env \<Rightarrow> approvals \<Rightarrow> int \<Rightarrow> string \<Rightarrow> int option \<Rightarrow> string option \<Rightarrow> string option \<Rightarrow> proposal option \<times> approvals" where
  "proposal_resolve env s i state uid resolver reason =
     (let close = (\<lambda>p. p\<lparr>pp_state := state, pp_resolved_at := Some (ae_ts env), pp_resolver_user_id := uid, pp_resolver := resolver,
            pp_resolution_reason := reason\<rparr>);
          hit = (\<lambda>p. pp_id p = i \<and> pp_state p = ''pending'') in
      (map_option close (List.find hit (av_proposals s)), s\<lparr>av_proposals := map (\<lambda>p. if hit p then close p else p) (av_proposals s)\<rparr>))"

definition proposal_expire_due :: "approval_env \<Rightarrow> approvals \<Rightarrow> string \<Rightarrow> nat \<times> approvals" where
  "proposal_expire_due env s cutoff =
     (let hit = (\<lambda>p. pp_state p = ''pending'' \<and> ae_text_less env (pp_created_at p) cutoff) in
      (length (filter hit (av_proposals s)),
       s\<lparr>av_proposals := map (\<lambda>p. if hit p then p\<lparr>pp_state := ''expired'', pp_resolved_at := Some (ae_ts env),
            pp_resolver := Some ''expiry-sweep''\<rparr> else p) (av_proposals s)\<rparr>))"

subsection \<open>The service\<close>

datatype approval_error =
    ProposalError string
  | ProposalStaleError string
  | ProposalResolvedError string
  | ProposalConflictError string
  | ProposalNotFound int
  | InvalidPolicy string
  | Raised

definition SETTING_ENABLED :: string where "SETTING_ENABLED = ''approvals_enabled''"
definition SETTING_TTL_DAYS :: string where "SETTING_TTL_DAYS = ''approvals_ttl_days''"
definition TARGET_SERVER_POLICY :: string where "TARGET_SERVER_POLICY = ''server_policy''"
definition TARGET_CONFIG_IMPORT :: string where "TARGET_CONFIG_IMPORT = ''config_import''"
definition DEFAULT_TTL_DAYS :: int where "DEFAULT_TTL_DAYS = 7"

type_synonym identity_key = "int option \<times> string"

definition identity :: "principal \<Rightarrow> identity_key" where
  "identity p = (pc_user_id p, actor p)"

definition model_dump_policy :: "server_policy \<Rightarrow> json" where
  "model_dump_policy p = JObj
     [(''mode'', JStr (sp_mode p)), (''rate_limit'', opt_json JStr (sp_rate_limit p)), (''allowed'', JList (map JStr (sp_allowed p))),
      (''denied'', JList (map JStr (sp_denied p))),
      (''param_rules'', JObj (map (map_prod id (\<lambda>rules. JObj (map (map_prod id dump_rule) rules))) (sp_param_rules p))),
      (''dlp_detectors'', dump_strings (sp_dlp_detectors p)), (''dlp_custom_patterns'', JList (map dump_custom (sp_dlp_custom_patterns p))),
      (''response_dlp_detectors'', dump_strings (sp_response_dlp_detectors p)),
      (''response_dlp_max_bytes'', JInt (sp_response_dlp_max_bytes p))]"

definition approvals_enabled :: "approvals \<Rightarrow> bool" where
  "approvals_enabled s \<longleftrightarrow> map_of (cd_settings (av_db s)) SETTING_ENABLED = Some ''true''"

definition opt_str :: "string option \<Rightarrow> json" where
  "opt_str v = opt_json JStr v"

definition record_proposal_event ::
    "approval_env \<Rightarrow> approvals \<Rightarrow> proposal \<Rightarrow> principal \<Rightarrow> string option \<Rightarrow> string \<Rightarrow> string \<Rightarrow> approvals" where
  "record_proposal_event env s p who ip action summary =
     s\<lparr>av_events := record_event (ae_dumps env) (av_events s) action summary (Some (actor who)) (Some ''proposal'') (Some (show_int (pp_id p)))
         None (Some (JObj [(''target_type'', JStr (pp_target_type p)), (''target_id'', JStr (pp_target_id p)), (''state'', JStr (pp_state p)),
           (''proposer'', JStr (pp_proposer p)), (''resolver'', opt_str (pp_resolver p)), (''resolved_at'', opt_str (pp_resolved_at p))])) ip\<rparr>"

definition notify_pending :: "approval_env \<Rightarrow> approvals \<Rightarrow> proposal \<Rightarrow> approvals" where
  "notify_pending env s p = s\<lparr>av_hooks := map_option (\<lambda>w. notify_approval_pending w (pp_id p) (pp_target_type p) (pp_target_id p) (pp_proposer p)
     (ae_now env) (ae_ts env)) (av_hooks s)\<rparr>"

definition announce :: "approval_env \<Rightarrow> principal \<Rightarrow> string option \<Rightarrow> string \<Rightarrow> (proposal \<times> approvals) option \<Rightarrow> approval_error + proposal \<times> approvals" where
  "announce env proposer ip summary created =
     (case created of None \<Rightarrow> Inl Raised
      | Some (p, s) \<Rightarrow> Inr (p, notify_pending env (record_proposal_event env s p proposer ip ''proposal.create'' summary) p))"

definition propose_policy_change ::
    "approval_env \<Rightarrow> approvals \<Rightarrow> string \<Rightarrow> json \<Rightarrow> principal \<Rightarrow> string option \<Rightarrow> approval_error + proposal \<times> approvals" where
  "propose_policy_change env s server_slug requested proposer ip =
     (case cf_policy (ae_config env) requested of
        Inl e \<Rightarrow> Inl (InvalidPolicy e)
      | Inr _ \<Rightarrow>
          (case cfg_get (av_db s) server_slug of
             None \<Rightarrow> Inl (ProposalError (''server '' @ quoted server_slug @ '' not found''))
           | Some server \<Rightarrow>
               (case cfg_get_policy (ae_config env) (av_db s) (sv_id server) of
                  None \<Rightarrow> Inl Raised
                | Some current \<Rightarrow>
                    announce env proposer ip (''proposed policy change on '' @ quoted server_slug)
                      (proposal_create env s TARGET_SERVER_POLICY server_slug
                        (JObj [(''request'', requested), (''baseline'', model_dump_policy current)])
                        (pc_user_id proposer) (actor proposer) (sv_project_id server)))))"

definition export_snapshot :: "approval_env \<Rightarrow> approvals \<Rightarrow> string option" where
  "export_snapshot env s = map_option (to_stable_yaml (ae_config env)) (export_config (ae_config env) (av_db s) False)"

definition propose_config_import ::
    "approval_env \<Rightarrow> approvals \<Rightarrow> string \<Rightarrow> principal \<Rightarrow> string option \<Rightarrow> approval_error + proposal \<times> approvals" where
  "propose_config_import env s yaml proposer ip =
     (case plan_import (ae_config env) False (av_db s) yaml of
        None \<Rightarrow> Inl Raised
      | Some (plan, _) \<Rightarrow>
          if \<not> plan_ok plan then Inl (ProposalError (str_join ''; '' (ip_errors plan)))
          else case export_snapshot env s of
              None \<Rightarrow> Inl Raised
            | Some baseline \<Rightarrow>
                announce env proposer ip (''proposed config import ('' @ show_nat (length (ip_actions plan)) @ '' change(s))'')
                  (proposal_create env s TARGET_CONFIG_IMPORT ''config''
                    (JObj [(''request'', JObj [(''yaml'', JStr yaml)]), (''baseline'', JStr baseline)])
                    (pc_user_id proposer) (actor proposer) None))"

text \<open>The two parts of a payload; a payload of another shape raises.\<close>

definition payload_parts :: "proposal \<Rightarrow> (json \<times> json) option" where
  "payload_parts p = (case pp_payload p of
     JObj kvs \<Rightarrow> (case (map_of kvs ''request'', map_of kvs ''baseline'') of (Some r, Some b) \<Rightarrow> Some (r, b) | _ \<Rightarrow> None) | _ \<Rightarrow> None)"

definition payload_yaml :: "proposal \<Rightarrow> (string \<times> json) option" where
  "payload_yaml p = (case payload_parts p of
     Some (JObj kvs, b) \<Rightarrow> (case map_of kvs ''yaml'' of Some (JStr y) \<Rightarrow> Some (y, b) | _ \<Rightarrow> None) | _ \<Rightarrow> None)"

definition preview :: "approval_env \<Rightarrow> approvals \<Rightarrow> proposal \<Rightarrow> approval_error + string list \<times> bool" where
  "preview env s p =
     (if pp_target_type p = TARGET_SERVER_POLICY then
        (case payload_parts p of
           None \<Rightarrow> Inl Raised
         | Some (request, baseline) \<Rightarrow>
             (case cf_policy (ae_config env) request of
                Inl e \<Rightarrow> Inl (InvalidPolicy e)
              | Inr requested \<Rightarrow>
                  (case cfg_get (av_db s) (pp_target_id p) of
                     None \<Rightarrow> Inr ([''server '' @ quoted (pp_target_id p) @ '' no longer exists''], True)
                   | Some server \<Rightarrow>
                       (case cfg_get_policy (ae_config env) (av_db s) (sv_id server) of
                          None \<Rightarrow> Inl Raised
                        | Some current \<Rightarrow> Inr (policy_diff current requested, \<not> json_eq (model_dump_policy current) baseline)))))
      else if pp_target_type p = TARGET_CONFIG_IMPORT then
        (case payload_yaml p of
           None \<Rightarrow> Inl Raised
         | Some (yaml, baseline) \<Rightarrow>
             (case (plan_import (ae_config env) False (av_db s) yaml, export_snapshot env s) of
                (Some (plan, _), Some export) \<Rightarrow>
                  Inr (if ip_errors plan \<noteq> [] then map (\<lambda>e. ''error: '' @ e) (ip_errors plan)
                       else map (describe False) (ip_actions plan) @ map (\<lambda>w. ''warning: '' @ w) (ip_warnings plan), \<not> json_eq (JStr export) baseline)
              | _ \<Rightarrow> Inl Raised))
      else Inr ([''unknown proposal kind '' @ repr_str (pp_target_type p)], True))"
subsection \<open>Approving, in its pieces\<close>

text \<open>What the checks leave to be written.\<close>

datatype pending_write = WritePolicy int server_policy server_policy | WriteImport string

text \<open>The proposal is read, must be pending, and the approver must not be its proposer.\<close>

definition approve_read :: "approvals \<Rightarrow> int \<Rightarrow> principal \<Rightarrow> approval_error + proposal" where
  "approve_read s i who =
     (case proposal_get s i of
        None \<Rightarrow> Inl (ProposalNotFound i)
      | Some p \<Rightarrow>
          if pp_state p \<noteq> ''pending''
            then Inl (ProposalResolvedError (''proposal '' @ show_int i @ '' is already '' @ pp_state p @ '', not pending''))
          else if identity who = (pp_proposer_user_id p, pp_proposer p)
            then Inl (ProposalConflictError ''four-eyes: the proposer cannot approve their own proposal'')
          else Inr p)"

text \<open>The target is read again and compared with the snapshot of the proposal.\<close>

definition check_policy_proposal :: "approval_env \<Rightarrow> approvals \<Rightarrow> proposal \<Rightarrow> approval_error + pending_write" where
  "check_policy_proposal env s p =
     (case payload_parts p of
        None \<Rightarrow> Inl Raised
      | Some (request, baseline) \<Rightarrow>
          (case cf_policy (ae_config env) request of
             Inl e \<Rightarrow> Inl (InvalidPolicy e)
           | Inr requested \<Rightarrow>
               (case cfg_get (av_db s) (pp_target_id p) of
                  None \<Rightarrow> Inl (ProposalStaleError (''server '' @ quoted (pp_target_id p) @ '' no longer exists '' @ em_dash @ '' proposal ''
                    @ show_int (pp_id p) @ '' cannot be applied; re-review''))
                | Some server \<Rightarrow>
                    (case cfg_get_policy (ae_config env) (av_db s) (sv_id server) of
                       None \<Rightarrow> Inl Raised
                     | Some current \<Rightarrow>
                         if \<not> json_eq (model_dump_policy current) baseline
                         then Inl (ProposalStaleError (''policy on '' @ quoted (pp_target_id p) @ '' changed since proposal '' @ show_int (pp_id p)
                           @ '' was created; state changed, re-review''))
                         else Inr (WritePolicy (sv_id server) current requested)))))"

definition check_import_proposal :: "approval_env \<Rightarrow> approvals \<Rightarrow> proposal \<Rightarrow> approval_error + pending_write" where
  "check_import_proposal env s p =
     (case payload_yaml p of
        None \<Rightarrow> Inl Raised
      | Some (yaml, baseline) \<Rightarrow>
          (case export_snapshot env s of
             None \<Rightarrow> Inl Raised
           | Some export \<Rightarrow>
               if \<not> json_eq (JStr export) baseline
               then Inl (ProposalStaleError (''configuration changed since proposal '' @ show_int (pp_id p) @ '' was created; state changed, re-review''))
               else Inr (WriteImport yaml)))"

definition approve_check :: "approval_env \<Rightarrow> approvals \<Rightarrow> proposal \<Rightarrow> approval_error + pending_write" where
  "approve_check env s p =
     (if pp_target_type p = TARGET_SERVER_POLICY then check_policy_proposal env s p
      else if pp_target_type p = TARGET_CONFIG_IMPORT then check_import_proposal env s p
      else Inl (ProposalError (''unknown proposal kind '' @ repr_str (pp_target_type p))))"

text \<open>The change is written and recorded; the summary names it.\<close>

definition approve_write ::
    "approval_env \<Rightarrow> approvals \<Rightarrow> proposal \<Rightarrow> principal \<Rightarrow> string option \<Rightarrow> pending_write \<Rightarrow> approval_error + string \<times> approvals" where
  "approve_write env s p who ip w =
     (case w of
        WritePolicy sid before requested \<Rightarrow>
          (case cfg_set_policy (av_db s) sid requested of
             None \<Rightarrow> Inl Raised
           | Some d \<Rightarrow> Inr (''policy change on '' @ quoted (pp_target_id p),
               s\<lparr>av_db := d, av_tools := invalidate_tools (av_tools s) sid,
                 av_events := record_policy_change (ae_dumps env) (av_events s) (pp_target_id p) before requested (Some (actor who)) ip\<rparr>))
      | WriteImport yaml \<Rightarrow>
          (case plan_import (ae_config env) True (av_db s) yaml of
             None \<Rightarrow> Inl Raised
           | Some (plan, d) \<Rightarrow>
               if \<not> plan_ok plan then Inl (ProposalStaleError (str_join ''; '' (ip_errors plan)))
               else Inr (''config import ('' @ show_nat (length (ip_actions plan)) @ '' change(s))'',
                 s\<lparr>av_db := d, av_events := record_config_import (ae_dumps env) (av_events s) (map (describe True) (ip_actions plan)) (Some (actor who)) ip\<rparr>)))"

definition reason_suffix :: "string option \<Rightarrow> string" where
  "reason_suffix reason = (case reason of Some (c # cs) \<Rightarrow> '' '' @ em_dash @ '' '' @ c # cs | _ \<Rightarrow> '''')"

definition approve_resolve ::
    "approval_env \<Rightarrow> approvals \<Rightarrow> int \<Rightarrow> principal \<Rightarrow> string option \<Rightarrow> string option \<Rightarrow> string \<Rightarrow> (approval_error + proposal) \<times> approvals" where
  "approve_resolve env s i who reason ip summary =
     (case proposal_resolve env s i ''approved'' (pc_user_id who) (Some (actor who)) reason of
        (None, s1) \<Rightarrow> (Inl (ProposalResolvedError (''proposal '' @ show_int i @ '' was already resolved by a concurrent approval'')), s1)
      | (Some p, s1) \<Rightarrow> (Inr p, record_proposal_event env s1 p who ip ''proposal.approve'' (''approved '' @ summary @ reason_suffix reason)))"

definition approve ::
    "approval_env \<Rightarrow> approvals \<Rightarrow> int \<Rightarrow> principal \<Rightarrow> string option \<Rightarrow> string option \<Rightarrow> (approval_error + proposal) \<times> approvals" where
  "approve env s i who reason ip =
     (case rbind (approve_read s i who) (\<lambda>p. rbind (approve_check env s p) (\<lambda>w. approve_write env s p who ip w)) of
        Inl e \<Rightarrow> (Inl e, s)
      | Inr (summary, s1) \<Rightarrow> approve_resolve env s1 i who reason ip summary)"

subsection \<open>Rejecting and expiring\<close>

definition reject_read :: "approvals \<Rightarrow> int \<Rightarrow> approval_error + proposal" where
  "reject_read s i =
     (case proposal_get s i of
        None \<Rightarrow> Inl (ProposalNotFound i)
      | Some p \<Rightarrow>
          if pp_state p \<noteq> ''pending''
          then Inl (ProposalResolvedError (''proposal '' @ show_int i @ '' is already '' @ pp_state p @ '', not pending'')) else Inr p)"

definition reject_resolve ::
    "approval_env \<Rightarrow> approvals \<Rightarrow> proposal \<Rightarrow> int \<Rightarrow> principal \<Rightarrow> string option \<Rightarrow> string option \<Rightarrow> (approval_error + proposal) \<times> approvals" where
  "reject_resolve env s p i who reason ip =
     (case proposal_resolve env s i ''rejected'' (pc_user_id who) (Some (actor who)) reason of
        (None, s1) \<Rightarrow> (Inl (ProposalResolvedError (''proposal '' @ show_int i @ '' was already resolved by a concurrent action'')), s1)
      | (Some r, s1) \<Rightarrow> (Inr r, record_proposal_event env s1 r who ip ''proposal.reject''
          (''rejected proposal '' @ show_int i @ '' for '' @ quoted (pp_target_id p) @ reason_suffix reason)))"

definition reject ::
    "approval_env \<Rightarrow> approvals \<Rightarrow> int \<Rightarrow> principal \<Rightarrow> string option \<Rightarrow> string option \<Rightarrow> (approval_error + proposal) \<times> approvals" where
  "reject env s i who reason ip =
     (case reject_read s i of Inl e \<Rightarrow> (Inl e, s) | Inr p \<Rightarrow> reject_resolve env s p i who reason ip)"

text \<open>The sweep; \<open>None\<close> is an overflow of the date.\<close>

definition ttl_days :: "approvals \<Rightarrow> int" where
  "ttl_days s = (case map_of (cd_settings (av_db s)) SETTING_TTL_DAYS of
     None \<Rightarrow> DEFAULT_TTL_DAYS | Some raw \<Rightarrow> (case int_of_string raw of None \<Rightarrow> DEFAULT_TTL_DAYS | Some d \<Rightarrow> d))"

definition expire_due :: "approval_env \<Rightarrow> approvals \<Rightarrow> (nat \<times> approvals) option" where
  "expire_due env s =
     (if ttl_days s \<le> 0 then Some (0, s)
      else map_option (\<lambda>cutoff.
        (let (n, s1) = proposal_expire_due env s cutoff in
         (n, if n = 0 then s1 else s1\<lparr>av_events := record_event (ae_dumps env) (av_events s1) ''proposal.expire''
               (''expired '' @ show_nat n @ '' stale proposal(s) after '' @ show_int (ttl_days s) @ '' day TTL'') (Some ''expiry-sweep'')
               (Some ''proposal'') None None None None\<rparr>)))
        (ae_cutoff env (ttl_days s)))"

subsection \<open>Lemmas\<close>

text \<open>The table: ids are unique, serial, and a row is pending exactly while it has no resolver.\<close>

definition proposals_ok :: "approvals \<Rightarrow> bool" where
  "proposals_ok s \<longleftrightarrow> distinct (map pp_id (av_proposals s)) \<and> (\<forall>p \<in> set (av_proposals s).
     pp_id p < av_next s \<and> pp_state p \<in> {''pending'', ''approved'', ''rejected'', ''expired''} \<and> (pp_state p = ''pending'' \<longleftrightarrow> pp_resolver p = None))"

lemma proposal_get_Some: "proposal_get s i = Some p \<Longrightarrow> pp_id p = i \<and> p \<in> set (av_proposals s)"
  by (auto simp: proposal_get_def find_Some_iff)

lemma proposal_get_iff: "distinct (map pp_id (av_proposals s)) \<Longrightarrow> proposal_get s i = Some p \<longleftrightarrow> p \<in> set (av_proposals s) \<and> pp_id p = i"
proof
  assume d: "distinct (map pp_id (av_proposals s))" and p: "p \<in> set (av_proposals s) \<and> pp_id p = i"
  then obtain q where q: "proposal_get s i = Some q" by (cases "proposal_get s i") (auto simp: proposal_get_def find_None_iff)
  then have "q = p" using proposal_get_Some [OF q] d p by (auto simp: distinct_map dest: inj_onD)
  then show "proposal_get s i = Some p" using q by simp
qed (use proposal_get_Some in blast)

text \<open>Only a pending row changes, and only into its resolution.\<close>

definition closes :: "proposal \<Rightarrow> proposal \<Rightarrow> bool" where
  "closes p q \<longleftrightarrow> q = p \<or> (pp_state p = ''pending'' \<and> pp_state q \<in> {''approved'', ''rejected'', ''expired''} \<and> pp_resolver q \<noteq> None
     \<and> pp_id q = pp_id p \<and> pp_target_type q = pp_target_type p \<and> pp_target_id q = pp_target_id p \<and> pp_payload q = pp_payload p
     \<and> pp_proposer_user_id q = pp_proposer_user_id p \<and> pp_proposer q = pp_proposer p \<and> pp_project_id q = pp_project_id p)"

lemma closes_id: "closes p q \<Longrightarrow> pp_id q = pp_id p" by (auto simp: closes_def)

lemma proposals_ok_closes:
  assumes "proposals_ok s" and "list_all2 closes (av_proposals s) (av_proposals s')" and "av_next s' = av_next s"
  shows "proposals_ok s'"
proof -
  have "map pp_id (av_proposals s') = map pp_id (av_proposals s)"
    using assms(2) by (induction rule: list_all2_induct) (simp_all add: closes_id)
  moreover have "pp_id q < av_next s \<and> pp_state q \<in> {''pending'', ''approved'', ''rejected'', ''expired''} \<and> (pp_state q = ''pending'' \<longleftrightarrow> pp_resolver q = None)"
    if q: "q \<in> set (av_proposals s')" for q
  proof -
    obtain k where k: "k < length (av_proposals s')" "q = av_proposals s' ! k" using q by (metis in_set_conv_nth)
    then have c: "closes (av_proposals s ! k) q" and m: "av_proposals s ! k \<in> set (av_proposals s)"
      using assms(2) by (auto simp: list_all2_conv_all_nth)
    have "pp_id (av_proposals s ! k) < av_next s \<and> pp_state (av_proposals s ! k) \<in> {''pending'', ''approved'', ''rejected'', ''expired''} \<and> (pp_state (av_proposals s ! k) = ''pending'' \<longleftrightarrow> pp_resolver (av_proposals s ! k) = None)"
      using m assms(1) unfolding proposals_ok_def by blast
    then show ?thesis using c unfolding closes_def by auto
  qed
  ultimately show ?thesis using assms(1,3) unfolding proposals_ok_def by metis
qed

lemma proposal_resolve_closes:
  assumes "proposal_resolve env s i state uid (Some name) reason = (r, s')" and "state \<in> {''approved'', ''rejected'', ''expired''}"
  shows "list_all2 closes (av_proposals s) (av_proposals s')" "av_next s' = av_next s" "av_db s' = av_db s" "av_events s' = av_events s"
  using assms by (auto simp: proposal_resolve_def Let_def closes_def list.rel_map intro!: list.rel_refl_strong)

lemma proposal_expire_closes:
  assumes "proposal_expire_due env s cutoff = (n, s')"
  shows "list_all2 closes (av_proposals s) (av_proposals s')" "av_next s' = av_next s" "av_db s' = av_db s"
  using assms by (auto simp: proposal_expire_due_def Let_def closes_def list.rel_map intro!: list.rel_refl_strong)

lemma proposal_resolve_get:
  assumes "proposal_resolve env s i state uid resolver reason = (r, s')" and "distinct (map pp_id (av_proposals s))"
  shows "r = (case proposal_get s i of Some p \<Rightarrow> if pp_state p = ''pending''
      then Some (p\<lparr>pp_state := state, pp_resolved_at := Some (ae_ts env), pp_resolver_user_id := uid, pp_resolver := resolver, pp_resolution_reason := reason\<rparr>)
      else None | None \<Rightarrow> None)"
    "proposal_get s' j = (if j = i \<and> r \<noteq> None then r else proposal_get s j)"
proof -
  let ?close = "\<lambda>p. p\<lparr>pp_state := state, pp_resolved_at := Some (ae_ts env), pp_resolver_user_id := uid, pp_resolver := resolver, pp_resolution_reason := reason\<rparr>"
  have find: "List.find (\<lambda>p. pp_id p = i \<and> pp_state p = ''pending'') ps =
      (case List.find (\<lambda>p. pp_id p = i) ps of Some p \<Rightarrow> if pp_state p = ''pending'' then Some p else None | None \<Rightarrow> None)"
    if "distinct (map pp_id ps)" for ps using that by (induction ps) (auto simp: find_None_iff find_Some_iff image_iff split: option.splits)
  show r: "r = (case proposal_get s i of Some p \<Rightarrow> if pp_state p = ''pending'' then Some (?close p) else None | None \<Rightarrow> None)"
    using assms(1) find [OF assms(2)] by (auto simp: proposal_resolve_def proposal_get_def Let_def split: option.splits)
  have "List.find (\<lambda>p. pp_id p = j) (map (\<lambda>p. if pp_id p = i \<and> pp_state p = ''pending'' then ?close p else p) ps) =
      map_option (\<lambda>p. if pp_id p = i \<and> pp_state p = ''pending'' then ?close p else p) (List.find (\<lambda>p. pp_id p = j) ps)" for ps
    by (induction ps) auto
  then have "proposal_get s' j = map_option (\<lambda>p. if pp_id p = i \<and> pp_state p = ''pending'' then ?close p else p) (proposal_get s j)"
    using assms(1) by (auto simp: proposal_resolve_def proposal_get_def Let_def)
  then show "proposal_get s' j = (if j = i \<and> r \<noteq> None then r else proposal_get s j)"
    using proposal_get_Some [of s j] by (cases "proposal_get s j") (auto simp: r split: option.splits)
qed
text \<open>What a successful approval went through.\<close>

lemma approve_Inr:
  assumes "approve env s i who reason ip = (Inr r, s')" and "proposals_ok s"
  obtains p w summary s1 where "proposal_get s i = Some p" "pp_state p = ''pending''" "identity who \<noteq> (pp_proposer_user_id p, pp_proposer p)"
    "approve_check env s p = Inr w" "approve_write env s p who ip w = Inr (summary, s1)"
    "r = p\<lparr>pp_state := ''approved'', pp_resolved_at := Some (ae_ts env), pp_resolver_user_id := pc_user_id who, pp_resolver := Some (actor who),
       pp_resolution_reason := reason\<rparr>"
    "proposal_get s' i = Some r" "av_db s' = av_db s1"
proof -
  obtain p where p: "approve_read s i who = Inr p" using assms(1) by (auto simp: approve_def rbind_eq_Inr split: sum.splits)
  then have g: "proposal_get s i = Some p" "pp_state p = ''pending''" "identity who \<noteq> (pp_proposer_user_id p, pp_proposer p)"
    by (auto simp: approve_read_def split: option.splits if_splits)
  obtain w where w: "approve_check env s p = Inr w" using assms(1) p by (auto simp: approve_def rbind_eq_Inr split: sum.splits)
  obtain summary s1 where s1: "approve_write env s p who ip w = Inr (summary, s1)" using assms(1) p w by (auto simp: approve_def rbind_eq_Inr split: sum.splits)
  have props: "av_proposals s1 = av_proposals s" using s1 by (auto simp: approve_write_def split: pending_write.splits option.splits if_splits)
  obtain q s2 where q: "proposal_resolve env s1 i ''approved'' (pc_user_id who) (Some (actor who)) reason = (q, s2)" by fastforce
  have "distinct (map pp_id (av_proposals s1))" using assms(2) by (simp add: props proposals_ok_def)
  note r = proposal_resolve_get [OF q this]
  have "proposal_get s1 i = Some p" using g(1) by (simp add: proposal_get_def props)
  with r(1) g(2) have q': "q = Some (p\<lparr>pp_state := ''approved'', pp_resolved_at := Some (ae_ts env), pp_resolver_user_id := pc_user_id who,
      pp_resolver := Some (actor who), pp_resolution_reason := reason\<rparr>)" by simp
  have run: "approve_resolve env s1 i who reason ip summary = (Inr r, s')" using assms(1) p w s1 by (simp add: approve_def)
  have "r = the q" "s' = record_proposal_event env s2 (the q) who ip ''proposal.approve'' (''approved '' @ summary @ reason_suffix reason)"
    using run unfolding approve_resolve_def q q' by auto
  moreover have "proposal_get s2 i = q" using r(2) q' by simp
  moreover have "av_db s2 = av_db s1" using proposal_resolve_closes [OF q] by simp
  ultimately show ?thesis using that [OF g w s1] q' by (simp add: record_proposal_event_def proposal_get_def)
qed

lemma approve_check_policy:
  assumes "approve_check env s p = Inr w" and "pp_target_type p = TARGET_SERVER_POLICY"
  obtains request baseline requested server current where "payload_parts p = Some (request, baseline)" "cf_policy (ae_config env) request = Inr requested"
    "cfg_get (av_db s) (pp_target_id p) = Some server" "cfg_get_policy (ae_config env) (av_db s) (sv_id server) = Some current"
    "json_eq (model_dump_policy current) baseline" "w = WritePolicy (sv_id server) current requested"
proof -
  have c: "check_policy_proposal env s p = Inr w" using assms by (simp add: approve_check_def)
  obtain request baseline where 1: "payload_parts p = Some (request, baseline)" using c by (auto simp: check_policy_proposal_def split: option.splits)
  obtain requested where 2: "cf_policy (ae_config env) request = Inr requested" using c 1 by (auto simp: check_policy_proposal_def split: sum.splits)
  obtain server where 3: "cfg_get (av_db s) (pp_target_id p) = Some server" using c 1 2 by (auto simp: check_policy_proposal_def split: option.splits)
  obtain current where 4: "cfg_get_policy (ae_config env) (av_db s) (sv_id server) = Some current"
    using c 1 2 3 by (auto simp: check_policy_proposal_def split: option.splits)
  show ?thesis using c 1 2 3 4 by (intro that [OF 1 2 3 4]) (auto simp: check_policy_proposal_def split: if_splits)
qed

subsection \<open>Properties\<close>

text \<open>C15. An approved policy change is the reviewed one: when an approval succeeds, the approver is not the proposer, the policy in
  force still equals the snapshot taken when the change was proposed, exactly the requested policy was stored for the
  target server, and the proposal is on record as approved by the approver.\<close>

theorem approved_change_was_reviewed:
  assumes "approve env s i who reason ip = (Inr r, s')" and "proposals_ok s" and "pp_target_type r = TARGET_SERVER_POLICY"
  shows "\<exists>request baseline requested server current.
    payload_parts r = Some (request, baseline) \<and> cf_policy (ae_config env) request = Inr requested
    \<and> cfg_get (av_db s) (pp_target_id r) = Some server \<and> cfg_get_policy (ae_config env) (av_db s) (sv_id server) = Some current
    \<and> json_eq (model_dump_policy current) baseline \<and> cfg_set_policy (av_db s) (sv_id server) requested = Some (av_db s')
    \<and> identity who \<noteq> (pp_proposer_user_id r, pp_proposer r) \<and> proposal_get s' i = Some r \<and> pp_state r = ''approved''
    \<and> (pp_resolver_user_id r, pp_resolver r) = (pc_user_id who, Some (actor who))"
proof -
  obtain p w summary s1 where a: "identity who \<noteq> (pp_proposer_user_id p, pp_proposer p)" "approve_check env s p = Inr w"
    "approve_write env s p who ip w = Inr (summary, s1)" "proposal_get s' i = Some r" "av_db s' = av_db s1"
    and r: "r = p\<lparr>pp_state := ''approved'', pp_resolved_at := Some (ae_ts env), pp_resolver_user_id := pc_user_id who, pp_resolver := Some (actor who),
       pp_resolution_reason := reason\<rparr>" by (rule approve_Inr [OF assms(1,2)])
  have same: "payload_parts r = payload_parts p" "pp_target_id r = pp_target_id p" using r by (simp_all add: payload_parts_def)
  have "pp_target_type p = TARGET_SERVER_POLICY" using assms(3) by (simp add: r)
  with a(2) obtain request baseline requested server current where c: "payload_parts p = Some (request, baseline)"
    "cf_policy (ae_config env) request = Inr requested"
    "cfg_get (av_db s) (pp_target_id p) = Some server" "cfg_get_policy (ae_config env) (av_db s) (sv_id server) = Some current"
    "json_eq (model_dump_policy current) baseline" "w = WritePolicy (sv_id server) current requested"
    by (rule approve_check_policy)
  then have "cfg_set_policy (av_db s) (sv_id server) requested = Some (av_db s')" using a(3,5) by (auto simp: approve_write_def split: option.splits)
  then show ?thesis using a(1,4) c same by (simp add: r)
qed


text \<open>The preview of a policy proposal tells what approving it does: if it says stale, another admin's approval is refused
  as stale without effect; if not, the approval is checked successfully and would write the very change whose differences
  the preview listed.\<close>

theorem preview_predicts_approval:
  assumes "preview env s p = Inr (deltas, stale)" and "proposal_get s i = Some p" and "pp_state p = ''pending''"
    and "identity who \<noteq> (pp_proposer_user_id p, pp_proposer p)" and "pp_target_type p = TARGET_SERVER_POLICY"
  shows "if stale then \<exists>m. approve env s i who reason ip = (Inl (ProposalStaleError m), s)
    else \<exists>sid current requested. approve_check env s p = Inr (WritePolicy sid current requested) \<and> deltas = policy_diff current requested"
proof -
  have read: "approve_read s i who = Inr p" using assms(2-4) by (simp add: approve_read_def)
  obtain request baseline where 1: "payload_parts p = Some (request, baseline)" using assms(1,5) by (auto simp: preview_def split: option.splits)
  obtain requested where 2: "cf_policy (ae_config env) request = Inr requested" using assms(1,5) 1 by (auto simp: preview_def split: sum.splits)
  show ?thesis
  proof (cases "cfg_get (av_db s) (pp_target_id p)")
    case None
    then show ?thesis using assms(1,5) 1 2 read by (auto simp: preview_def approve_def approve_check_def check_policy_proposal_def)
  next
    case (Some server)
    then obtain current where "cfg_get_policy (ae_config env) (av_db s) (sv_id server) = Some current"
      using assms(1,5) 1 2 by (auto simp: preview_def split: option.splits)
    then show ?thesis using assms(1,5) 1 2 Some read by (auto simp: preview_def approve_def approve_check_def check_policy_proposal_def)
  qed
qed
subsection \<open>Witnesses\<close>

definition sample_proposer :: principal where
  "sample_proposer = \<lparr>pc_role = ''operator'', pc_user_id = Some 5, pc_username = Some ''olga'', pc_auth_source = ''local''\<rparr>"

definition sample_approver :: principal where
  "sample_approver = \<lparr>pc_role = ''admin'', pc_user_id = Some 7, pc_username = Some ''ada'', pc_auth_source = ''local''\<rparr>"

definition sample_approval_env :: approval_env where
  "sample_approval_env = \<lparr>ae_config = sample_config_env\<lparr>cf_policy := (\<lambda>_. Inr (default_policy\<lparr>sp_mode := ''allowlist'', sp_allowed := [''read'']\<rparr>))\<rparr>,
     ae_dumps = (\<lambda>_. ''{}''), ae_now = 0, ae_ts = ''2026-08-10T00:00:00'', ae_cutoff = (\<lambda>_. Some ''2026-08-03T00:00:00''), ae_text_less = (<)\<rparr>"

definition sample_approvals :: approvals where
  "sample_approvals = \<lparr>av_db = sample_config_db\<lparr>cd_settings := [(''approvals_enabled'', ''true'')]\<rparr>, av_proposals = [], av_next = 1, av_events = [],
     av_tools = [], av_hooks = None\<rparr>"

definition proposed :: "proposal \<times> approvals" where
  "proposed = projr (propose_policy_change sample_approval_env sample_approvals ''git'' (JObj []) sample_proposer None)"

lemma sample_proposed:
  "proposals_ok (snd proposed)" "proposal_get (snd proposed) 1 = Some (fst proposed)" "pp_state (fst proposed) = ''pending''"
  "pp_target_type (fst proposed) = TARGET_SERVER_POLICY" "identity sample_approver \<noteq> (pp_proposer_user_id (fst proposed), pp_proposer (fst proposed))"
  by code_simp+

theorem approved_change_was_reviewed_witness:
  "\<exists>r s'. approve sample_approval_env (snd proposed) 1 sample_approver None None = (Inr r, s') \<and> pp_state r = ''approved''"
proof -
  have ok: "case approve sample_approval_env (snd proposed) 1 sample_approver None None of (Inr r, _) \<Rightarrow> pp_target_type r = TARGET_SERVER_POLICY | _ \<Rightarrow> False"
    by code_simp
  then obtain r s' where r: "approve sample_approval_env (snd proposed) 1 sample_approver None None = (Inr r, s')" "pp_target_type r = TARGET_SERVER_POLICY"
    by (auto split: prod.splits sum.splits)
  from approved_change_was_reviewed [OF r(1) sample_proposed(1) r(2)] show ?thesis using r by blast
qed


theorem preview_predicts_approval_witness:
  "\<exists>deltas. preview sample_approval_env (snd proposed) (fst proposed) = Inr (deltas, False) \<and> deltas \<noteq> []
     \<and> (\<exists>sid current requested. approve_check sample_approval_env (snd proposed) (fst proposed) = Inr (WritePolicy sid current requested)
        \<and> deltas = policy_diff current requested)"
proof -
  have "case preview sample_approval_env (snd proposed) (fst proposed) of Inr (deltas, stale) \<Rightarrow> deltas \<noteq> [] \<and> \<not> stale | _ \<Rightarrow> False" by code_simp
  then obtain deltas where d: "preview sample_approval_env (snd proposed) (fst proposed) = Inr (deltas, False)" "deltas \<noteq> []"
    by (auto split: sum.splits)
  from preview_predicts_approval [OF d(1) sample_proposed(2,3,5,4)] d show ?thesis by simp
qed

end
