(* ===== verification/Approval_Races.thy ===== *)
theory Approval_Races
  imports Approvals
begin

text \<open>
  Approvals, rejections, the expiry sweep and other writers at the same time. A request is a task that runs between two
  database accesses of \<open>archon/approvals.py\<close> without interruption: reading the proposal, comparing the target with the
  snapshot, writing the change, and the compare-and-swap that resolves the proposal. Any other route may change everything but the
  proposals in between. The log \<open>as_applied\<close> records which proposals were written, and by whom; it is not part of the program.
\<close>

datatype approval_task =
    ApproveRead int principal "string option" "string option"
  | ApproveCheck proposal principal "string option" "string option"
  | ApproveWrite proposal principal "string option" "string option" pending_write
  | ApproveResolve proposal principal "string option" "string option" string
  | RejectRead int principal "string option" "string option"
  | RejectResolve proposal principal "string option" "string option"

record approval_system =
  as_state :: approvals
  as_tasks :: "approval_task list"
  as_applied :: "(int \<times> identity_key) list"

fun task_step :: "approval_env \<Rightarrow> approvals \<Rightarrow> approval_task \<Rightarrow> approvals \<times> approval_task list \<times> (int \<times> identity_key) list" where
  "task_step env s (ApproveRead i who reason ip) =
     (s, case approve_read s i who of Inl _ \<Rightarrow> [] | Inr p \<Rightarrow> [ApproveCheck p who reason ip], [])"
| "task_step env s (ApproveCheck p who reason ip) =
     (s, case approve_check env s p of Inl _ \<Rightarrow> [] | Inr w \<Rightarrow> [ApproveWrite p who reason ip w], [])"
| "task_step env s (ApproveWrite p who reason ip w) =
     (case approve_write env s p who ip w of
        Inl _ \<Rightarrow> (s, [], [])
      | Inr (summary, s') \<Rightarrow> (s', [ApproveResolve p who reason ip summary], [(pp_id p, identity who)]))"
| "task_step env s (ApproveResolve p who reason ip summary) = (snd (approve_resolve env s (pp_id p) who reason ip summary), [], [])"
| "task_step env s (RejectRead i who reason ip) =
     (s, case reject_read s i of Inl _ \<Rightarrow> [] | Inr p \<Rightarrow> [RejectResolve p who reason ip], [])"
| "task_step env s (RejectResolve p who reason ip) = (snd (reject_resolve env s p (pp_id p) who reason ip), [], [])"

definition run_approval_task :: "approval_env \<Rightarrow> nat \<Rightarrow> approval_system \<Rightarrow> approval_system" where
  "run_approval_task env k y =
     (let (s, ts, w) = task_step env (as_state y) (as_tasks y ! k) in
      \<lparr>as_state = s, as_tasks = take k (as_tasks y) @ ts @ drop (Suc k) (as_tasks y), as_applied = as_applied y @ w\<rparr>)"

inductive approval_step :: "approval_system \<Rightarrow> approval_system \<Rightarrow> bool" where
  run: "k < length (as_tasks y) \<Longrightarrow> approval_step y (run_approval_task env k y)"
| start_approve: "approval_step y (y\<lparr>as_tasks := as_tasks y @ [ApproveRead i who reason ip]\<rparr>)"
| start_reject: "approval_step y (y\<lparr>as_tasks := as_tasks y @ [RejectRead i who reason ip]\<rparr>)"
| propose_policy: "propose_policy_change env (as_state y) slug requested who ip = Inr (p, s) \<Longrightarrow> approval_step y (y\<lparr>as_state := s\<rparr>)"
| propose_import: "propose_config_import env (as_state y) yaml who ip = Inr (p, s) \<Longrightarrow> approval_step y (y\<lparr>as_state := s\<rparr>)"
| sweep: "expire_due env (as_state y) = Some (n, s) \<Longrightarrow> approval_step y (y\<lparr>as_state := s\<rparr>)"
| other: "av_proposals s = av_proposals (as_state y) \<Longrightarrow> av_next s = av_next (as_state y) \<Longrightarrow> approval_step y (y\<lparr>as_state := s\<rparr>)"

inductive_cases approval_stepE: "approval_step y y'"

text \<open>The tasks of one call, run without interruption, are the call.\<close>

lemma approve_is_its_tasks:
  assumes "approve env s i who reason ip = (Inr r, s')"
  shows "\<exists>p w summary s1. task_step env s (ApproveRead i who reason ip) = (s, [ApproveCheck p who reason ip], [])
    \<and> task_step env s (ApproveCheck p who reason ip) = (s, [ApproveWrite p who reason ip w], [])
    \<and> task_step env s (ApproveWrite p who reason ip w) = (s1, [ApproveResolve p who reason ip summary], [(i, identity who)])
    \<and> task_step env s1 (ApproveResolve p who reason ip summary) = (s', [], [])"
proof -
  obtain p w summary s1 where "approve_read s i who = Inr p" "approve_check env s p = Inr w" "approve_write env s p who ip w = Inr (summary, s1)"
    "approve_resolve env s1 i who reason ip summary = (Inr r, s')"
    using assms by (auto simp: approve_def rbind_eq_Inr split: sum.splits)
  moreover have "pp_id p = i" if "approve_read s i who = Inr p" for p
    using that proposal_get_Some by (auto simp: approve_read_def split: option.splits if_splits)
  ultimately show ?thesis by auto
qed

subsection \<open>How the table changes\<close>

text \<open>Rows are only closed, and new rows are pending.\<close>

definition table_grows :: "approvals \<Rightarrow> approvals \<Rightarrow> bool" where
  "table_grows s s' \<longleftrightarrow> (\<exists>qs new. list_all2 closes (av_proposals s) qs \<and> av_proposals s' = qs @ new \<and> (\<forall>p \<in> set new. pp_state p = ''pending''))"

lemma closes_refl [simp]: "closes p p" by (simp add: closes_def)

lemma table_grows_same [simp]: "av_proposals s' = av_proposals s \<Longrightarrow> table_grows s s'"
  unfolding table_grows_def by (intro exI [of _ "av_proposals s"] exI [of _ "[]"]) (simp add: list.rel_refl)

lemma table_grows_closes: "list_all2 closes (av_proposals s) (av_proposals s') \<Longrightarrow> table_grows s s'"
  unfolding table_grows_def by (intro exI [of _ "av_proposals s'"] exI [of _ "[]"]) simp

lemma table_grows_keeps: "table_grows s s' \<Longrightarrow> p \<in> set (av_proposals s) \<Longrightarrow> \<exists>q \<in> set (av_proposals s'). closes p q"
  unfolding table_grows_def by (metis Un_iff in_set_conv_nth list_all2_conv_all_nth set_append)

lemma table_grows_origin:
  "table_grows s s' \<Longrightarrow> q \<in> set (av_proposals s') \<Longrightarrow> pp_state q = ''pending'' \<or> (\<exists>p \<in> set (av_proposals s). closes p q)"
  unfolding table_grows_def by (metis Un_iff in_set_conv_nth list_all2_conv_all_nth set_append)

text \<open>What every operation keeps.\<close>

lemma announce_state:
  assumes "announce env who ip summary created = Inr (p, s')"
  obtains s1 where "created = Some (p, s1)" "av_proposals s' = av_proposals s1" "av_next s' = av_next s1"
  using assms by (auto simp: announce_def notify_pending_def record_proposal_event_def split: option.splits)

lemma proposal_create_ok:
  assumes "proposal_create env s tt tid payload uid who project = Some (p, s')"
  shows "table_grows s s'" "proposals_ok s \<Longrightarrow> proposals_ok s'"
proof -
  have s': "av_proposals s' = av_proposals s @ [p]" "av_next s' = av_next s + 1" "pp_state p = ''pending''" "pp_id p = av_next s" "pp_resolver p = None"
    using assms by (auto simp: proposal_create_def Let_def split: if_splits)
  then show "table_grows s s'" unfolding table_grows_def
    by (intro exI [of _ "av_proposals s"] exI [of _ "[p]"]) (simp add: list.rel_refl)
  show "proposals_ok s'" if ok: "proposals_ok s"
    using ok s' unfolding proposals_ok_def by (auto simp: less_le image_iff)
qed

lemma proposals_ok_same: "av_proposals s' = av_proposals s \<Longrightarrow> av_next s' = av_next s \<Longrightarrow> proposals_ok s' = proposals_ok s"
  unfolding proposals_ok_def by (simp only:)

lemma propose_ok:
  assumes "announce env who ip summary (proposal_create env s tt tid payload uid name project) = Inr (p, s')"
  shows "table_grows s s'" "proposals_ok s \<Longrightarrow> proposals_ok s'"
proof -
  obtain s1 where s1: "proposal_create env s tt tid payload uid name project = Some (p, s1)" "av_proposals s' = av_proposals s1" "av_next s' = av_next s1"
    using assms by (rule announce_state)
  note c = proposal_create_ok [OF s1(1)]
  show "table_grows s s'" using c(1) s1(2) by (simp add: table_grows_def)
  show "proposals_ok s \<Longrightarrow> proposals_ok s'" using c(2) proposals_ok_same [OF s1(2,3)] by simp
qed
lemma resolve_state:
  shows "av_proposals (snd (approve_resolve env s i who reason ip summary)) = av_proposals (snd (proposal_resolve env s i ''approved'' (pc_user_id who) (Some (actor who)) reason))"
    and "av_next (snd (approve_resolve env s i who reason ip summary)) = av_next s"
    and "av_proposals (snd (reject_resolve env s p i who reason ip)) = av_proposals (snd (proposal_resolve env s i ''rejected'' (pc_user_id who) (Some (actor who)) reason))"
    and "av_next (snd (reject_resolve env s p i who reason ip)) = av_next s"
  by (auto simp: approve_resolve_def reject_resolve_def proposal_resolve_def record_proposal_event_def Let_def split: option.splits)

lemma resolve_ok:
  "list_all2 closes (av_proposals s) (av_proposals (snd (approve_resolve env s i who reason ip summary)))"
  "list_all2 closes (av_proposals s) (av_proposals (snd (reject_resolve env s p i who reason ip)))"
  unfolding resolve_state by (auto intro!: proposal_resolve_closes(1) prod.collapse [symmetric])

lemma write_same: "approve_write env s p who ip w = Inr (summary, s') \<Longrightarrow> av_proposals s' = av_proposals s \<and> av_next s' = av_next s"
  by (auto simp: approve_write_def split: pending_write.splits option.splits if_splits)

lemma task_step_table:
  assumes "task_step env s t = (s', ts, w)"
  shows "list_all2 closes (av_proposals s) (av_proposals s')" "av_next s' = av_next s"
proof -
  have "list_all2 closes (av_proposals s) (av_proposals s') \<and> av_next s' = av_next s"
  proof (cases t)
    case (ApproveWrite p who reason ip x)
    show ?thesis
    proof (cases "approve_write env s p who ip x")
      case (Inr res)
      then have "approve_write env s p who ip x = Inr (fst res, s')" using assms ApproveWrite by (auto split: prod.splits)
      then show ?thesis using write_same [of env s p who ip x "fst res" s'] by (simp add: list.rel_refl)
    qed (use assms ApproveWrite in \<open>simp add: list.rel_refl\<close>)
  next
    case (ApproveResolve p who reason ip summary)
    then have "s' = snd (approve_resolve env s (pp_id p) who reason ip summary)" using assms by simp
    then show ?thesis by (simp only: resolve_ok resolve_state(2) simp_thms)
  next
    case (RejectResolve p who reason ip)
    then have "s' = snd (reject_resolve env s p (pp_id p) who reason ip)" using assms by simp
    then show ?thesis by (simp only: resolve_ok resolve_state(4) simp_thms)
  qed (use assms in \<open>simp_all add: list.rel_refl\<close>)
  then show "list_all2 closes (av_proposals s) (av_proposals s')" "av_next s' = av_next s" by simp_all
qed

lemma expire_due_table:
  assumes "expire_due env s = Some (n, s')"
  shows "list_all2 closes (av_proposals s) (av_proposals s')" "av_next s' = av_next s"
proof -
  have "list_all2 closes (av_proposals s) (av_proposals s') \<and> av_next s' = av_next s"
  proof (cases "ttl_days s \<le> 0")
    case True
    then show ?thesis using assms by (auto simp: expire_due_def list.rel_refl)
  next
    case False
    then obtain cutoff where c: "ae_cutoff env (ttl_days s) = Some cutoff" using assms by (auto simp: expire_due_def)
    obtain m s1 where m: "proposal_expire_due env s cutoff = (m, s1)" by fastforce
    have "av_proposals s' = av_proposals s1 \<and> av_next s' = av_next s1" using assms False c m by (auto simp: expire_due_def Let_def)
    then show ?thesis using proposal_expire_closes [OF m] by simp
  qed
  then show "list_all2 closes (av_proposals s) (av_proposals s')" "av_next s' = av_next s" by simp_all
qed

lemma propose_step_ok:
  assumes "propose_policy_change env s slug requested who ip = Inr (p, s') \<or> propose_config_import env s yaml who ip = Inr (p, s')"
  shows "table_grows s s'" "proposals_ok s \<Longrightarrow> proposals_ok s'"
proof -
  obtain summary tt tid payload uid name project where
    "announce env who ip summary (proposal_create env s tt tid payload uid name project) = Inr (p, s')"
    using assms by (auto simp: propose_policy_change_def propose_config_import_def split: sum.splits option.splits if_splits)
  from propose_ok [OF this] show "table_grows s s'" "proposals_ok s \<Longrightarrow> proposals_ok s'" by simp_all
qed

lemma approval_step_table:
  assumes "approval_step y y'"
  shows "table_grows (as_state y) (as_state y') \<and> (proposals_ok (as_state y) \<longrightarrow> proposals_ok (as_state y'))"
  using assms
proof cases
  case (run k env)
  obtain s ts w where t: "task_step env (as_state y) (as_tasks y ! k) = (s, ts, w)" by (metis prod.exhaust)
  have "as_state y' = s" using run t by (simp add: run_approval_task_def)
  then show ?thesis using task_step_table [OF t] proposals_ok_closes table_grows_closes by metis
next
  case (propose_policy env slug requested who ip p s)
  then show ?thesis using propose_step_ok [OF disjI1 [OF propose_policy(2)]] by simp
next
  case (propose_import env yaml who ip p s)
  then show ?thesis using propose_step_ok [OF disjI2 [OF propose_import(2)]] by simp
next
  case (sweep env n s)
  then show ?thesis using expire_due_table [OF sweep(2)] proposals_ok_closes table_grows_closes by auto
next
  case (other s)
  then show ?thesis using proposals_ok_same [of s "as_state y"] by simp
qed simp_all

subsection \<open>The invariant\<close>

text \<open>An approver past the first check is not the proposer, and the row it will resolve has the proposer it saw.\<close>

definition cleared :: "approvals \<Rightarrow> proposal \<Rightarrow> principal \<Rightarrow> bool" where
  "cleared s p who \<longleftrightarrow> identity who \<noteq> (pp_proposer_user_id p, pp_proposer p)
     \<and> (\<exists>q \<in> set (av_proposals s). pp_id q = pp_id p \<and> pp_proposer_user_id q = pp_proposer_user_id p \<and> pp_proposer q = pp_proposer p)"

fun task_ok :: "approvals \<Rightarrow> (int \<times> identity_key) list \<Rightarrow> approval_task \<Rightarrow> bool" where
  "task_ok s applied (ApproveCheck p who reason ip) = cleared s p who"
| "task_ok s applied (ApproveWrite p who reason ip w) = cleared s p who"
| "task_ok s applied (ApproveResolve p who reason ip summary) = (cleared s p who \<and> (pp_id p, identity who) \<in> set applied)"
| "task_ok s applied t = True"

definition approved_ok :: "(int \<times> identity_key) list \<Rightarrow> proposal \<Rightarrow> bool" where
  "approved_ok applied p \<longleftrightarrow> (\<exists>name. pp_resolver p = Some name \<and> (pp_resolver_user_id p, name) \<noteq> (pp_proposer_user_id p, pp_proposer p)
     \<and> (pp_id p, (pp_resolver_user_id p, name)) \<in> set applied)"

definition races_ok :: "approval_system \<Rightarrow> bool" where
  "races_ok y \<longleftrightarrow> proposals_ok (as_state y) \<and> (\<forall>t \<in> set (as_tasks y). task_ok (as_state y) (as_applied y) t)
     \<and> (\<forall>p \<in> set (av_proposals (as_state y)). pp_state p = ''approved'' \<longrightarrow> approved_ok (as_applied y) p)"

lemma cleared_grows: "table_grows s s' \<Longrightarrow> cleared s p who \<Longrightarrow> cleared s' p who"
proof -
  assume g: "table_grows s s'" and c: "cleared s p who"
  then obtain q where q: "q \<in> set (av_proposals s)" "pp_id q = pp_id p" "pp_proposer_user_id q = pp_proposer_user_id p" "pp_proposer q = pp_proposer p"
    by (auto simp: cleared_def)
  obtain r where "r \<in> set (av_proposals s')" "closes q r" using table_grows_keeps [OF g q(1)] by blast
  then show ?thesis using q c by (auto simp: cleared_def closes_def)
qed

lemma task_ok_grows: "table_grows s s' \<Longrightarrow> set applied \<subseteq> set applied' \<Longrightarrow> task_ok s applied t \<Longrightarrow> task_ok s' applied' t"
  by (cases t) (auto intro: cleared_grows)

lemma approved_ok_mono: "set applied \<subseteq> set applied' \<Longrightarrow> approved_ok applied p \<Longrightarrow> approved_ok applied' p"
  by (auto simp: approved_ok_def)

text \<open>One task: what it leaves behind is fine, and what it newly approved was written by another person.\<close>

lemma task_step_next:
  assumes "task_step env s t = (s', ts, w)" and "task_ok s applied t" and "u \<in> set ts"
  shows "task_ok s' (applied @ w) u"
proof (cases t)
  case (ApproveRead i who reason ip)
  show ?thesis
  proof (cases "approve_read s i who")
    case (Inr p)
    then have g: "proposal_get s i = Some p" "identity who \<noteq> (pp_proposer_user_id p, pp_proposer p)"
      by (simp_all add: approve_read_def split: option.splits if_splits)
    then have "cleared s p who" using proposal_get_Some [OF g(1)] unfolding cleared_def by blast
    moreover have "u = ApproveCheck p who reason ip" "s' = s" using assms(1,3) ApproveRead Inr by auto
    ultimately show ?thesis by simp
  qed (use assms(1,3) ApproveRead in simp)
next
  case (ApproveCheck p who reason ip)
  show ?thesis
  proof (cases "approve_check env s p")
    case (Inr x)
    then have "u = ApproveWrite p who reason ip x" "s' = s" using assms(1,3) ApproveCheck by auto
    then show ?thesis using assms(2) ApproveCheck by simp
  qed (use assms(1,3) ApproveCheck in simp)
next
  case (ApproveWrite p who reason ip x)
  show ?thesis
  proof (cases "approve_write env s p who ip x")
    case (Inr res)
    then have u: "u = ApproveResolve p who reason ip (fst res)" "s' = snd res" "w = [(pp_id p, identity who)]"
      using assms(1,3) ApproveWrite by (auto split: prod.splits)
    have "av_proposals s' = av_proposals s" using write_same [of env s p who ip x "fst res" "snd res"] Inr u(2) by simp
    then show ?thesis using assms(2) ApproveWrite by (simp add: u(1,3) cleared_def)
  qed (use assms(1,3) ApproveWrite in simp)
next
  case (RejectRead i who reason ip)
  then show ?thesis using assms(1,3) by (cases "reject_read s i") auto
qed (use assms(1,3) in simp_all)

lemma task_step_approved:
  assumes "task_step env s t = (s', ts, w)" and "task_ok s applied t" and "proposals_ok s"
    and "q \<in> set (av_proposals s')" and "pp_state q = ''approved''" and "q \<notin> set (av_proposals s)"
  shows "approved_ok applied q"
proof (cases t)
  case (ApproveResolve p who reason ip summary)
  have s': "av_proposals s' = av_proposals (snd (proposal_resolve env s (pp_id p) ''approved'' (pc_user_id who) (Some (actor who)) reason))"
    using assms(1) ApproveResolve by (auto simp: resolve_state)
  then obtain r where r: "r \<in> set (av_proposals s)" "pp_id r = pp_id p" "pp_state r = ''pending''"
    "q = r\<lparr>pp_state := ''approved'', pp_resolved_at := Some (ae_ts env), pp_resolver_user_id := pc_user_id who, pp_resolver := Some (actor who),
       pp_resolution_reason := reason\<rparr>"
    using assms(4,6) by (auto simp: proposal_resolve_def Let_def split: if_splits)
  have c: "cleared s p who" "(pp_id p, identity who) \<in> set applied" using assms(2) ApproveResolve by simp_all
  then obtain r' where r': "r' \<in> set (av_proposals s)" "pp_id r' = pp_id p" "pp_proposer_user_id r' = pp_proposer_user_id p" "pp_proposer r' = pp_proposer p"
    by (auto simp: cleared_def)
  have "r' = r" using assms(3) r(1,2) r'(1,2) unfolding proposals_ok_def distinct_map by (metis inj_onD)
  then show ?thesis using c r r' by (auto simp: approved_ok_def cleared_def identity_def)
next
  case (RejectResolve p who reason ip)
  then have s': "av_proposals s' = av_proposals (snd (proposal_resolve env s (pp_id p) ''rejected'' (pc_user_id who) (Some (actor who)) reason))"
    using assms(1) by (auto simp: resolve_state)
  then show ?thesis using assms(4-6) by (auto simp: proposal_resolve_def Let_def split: if_splits)
next
  case (ApproveWrite p who reason ip x)
  show ?thesis
  proof (cases "approve_write env s p who ip x")
    case (Inr res)
    then have "approve_write env s p who ip x = Inr (fst res, s')" using assms(1) ApproveWrite by (auto split: prod.splits)
    then show ?thesis using write_same [of env s p who ip x "fst res" s'] assms(4,6) by simp
  qed (use assms(1,4,6) ApproveWrite in simp)
qed (use assms(1,4,6) in simp_all)
lemma races_ok_table:
  assumes "races_ok y" and "approval_step y y'" and "set (as_applied y) \<subseteq> set (as_applied y')"
    and "\<And>t. t \<in> set (as_tasks y') \<Longrightarrow> t \<in> set (as_tasks y) \<or> task_ok (as_state y') (as_applied y') t"
    and "\<And>q. q \<in> set (av_proposals (as_state y')) \<Longrightarrow> pp_state q = ''approved'' \<Longrightarrow> q \<notin> set (av_proposals (as_state y)) \<Longrightarrow> approved_ok (as_applied y') q"
  shows "races_ok y'"
proof -
  note g = approval_step_table [OF assms(2)]
  have "proposals_ok (as_state y')" using g assms(1) by (simp add: races_ok_def)
  moreover have "task_ok (as_state y') (as_applied y') t" if "t \<in> set (as_tasks y')" for t
    using assms(4) [OF that] assms(1) task_ok_grows [OF conjunct1 [OF g] assms(3)] unfolding races_ok_def by blast
  moreover have "approved_ok (as_applied y') q" if "q \<in> set (av_proposals (as_state y'))" "pp_state q = ''approved''" for q
    using assms(1) assms(5) [OF that] that(2) approved_ok_mono [OF assms(3)] unfolding races_ok_def by blast
  ultimately show ?thesis unfolding races_ok_def by blast
qed

text \<open>Proposing and sweeping approve nothing.\<close>

lemma propose_approves_nothing:
  assumes "propose_policy_change env s slug requested who ip = Inr (p, s') \<or> propose_config_import env s yaml who ip = Inr (p, s')"
    and "q \<in> set (av_proposals s')" and "pp_state q = ''approved''"
  shows "q \<in> set (av_proposals s)"
proof -
  obtain summary tt tid payload uid name project where
    "announce env who ip summary (proposal_create env s tt tid payload uid name project) = Inr (p, s')"
    using assms(1) by (auto simp: propose_policy_change_def propose_config_import_def split: sum.splits option.splits if_splits)
  then obtain s1 where "proposal_create env s tt tid payload uid name project = Some (p, s1)" "av_proposals s' = av_proposals s1"
    by (rule announce_state)
  then show ?thesis using assms(2,3) by (auto simp: proposal_create_def Let_def split: if_splits)
qed

lemma sweep_approves_nothing:
  assumes "expire_due env s = Some (n, s')" and "q \<in> set (av_proposals s')" and "pp_state q = ''approved''"
  shows "q \<in> set (av_proposals s)"
proof (cases "ttl_days s \<le> 0")
  case False
  then obtain cutoff where c: "ae_cutoff env (ttl_days s) = Some cutoff" using assms(1) by (auto simp: expire_due_def)
  obtain m s1 where m: "proposal_expire_due env s cutoff = (m, s1)" by fastforce
  have "av_proposals s' = av_proposals s1" using assms(1) False c m by (auto simp: expire_due_def Let_def)
  then show ?thesis using m assms(2,3) by (auto simp: proposal_expire_due_def Let_def split: if_splits)
qed (use assms in \<open>simp add: expire_due_def\<close>)

lemma approval_step_ok:
  assumes "approval_step y y'" and "races_ok y"
  shows "races_ok y'"
  using assms(1)
proof cases
  case (run k env)
  obtain s ts w where t: "task_step env (as_state y) (as_tasks y ! k) = (s, ts, w)" by (metis prod.exhaust)
  have y': "y' = \<lparr>as_state = s, as_tasks = take k (as_tasks y) @ ts @ drop (Suc k) (as_tasks y), as_applied = as_applied y @ w\<rparr>"
    using run t by (simp add: run_approval_task_def)
  have ok: "task_ok (as_state y) (as_applied y) (as_tasks y ! k)" using assms(2) run(2) by (simp add: races_ok_def)
  have p: "proposals_ok (as_state y)" using assms(2) by (simp add: races_ok_def)
  show ?thesis
  proof (rule races_ok_table [OF assms(2,1)])
    show "set (as_applied y) \<subseteq> set (as_applied y')" by (simp add: y')
    show "u \<in> set (as_tasks y) \<or> task_ok (as_state y') (as_applied y') u" if "u \<in> set (as_tasks y')" for u
      using that task_step_next [OF t ok] by (auto simp: y' dest: in_set_takeD in_set_dropD)
    show "approved_ok (as_applied y') q"
      if "q \<in> set (av_proposals (as_state y'))" "pp_state q = ''approved''" "q \<notin> set (av_proposals (as_state y))" for q
      using task_step_approved [OF t ok p _ that(2,3)] that(1) approved_ok_mono [of "as_applied y" "as_applied y @ w"] by (simp add: y')
  qed
next
  case (propose_policy env slug requested who ip p s)
  then show ?thesis using propose_approves_nothing [OF disjI1 [OF propose_policy(2)]] by (intro races_ok_table [OF assms(2,1)]) auto
next
  case (propose_import env yaml who ip p s)
  then show ?thesis using propose_approves_nothing [OF disjI2 [OF propose_import(2)]] by (intro races_ok_table [OF assms(2,1)]) auto
next
  case (sweep env n s)
  then show ?thesis using sweep_approves_nothing [OF sweep(2)] by (intro races_ok_table [OF assms(2,1)]) auto
next
  case (start_approve i who reason ip)
  then show ?thesis by (intro races_ok_table [OF assms(2,1)]) auto
next
  case (start_reject i who reason ip)
  then show ?thesis by (intro races_ok_table [OF assms(2,1)]) auto
next
  case (other s)
  then show ?thesis by (intro races_ok_table [OF assms(2,1)]) auto
qed

lemma approval_steps_ok: "approval_step\<^sup>*\<^sup>* y y' \<Longrightarrow> races_ok y \<Longrightarrow> races_ok y'"
  by (induction rule: rtranclp_induct) (auto intro: approval_step_ok)

lemma empty_system_ok: "av_proposals (as_state y) = [] \<Longrightarrow> as_tasks y = [] \<Longrightarrow> races_ok y"
  by (simp add: races_ok_def proposals_ok_def)

subsection \<open>Properties\<close>

text \<open>C14. Four eyes under any interleaving: in every state that approvals, rejections, sweeps, new proposals and writes of other routes
  can reach, whatever their order, a proposal on record as approved was resolved by somebody other than its proposer,
  and the change was written by that same person.\<close>

theorem approved_by_another_person:
  assumes "approval_step\<^sup>*\<^sup>* y y'" and "av_proposals (as_state y) = []" and "as_tasks y = []"
    and "p \<in> set (av_proposals (as_state y'))" and "pp_state p = ''approved''"
  shows "\<exists>name. pp_resolver p = Some name \<and> (pp_resolver_user_id p, name) \<noteq> (pp_proposer_user_id p, pp_proposer p)
    \<and> (pp_id p, (pp_resolver_user_id p, name)) \<in> set (as_applied y')"
  using approval_steps_ok [OF assms(1) empty_system_ok [OF assms(2,3)]] assms(4,5) unfolding races_ok_def approved_ok_def by blast

text \<open>A resolution is final: once a proposal is approved, rejected or expired, no later step of anyone changes its record.\<close>

theorem resolution_is_final:
  assumes "approval_step\<^sup>*\<^sup>* y y'" and "p \<in> set (av_proposals (as_state y))" and "pp_state p \<noteq> ''pending''"
  shows "p \<in> set (av_proposals (as_state y'))"
  using assms(1,2)
proof (induction rule: rtranclp_induct)
  case (step u v)
  then obtain q where "q \<in> set (av_proposals (as_state v))" "closes p q" using approval_step_table table_grows_keeps by blast
  then show ?case using assms(3) by (auto simp: closes_def)
qed simp

subsection \<open>A rejected change in force\<close>

definition race_start :: approval_system where
  "race_start = \<lparr>as_state = snd proposed, as_tasks = [ApproveRead 1 sample_approver None None, RejectRead 1 sample_proposer None None], as_applied = []\<rparr>"

text \<open>The approver reads, checks and writes; then the proposal is rejected; then the approver finds it resolved.\<close>

definition race_end :: approval_system where
  "race_end = (let run = run_approval_task sample_approval_env in run 0 (run 1 (run 1 (run 0 (run 0 (run 0 race_start))))))"

lemma race_reachable: "approval_step\<^sup>*\<^sup>* race_start race_end"
proof -
  let ?run = "run_approval_task sample_approval_env"
  have "1 < length (as_tasks race_start)" "0 < length (as_tasks (?run 0 race_start))" "0 < length (as_tasks (?run 0 (?run 0 race_start)))"
    "1 < length (as_tasks (?run 0 (?run 0 (?run 0 race_start))))" "1 < length (as_tasks (?run 1 (?run 0 (?run 0 (?run 0 race_start)))))"
    "0 < length (as_tasks (?run 1 (?run 1 (?run 0 (?run 0 (?run 0 race_start))))))"
    by code_simp+
  then have "approval_step race_start (?run 0 race_start)" "approval_step (?run 0 race_start) (?run 0 (?run 0 race_start))"
    "approval_step (?run 0 (?run 0 race_start)) (?run 0 (?run 0 (?run 0 race_start)))"
    "approval_step (?run 0 (?run 0 (?run 0 race_start))) (?run 1 (?run 0 (?run 0 (?run 0 race_start))))"
    "approval_step (?run 1 (?run 0 (?run 0 (?run 0 race_start)))) (?run 1 (?run 1 (?run 0 (?run 0 (?run 0 race_start)))))"
    "approval_step (?run 1 (?run 1 (?run 0 (?run 0 (?run 0 race_start))))) race_end"
    unfolding race_end_def Let_def by (auto intro: approval_step.run)
  then show ?thesis by (meson converse_rtranclp_into_rtranclp rtranclp.rtrancl_refl)
qed

text \<open>The mode in force on a server.\<close>

definition stored_mode :: "approval_system \<Rightarrow> int \<Rightarrow> string list" where
  "stored_mode y sid = map po_mode (filter (\<lambda>r. po_server_id r = sid) (st_policies (cd_store (av_db (as_state y)))))"

text \<open>The write of an approval comes before the proposal is resolved, so a rejection in between wins: the proposal is on record as
  rejected although its policy is in force.\<close>

theorem rejected_change_in_force:
  "\<exists>y. approval_step\<^sup>*\<^sup>* race_start y \<and> as_tasks y = [] \<and> map pp_state (av_proposals (as_state y)) = [''rejected'']
    \<and> stored_mode race_start 1 = [''passthrough'']
    \<and> stored_mode y 1 = [''allowlist'']"
proof -
  have "as_tasks race_end = []" by code_simp
  moreover have "map pp_state (av_proposals (as_state race_end)) = [''rejected'']" by code_simp
  moreover have "stored_mode race_start 1 = [''passthrough'']" by code_simp
  moreover have "stored_mode race_end 1 = [''allowlist'']" by code_simp
  ultimately show ?thesis using race_reachable by (intro exI [of _ race_end]) simp
qed

subsection \<open>Witnesses\<close>

definition quiet_start :: approval_system where
  "quiet_start = \<lparr>as_state = sample_approvals, as_tasks = [], as_applied = []\<rparr>"

definition quiet_end :: approval_system where
  "quiet_end = (let run = run_approval_task sample_approval_env in run 0 (run 0 (run 0 (run 0
     (race_start\<lparr>as_tasks := [ApproveRead 1 sample_approver None None]\<rparr>)))))"

lemma quiet_reachable: "approval_step\<^sup>*\<^sup>* quiet_start quiet_end"
proof -
  let ?run = "run_approval_task sample_approval_env" and ?y1 = "quiet_start\<lparr>as_state := snd proposed\<rparr>"
    and ?y2 = "race_start\<lparr>as_tasks := [ApproveRead 1 sample_approver None None]\<rparr>"
  have "case propose_policy_change sample_approval_env sample_approvals ''git'' (JObj []) sample_proposer None of Inr _ \<Rightarrow> True | Inl _ \<Rightarrow> False"
    by code_simp
  then have "propose_policy_change sample_approval_env (as_state quiet_start) ''git'' (JObj []) sample_proposer None = Inr (fst proposed, snd proposed)"
    by (auto simp: proposed_def quiet_start_def split: sum.splits)
  then have 1: "approval_step quiet_start ?y1" by (rule approval_step.propose_policy)
  have "?y2 = ?y1\<lparr>as_tasks := as_tasks ?y1 @ [ApproveRead 1 sample_approver None None]\<rparr>" by (simp add: race_start_def quiet_start_def)
  then have 2: "approval_step ?y1 ?y2" by (simp only: approval_step.start_approve)
  have "0 < length (as_tasks ?y2)" "0 < length (as_tasks (?run 0 ?y2))" "0 < length (as_tasks (?run 0 (?run 0 ?y2)))"
    "0 < length (as_tasks (?run 0 (?run 0 (?run 0 ?y2))))" by code_simp+
  then have "approval_step ?y2 (?run 0 ?y2)" "approval_step (?run 0 ?y2) (?run 0 (?run 0 ?y2))"
    "approval_step (?run 0 (?run 0 ?y2)) (?run 0 (?run 0 (?run 0 ?y2)))" "approval_step (?run 0 (?run 0 (?run 0 ?y2))) quiet_end"
    unfolding quiet_end_def Let_def by (auto intro: approval_step.run)
  with 1 2 show ?thesis by (meson converse_rtranclp_into_rtranclp rtranclp.rtrancl_refl)
qed

lemma quiet_approved: "map pp_state (av_proposals (as_state quiet_end)) = [''approved'']" by code_simp

theorem approved_by_another_person_witness:
  "\<exists>p name. p \<in> set (av_proposals (as_state quiet_end)) \<and> pp_resolver p = Some name
     \<and> (pp_resolver_user_id p, name) \<noteq> (pp_proposer_user_id p, pp_proposer p)"
proof -
  obtain p where p: "p \<in> set (av_proposals (as_state quiet_end))" "pp_state p = ''approved''" using quiet_approved by (auto simp: map_eq_Cons_conv)
  have "av_proposals (as_state quiet_start) = []" "as_tasks quiet_start = []" by (simp_all add: quiet_start_def sample_approvals_def)
  from approved_by_another_person [OF quiet_reachable this p] p show ?thesis by blast
qed

theorem resolution_is_final_witness:
  "\<exists>p y'. pp_state p = ''approved'' \<and> approval_step quiet_end y' \<and> length (as_tasks y') = 1 \<and> p \<in> set (av_proposals (as_state y'))"
proof -
  obtain p where p: "p \<in> set (av_proposals (as_state quiet_end))" "pp_state p = ''approved''" using quiet_approved by (auto simp: map_eq_Cons_conv)
  let ?y = "quiet_end\<lparr>as_tasks := as_tasks quiet_end @ [RejectRead 1 sample_approver None None]\<rparr>"
  have s: "approval_step quiet_end ?y" by (rule approval_step.start_reject)
  have "pp_state p \<noteq> ''pending''" using p(2) by simp
  from resolution_is_final [OF r_into_rtranclp [where r = approval_step, OF s] p(1) this] have "p \<in> set (av_proposals (as_state ?y))" .
  moreover have "length (as_tasks ?y) = 1" by code_simp
  ultimately show ?thesis using p(2) s by blast
qed

end
