(* ===== verification/Project_Rbac.thy ===== *)
theory Project_Rbac
  imports Approvals Api_Keys
begin

text \<open>
  Projects and their roles: \<open>ProjectRepo\<close> and \<open>ProjectMemberRepo\<close> of \<open>db/repo.py\<close> and \<open>archon/project_rbac.py\<close>. The world of the control plane
  puts the tables of the earlier theories together; the settings table is the one of the configuration, the audit log the
  one of the approvals. A dependency of a route is a function of the request's credentials and path parameters to an HTTP
  error or the principal.
\<close>

subsection \<open>Tables\<close>

record project_record =
  pj_id :: int
  pj_slug :: string
  pj_name :: string
  pj_created_at :: string

record project_member =
  pm_user_id :: int
  pm_project_id :: int
  pm_role :: string

record 's world =
  wo_control :: "'s control"
  wo_approvals :: approvals
  wo_keys :: key_store
  wo_projects :: "project_record list"
  wo_next_project :: int
  wo_members :: "project_member list"

text \<open>The control plane and the configuration as the routes see them, over the shared tables.\<close>

definition control_of :: "'s world \<Rightarrow> 's control" where
  "control_of w = (wo_control w)\<lparr>ct_settings := cd_settings (av_db (wo_approvals w)), ct_events := av_events (wo_approvals w)\<rparr>"

definition approvals_of :: "'s world \<Rightarrow> approvals" where
  "approvals_of w = (wo_approvals w)\<lparr>av_db := (av_db (wo_approvals w))\<lparr>cd_projects := map (\<lambda>p. (pj_id p, pj_slug p)) (wo_projects w)\<rparr>\<rparr>"

definition log_event ::
    "(json \<Rightarrow> string) \<Rightarrow> 's world \<Rightarrow> string \<Rightarrow> string \<Rightarrow> principal \<Rightarrow> string \<Rightarrow> string option \<Rightarrow> json option \<Rightarrow> json option \<Rightarrow> string option \<Rightarrow> 's world" where
  "log_event dumps w action summary who target_type target_id before after ip =
     w\<lparr>wo_approvals := (wo_approvals w)\<lparr>av_events :=
       record_event dumps (av_events (wo_approvals w)) action summary (Some (actor who)) (Some target_type) target_id before after ip\<rparr>\<rparr>"

subsection \<open>Projects\<close>

definition project_list :: "(string \<Rightarrow> string \<Rightarrow> bool) \<Rightarrow> 's world \<Rightarrow> project_record list" where
  "project_list le w = order_by le pj_slug (wo_projects w)"

definition project_get :: "'s world \<Rightarrow> string \<Rightarrow> project_record option" where
  "project_get w slug = List.find (\<lambda>p. pj_slug p = slug) (wo_projects w)"

definition project_get_by_id :: "'s world \<Rightarrow> int \<Rightarrow> project_record option" where
  "project_get_by_id w i = List.find (\<lambda>p. pj_id p = i) (wo_projects w)"

datatype project_error = ProjectSlugConflict | ProjectRejected

text \<open>The slug must be new, and the schema checks its form.\<close>

definition project_create :: "'s world \<Rightarrow> string \<Rightarrow> string \<Rightarrow> string \<Rightarrow> project_error + project_record \<times> 's world" where
  "project_create w slug name now =
     (if project_get w slug \<noteq> None then Inl ProjectSlugConflict
      else if \<not> slug_format slug then Inl ProjectRejected
      else let p = \<lparr>pj_id = wo_next_project w, pj_slug = slug, pj_name = name, pj_created_at = now\<rparr>
        in Inr (p, w\<lparr>wo_projects := wo_projects w @ [p], wo_next_project := wo_next_project w + 1\<rparr>))"

text \<open>Servers, keys and proposals refer to projects and block the delete; memberships go with it. \<open>None\<close>: the foreign key is violated.\<close>

definition project_referenced :: "'s world \<Rightarrow> int \<Rightarrow> bool" where
  "project_referenced w i \<longleftrightarrow> (\<exists>s \<in> set (cd_servers (av_db (wo_approvals w))). sv_project_id s = Some i)
     \<or> (\<exists>r \<in> set (ks_rows (wo_keys w)). ak_project_id (kr_record r) = Some i) \<or> (\<exists>p \<in> set (av_proposals (wo_approvals w)). pp_project_id p = Some i)"

definition project_delete :: "'s world \<Rightarrow> project_record \<Rightarrow> 's world option" where
  "project_delete w p =
     (if project_referenced w (pj_id p) then None
      else Some (w\<lparr>wo_projects := filter (\<lambda>q. pj_id q \<noteq> pj_id p) (wo_projects w),
                   wo_members := filter (\<lambda>m. pm_project_id m \<noteq> pj_id p) (wo_members w)\<rparr>))"

subsection \<open>Memberships\<close>

definition get_membership :: "project_member list \<Rightarrow> int \<Rightarrow> int \<Rightarrow> project_member option" where
  "get_membership ms uid pid = List.find (\<lambda>m. pm_user_id m = uid \<and> pm_project_id m = pid) ms"

definition list_for_project :: "project_member list \<Rightarrow> int \<Rightarrow> project_member list" where
  "list_for_project ms pid = sort_key pm_user_id (filter (\<lambda>m. pm_project_id m = pid) ms)"

definition list_for_user :: "project_member list \<Rightarrow> int \<Rightarrow> project_member list" where
  "list_for_user ms uid = sort_key pm_project_id (filter (\<lambda>m. pm_user_id m = uid) ms)"

definition upsert_member :: "project_member list \<Rightarrow> int \<Rightarrow> int \<Rightarrow> string \<Rightarrow> project_member list" where
  "upsert_member ms uid pid role =
     (if get_membership ms uid pid = None then ms @ [\<lparr>pm_user_id = uid, pm_project_id = pid, pm_role = role\<rparr>]
      else map (\<lambda>m. if pm_user_id m = uid \<and> pm_project_id m = pid then m\<lparr>pm_role := role\<rparr> else m) ms)"

definition remove_member :: "project_member list \<Rightarrow> int \<Rightarrow> int \<Rightarrow> project_member list" where
  "remove_member ms uid pid = filter (\<lambda>m. \<not> (pm_user_id m = uid \<and> pm_project_id m = pid)) ms"

subsection \<open>Roles\<close>

definition PROJECT_ROLE_RANK :: "(string \<times> nat) list" where
  "PROJECT_ROLE_RANK = [(''viewer'', 10), (''poweruser'', 20), (''admin'', 30)]"

definition is_valid_project_role :: "string \<Rightarrow> bool" where
  "is_valid_project_role role \<longleftrightarrow> map_of PROJECT_ROLE_RANK role \<noteq> None"

definition resolve_project_role :: "principal \<Rightarrow> int \<Rightarrow> project_member list \<Rightarrow> string option" where
  "resolve_project_role p pid ms =
     (if pc_role p = ''admin'' then Some ''admin''
      else case pc_user_id p of
          None \<Rightarrow> None
        | Some uid \<Rightarrow>
            (case get_membership ms uid pid of
               None \<Rightarrow> None
             | Some m \<Rightarrow> if is_valid_project_role (pm_role m) then Some (pm_role m) else None))"

definition project_role_at_least :: "string option \<Rightarrow> string \<Rightarrow> bool" where
  "project_role_at_least role minimum =
     (case (Option.bind role (map_of PROJECT_ROLE_RANK), map_of PROJECT_ROLE_RANK minimum) of (Some r, Some m) \<Rightarrow> m \<le> r | _ \<Rightarrow> False)"

text \<open>How a route names its project: by an id, by the slug of a server, or by the id of a key; each is a path parameter with its name.\<close>

datatype project_ref = ByProject string | ByServer string | ByKey string

definition path_param :: "string dict \<Rightarrow> string \<Rightarrow> http_exn + string" where
  "path_param params name =
     (case map_of params name of None \<Rightarrow> Inl (HttpError 500 (''route missing path param '' @ repr_str name)) | Some v \<Rightarrow> Inr v)"

definition int_param :: "string \<Rightarrow> string \<Rightarrow> http_exn + int" where
  "int_param what raw = (case int_of_string raw of None \<Rightarrow> Inl (HttpError 404 (what @ '' not found'')) | Some i \<Rightarrow> Inr i)"

definition project_id_from_path_param :: "string dict \<Rightarrow> string \<Rightarrow> http_exn + int" where
  "project_id_from_path_param params name = rbind (path_param params name) (int_param ''project'')"

definition project_id_from_server_slug :: "'s world \<Rightarrow> string dict \<Rightarrow> string \<Rightarrow> http_exn + int" where
  "project_id_from_server_slug w params name =
     rbind (path_param params name) (\<lambda>slug.
       case cfg_get (av_db (wo_approvals w)) slug of
         None \<Rightarrow> Inl (HttpError 404 ''server not found'')
       | Some s \<Rightarrow> (case sv_project_id s of None \<Rightarrow> Inl (HttpError 403 ''server has no project assigned'') | Some i \<Rightarrow> Inr i))"

definition project_id_from_key_id :: "'s world \<Rightarrow> string dict \<Rightarrow> string \<Rightarrow> http_exn + int" where
  "project_id_from_key_id w params name =
     rbind (path_param params name) (\<lambda>raw. rbind (int_param ''key'' raw) (\<lambda>key_id.
       case get_by_id (wo_keys w) key_id of
         None \<Rightarrow> Inl (HttpError 404 ''key not found'')
       | Some k \<Rightarrow> (case ak_project_id k of None \<Rightarrow> Inl (HttpError 403 ''key has no project assigned'') | Some i \<Rightarrow> Inr i)))"

definition resolve_project :: "'s world \<Rightarrow> string dict \<Rightarrow> project_ref \<Rightarrow> http_exn + int" where
  "resolve_project w params ref =
     (case ref of ByProject n \<Rightarrow> project_id_from_path_param params n | ByServer n \<Rightarrow> project_id_from_server_slug w params n
      | ByKey n \<Rightarrow> project_id_from_key_id w params n)"

text \<open>The dependency: who is asking, which project, and whether the role there is high enough. The principal and the project.\<close>

definition require_project_role ::
    "'s control_env \<Rightarrow> 's world \<Rightarrow> string \<Rightarrow> project_ref \<Rightarrow> string dict \<Rightarrow> string option \<Rightarrow> string option \<Rightarrow> http_exn + principal \<times> int" where
  "require_project_role env w minimum ref params authorization cookie =
     rbind (require_admin env (control_of w) authorization cookie) (\<lambda>p.
       rbind (resolve_project w params ref) (\<lambda>pid.
         if project_role_at_least (resolve_project_role p pid (wo_members w)) minimum then Inr (p, pid)
         else Inl (HttpError 403 ''insufficient project role'')))"

definition proposal_from_path_param :: "'s world \<Rightarrow> string dict \<Rightarrow> string \<Rightarrow> http_exn + proposal" where
  "proposal_from_path_param w params name =
     rbind (path_param params name) (\<lambda>raw. rbind (int_param ''proposal'' raw) (\<lambda>i.
       case proposal_get (wo_approvals w) i of None \<Rightarrow> Inl (HttpError 404 ''proposal not found'') | Some p \<Rightarrow> Inr p))"

definition require_proposal_project_role ::
    "'s control_env \<Rightarrow> 's world \<Rightarrow> string \<Rightarrow> string dict \<Rightarrow> string option \<Rightarrow> string option \<Rightarrow> http_exn + principal \<times> proposal" where
  "require_proposal_project_role env w minimum params authorization cookie =
     rbind (require_admin env (control_of w) authorization cookie) (\<lambda>who.
       rbind (proposal_from_path_param w params ''proposal_id'') (\<lambda>p.
         case pp_project_id p of
           None \<Rightarrow> if pc_role who = ''admin'' then Inr (who, p) else Inl (HttpError 403 ''insufficient role'')
         | Some pid \<Rightarrow>
             if project_role_at_least (resolve_project_role who pid (wo_members w)) minimum then Inr (who, p)
             else Inl (HttpError 403 ''insufficient project role'')))"
subsection \<open>Routes\<close>

text \<open>What a route reads of a request: its credentials, path parameters and client address.\<close>

record request_ctx =
  rq_authorization :: "string option"
  rq_cookie :: "string option"
  rq_params :: "string dict"
  rq_ip :: "string option"

text \<open>The environment of the routes beside the authentication: clocks, printers and the collation of the database.\<close>

record 's route_env =
  re_control :: "'s control_env"
  re_approval :: approval_env
  re_le :: "string \<Rightarrow> string \<Rightarrow> bool"

definition re_dumps :: "'s route_env \<Rightarrow> json \<Rightarrow> string" where
  "re_dumps env = ae_dumps (re_approval env)"

definition with_role :: "'s route_env \<Rightarrow> 's world \<Rightarrow> string \<Rightarrow> request_ctx \<Rightarrow> http_exn + principal" where
  "with_role env w minimum rq = require_role (re_control env) (control_of w) minimum (rq_authorization rq) (rq_cookie rq)"

definition with_project_role :: "'s route_env \<Rightarrow> 's world \<Rightarrow> string \<Rightarrow> project_ref \<Rightarrow> request_ctx \<Rightarrow> http_exn + principal \<times> int" where
  "with_project_role env w minimum ref rq =
     require_project_role (re_control env) w minimum ref (rq_params rq) (rq_authorization rq) (rq_cookie rq)"

definition answer :: "http_exn + 'a \<times> 's world \<Rightarrow> 's world \<Rightarrow> (http_exn + 'a) \<times> 's world" where
  "answer r w = (case r of Inl e \<Rightarrow> (Inl e, w) | Inr (x, w') \<Rightarrow> (Inr x, w'))"

definition list_projects :: "'s route_env \<Rightarrow> 's world \<Rightarrow> request_ctx \<Rightarrow> http_exn + project_record list" where
  "list_projects env w rq = rbind (with_role env w ''viewer'' rq) (\<lambda>_. Inr (project_list (re_le env) w))"

text \<open>The request's validator checks the slug before the handler runs.\<close>

definition create_project :: "'s route_env \<Rightarrow> 's world \<Rightarrow> request_ctx \<Rightarrow> string \<Rightarrow> string \<Rightarrow> (http_exn + project_record) \<times> 's world" where
  "create_project env w rq slug name =
     answer (rbind (with_role env w ''admin'' rq) (\<lambda>who.
       if \<not> slug_re_match slug then Inl (HttpError 422 (''slug must match [a-z0-9-]+: '' @ repr_str slug))
       else case project_create w slug name (ae_ts (re_approval env)) of
           Inl ProjectSlugConflict \<Rightarrow> Inl (HttpError 409 (''project slug '' @ quoted slug @ '' already exists''))
         | Inl ProjectRejected \<Rightarrow> Inl ServerError
         | Inr (p, w1) \<Rightarrow> Inr (p, log_event (re_dumps env) w1 ''project.create'' (''created project '' @ quoted slug) who ''project'' (Some slug) None
             (Some (JObj [(''slug'', JStr slug), (''name'', JStr name)])) (rq_ip rq)))) w"

definition delete_project :: "'s route_env \<Rightarrow> 's world \<Rightarrow> request_ctx \<Rightarrow> string \<Rightarrow> (http_exn + unit) \<times> 's world" where
  "delete_project env w rq slug =
     answer (rbind (with_role env w ''admin'' rq) (\<lambda>who.
       case project_get w slug of
         None \<Rightarrow> Inl (HttpError 404 ''project not found'')
       | Some p \<Rightarrow>
           (let servers = filter (\<lambda>s. sv_project_id s = Some (pj_id p)) (cd_servers (av_db (wo_approvals w)));
                keys = key_repo_list (wo_keys w) (Some (pj_id p)) in
            if servers \<noteq> [] \<or> keys \<noteq> [] then Inl (HttpError 409 (''project '' @ quoted slug @ '' still has '' @ show_nat (length servers)
                @ '' server(s) and '' @ show_nat (length keys) @ '' key(s) '' @ em_dash @ '' move or delete them first''))
            else case project_delete w p of
                None \<Rightarrow> Inl ServerError
              | Some w1 \<Rightarrow> Inr ((), log_event (re_dumps env) w1 ''project.delete'' (''deleted project '' @ quoted slug) who ''project'' (Some slug)
                  (Some (JObj [(''slug'', JStr (pj_slug p)), (''name'', JStr (pj_name p))])) None (rq_ip rq))))) w"

record member_entry =
  mr_user_id :: int
  mr_username :: string
  mr_role :: string

definition username_of :: "'s world \<Rightarrow> int \<Rightarrow> string" where
  "username_of w uid = (case user_get_by_id (control_of w) uid of None \<Rightarrow> ''user#'' @ show_int uid | Some u \<Rightarrow> ur_username u)"

definition member_response :: "'s world \<Rightarrow> project_member \<Rightarrow> member_entry" where
  "member_response w m = \<lparr>mr_user_id = pm_user_id m, mr_username = username_of w (pm_user_id m), mr_role = pm_role m\<rparr>"

definition list_project_members :: "'s route_env \<Rightarrow> 's world \<Rightarrow> request_ctx \<Rightarrow> int \<Rightarrow> http_exn + member_entry list" where
  "list_project_members env w rq project_id =
     rbind (with_project_role env w ''viewer'' (ByProject ''project_id'') rq) (\<lambda>_.
       if project_get_by_id w project_id = None then Inl (HttpError 404 ''project not found'')
       else Inr (map (member_response w) (list_for_project (wo_members w) project_id)))"

definition role_json :: "string \<Rightarrow> json" where
  "role_json role = JObj [(''role'', JStr role)]"

definition member_summary :: "string \<Rightarrow> string \<Rightarrow> project_member option \<Rightarrow> string \<Rightarrow> string" where
  "member_summary username project existing role =
     (case existing of
        None \<Rightarrow> ''added member '' @ quoted username @ '' in project '' @ quoted project @ '' as '' @ role
      | Some m \<Rightarrow> ''changed member '' @ quoted username @ '' in project '' @ quoted project @ '': '' @ pm_role m @ '' -> '' @ role)"

definition upsert_project_member ::
    "'s route_env \<Rightarrow> 's world \<Rightarrow> request_ctx \<Rightarrow> int \<Rightarrow> int \<Rightarrow> string \<Rightarrow> (http_exn + member_entry) \<times> 's world" where
  "upsert_project_member env w rq project_id user_id role =
     answer (rbind (with_project_role env w ''admin'' (ByProject ''project_id'') rq) (\<lambda>(who, _).
       if \<not> is_valid_project_role role then Inl (HttpError 422 (''role must be one of viewer, poweruser, admin, got '' @ repr_str role))
       else case project_get_by_id w project_id of
           None \<Rightarrow> Inl (HttpError 404 ''project not found'')
         | Some project \<Rightarrow>
             (case user_get_by_id (control_of w) user_id of
                None \<Rightarrow> Inl (HttpError 404 ''user not found'')
              | Some user \<Rightarrow>
                  (let existing = get_membership (wo_members w) user_id project_id;
                       w1 = w\<lparr>wo_members := upsert_member (wo_members w) user_id project_id role\<rparr> in
                   Inr (\<lparr>mr_user_id = user_id, mr_username = ur_username user, mr_role = role\<rparr>,
                     log_event (re_dumps env) w1 (if existing = None then ''project.member_add'' else ''project.member_role_change'')
                       (member_summary (ur_username user) (pj_slug project) existing role) who ''project_member''
                       (Some (pj_slug project @ '':'' @ show_int user_id)) (map_option (\<lambda>m. role_json (pm_role m)) existing) (Some (role_json role)) (rq_ip rq)))))) w"

definition remove_project_member :: "'s route_env \<Rightarrow> 's world \<Rightarrow> request_ctx \<Rightarrow> int \<Rightarrow> int \<Rightarrow> (http_exn + unit) \<times> 's world" where
  "remove_project_member env w rq project_id user_id =
     answer (rbind (with_project_role env w ''admin'' (ByProject ''project_id'') rq) (\<lambda>(who, _).
       case project_get_by_id w project_id of
         None \<Rightarrow> Inl (HttpError 404 ''project not found'')
       | Some project \<Rightarrow>
           (case get_membership (wo_members w) user_id project_id of
              None \<Rightarrow> Inl (HttpError 404 ''membership not found'')
            | Some existing \<Rightarrow>
                (let w1 = w\<lparr>wo_members := remove_member (wo_members w) user_id project_id\<rparr> in
                 Inr ((), log_event (re_dumps env) w1 ''project.member_remove''
                   (''removed member '' @ quoted (username_of w user_id) @ '' from project '' @ quoted (pj_slug project)) who ''project_member''
                   (Some (pj_slug project @ '':'' @ show_int user_id)) (Some (role_json (pm_role existing))) None (rq_ip rq)))))) w"

subsection \<open>Memberships as an interface\<close>

text \<open>What the roles rely on of the membership table: a write is seen, and only at its key.\<close>

locale membership_table =
  fixes look :: "'t \<Rightarrow> int \<Rightarrow> int \<Rightarrow> project_member option"
    and put :: "'t \<Rightarrow> int \<Rightarrow> int \<Rightarrow> string \<Rightarrow> 't"
    and drop_row :: "'t \<Rightarrow> int \<Rightarrow> int \<Rightarrow> 't"
    and role_in :: "principal \<Rightarrow> int \<Rightarrow> 't \<Rightarrow> string option"
  assumes look_put: "look (put t u p r) u' p' = (if u' = u \<and> p' = p then Some \<lparr>pm_user_id = u, pm_project_id = p, pm_role = r\<rparr> else look t u' p')"
    and look_drop: "look (drop_row t u p) u' p' = (if u' = u \<and> p' = p then None else look t u' p')"
    and role_in_look: "role_in who p t = (if pc_role who = ''admin'' then Some ''admin'' else
      Option.bind (pc_user_id who) (\<lambda>u. Option.bind (look t u p) (\<lambda>m. if is_valid_project_role (pm_role m) then Some (pm_role m) else None)))"
begin

lemma role_after_put:
  "pc_role who \<noteq> ''admin'' \<Longrightarrow> role_in who p' (put t u p r) =
     (if pc_user_id who = Some u \<and> p' = p then (if is_valid_project_role r then Some r else None) else role_in who p' t)"
  by (cases "pc_user_id who") (auto simp: role_in_look look_put)

lemma role_after_drop:
  "pc_role who \<noteq> ''admin'' \<Longrightarrow> role_in who p' (drop_row t u p) = (if pc_user_id who = Some u \<and> p' = p then None else role_in who p' t)"
  by (cases "pc_user_id who") (auto simp: role_in_look look_drop)

lemma role_needs_row:
  "role_in who p t = Some r \<Longrightarrow> pc_role who = ''admin'' \<or> (\<exists>u m. pc_user_id who = Some u \<and> look t u p = Some m \<and> pm_role m = r)"
  by (auto simp: role_in_look bind_eq_Some_conv split: if_splits)

end

lemma get_membership_key: "get_membership ms u p = Some m \<Longrightarrow> pm_user_id m = u \<and> pm_project_id m = p \<and> m \<in> set ms"
  by (auto simp: get_membership_def find_Some_iff)

lemma get_upsert:
  "get_membership (upsert_member ms u p r) u' p' = (if u' = u \<and> p' = p then Some \<lparr>pm_user_id = u, pm_project_id = p, pm_role = r\<rparr> else get_membership ms u' p')"
proof (cases "get_membership ms u p")
  case None
  then show ?thesis by (auto simp: upsert_member_def get_membership_def find_snoc split: option.splits)
next
  case (Some m)
  have "get_membership (map (\<lambda>m. if pm_user_id m = u \<and> pm_project_id m = p then m\<lparr>pm_role := r\<rparr> else m) ms) u' p' =
      map_option (\<lambda>m. if pm_user_id m = u \<and> pm_project_id m = p then m\<lparr>pm_role := r\<rparr> else m) (get_membership ms u' p')" for ms
    by (induction ms) (auto simp: get_membership_def)
  then show ?thesis using Some get_membership_key [of ms] by (cases "get_membership ms u' p'") (auto simp: upsert_member_def)
qed

lemma get_remove: "get_membership (remove_member ms u p) u' p' = (if u' = u \<and> p' = p then None else get_membership ms u' p')"
  by (induction ms) (auto simp: remove_member_def get_membership_def)

interpretation members: membership_table get_membership upsert_member remove_member resolve_project_role
proof
  show "resolve_project_role who p ms = (if pc_role who = ''admin'' then Some ''admin'' else
      Option.bind (pc_user_id who) (\<lambda>u. Option.bind (get_membership ms u p) (\<lambda>m. if is_valid_project_role (pm_role m) then Some (pm_role m) else None)))" for who p ms
    by (auto simp: resolve_project_role_def split: option.splits)
qed (simp_all only: get_upsert get_remove)
subsection \<open>Properties\<close>

lemma answer_Inr: "answer r w = (Inr x, w') \<Longrightarrow> r = Inr (x, w')"
  by (auto simp: answer_def split: sum.splits)

lemma project_role_at_least_Some:
  "project_role_at_least role minimum \<Longrightarrow> \<exists>r k m. role = Some r \<and> map_of PROJECT_ROLE_RANK r = Some k \<and> map_of PROJECT_ROLE_RANK minimum = Some m \<and> m \<le> k"
  by (auto simp: project_role_at_least_def bind_eq_Some_conv split: option.splits)

text \<open>C40. Access to a project is earned there: whoever passes the check of a project route is an authenticated principal who is
  either a global admin or holds, in exactly the project the route names, a membership whose role is known and ranks at
  least as high as the route demands.\<close>

theorem project_access_sound:
  assumes "require_project_role env w minimum ref params authorization cookie = Inr (p, pid)"
  shows "require_admin env (control_of w) authorization cookie = Inr p \<and> resolve_project w params ref = Inr pid
    \<and> (pc_role p = ''admin'' \<or> (\<exists>u m k n. pc_user_id p = Some u \<and> m \<in> set (wo_members w) \<and> pm_user_id m = u \<and> pm_project_id m = pid
        \<and> map_of PROJECT_ROLE_RANK (pm_role m) = Some k \<and> map_of PROJECT_ROLE_RANK minimum = Some n \<and> n \<le> k))"
proof -
  have a: "require_admin env (control_of w) authorization cookie = Inr p" "resolve_project w params ref = Inr pid"
    "project_role_at_least (resolve_project_role p pid (wo_members w)) minimum"
    using assms by (auto simp: require_project_role_def rbind_eq_Inr split: if_splits)
  obtain r k n where r: "resolve_project_role p pid (wo_members w) = Some r" "map_of PROJECT_ROLE_RANK r = Some k"
    "map_of PROJECT_ROLE_RANK minimum = Some n" "n \<le> k" using project_role_at_least_Some [OF a(3)] by blast
  from members.role_needs_row [OF r(1)] show ?thesis
  proof
    assume "\<exists>u m. pc_user_id p = Some u \<and> get_membership (wo_members w) u pid = Some m \<and> pm_role m = r"
    then show ?thesis using a(1,2) r(2-4) get_membership_key by blast
  qed (use a in simp)
qed

lemma log_event_keeps [simp]:
  "wo_members (log_event dumps w action summary who tt tid before after ip) = wo_members w"
  "wo_projects (log_event dumps w action summary who tt tid before after ip) = wo_projects w"
  "wo_keys (log_event dumps w action summary who tt tid before after ip) = wo_keys w"
  by (simp_all add: log_event_def)

text \<open>A removed member is out at once: after a membership was removed, a principal of that user who is not a global admin fails the
  check of every route of that project, whatever role it demands, while every other user and project keeps its roles.\<close>

theorem removed_member_is_out:
  assumes "remove_project_member env w rq project_id user_id = (Inr x, w')" and "pc_role p \<noteq> ''admin''"
  shows "project_role_at_least (resolve_project_role p pid (wo_members w')) minimum
    = (project_role_at_least (resolve_project_role p pid (wo_members w)) minimum \<and> \<not> (pc_user_id p = Some user_id \<and> pid = project_id))"
proof -
  note run = answer_Inr [OF assms(1) [unfolded remove_project_member_def]]
  then obtain who project where a: "with_project_role env w ''admin'' (ByProject ''project_id'') rq = Inr (who, project)"
    by (auto simp: rbind_eq_Inr)
  obtain pj where b: "project_get_by_id w project_id = Some pj" using run a by (auto split: option.splits)
  obtain m where c: "get_membership (wo_members w) user_id project_id = Some m" using run a b by (auto split: option.splits)
  have "wo_members w' = remove_member (wo_members w) user_id project_id" using run a b c by (auto simp: Let_def)
  then have "resolve_project_role p pid (wo_members w') = (if pc_user_id p = Some user_id \<and> pid = project_id then None
      else resolve_project_role p pid (wo_members w))" using members.role_after_drop [OF assms(2)] by simp
  then show ?thesis by (auto simp: project_role_at_least_def)
qed

text \<open>A project with a proposal cannot be deleted: deleting one that owns no server and no key, and so passes the route's own
  check, still fails with an uncaught database error when any proposal, even a resolved one, was ever filed for it.\<close>

theorem project_with_proposal_undeletable:
  assumes "with_role env w ''admin'' rq = Inr who" and "project_get w slug = Some p"
    and "filter (\<lambda>s. sv_project_id s = Some (pj_id p)) (cd_servers (av_db (wo_approvals w))) = []" and "key_repo_list (wo_keys w) (Some (pj_id p)) = []"
    and "q \<in> set (av_proposals (wo_approvals w))" and "pp_project_id q = Some (pj_id p)"
  shows "delete_project env w rq slug = (Inl ServerError, w)"
  using assms by (auto simp: delete_project_def answer_def project_delete_def project_referenced_def)
subsection \<open>Witnesses\<close>

definition sample_route_env :: "in_memory route_env" where
  "sample_route_env = \<lparr>re_control = sample_control_env, re_approval = sample_approval_env, re_le = (\<le>)\<rparr>"

text \<open>One account, of the given global role, with a membership in the default project.\<close>

definition sample_world :: "string \<Rightarrow> in_memory world" where
  "sample_world role = \<lparr>wo_control = sample_control\<lparr>ct_users := [sample_user\<lparr>ur_role := role\<rparr>]\<rparr>,
     wo_approvals = sample_approvals\<lparr>av_db := (av_db sample_approvals)\<lparr>cd_settings := ct_settings sample_control\<rparr>\<rparr>,
     wo_keys = \<lparr>ks_rows = [], ks_next_id = 1, ks_default_project = Some 1, ks_last_touch = []\<rparr>,
     wo_projects = [\<lparr>pj_id = 1, pj_slug = ''default'', pj_name = ''Default'', pj_created_at = ''then''\<rparr>,
       \<lparr>pj_id = 2, pj_slug = ''lab'', pj_name = ''Lab'', pj_created_at = ''then''\<rparr>], wo_next_project = 3,
     wo_members = [\<lparr>pm_user_id = 1, pm_project_id = 1, pm_role = ''poweruser''\<rparr>]\<rparr>"

definition sample_request :: "string dict \<Rightarrow> request_ctx" where
  "sample_request params = \<lparr>rq_authorization = None, rq_cookie = Some sample_cookie, rq_params = params, rq_ip = None\<rparr>"

theorem project_access_sound_witness:
  "\<exists>p m. require_project_role sample_control_env (sample_world ''viewer'') ''poweruser'' (ByServer ''slug'') [(''slug'', ''git'')] None (Some sample_cookie) = Inr (p, 1)
     \<and> m \<in> set (wo_members (sample_world ''viewer'')) \<and> pm_project_id m = 1"
proof -
  let ?p = "user_principal (sample_user\<lparr>ur_role := ''viewer''\<rparr>)"
  have r: "require_project_role sample_control_env (sample_world ''viewer'') ''poweruser'' (ByServer ''slug'') [(''slug'', ''git'')] None (Some sample_cookie) = Inr (?p, 1)"
    by code_simp
  have "pc_role ?p \<noteq> ''admin''" by code_simp
  with project_access_sound [OF r] r show ?thesis by blast
qed

theorem removed_member_is_out_witness:
  "\<exists>x w'. remove_project_member sample_route_env (sample_world ''admin'') (sample_request [(''project_id'', ''1'')]) 1 1 = (Inr x, w')
     \<and> \<not> project_role_at_least (resolve_project_role (user_principal (sample_user\<lparr>ur_role := ''viewer''\<rparr>)) 1 (wo_members w')) ''viewer''"
proof -
  let ?r = "remove_project_member sample_route_env (sample_world ''admin'') (sample_request [(''project_id'', ''1'')]) 1 1"
  have "case fst ?r of Inr _ \<Rightarrow> True | Inl _ \<Rightarrow> False" by code_simp
  then obtain x w' where r: "?r = (Inr x, w')" by (cases ?r) (auto split: sum.splits)
  have p: "pc_role (user_principal (sample_user\<lparr>ur_role := ''viewer''\<rparr>)) \<noteq> ''admin''" "pc_user_id (user_principal (sample_user\<lparr>ur_role := ''viewer''\<rparr>)) = Some 1"
    by code_simp+
  from removed_member_is_out [OF r p(1)] p(2) r show ?thesis by simp
qed

definition filed_proposal :: proposal where
  "filed_proposal = (fst proposed)\<lparr>pp_state := ''expired'', pp_project_id := Some 2\<rparr>"

theorem project_with_proposal_undeletable_witness:
  "let w = (sample_world ''admin'')\<lparr>wo_approvals := (wo_approvals (sample_world ''admin''))\<lparr>av_proposals := [filed_proposal]\<rparr>\<rparr> in
   delete_project sample_route_env w (sample_request []) ''lab'' = (Inl ServerError, w)"
proof -
  let ?w = "(sample_world ''admin'')\<lparr>wo_approvals := (wo_approvals (sample_world ''admin''))\<lparr>av_proposals := [filed_proposal]\<rparr>\<rparr>"
  have role: "with_role sample_route_env ?w ''admin'' (sample_request []) = Inr (user_principal (sample_user\<lparr>ur_role := ''admin''\<rparr>))" by code_simp
  let ?p = "\<lparr>pj_id = 2, pj_slug = ''lab'', pj_name = ''Lab'', pj_created_at = ''then''\<rparr>"
  have get: "project_get ?w ''lab'' = Some ?p" by code_simp
  have none: "filter (\<lambda>s. sv_project_id s = Some (pj_id ?p)) (cd_servers (av_db (wo_approvals ?w))) = []" "key_repo_list (wo_keys ?w) (Some (pj_id ?p)) = []"
    by code_simp+
  show ?thesis unfolding Let_def by (rule project_with_proposal_undeletable [OF role get none, of filed_proposal]) (simp_all add: filed_proposal_def)
qed

end
