(* ===== verification/Audit_Query.thy ===== *)
theory Audit_Query
  imports Protocol "HOL-Library.Sublist"
begin

text \<open>
  Reading, exporting and pruning the data-plane audit log: the builder of WHERE clauses and \<open>AuditRepo\<close> of \<open>db/repo.py\<close>, the audit routes of
  \<open>archon/api.py\<close> and the retention job of \<open>stoa/retention.py\<close>. A row is its serial id and its columns; NULL is \<open>JNull\<close>. A clause keeps
  the number of its placeholder, as the SQL text does, and is evaluated against the list of bound values. \<open>text_le\<close> is the text order
  of the database. A condition on NULL is unknown; the clauses are positive, so unknown counts as false.
\<close>

type_synonym audit_row = "int \<times> json dict"

definition column :: "audit_row \<Rightarrow> string \<Rightarrow> json" where
  "column r c = (if c = ''id'' then JInt (fst r) else dict_get (snd r) c JNull)"

subsection \<open>LIKE\<close>

text \<open>\<open>LIKE pattern ESCAPE '\'\<close>; a pattern that ends in the escape character is refused by the database.\<close>

function (sequential) like :: "string \<Rightarrow> string \<Rightarrow> bool" where
  "like [] t = (t = [])"
| "like (c # p) t =
     (if c = CHR 0x5C then (case p of [] \<Rightarrow> False | d # p' \<Rightarrow> (case t of [] \<Rightarrow> False | x # t' \<Rightarrow> x = d \<and> like p' t'))
      else if c = CHR ''%'' then like p t \<or> (case t of [] \<Rightarrow> False | x # t' \<Rightarrow> like (c # p) t')
      else if c = CHR ''_'' then (case t of [] \<Rightarrow> False | x # t' \<Rightarrow> like p t')
      else (case t of [] \<Rightarrow> False | x # t' \<Rightarrow> x = c \<and> like p t'))"
  by pat_completeness auto
termination by (relation "measure (\<lambda>(p, t). length p + length t)") auto

definition replace_char :: "char \<Rightarrow> string \<Rightarrow> string \<Rightarrow> string" where
  "replace_char c r s = concat (map (\<lambda>x. if x = c then r else [x]) s)"

text \<open>Three calls of \<open>replace\<close>, the escape character first.\<close>

definition like_escape :: "string \<Rightarrow> string" where
  "like_escape s = replace_char (CHR ''_'') [CHR 0x5C, CHR ''_''] (replace_char (CHR ''%'') [CHR 0x5C, CHR ''%''] (replace_char (CHR 0x5C) [CHR 0x5C, CHR 0x5C] s))"

lemma like_escape_Nil [simp]: "like_escape [] = []" by (simp add: like_escape_def replace_char_def)

lemma like_escape_Cons: "like_escape (x # s) = (if x \<in> {CHR 0x5C, CHR ''%'', CHR ''_''} then [CHR 0x5C, x] else [x]) @ like_escape s"
  by (auto simp: like_escape_def replace_char_def)

lemma like_literal: "like (like_escape s @ p) t \<longleftrightarrow> (\<exists>u. t = s @ u \<and> like p u)"
proof (induction s arbitrary: t)
  case (Cons x s)
  then show ?case by (cases t) (auto simp: like_escape_Cons)
qed simp

lemma like_any: "like (CHR ''%'' # p) t \<longleftrightarrow> (\<exists>u v. t = u @ v \<and> like p v)"
proof (induction t)
  case (Cons x t)
  have "(\<exists>u v. x # t = u @ v \<and> like p v) \<longleftrightarrow> like p (x # t) \<or> (\<exists>u v. t = u @ v \<and> like p v)"
    by (metis append_Cons append_Nil append_eq_Cons_conv)
  then show ?case using Cons by simp
qed simp

lemma like_all: "like ''%'' t" using like_any [of "[]" t] by auto

declare like.simps(2) [simp del]

text \<open>Searching for a text finds exactly the texts that contain it, wildcards in it or not.\<close>

lemma like_contains: "like (''%'' @ like_escape s @ ''%'') t \<longleftrightarrow> sublist s t"
proof -
  have "like (''%'' @ like_escape s @ ''%'') t \<longleftrightarrow> (\<exists>u v. t = u @ v \<and> (\<exists>w. v = s @ w \<and> like ''%'' w))"
    using like_any [of "like_escape s @ ''%''" t] by (simp add: like_literal)
  then show ?thesis by (simp add: like_all sublist_def) metis
qed

subsection \<open>The builder\<close>

datatype clause =
    ClauseEq string nat
  | ClauseGe string nat
  | ClauseLe string nat
  | ClauseLt string nat
  | ClauseAny string nat
  | ClauseNull string
  | ClauseNone
  | ClauseLike "string list" nat
  | ClauseEqOrLike string nat nat

record where_builder =
  wb_clauses :: "clause list"
  wb_params :: "json list"

definition where_new :: where_builder where "where_new = \<lparr>wb_clauses = [], wb_params = []\<rparr>"

definition bind_value :: "json \<Rightarrow> where_builder \<Rightarrow> nat \<times> where_builder" where
  "bind_value v w = (length (wb_params w) + 1, w\<lparr>wb_params := wb_params w @ [v]\<rparr>)"

definition add_clause :: "clause \<Rightarrow> where_builder \<Rightarrow> where_builder" where
  "add_clause c w = w\<lparr>wb_clauses := wb_clauses w @ [c]\<rparr>"

definition where_cmp :: "(nat \<Rightarrow> clause) \<Rightarrow> json option \<Rightarrow> where_builder \<Rightarrow> where_builder" where
  "where_cmp mk v w = (case v of None \<Rightarrow> w | Some x \<Rightarrow> let (n, w1) = bind_value x w in add_clause (mk n) w1)"

definition where_eq :: "string \<Rightarrow> json option \<Rightarrow> where_builder \<Rightarrow> where_builder" where
  "where_eq col = where_cmp (ClauseEq col)"
definition where_ge :: "string \<Rightarrow> json option \<Rightarrow> where_builder \<Rightarrow> where_builder" where
  "where_ge col = where_cmp (ClauseGe col)"
definition where_le :: "string \<Rightarrow> json option \<Rightarrow> where_builder \<Rightarrow> where_builder" where
  "where_le col = where_cmp (ClauseLe col)"
definition where_lt :: "string \<Rightarrow> json option \<Rightarrow> where_builder \<Rightarrow> where_builder" where
  "where_lt col = where_cmp (ClauseLt col)"

definition where_any_of :: "string \<Rightarrow> string list \<Rightarrow> where_builder \<Rightarrow> where_builder" where
  "where_any_of col vs w = (if vs = [] then add_clause ClauseNone w else let (n, w1) = bind_value (JList (map JStr vs)) w in add_clause (ClauseAny col n) w1)"

definition where_is_null :: "string \<Rightarrow> where_builder \<Rightarrow> where_builder" where
  "where_is_null col = add_clause (ClauseNull col)"

definition param_at :: "json list \<Rightarrow> nat \<Rightarrow> json" where
  "param_at ps n = (if 1 \<le> n \<and> n \<le> length ps then ps ! (n - 1) else JNull)"

text \<open>The comparisons the columns need: texts in the order of the database, ids as numbers.\<close>

definition sql_le :: "(string \<Rightarrow> string \<Rightarrow> bool) \<Rightarrow> json \<Rightarrow> json \<Rightarrow> bool" where
  "sql_le text_le a b = (case (a, b) of (JStr x, JStr y) \<Rightarrow> text_le x y | (JInt x, JInt y) \<Rightarrow> x \<le> y | _ \<Rightarrow> False)"

definition sql_eq :: "json \<Rightarrow> json \<Rightarrow> bool" where
  "sql_eq a b \<longleftrightarrow> a \<noteq> JNull \<and> a = b"

definition sql_like :: "json \<Rightarrow> json \<Rightarrow> bool" where
  "sql_like a p = (case (a, p) of (JStr t, JStr q) \<Rightarrow> like q t | _ \<Rightarrow> False)"

fun clause_holds :: "(string \<Rightarrow> string \<Rightarrow> bool) \<Rightarrow> json list \<Rightarrow> audit_row \<Rightarrow> clause \<Rightarrow> bool" where
  "clause_holds le ps r (ClauseEq c n) = sql_eq (column r c) (param_at ps n)"
| "clause_holds le ps r (ClauseGe c n) = sql_le le (param_at ps n) (column r c)"
| "clause_holds le ps r (ClauseLe c n) = sql_le le (column r c) (param_at ps n)"
| "clause_holds le ps r (ClauseLt c n) = (sql_le le (column r c) (param_at ps n) \<and> column r c \<noteq> param_at ps n)"
| "clause_holds le ps r (ClauseAny c n) = (case param_at ps n of JList vs \<Rightarrow> list_ex (sql_eq (column r c)) vs | _ \<Rightarrow> False)"
| "clause_holds le ps r (ClauseNull c) = (column r c = JNull)"
| "clause_holds le ps r ClauseNone = False"
| "clause_holds le ps r (ClauseLike cs n) = list_ex (\<lambda>c. sql_like (column r c) (param_at ps n)) cs"
| "clause_holds le ps r (ClauseEqOrLike c n m) = (sql_eq (column r c) (param_at ps n) \<or> sql_like (column r c) (param_at ps m))"

definition where_holds :: "(string \<Rightarrow> string \<Rightarrow> bool) \<Rightarrow> where_builder \<Rightarrow> audit_row \<Rightarrow> bool" where
  "where_holds le w r = list_all (clause_holds le (wb_params w) r) (wb_clauses w)"

subsection \<open>The repository\<close>

datatype origin_filter = AnyOrigin | OriginIs "string option"

record audit_args =
  qa_server_slug :: "string option"
  qa_decision :: "string option"
  qa_tool :: "string option"
  qa_before_id :: "int option"
  qa_api_key_id :: "int option"
  qa_after :: "string option"
  qa_before :: "string option"
  qa_search :: "string option"
  qa_origin :: origin_filter
  qa_server_slug_in :: "string list option"
  qa_origin_class :: "string option"

text \<open>\<open>x or None\<close>.\<close>

definition non_empty :: "string option \<Rightarrow> json option" where
  "non_empty v = (case v of Some (c # cs) \<Rightarrow> Some (JStr (c # cs)) | _ \<Rightarrow> None)"

definition where_search :: "string option \<Rightarrow> where_builder \<Rightarrow> where_builder" where
  "where_search search w =
     (case search of
        Some (c # cs) \<Rightarrow> (let (n, w1) = bind_value (JStr (''%'' @ like_escape (c # cs) @ ''%'')) w in
          add_clause (ClauseLike [''reason'', ''args_summary'', ''matched''] n) w1)
      | _ \<Rightarrow> w)"

definition where_origin :: "origin_filter \<Rightarrow> where_builder \<Rightarrow> where_builder" where
  "where_origin f w = (case f of AnyOrigin \<Rightarrow> w | OriginIs None \<Rightarrow> where_is_null ''origin'' w | OriginIs (Some o') \<Rightarrow> where_eq ''origin'' (Some (JStr o')) w)"

definition where_origin_class :: "string option \<Rightarrow> where_builder \<Rightarrow> where_builder" where
  "where_origin_class cls w =
     (case cls of
        None \<Rightarrow> w
      | Some c \<Rightarrow>
          if c = ''gateway'' then where_is_null ''origin'' w
          else (let (n, w1) = bind_value (JStr c) w; (m, w2) = bind_value (JStr (like_escape c @ '':%'')) w1 in
            add_clause (ClauseEqOrLike ''origin'' n m) w2))"

definition audit_where :: "audit_args \<Rightarrow> where_builder" where
  "audit_where a =
     where_origin_class (qa_origin_class a) (where_origin (qa_origin a) (where_search (qa_search a)
       (where_le ''ts'' (non_empty (qa_before a)) (where_ge ''ts'' (non_empty (qa_after a)) (where_eq ''api_key_id'' (map_option JInt (qa_api_key_id a))
         (where_lt ''id'' (map_option JInt (qa_before_id a)) (where_eq ''tool'' (non_empty (qa_tool a)) (where_eq ''decision'' (non_empty (qa_decision a))
           ((case qa_server_slug_in a of None \<Rightarrow> (\<lambda>w. w) | Some slugs \<Rightarrow> where_any_of ''server_slug'' slugs)
             (where_eq ''server_slug'' (non_empty (qa_server_slug a)) where_new))))))))))"

definition audit_query :: "(string \<Rightarrow> string \<Rightarrow> bool) \<Rightarrow> audit_row list \<Rightarrow> audit_args \<Rightarrow> nat \<Rightarrow> audit_row list" where
  "audit_query le rows a limit = take limit (sort_key (\<lambda>r. - fst r) (filter (where_holds le (audit_where a)) rows))"
definition count_since :: "(string \<Rightarrow> string \<Rightarrow> bool) \<Rightarrow> audit_row list \<Rightarrow> string \<Rightarrow> string option \<Rightarrow> string list option \<Rightarrow> nat" where
  "count_since le rows since decision slugs =
     length (filter (where_holds le ((case slugs of None \<Rightarrow> (\<lambda>w. w) | Some vs \<Rightarrow> where_any_of ''server_slug'' vs)
       (where_eq ''decision'' (non_empty decision) (where_is_null ''origin'' (where_ge ''ts'' (Some (JStr since)) where_new))))) rows)"

text \<open>The class of an origin as the SQL computes it, and the counts by class and decision.\<close>

definition row_origin_class :: "audit_row \<Rightarrow> string" where
  "row_origin_class r = origin_class (case column r ''origin'' of JStr s \<Rightarrow> Some s | _ \<Rightarrow> None)"

definition count_by_origin_class_since :: "(string \<Rightarrow> string \<Rightarrow> bool) \<Rightarrow> audit_row list \<Rightarrow> string \<Rightarrow> string \<Rightarrow> string \<Rightarrow> nat" where
  "count_by_origin_class_since le rows since cls decision =
     length (filter (\<lambda>r. sql_le le (JStr since) (column r ''ts'') \<and> row_origin_class r = cls \<and> column r ''decision'' = JStr decision) rows)"

definition AUDIT_COLUMNS :: "string list" where
  "AUDIT_COLUMNS = [''ts'', ''server_slug'', ''api_key_id'', ''client_ip'', ''endpoint'', ''rpc_method'', ''tool'', ''decision'', ''rule'', ''matched'',
     ''reason'', ''args_summary'', ''bridged'', ''status_code'', ''latency_ms'', ''origin'', ''dlp_detector'', ''dlp_action'', ''dlp_match_count'',
     ''response_dlp_detectors_fired'', ''response_dlp_match_count'', ''response_truncated'']"

definition event_columns :: "json dict \<Rightarrow> json dict" where
  "event_columns e = map (\<lambda>c. (c, let v = dict_get e c JNull in if v = JNull \<and> c = ''bridged'' then JBool False else v)) AUDIT_COLUMNS"

definition insert_many :: "int \<times> audit_row list \<Rightarrow> json dict list \<Rightarrow> int \<times> audit_row list" where
  "insert_many t events = foldl (\<lambda>(n, rows) e. (n + 1, rows @ [(n, event_columns e)])) t events"

text \<open>The batched delete; it runs until a batch is not full. The batch is the oldest rows by id.\<close>

definition doomed_ids :: "(string \<Rightarrow> string \<Rightarrow> bool) \<Rightarrow> audit_row list \<Rightarrow> string \<Rightarrow> nat \<Rightarrow> int list" where
  "doomed_ids earlier rows cutoff batch_size =
     take batch_size (sort (map fst (filter (\<lambda>r. case column r ''ts'' of JStr ts \<Rightarrow> earlier ts cutoff | _ \<Rightarrow> False) rows)))"

partial_function (option) prune_loop ::
    "(string \<Rightarrow> string \<Rightarrow> bool) \<Rightarrow> string \<Rightarrow> nat \<Rightarrow> nat \<Rightarrow> audit_row list \<Rightarrow> (nat \<times> audit_row list) option" where
  "prune_loop earlier cutoff batch_size total_deleted rows =
     (let doomed = doomed_ids earlier rows cutoff batch_size; rows' = filter (\<lambda>r. fst r \<notin> set doomed) rows; deleted = length rows - length rows' in
      if deleted < batch_size then Some (total_deleted + deleted, rows') else prune_loop earlier cutoff batch_size (total_deleted + deleted) rows')"

definition prune_older_than ::
    "(string \<Rightarrow> string \<Rightarrow> bool) \<Rightarrow> audit_row list \<Rightarrow> string \<Rightarrow> nat \<Rightarrow> (nat \<times> audit_row list) option" where
  "prune_older_than earlier rows cutoff batch_size = prune_loop earlier cutoff batch_size 0 rows"

text \<open>The retention job: the window from the settings, nothing for a window of zero or earlier. \<open>cutoff\<close> is the text of now earlier so many
  days; \<open>None\<close> is an overflow of the date.\<close>

definition PRUNE_BATCH_SIZE :: nat where "PRUNE_BATCH_SIZE = 5000"

definition retention_days :: "string dict \<Rightarrow> int" where
  "retention_days settings = (case map_of settings ''audit_retention_days'' of None \<Rightarrow> 30
     | Some raw \<Rightarrow> (case int_of_string raw of None \<Rightarrow> 30 | Some d \<Rightarrow> d))"

definition retention_run_once ::
    "(string \<Rightarrow> string \<Rightarrow> bool) \<Rightarrow> (int \<Rightarrow> string option) \<Rightarrow> string dict \<Rightarrow> audit_row list \<Rightarrow> (nat \<times> audit_row list) option" where
  "retention_run_once earlier cutoff settings rows =
     (if retention_days settings \<le> 0 then Some (0, rows)
      else Option.bind (cutoff (retention_days settings)) (\<lambda>c. prune_older_than earlier rows c PRUNE_BATCH_SIZE))"

subsection \<open>What the builder means\<close>

fun clause_refs :: "clause \<Rightarrow> nat list" where
  "clause_refs (ClauseEq c n) = [n]"
| "clause_refs (ClauseGe c n) = [n]"
| "clause_refs (ClauseLe c n) = [n]"
| "clause_refs (ClauseLt c n) = [n]"
| "clause_refs (ClauseAny c n) = [n]"
| "clause_refs (ClauseNull c) = []"
| "clause_refs ClauseNone = []"
| "clause_refs (ClauseLike cs n) = [n]"
| "clause_refs (ClauseEqOrLike c n m) = [n, m]"

text \<open>Every placeholder of the text has a bound value.\<close>

definition wb_ok :: "where_builder \<Rightarrow> bool" where
  "wb_ok w \<longleftrightarrow> (\<forall>c \<in> set (wb_clauses w). \<forall>n \<in> set (clause_refs c). 1 \<le> n \<and> n \<le> length (wb_params w))"

lemma param_at_append [simp]: "n \<le> length ps \<Longrightarrow> param_at (ps @ qs) n = param_at ps n"
  by (auto simp: param_at_def nth_append)

lemma param_at_last [simp]: "param_at (ps @ [v]) (Suc (length ps)) = v" "param_at (ps @ [v, u]) (Suc (length ps)) = v"
  "param_at (ps @ [v, u]) (Suc (Suc (length ps))) = u"
  by (simp_all add: param_at_def nth_append)

lemma clause_holds_append: "\<forall>n \<in> set (clause_refs c). n \<le> length ps \<Longrightarrow> clause_holds le (ps @ qs) r c = clause_holds le ps r c"
  by (cases c) auto

lemma wb_ok_add: "wb_ok w \<Longrightarrow> \<forall>n \<in> set (clause_refs c). 1 \<le> n \<and> n \<le> length (wb_params w) + length vs \<Longrightarrow>
    wb_ok \<lparr>wb_clauses = wb_clauses w @ [c], wb_params = wb_params w @ vs\<rparr>"
  unfolding wb_ok_def by auto (meson le_add1 le_trans)

lemma where_holds_add:
  assumes "wb_ok w"
  shows "where_holds le \<lparr>wb_clauses = wb_clauses w @ [c], wb_params = wb_params w @ vs\<rparr> r = (where_holds le w r \<and> clause_holds le (wb_params w @ vs) r c)"
proof -
  have "list_all (clause_holds le (wb_params w @ vs) r) (wb_clauses w) = list_all (clause_holds le (wb_params w) r) (wb_clauses w)"
    unfolding list_all_iff using assms clause_holds_append unfolding wb_ok_def by metis
  then show ?thesis by (simp add: where_holds_def)
qed

definition opt_all :: "('a \<Rightarrow> bool) \<Rightarrow> 'a option \<Rightarrow> bool" where
  "opt_all P v = (case v of None \<Rightarrow> True | Some x \<Rightarrow> P x)"

text \<open>Each method of the builder adds one condition and keeps the others.\<close>

lemma add_clause_bound: "add_clause c (w\<lparr>wb_params := ps\<rparr>) = \<lparr>wb_clauses = wb_clauses w @ [c], wb_params = ps\<rparr>"
  "add_clause c w = \<lparr>wb_clauses = wb_clauses w @ [c], wb_params = wb_params w @ []\<rparr>"
  by (simp_all add: add_clause_def)

lemma builder_cmp:
  assumes "wb_ok w" and "\<And>n. clause_refs (mk n) = [n]" and "\<And>ps n. clause_holds le ps r (mk n) = P (param_at ps n)"
  shows "wb_ok (where_cmp mk v w) \<and> where_holds le (where_cmp mk v w) r = (where_holds le w r \<and> opt_all P v)"
proof (cases v)
  case (Some x)
  let ?k = "mk (Suc (length (wb_params w)))"
  have "where_cmp mk v w = \<lparr>wb_clauses = wb_clauses w @ [?k], wb_params = wb_params w @ [x]\<rparr>"
    by (simp add: Some where_cmp_def bind_value_def add_clause_bound)
  then show ?thesis using wb_ok_add [OF assms(1), of ?k "[x]"] where_holds_add [OF assms(1), of le ?k "[x]" r]
    by (simp add: assms(2,3) opt_all_def Some)
qed (use assms in \<open>simp add: where_cmp_def opt_all_def\<close>)

named_theorems builder

lemma builder_eq [builder]: "wb_ok w \<Longrightarrow> wb_ok (where_eq c v w) \<and> where_holds le (where_eq c v w) r = (where_holds le w r \<and> opt_all (sql_eq (column r c)) v)"
  unfolding where_eq_def by (rule builder_cmp) simp_all

lemma builder_ge [builder]:
  "wb_ok w \<Longrightarrow> wb_ok (where_ge c v w) \<and> where_holds le (where_ge c v w) r = (where_holds le w r \<and> opt_all (\<lambda>x. sql_le le x (column r c)) v)"
  unfolding where_ge_def by (rule builder_cmp) simp_all

lemma builder_le [builder]:
  "wb_ok w \<Longrightarrow> wb_ok (where_le c v w) \<and> where_holds le (where_le c v w) r = (where_holds le w r \<and> opt_all (\<lambda>x. sql_le le (column r c) x) v)"
  unfolding where_le_def by (rule builder_cmp) simp_all

lemma builder_lt [builder]:
  "wb_ok w \<Longrightarrow> wb_ok (where_lt c v w) \<and> where_holds le (where_lt c v w) r = (where_holds le w r \<and> opt_all (\<lambda>x. sql_le le (column r c) x \<and> column r c \<noteq> x) v)"
  unfolding where_lt_def by (rule builder_cmp) simp_all

lemma builder_any [builder]:
  "wb_ok w \<Longrightarrow> wb_ok (where_any_of c vs w) \<and> where_holds le (where_any_of c vs w) r = (where_holds le w r \<and> column r c \<in> JStr ` set vs)"
  using wb_ok_add [of w "ClauseAny c (Suc (length (wb_params w)))" "[JList (map JStr vs)]"] wb_ok_add [of w ClauseNone "[]"]
    where_holds_add [of w le "ClauseAny c (Suc (length (wb_params w)))" "[JList (map JStr vs)]" r] where_holds_add [of w le ClauseNone "[]" r]
  by (auto simp: where_any_of_def bind_value_def add_clause_bound list_ex_iff sql_eq_def)

lemma builder_null [builder]: "wb_ok w \<Longrightarrow> wb_ok (where_is_null c w) \<and> where_holds le (where_is_null c w) r = (where_holds le w r \<and> column r c = JNull)"
  using wb_ok_add [of w "ClauseNull c" "[]"] where_holds_add [of w le "ClauseNull c" "[]" r]
  by (simp add: where_is_null_def add_clause_bound)

definition contains_text :: "json \<Rightarrow> string \<Rightarrow> bool" where
  "contains_text v s = (case v of JStr t \<Rightarrow> sublist s t | _ \<Rightarrow> False)"

lemma sql_like_contains: "sql_like v (JStr (CHR ''%'' # like_escape s @ ''%'')) = contains_text v s"
  using like_contains [of s] by (cases v) (simp_all add: sql_like_def contains_text_def)

lemma builder_search [builder]:
  "wb_ok w \<Longrightarrow> wb_ok (where_search s w) \<and> where_holds le (where_search s w) r = (where_holds le w r \<and>
     (s \<in> {None, Some []} \<or> (\<exists>c \<in> {''reason'', ''args_summary'', ''matched''}. contains_text (column r c) (the s))))"
proof (cases "s \<in> {None, Some []}")
  case True
  then show "wb_ok w \<Longrightarrow> ?thesis" by (auto simp: where_search_def)
next
  case False
  then obtain c cs where s: "s = Some (c # cs)" by (metis insert_iff neq_Nil_conv not_None_eq)
  let ?v = "JStr (''%'' @ like_escape (c # cs) @ ''%'')" and ?k = "ClauseLike [''reason'', ''args_summary'', ''matched''] (Suc (length (wb_params w)))"
  have eq: "where_search s w = \<lparr>wb_clauses = wb_clauses w @ [?k], wb_params = wb_params w @ [?v]\<rparr>"
    by (simp add: where_search_def s bind_value_def add_clause_bound)
  assume ok: "wb_ok w"
  show ?thesis unfolding eq using wb_ok_add [OF ok, of ?k "[?v]"] where_holds_add [OF ok, of le ?k "[?v]" r]
    by (simp add: sql_like_contains s)
qed
lemma builder_origin [builder]:
  "wb_ok w \<Longrightarrow> wb_ok (where_origin f w) \<and> where_holds le (where_origin f w) r = (where_holds le w r \<and>
     (case f of AnyOrigin \<Rightarrow> True | OriginIs None \<Rightarrow> column r ''origin'' = JNull | OriginIs (Some s) \<Rightarrow> column r ''origin'' = JStr s))"
  using builder_null [of w "''origin''" le r] builder_eq [of w "''origin''" _ le r]
  by (auto simp: where_origin_def opt_all_def sql_eq_def split: origin_filter.splits option.splits)

lemma origin_class_iff:
  assumes "CHR '':'' \<notin> set c"
  shows "origin_class (Some s) = c \<longleftrightarrow> s = c \<or> (\<exists>d. s = c @ '':'' @ d)"
proof (cases "str_partition '':'' s")
  case None
  then have "\<nexists>a b. s = a @ '':'' @ b" using str_partition_None_iff [of "'':''" s] by simp
  then show ?thesis using None by (auto simp: origin_class_def)
next
  case (Some ab)
  obtain a b where ab: "ab = (a, b)" by (cases ab)
  have s: "s = a @ '':'' @ b" using str_partition_Some [of "'':''" s a b] Some ab by simp
  have "a = c" if "s = c @ '':'' @ d" for d
    using that Some ab str_partition_prefix [OF assms, of "[]" d] by simp
  then show ?thesis using Some ab s assms by (auto simp: origin_class_def)
qed

lemma builder_origin_class [builder]:
  assumes ok: "wb_ok w" and "\<And>c. cls = Some c \<Longrightarrow> CHR '':'' \<notin> set c"
  shows "wb_ok (where_origin_class cls w) \<and> where_holds le (where_origin_class cls w) r = (where_holds le w r \<and>
     opt_all (\<lambda>c. if c = ''gateway'' then column r ''origin'' = JNull else \<exists>s. column r ''origin'' = JStr s \<and> origin_class (Some s) = c) cls)"
proof (cases "cls \<in> {None, Some ''gateway''}")
  case True
  then show ?thesis using ok builder_null [OF ok, of "''origin''" le r] by (auto simp: where_origin_class_def opt_all_def)
next
  case False
  then obtain c where c: "cls = Some c" "c \<noteq> ''gateway''" by auto
  let ?n = "Suc (length (wb_params w))"
  let ?k = "ClauseEqOrLike ''origin'' ?n (Suc ?n)" and ?vs = "[JStr c, JStr (like_escape c @ '':%'')]"
  have eq: "where_origin_class cls w = \<lparr>wb_clauses = wb_clauses w @ [?k], wb_params = wb_params w @ ?vs\<rparr>"
    using c by (simp add: where_origin_class_def bind_value_def add_clause_def)
  have like: "like (like_escape c @ '':%'') s \<longleftrightarrow> (\<exists>d. s = c @ '':'' @ d)" for s
  proof -
    have "like '':%'' u \<longleftrightarrow> (\<exists>d. u = '':'' @ d)" for u using like_literal [of "'':''" "''%''" u] by (simp add: like_escape_Cons like_all)
    then show ?thesis by (auto simp: like_literal)
  qed
  have "clause_holds le (wb_params w @ ?vs) r ?k \<longleftrightarrow> (\<exists>s. column r ''origin'' = JStr s \<and> origin_class (Some s) = c)"
    using origin_class_iff [OF assms(2) [OF c(1)]] by (cases "column r ''origin''") (auto simp: sql_eq_def sql_like_def like)
  then show ?thesis unfolding eq using wb_ok_add [OF ok, of ?k ?vs] where_holds_add [OF ok, of le ?k ?vs r] c by (simp add: opt_all_def)
qed

subsection \<open>The export\<close>

definition CSV_COLUMNS :: "string list" where
  "CSV_COLUMNS = [''id'', ''ts'', ''server_slug'', ''api_key_id'', ''client_ip'', ''endpoint'', ''rpc_method'', ''tool'', ''decision'', ''rule'', ''matched'',
     ''reason'', ''args_summary'', ''bridged'', ''status_code'', ''latency_ms'', ''origin'']"

definition csv_safe :: "(pyfloat \<Rightarrow> string) \<Rightarrow> json \<Rightarrow> string" where
  "csv_safe fr v =
     (let t = (if v = JNull then '''' else py_str fr v) in
      case t of c # cs \<Rightarrow> if c \<in> set ''=+-@'' then CHR 0x27 # t else t | [] \<Rightarrow> t)"

text \<open>\<open>csv.writer\<close> with its defaults: a field is quoted if it holds a delimiter, a quote or a line break.\<close>

definition csv_field :: "string \<Rightarrow> string" where
  "csv_field s = (if \<exists>c \<in> set s. c \<in> {CHR '','', CHR 0x22, CHR 0x0D, CHR 0x0A} then [CHR 0x22] @ replace_char (CHR 0x22) [CHR 0x22, CHR 0x22] s @ [CHR 0x22] else s)"

definition csv_row :: "string list \<Rightarrow> string" where
  "csv_row cells = str_join '','' (map csv_field cells) @ [CHR 0x0D, CHR 0x0A]"

definition EXPORT_PAGE :: nat where "EXPORT_PAGE = 500"

subsection \<open>What a query returns\<close>

definition text_matches :: "json \<Rightarrow> string option \<Rightarrow> bool" where
  "text_matches v s \<longleftrightarrow> s \<in> {None, Some []} \<or> v = JStr (the s)"

text \<open>The meaning of the filters, without clauses, placeholders and patterns.\<close>

definition row_matches :: "(string \<Rightarrow> string \<Rightarrow> bool) \<Rightarrow> audit_args \<Rightarrow> audit_row \<Rightarrow> bool" where
  "row_matches le a r \<longleftrightarrow> text_matches (column r ''server_slug'') (qa_server_slug a)
     \<and> opt_all (\<lambda>slugs. column r ''server_slug'' \<in> JStr ` set slugs) (qa_server_slug_in a)
     \<and> text_matches (column r ''decision'') (qa_decision a) \<and> text_matches (column r ''tool'') (qa_tool a)
     \<and> opt_all (\<lambda>b. fst r < b) (qa_before_id a) \<and> opt_all (\<lambda>k. column r ''api_key_id'' = JInt k) (qa_api_key_id a)
     \<and> (qa_after a \<in> {None, Some []} \<or> (\<exists>ts. column r ''ts'' = JStr ts \<and> le (the (qa_after a)) ts))
     \<and> (qa_before a \<in> {None, Some []} \<or> (\<exists>ts. column r ''ts'' = JStr ts \<and> le ts (the (qa_before a))))
     \<and> (qa_search a \<in> {None, Some []} \<or> (\<exists>c \<in> {''reason'', ''args_summary'', ''matched''}. contains_text (column r c) (the (qa_search a))))
     \<and> (case qa_origin a of AnyOrigin \<Rightarrow> True | OriginIs None \<Rightarrow> column r ''origin'' = JNull | OriginIs (Some s) \<Rightarrow> column r ''origin'' = JStr s)
     \<and> opt_all (\<lambda>c. if c = ''gateway'' then column r ''origin'' = JNull else \<exists>s. column r ''origin'' = JStr s \<and> origin_class (Some s) = c) (qa_origin_class a)"

lemma non_empty_eq: "opt_all (sql_eq v) (non_empty s) = text_matches v s"
  by (auto simp: non_empty_def opt_all_def text_matches_def sql_eq_def split: option.splits list.splits)

lemma non_empty_ge: "opt_all (\<lambda>x. sql_le le x v) (non_empty s) = (s \<in> {None, Some []} \<or> (\<exists>ts. v = JStr ts \<and> le (the s) ts))"
  by (auto simp: non_empty_def opt_all_def sql_le_def split: option.splits list.splits json.splits)

lemma non_empty_le: "opt_all (\<lambda>x. sql_le le v x) (non_empty s) = (s \<in> {None, Some []} \<or> (\<exists>ts. v = JStr ts \<and> le ts (the s)))"
  by (auto simp: non_empty_def opt_all_def sql_le_def split: option.splits list.splits json.splits)

lemma wb_ok_new [simp]: "wb_ok where_new" by (simp add: wb_ok_def where_new_def)

lemma where_holds_new [simp]: "where_holds le where_new r" by (simp add: where_holds_def where_new_def)

definition class_plain :: "audit_args \<Rightarrow> bool" where
  "class_plain a \<longleftrightarrow> opt_all (\<lambda>c. CHR '':'' \<notin> set c) (qa_origin_class a)"

lemma builder_slugs: "wb_ok w \<Longrightarrow> wb_ok ((case slugs of None \<Rightarrow> (\<lambda>w. w) | Some vs \<Rightarrow> where_any_of c vs) w)
    \<and> where_holds le ((case slugs of None \<Rightarrow> (\<lambda>w. w) | Some vs \<Rightarrow> where_any_of c vs) w) r = (where_holds le w r \<and> opt_all (\<lambda>vs. column r c \<in> JStr ` set vs) slugs)"
  using builder_any [of w c _ le r] by (auto simp: opt_all_def split: option.splits)

lemma audit_where_matches:
  assumes "class_plain a"
  shows "where_holds le (audit_where a) r = row_matches le a r"
proof -
  have cls: "CHR '':'' \<notin> set c" if "qa_origin_class a = Some c" for c using assms that by (simp add: class_plain_def opt_all_def)
  have id: "opt_all (\<lambda>x. sql_le le (column r ''id'') x \<and> column r ''id'' \<noteq> x) (map_option JInt (qa_before_id a)) = opt_all (\<lambda>b. fst r < b) (qa_before_id a)"
    by (auto simp: opt_all_def sql_le_def column_def split: option.splits)
  have key: "opt_all (sql_eq (column r ''api_key_id'')) (map_option JInt (qa_api_key_id a)) = opt_all (\<lambda>k. column r ''api_key_id'' = JInt k) (qa_api_key_id a)"
    by (auto simp: opt_all_def sql_eq_def split: option.splits)
  show ?thesis unfolding audit_where_def row_matches_def
    by (simp only: builder_eq builder_ge builder_le builder_lt builder_slugs builder_search builder_origin builder_origin_class [OF _ cls]
        wb_ok_new where_holds_new non_empty_eq non_empty_ge non_empty_le id key simp_thms conj_assoc)
qed
subsection \<open>Pages\<close>

lemma where_origin_class_mono: "wb_ok w \<Longrightarrow> where_holds le (where_origin_class cls w) r \<Longrightarrow> where_holds le w r"
proof (cases "cls \<in> {None, Some ''gateway''}")
  case True
  assume "wb_ok w" "where_holds le (where_origin_class cls w) r"
  then show ?thesis using True builder_null [of w "''origin''" le r] by (auto simp: where_origin_class_def)
next
  case False
  assume a: "wb_ok w" "where_holds le (where_origin_class cls w) r"
  obtain c where c: "cls = Some c" "c \<noteq> ''gateway''" using False by auto
  let ?n = "Suc (length (wb_params w))"
  have "where_origin_class cls w = \<lparr>wb_clauses = wb_clauses w @ [ClauseEqOrLike ''origin'' ?n (Suc ?n)], wb_params = wb_params w @ [JStr c, JStr (like_escape c @ '':%'')]\<rparr>"
    using c by (simp add: where_origin_class_def bind_value_def add_clause_def)
  then show ?thesis using a where_holds_add [OF a(1)] by simp
qed

lemma query_below:
  assumes "where_holds le (audit_where a) r" and "qa_before_id a = Some b"
  shows "fst r < b"
proof -
  let ?a = "a\<lparr>qa_origin_class := None\<rparr>"
  have ok: "wb_ok (audit_where ?a)" unfolding audit_where_def
    by (simp add: where_origin_class_def builder_eq builder_ge builder_le builder_lt builder_slugs builder_search builder_origin)
  have "audit_where a = where_origin_class (qa_origin_class a) (audit_where ?a)" by (simp add: audit_where_def where_origin_class_def)
  then have "where_holds le (audit_where ?a) r" using where_origin_class_mono [OF ok] assms(1) by simp
  then have "row_matches le ?a r" using audit_where_matches [of ?a] by (simp add: class_plain_def opt_all_def)
  then show ?thesis using assms(2) by (simp add: row_matches_def opt_all_def)
qed

lemma filter_shrinks:
  "(\<And>x. x \<in> set xs \<Longrightarrow> P x \<Longrightarrow> Q x) \<Longrightarrow> y \<in> set xs \<Longrightarrow> Q y \<Longrightarrow> \<not> P y \<Longrightarrow> length (filter P xs) < length (filter Q xs)"
proof (induction xs)
  case (Cons x xs)
  have "filter P (filter Q xs) = filter P xs" using Cons.prems(1) unfolding filter_filter by (intro filter_cong) auto
  then have le: "length (filter P xs) \<le> length (filter Q xs)" by (metis length_filter_le)
  show ?case
  proof (cases "y \<in> set xs")
    case True
    then show ?thesis using Cons by fastforce
  next
    case False
    then show ?thesis using Cons.prems le by auto
  qed
qed simp

lemma query_members: "es = audit_query le rows a n \<Longrightarrow> r \<in> set es \<Longrightarrow> r \<in> set rows \<and> where_holds le (audit_where a) r"
  by (auto simp: audit_query_def dest: in_set_takeD)

lemma page_shrinks:
  assumes "es = audit_query le rows (a\<lparr>qa_before_id := before\<rparr>) n" and "es \<noteq> []"
  shows "length (filter (\<lambda>r. fst r < fst (last es)) rows) < length (filter (\<lambda>r. opt_all (\<lambda>b. fst r < b) before) rows)"
proof (rule filter_shrinks [where y = "last es"])
  have "last es \<in> set es" using assms(2) by simp
  from query_members [OF assms(1) this] have l: "last es \<in> set rows" "where_holds le (audit_where (a\<lparr>qa_before_id := before\<rparr>)) (last es)" by simp_all
  show "last es \<in> set rows" by (rule l)
  show b: "opt_all (\<lambda>b. fst (last es) < b) before" using query_below [OF l(2)] by (auto simp: opt_all_def split: option.splits)
  show "opt_all (\<lambda>b. fst x < b) before" if "fst x < fst (last es)" for x using b that by (auto simp: opt_all_def split: option.splits)
qed simp

text \<open>The pages of the export: each continues below the smallest id of the one before, until a page is not full.\<close>

function export_pages :: "(string \<Rightarrow> string \<Rightarrow> bool) \<Rightarrow> audit_row list \<Rightarrow> audit_args \<Rightarrow> int option \<Rightarrow> audit_row list list" where
  "export_pages le rows a before =
     (let es = audit_query le rows (a\<lparr>qa_before_id := before\<rparr>) EXPORT_PAGE in
      if es = [] then [] else es # (if length es < EXPORT_PAGE then [] else export_pages le rows a (Some (fst (last es)))))"
  by pat_completeness auto
termination
proof (relation "measure (\<lambda>(le, rows, a, before). length (filter (\<lambda>r. opt_all (\<lambda>b. fst r < b) before) rows))")
  show "((le, rows, a, Some (fst (last es))), le, rows, a, before) \<in> measure (\<lambda>(le, rows, a, before). length (filter (\<lambda>r. opt_all (\<lambda>b. fst r < b) before) rows))"
    if "es = audit_query le rows (a\<lparr>qa_before_id := before\<rparr>) EXPORT_PAGE" "es \<noteq> []" for le rows a before es
    using page_shrinks [OF that] by (simp add: opt_all_def)
qed simp

declare export_pages.simps [simp del]

definition export_audit_csv :: "(string \<Rightarrow> string \<Rightarrow> bool) \<Rightarrow> (pyfloat \<Rightarrow> string) \<Rightarrow> audit_row list \<Rightarrow> audit_args \<Rightarrow> string list" where
  "export_audit_csv le fr rows a = csv_row CSV_COLUMNS #
     map (\<lambda>page. concat (map (\<lambda>e. csv_row (map (\<lambda>c. csv_safe fr (column e c)) CSV_COLUMNS)) page)) (export_pages le rows a None)"

text \<open>All rows a query would return without a limit, newest first.\<close>

definition all_matches :: "(string \<Rightarrow> string \<Rightarrow> bool) \<Rightarrow> audit_row list \<Rightarrow> audit_args \<Rightarrow> audit_row list" where
  "all_matches le rows a = sort_key (\<lambda>r. - fst r) (filter (row_matches le a) rows)"

lemma query_matches: "class_plain a \<Longrightarrow> audit_query le rows a n = take n (all_matches le rows a)"
  using audit_where_matches by (simp add: audit_query_def all_matches_def cong: filter_cong)

lemma descending_split:
  "sorted_wrt (\<lambda>a b. fst b < fst a) (ys :: (int \<times> 'a) list) \<Longrightarrow> take n ys \<noteq> [] \<Longrightarrow> filter (\<lambda>r. fst r < fst (last (take n ys))) ys = drop n ys"
proof -
  assume s: "sorted_wrt (\<lambda>a b. fst b < fst a) ys" and t: "take n ys \<noteq> []"
  have "sorted_wrt (\<lambda>a b. fst b < fst a) (take n ys @ drop n ys)" using s by simp
  then have a: "\<And>x y. x \<in> set (take n ys) \<Longrightarrow> y \<in> set (drop n ys) \<Longrightarrow> fst y < fst x" and b: "sorted_wrt (\<lambda>a b. fst b < fst a) (take n ys)"
    unfolding sorted_wrt_append by blast+
  obtain zs z where z: "take n ys = zs @ [z]" using t by (meson rev_exhaust)
  have "\<not> fst x < fst z" if "x \<in> set (take n ys)" for x using that b unfolding z sorted_wrt_append by auto
  then have "filter (\<lambda>r. fst r < fst z) (take n ys) = []" by (simp add: filter_empty_conv)
  moreover have "filter (\<lambda>r. fst r < fst z) (drop n ys) = drop n ys" using a z by (auto simp: filter_id_conv)
  ultimately have "filter (\<lambda>r. fst r < fst z) (take n ys @ drop n ys) = drop n ys" by (simp only: filter_append append_Nil)
  then have "filter (\<lambda>r. fst r < fst z) ys = drop n ys" by (simp only: append_take_drop_id)
  then show ?thesis by (simp only: z last_snoc)
qed

lemma all_matches_descending:
  assumes "distinct (map fst rows)"
  shows "sorted_wrt (\<lambda>a b. fst b < fst a) (all_matches le rows a)"
proof -
  let ?ys = "all_matches le rows a"
  have "sorted (map (\<lambda>r. - fst r) ?ys)" by (simp add: all_matches_def)
  moreover have "distinct (map fst ?ys)"
  proof -
    have "inj_on fst (set (filter (row_matches le a) rows))" using assms by (auto simp: distinct_map intro: inj_on_subset)
    then show ?thesis using assms by (simp add: all_matches_def distinct_map)
  qed
  ultimately have "- fst (?ys ! i) \<le> - fst (?ys ! j)" "fst (?ys ! i) \<noteq> fst (?ys ! j)" if "i < j" "j < length ?ys" for i j
    using that sorted_nth_mono [of "map (\<lambda>r. - fst r) ?ys" i j] nth_eq_iff_index_eq [of "map fst ?ys" i j] by simp_all
  then show ?thesis unfolding sorted_wrt_iff_nth_less by fastforce
qed

lemma row_matches_before:
  "row_matches le (a\<lparr>qa_before_id := before\<rparr>) r \<longleftrightarrow> row_matches le (a\<lparr>qa_before_id := None\<rparr>) r \<and> opt_all (\<lambda>b. fst r < b) before"
  by (cases before) (simp_all add: row_matches_def opt_all_def, blast)

lemma all_matches_below:
  assumes "opt_all (\<lambda>c. b < c) before"
  shows "filter (\<lambda>r. fst r < b) (all_matches le rows (a\<lparr>qa_before_id := before\<rparr>)) = all_matches le rows (a\<lparr>qa_before_id := Some b\<rparr>)"
proof -
  have "(row_matches le (a\<lparr>qa_before_id := before\<rparr>) r \<and> fst r < b) = row_matches le (a\<lparr>qa_before_id := Some b\<rparr>) r" for r
    using assms row_matches_before [of le before a r] row_matches_before [of le "Some b" a r] by (auto simp: opt_all_def split: option.splits)
  then show ?thesis unfolding all_matches_def filter_sort filter_filter by (intro arg_cong [where f = "sort_key _"] filter_cong) auto
qed
text \<open>The pages together are everything that matches, in order, each row once.\<close>

lemma export_pages_all:
  assumes "class_plain a" and "distinct (map fst rows)"
  shows "concat (export_pages le rows a before) = all_matches le rows (a\<lparr>qa_before_id := before\<rparr>)"
  using assms
proof (induction le rows a before rule: export_pages.induct)
  case (1 le rows a before)
  let ?ys = "all_matches le rows (a\<lparr>qa_before_id := before\<rparr>)"
  have plain: "class_plain (a\<lparr>qa_before_id := before\<rparr>)" using 1(2) by (simp add: class_plain_def)
  define es where "es = audit_query le rows (a\<lparr>qa_before_id := before\<rparr>) EXPORT_PAGE"
  have es: "es = take EXPORT_PAGE ?ys" using query_matches [OF plain] by (simp add: es_def)
  have ys: "?ys = es @ drop EXPORT_PAGE ?ys" unfolding es by simp
  show ?case
  proof (cases "es = [] \<or> length es < EXPORT_PAGE")
    case True
    then have "length ?ys \<le> EXPORT_PAGE" using es by (auto simp: EXPORT_PAGE_def take_eq_Nil)
    then have "?ys = es" using es by simp
    then show ?thesis using True by (auto simp: export_pages.simps [of le rows a before] es_def [symmetric])
  next
    case False
    have "last es \<in> set es" using False by simp
    then have "where_holds le (audit_where (a\<lparr>qa_before_id := before\<rparr>)) (last es)" using query_members [OF es_def] by blast
    from query_below [OF this] have "opt_all (\<lambda>c. fst (last es) < c) before" by (auto simp: opt_all_def split: option.splits)
    note below = all_matches_below [OF this, of le rows a]
    have "filter (\<lambda>r. fst r < fst (last es)) ?ys = drop EXPORT_PAGE ?ys"
      using descending_split [OF all_matches_descending [OF 1(3)], of EXPORT_PAGE le "a\<lparr>qa_before_id := before\<rparr>"] False unfolding es by blast
    then have "concat (export_pages le rows a (Some (fst (last es)))) = drop EXPORT_PAGE ?ys"
      using 1(1) [OF es_def] False 1(2,3) below by simp
    then have "concat (export_pages le rows a before) = es @ drop EXPORT_PAGE ?ys"
      using False by (simp add: export_pages.simps [of le rows a before] es_def [symmetric])
    then show ?thesis using ys by simp
  qed
qed

subsection \<open>Pruning\<close>

abbreviation expired :: "(string \<Rightarrow> string \<Rightarrow> bool) \<Rightarrow> string \<Rightarrow> audit_row \<Rightarrow> bool" where
  "expired earlier cutoff r \<equiv> (case column r ''ts'' of JStr ts \<Rightarrow> earlier ts cutoff | _ \<Rightarrow> False)"

lemma length_chosen:
  assumes "distinct (map fst rows)" and "distinct ids" and "set ids \<subseteq> fst ` set rows"
  shows "length (filter (\<lambda>r. fst r \<in> set ids) rows) = length ids"
proof -
  have "distinct (map fst (filter (\<lambda>r. fst r \<in> set ids) rows))" using assms(1) by (simp add: distinct_map_filter)
  moreover have "set (map fst (filter (\<lambda>r. fst r \<in> set ids) rows)) = set ids" using assms(3) by auto
  ultimately show ?thesis using distinct_card assms(2) by (metis length_map)
qed

lemma prune_batch:
  assumes "distinct (map fst rows)" and "ids = doomed_ids earlier rows cutoff n"
  shows "length rows - length (filter (\<lambda>r. fst r \<notin> set ids) rows) = min n (length (filter (expired earlier cutoff) rows))"
    and "filter (\<lambda>r. \<not> expired earlier cutoff r) (filter (\<lambda>r. fst r \<notin> set ids) rows) = filter (\<lambda>r. \<not> expired earlier cutoff r) rows"
    and "length (filter (expired earlier cutoff) (filter (\<lambda>r. fst r \<notin> set ids) rows)) = length (filter (expired earlier cutoff) rows) - n"
proof -
  let ?old = "filter (expired earlier cutoff) rows"
  have ids: "ids = take n (sort (map fst ?old))" using assms(2) by (simp add: doomed_ids_def)
  have dist: "distinct (map fst ?old)" using assms(1) by (simp add: distinct_map_filter)
  have d: "distinct ids" "set ids \<subseteq> fst ` set ?old" unfolding ids using dist set_take_subset by (simp, fastforce)
  have len: "length ids = min n (length ?old)" unfolding ids by (simp add: min.commute)
  have sub: "set ids \<subseteq> fst ` set rows" using d(2) by auto
  have "length rows = length (filter (\<lambda>r. fst r \<in> set ids) rows) + length (filter (\<lambda>r. fst r \<notin> set ids) rows)"
    using sum_length_filter_compl [of "\<lambda>r. fst r \<in> set ids" rows] by simp
  then show "length rows - length (filter (\<lambda>r. fst r \<notin> set ids) rows) = min n (length ?old)"
    using length_chosen [OF assms(1) d(1) sub] len by simp
  have old: "expired earlier cutoff r" if r: "r \<in> set rows" "fst r \<in> set ids" for r
  proof -
    obtain q where q: "q \<in> set ?old" "fst q = fst r" using r(2) d(2) by auto
    then have "q = r" using assms(1) r(1) by (auto simp: distinct_map dest: inj_onD)
    then show ?thesis using q(1) by simp
  qed
  then show "filter (\<lambda>r. \<not> expired earlier cutoff r) (filter (\<lambda>r. fst r \<notin> set ids) rows) = filter (\<lambda>r. \<not> expired earlier cutoff r) rows"
    unfolding filter_filter by (intro filter_cong) auto
  have "length ?old = length (filter (\<lambda>r. fst r \<in> set ids) ?old) + length (filter (\<lambda>r. fst r \<notin> set ids) ?old)"
    using sum_length_filter_compl [of "\<lambda>r. fst r \<in> set ids" ?old] by simp
  moreover have "length (filter (\<lambda>r. fst r \<in> set ids) ?old) = length ids" using length_chosen [OF dist d] .
  moreover have "filter (expired earlier cutoff) (filter (\<lambda>r. fst r \<notin> set ids) rows) = filter (\<lambda>r. fst r \<notin> set ids) ?old"
    unfolding filter_filter by (intro filter_cong) auto
  ultimately show "length (filter (expired earlier cutoff) (filter (\<lambda>r. fst r \<notin> set ids) rows)) = length ?old - n" using len by simp
qed

lemma prune_loop_result:
  assumes "0 < n" and "distinct (map fst rows)"
  shows "prune_loop earlier cutoff n k rows
    = Some (k + length (filter (expired earlier cutoff) rows), filter (\<lambda>r. \<not> expired earlier cutoff r) rows)"
  using assms(2)
proof (induction "length (filter (expired earlier cutoff) rows)" arbitrary: k rows rule: less_induct)
  case less
  define ids where "ids = doomed_ids earlier rows cutoff n"
  define rows' where "rows' = filter (\<lambda>r. fst r \<notin> set ids) rows"
  let ?m = "length (filter (expired earlier cutoff) rows)"
  note b = prune_batch [OF less.prems ids_def, folded rows'_def]
  have run: "prune_loop earlier cutoff n k rows = (if min n ?m < n then Some (k + min n ?m, rows') else prune_loop earlier cutoff n (k + min n ?m) rows')"
    by (subst prune_loop.simps) (simp add: Let_def ids_def [symmetric] rows'_def [symmetric] b(1))
  show ?case
  proof (cases "?m < n")
    case True
    then have "filter (expired earlier cutoff) rows' = []" using b(3) by simp
    then have "filter (\<lambda>r. \<not> expired earlier cutoff r) rows' = rows'" unfolding filter_empty_conv filter_id_conv by blast
    then show ?thesis using True run b(2) by simp
  next
    case False
    have "length (filter (expired earlier cutoff) rows') < ?m" using b(3) False assms(1) by simp
    moreover have "distinct (map fst rows')" using less.prems by (simp add: rows'_def distinct_map_filter)
    ultimately have "prune_loop earlier cutoff n (k + n) rows' = Some (k + n + length (filter (expired earlier cutoff) rows'), filter (\<lambda>r. \<not> expired earlier cutoff r) rows')"
      by (rule less.hyps)
    then show ?thesis using False run b(2,3) by simp
  qed
qed

subsection \<open>Properties\<close>

text \<open>C37. A query returns what its filters say: the generated clauses, with their numbered placeholders and escaped patterns, select exactly
  the rows that satisfy the filters as stated, a search finding the texts that contain the searched text literally and a class
  filter the origins of that class, and the newest of them come first, up to the limit.\<close>

theorem audit_query_meaning:
  assumes "class_plain a"
  shows "audit_query le rows a limit = take limit (sort_key (\<lambda>r. - fst r) (filter (row_matches le a) rows))"
  using query_matches [OF assms] by (simp add: all_matches_def)

text \<open>The CSV export terminates and is complete: its pages hold, newest first and each once, exactly the rows that match the filters,
  however many pages that takes.\<close>

theorem export_complete:
  assumes "class_plain a" and "distinct (map fst rows)"
  shows "concat (export_pages le rows a None) = sort_key (\<lambda>r. - fst r) (filter (row_matches le (a\<lparr>qa_before_id := None\<rparr>)) rows)"
  using export_pages_all [OF assms] by (simp add: all_matches_def)

text \<open>C38. Pruning ends and deletes exactly what is old: with a positive batch size the batched delete returns after finitely many
  batches, with the number of rows older than the cutoff, and leaves exactly the others, in place.\<close>

theorem prune_terminates:
  assumes "0 < batch_size" and "distinct (map fst rows)"
  shows "prune_older_than earlier rows cutoff batch_size
    = Some (length (filter (expired earlier cutoff) rows), filter (\<lambda>r. \<not> expired earlier cutoff r) rows)"
  unfolding prune_older_than_def prune_loop_result [OF assms] by simp
subsection \<open>Routes\<close>

text \<open>The two origin parameters of the routes; an unknown class is refused.\<close>

definition ORIGIN_CLASSES :: "string list" where
  "ORIGIN_CLASSES = [''gateway'', ''local'', ''test'']"

definition resolve_origin_filters :: "string option \<Rightarrow> bool \<Rightarrow> string + origin_filter \<times> string option" where
  "resolve_origin_filters cls include_test =
     (case cls of
        Some c \<Rightarrow> if c \<notin> set ORIGIN_CLASSES then Inl (''unknown origin_class; expected one of '' @ str_join '', '' ORIGIN_CLASSES) else Inr (AnyOrigin, Some c)
      | None \<Rightarrow> Inr (if include_test then AnyOrigin else OriginIs None, None))"

text \<open>The audit page: the filters, at most 500 rows.\<close>

definition query_audit :: "(string \<Rightarrow> string \<Rightarrow> bool) \<Rightarrow> audit_row list \<Rightarrow> audit_args \<Rightarrow> string option \<Rightarrow> bool \<Rightarrow> nat \<Rightarrow> string + audit_row list" where
  "query_audit le rows a cls include_test limit =
     (case resolve_origin_filters cls include_test of
        Inl e \<Rightarrow> Inl e
      | Inr (origin, c) \<Rightarrow> Inr (audit_query le rows (a\<lparr>qa_origin := origin, qa_origin_class := c\<rparr>) (min limit 500)))"

lemma origin_filters_plain: "resolve_origin_filters cls b = Inr (f, c) \<Longrightarrow> class_plain (a\<lparr>qa_origin := f, qa_origin_class := c\<rparr>)"
  by (auto simp: resolve_origin_filters_def class_plain_def opt_all_def ORIGIN_CLASSES_def split: option.splits if_splits)

text \<open>No exported cell starts like a formula.\<close>

lemma csv_safe_no_formula: "csv_safe fr v = c # cs \<Longrightarrow> c \<notin> set ''=+-@''"
  by (auto simp: csv_safe_def Let_def split: if_splits list.splits)

subsection \<open>Witnesses\<close>

definition sample_audit_rows :: "audit_row list" where
  "sample_audit_rows =
     [(1, [(''ts'', JStr ''2026-01-01''), (''reason'', JStr ''over 100% of quota''), (''decision'', JStr ''BLOCKED'')]),
      (2, [(''ts'', JStr ''2026-01-02''), (''reason'', JStr ''over 1000 of quota''), (''decision'', JStr ''BLOCKED'')]),
      (3, [(''ts'', JStr ''2026-01-03''), (''matched'', JStr ''100% sure''), (''decision'', JStr ''ALLOWED'')])]"

definition sample_audit_args :: audit_args where
  "sample_audit_args = \<lparr>qa_server_slug = None, qa_decision = None, qa_tool = None, qa_before_id = None, qa_api_key_id = None, qa_after = None, qa_before = None,
     qa_search = Some ''100%'', qa_origin = OriginIs None, qa_server_slug_in = None, qa_origin_class = None\<rparr>"

lemma sample_matches: "map fst (sort_key (\<lambda>r. - fst r) (filter (row_matches (\<le>) sample_audit_args) sample_audit_rows)) = [3, 1]"
proof -
  have "row_matches (\<le>) sample_audit_args r = (column r ''origin'' = JNull
      \<and> (contains_text (column r ''reason'') ''100%'' \<or> contains_text (column r ''args_summary'') ''100%'' \<or> contains_text (column r ''matched'') ''100%''))" for r
    by (auto simp: row_matches_def sample_audit_args_def opt_all_def text_matches_def)
  then have "filter (row_matches (\<le>) sample_audit_args) sample_audit_rows = filter (\<lambda>r. column r ''origin'' = JNull
      \<and> (contains_text (column r ''reason'') ''100%'' \<or> contains_text (column r ''args_summary'') ''100%'' \<or> contains_text (column r ''matched'') ''100%''))
      sample_audit_rows" by (simp cong: filter_cong)
  then show ?thesis by (simp add: sample_audit_rows_def column_def dict_get_def contains_text_def sublist_code)
qed

lemma sample_plain: "class_plain sample_audit_args" by (simp add: class_plain_def sample_audit_args_def opt_all_def)

theorem audit_query_meaning_witness: "map fst (audit_query (\<le>) sample_audit_rows sample_audit_args 100) = [3, 1]"
  using audit_query_meaning [OF sample_plain, of "(\<le>)" sample_audit_rows 100] sample_matches by (simp flip: take_map)

theorem export_complete_witness: "map fst (concat (export_pages (\<le>) sample_audit_rows sample_audit_args None)) = [3, 1]"
proof -
  have "distinct (map fst sample_audit_rows)" "sample_audit_args\<lparr>qa_before_id := None\<rparr> = sample_audit_args"
    by (simp_all add: sample_audit_rows_def sample_audit_args_def)
  then show ?thesis using export_complete [OF sample_plain, of sample_audit_rows "(\<le>)"] sample_matches by simp
qed

theorem prune_terminates_witness:
  "\<exists>rows'. prune_older_than (<) sample_audit_rows ''2026-01-02'' 1 = Some (1, rows') \<and> map fst rows' = [2, 3]"
proof -
  have "0 < (1 :: nat)" "distinct (map fst sample_audit_rows)" by (simp_all add: sample_audit_rows_def)
  from prune_terminates [OF this, of "(<)" "''2026-01-02''"] show ?thesis
    by (simp add: sample_audit_rows_def column_def dict_get_def less_list_code)
qed

end
