(* ===== verification/Health.thy ===== *)
theory Health
  imports Tools_Cache Webhooks
begin

text \<open>
  Health checks, \<open>stoa/health.py\<close>, with \<open>ServerRepo.set_health\<close> of \<open>db/repo.py\<close>: the probe of one server, the negative probes of a
  token-mode server, and the polls. The health columns are a table beside the servers. The network is the one of \<open>Upstream\<close>:
  every request is recorded when it is sent. \<open>Raised\<close> values are exceptions the code does not catch here; \<open>poll_once\<close> catches and logs
  them. A poll runs its probes concurrently; here they run one after another, each on its own server, cache entry and row.
\<close>

subsection \<open>The probe\<close>

definition PROBE_MAX_RESPONSE_BYTES :: int where "PROBE_MAX_RESPONSE_BYTES = 1048576"
definition MCP_2026_VERSION :: string where "MCP_2026_VERSION = ''2026-07-28''"
definition MCP_METHOD_HEADER :: string where "MCP_METHOD_HEADER = ''Mcp-Method''"
definition META_CLIENT_INFO :: string where "META_CLIENT_INFO = ''io.modelcontextprotocol/clientInfo''"
definition META_CLIENT_CAPABILITIES :: string where "META_CLIENT_CAPABILITIES = ''io.modelcontextprotocol/clientCapabilities''"
definition TOKEN_MINT_FAILURE_PREFIX :: string where "TOKEN_MINT_FAILURE_PREFIX = ''token mint failed: ''"
definition AUTH_NOT_ENFORCED_PREFIX :: string where "AUTH_NOT_ENFORCED_PREFIX = ''token auth not enforced: ''"
definition AUDIENCE_NOT_ENFORCED_PREFIX :: string where "AUDIENCE_NOT_ENFORCED_PREFIX = ''token accepted for the wrong audience: ''"
definition PROBE_TIMEOUT_PREFIX :: string where "PROBE_TIMEOUT_PREFIX = ''probe timed out: ''"
definition PROBE_RESPONSE_REJECTED_PREFIX :: string where "PROBE_RESPONSE_REJECTED_PREFIX = ''probe response rejected: ''"

text \<open>What a probe gets from outside: the network and the JSON library, a fresh handshake id, the clocks, the secret provider, the token
  issuer with its uncached minting, the random part of an audience, and whether the deadline of a whole probe passes and after
  how many of its requests.\<close>

record probe_env =
  pb_net :: network
  pb_loads :: "string \<Rightarrow> json option"
  pb_dumps :: "json \<Rightarrow> string"
  pb_hs_id :: string
  pb_mono :: rat
  pb_utcnow :: string
  pb_secrets :: "string \<Rightarrow> secret_error + string"
  pb_issuer :: "(string \<Rightarrow> string option) option"
  pb_mint_uncached :: "string \<Rightarrow> string option"
  pb_token_hex :: string
  pb_cut :: "server_record \<Rightarrow> nat option"

record probe_result =
  pr_status :: string
  pr_protocol :: json
  pr_discover :: json
  pr_reason :: "string option"

definition unhealthy :: "string option \<Rightarrow> probe_result" where
  "unhealthy reason = \<lparr>pr_status = ''unhealthy'', pr_protocol = JNull, pr_discover = JNull, pr_reason = reason\<rparr>"

definition probe_timed_out :: probe_result where
  "probe_timed_out = unhealthy (Some (PROBE_TIMEOUT_PREFIX @ ''no complete response within 10s''))"

text \<open>The handshake under a deadline, with the three kinds of error the probe distinguishes.\<close>

datatype probe_handshake_error = HandshakeTimeout | HandshakeTooLarge string | HandshakeFailed | HandshakeRaised

definition handshake_within ::
    "network \<Rightarrow> (string \<Rightarrow> json option) \<Rightarrow> upstream_state \<Rightarrow> string \<Rightarrow> string \<Rightarrow> string option \<Rightarrow>
     (probe_handshake_error + handshake_result) \<times> upstream_state" where
  "handshake_within net loads s hs_id url auth =
     (case bounded_post net s url (initialize_body hs_id) (json_headers auth) HANDSHAKE_MAX_RESPONSE_BYTES True of
        (Inl (PostFailed m), s1) \<Rightarrow> (Inl HandshakeFailed, s1)
      | (Inl (PostRejected m), s1) \<Rightarrow> (Inl (HandshakeTooLarge (''initialize response rejected: '' @ m)), s1)
      | (Inl PostDeadline, s1) \<Rightarrow> (Inl HandshakeTimeout, s1)
      | (Inr resp, s1) \<Rightarrow>
          (case read_initialize loads resp of
             Inl (HandshakeError _) \<Rightarrow> (Inl HandshakeFailed, s1)
           | Inl HandshakeUncaught \<Rightarrow> (Inl HandshakeRaised, s1)
           | Inr h \<Rightarrow> (Inr h, snd (bounded_post net s1 url initialized_body (json_headers auth @ session_headers h)
               HANDSHAKE_MAX_RESPONSE_BYTES True))))"

definition get_or_handshake_within ::
    "network \<Rightarrow> (string \<Rightarrow> json option) \<Rightarrow> upstream_state \<Rightarrow> string \<Rightarrow> int \<Rightarrow> string \<Rightarrow> string option \<Rightarrow> rat \<Rightarrow>
     (probe_handshake_error + handshake_result) \<times> upstream_state" where
  "get_or_handshake_within net loads s hs_id server_id url auth now =
     (case (map_of (up_cache s) server_id, handshake_expired s server_id now) of
        (Some h, False) \<Rightarrow> (Inr h, s)
      | _ \<Rightarrow> (case handshake_within net loads s hs_id url auth of
            (Inl e, s1) \<Rightarrow> (Inl e, s1)
          | (Inr h, s1) \<Rightarrow> (Inr h, s1\<lparr>up_cache := AList.update server_id h (up_cache s1),
                                      up_cached_at := AList.update server_id now (up_cached_at s1)\<rparr>)))"

definition discover_headers :: "string option \<Rightarrow> (string \<times> string) list" where
  "discover_headers auth = [(''Content-Type'', ''application/json''), (''Accept'', ''application/json, text/event-stream''),
     (''MCP-Protocol-Version'', MCP_2026_VERSION), (MCP_METHOD_HEADER, ''server/discover'')] @ auth_headers auth"

definition discover_body :: json where
  "discover_body = JObj [(''jsonrpc'', JStr ''2.0''), (''id'', JStr ''acropolis-discover''), (''method'', JStr ''server/discover''),
     (''params'', JObj [(''_meta'', JObj [(META_PROTOCOL_VERSION, JStr MCP_2026_VERSION),
        (META_CLIENT_INFO, JObj [(''name'', JStr ''acropolis-gateway''), (''version'', JStr ''0.1.0'')]),
        (META_CLIENT_CAPABILITIES, JObj [])])])]"

text \<open>What the probe makes of the answer of a \<open>200\<close>: a discovery result, nothing (the handshake follows), or an exception on a value of
  an unexpected shape: \<open>"result" in parsed\<close>, \<open>parsed["result"]\<close>, \<open>.get\<close> and \<open>.lower()\<close> are applied to whatever was parsed.\<close>

datatype discover_outcome = Discovered json | NotDiscovered | DiscoverRaised

definition read_discover :: "json \<Rightarrow> discover_outcome" where
  "read_discover parsed =
     (if \<not> truthy parsed then NotDiscovered
      else case parsed of
          JObj d \<Rightarrow>
            (case map_of d ''result'' of
               Some v \<Rightarrow> Discovered v
             | None \<Rightarrow>
                 (let error = obj_get d ''error'' in
                  if \<not> truthy error then NotDiscovered
                  else case error of
                      JObj e \<Rightarrow> (case map_of e ''message'' of None \<Rightarrow> NotDiscovered | Some (JStr _) \<Rightarrow> NotDiscovered | Some _ \<Rightarrow> DiscoverRaised)
                    | _ \<Rightarrow> DiscoverRaised))
        | _ \<Rightarrow> DiscoverRaised)"

definition discover_answer :: "(string \<Rightarrow> json option) \<Rightarrow> nat \<times> (string \<times> string) list \<times> string \<Rightarrow> discover_outcome" where
  "discover_answer loads resp = (case resp of (status, hs, text) \<Rightarrow>
     if status = 200 then read_discover (case parse_answer loads hs text of None \<Rightarrow> JNull | Some v \<Rightarrow> v) else NotDiscovered)"

definition credential_reason :: "string \<Rightarrow> string \<Rightarrow> string" where
  "credential_reason reason kind =
     (if kind = TOKEN_NOT_CONFIGURED then TOKEN_MINT_FAILURE_PREFIX @ ''token signing is not configured''
      else if kind = TOKEN_MINT_FAILED then TOKEN_MINT_FAILURE_PREFIX @ ''token mint failed''
      else reason)"

text \<open>The initialize fallback.\<close>

definition probe_initialize :: "probe_env \<Rightarrow> upstream_state \<Rightarrow> server_record \<Rightarrow> string option \<Rightarrow> probe_result option \<times> upstream_state" where
  "probe_initialize env s server auth =
     (case get_or_handshake_within (pb_net env) (pb_loads env) s (pb_hs_id env) (sv_id server) (sv_upstream_url server) auth (pb_mono env) of
        (Inl HandshakeTimeout, s1) \<Rightarrow> (Some probe_timed_out, s1)
      | (Inl (HandshakeTooLarge m), s1) \<Rightarrow> (Some (unhealthy (Some (PROBE_RESPONSE_REJECTED_PREFIX @ m))), s1)
      | (Inl HandshakeFailed, s1) \<Rightarrow> (Some (unhealthy None), s1)
      | (Inl HandshakeRaised, s1) \<Rightarrow> (None, s1)
      | (Inr h, s1) \<Rightarrow> (Some \<lparr>pr_status = ''healthy'', pr_protocol = hr_protocol_version h,
          pr_discover = JObj [(''protocolVersion'', hr_protocol_version h), (''serverInfo'', hr_server_info h), (''capabilities'', hr_capabilities h)],
          pr_reason = None\<rparr>, s1))"

definition probe_server :: "probe_env \<Rightarrow> upstream_state \<Rightarrow> server_record \<Rightarrow> probe_result option \<times> upstream_state" where
  "probe_server env s server =
     (case resolve_upstream_credential (pb_secrets env) (pb_issuer env) server of
        Inl CredentialUncaught \<Rightarrow> (None, s)
      | Inl (UpstreamCredentialError reason kind) \<Rightarrow> (Some (unhealthy (Some (credential_reason reason kind))), s)
      | Inr auth \<Rightarrow>
          (case bounded_post (pb_net env) s (sv_upstream_url server) discover_body (discover_headers auth) PROBE_MAX_RESPONSE_BYTES True of
             (Inl PostDeadline, s1) \<Rightarrow> (Some probe_timed_out, s1)
           | (Inl (PostRejected m), s1) \<Rightarrow> (Some (unhealthy (Some (PROBE_RESPONSE_REJECTED_PREFIX @ m))), s1)
           | (Inl (PostFailed m), s1) \<Rightarrow> (Some (unhealthy None), s1)
           | (Inr resp, s1) \<Rightarrow>
               (case discover_answer (pb_loads env) resp of
                  Discovered v \<Rightarrow> (Some \<lparr>pr_status = ''healthy'', pr_protocol = JStr ''2026-07-28'', pr_discover = v, pr_reason = None\<rparr>, s1)
                | DiscoverRaised \<Rightarrow> (None, s1)
                | NotDiscovered \<Rightarrow> probe_initialize env s1 server auth)))"

subsection \<open>Negative probes\<close>

definition REFUSED :: "nat list" where "REFUSED = [401, 403]"
definition GATEWAY_TRANSIENT :: "nat list" where "GATEWAY_TRANSIENT = [502, 503, 504]"

definition status_only_post :: "network \<Rightarrow> upstream_state \<Rightarrow> string \<Rightarrow> (string \<times> string) list \<Rightarrow> json \<Rightarrow> http_answer \<times> upstream_state" where
  "status_only_post net s url headers body = send net s \<lparr>hq_method = ''POST'', hq_url = url, hq_headers = headers, hq_body = JsonPayload body\<rparr>"

definition enforcement_status ::
    "network \<Rightarrow> upstream_state \<Rightarrow> server_record \<Rightarrow> (string \<times> string) list \<Rightarrow> json \<Rightarrow> nat option \<times> upstream_state" where
  "enforcement_status net s server headers body =
     (case status_only_post net s (sv_upstream_url server) headers body of
        (HttpAnswer status hs content, s1) \<Rightarrow> (if status \<in> set GATEWAY_TRANSIENT then None else Some status, s1)
      | (_, s1) \<Rightarrow> (None, s1))"

definition ping_headers :: "(string \<times> string) list" where
  "ping_headers = [(''Content-Type'', ''application/json''), (''Accept'', ''application/json, text/event-stream''), (MCP_METHOD_HEADER, ''ping'')]"

definition ping_body :: "string \<Rightarrow> json" where
  "ping_body rpc_id = JObj [(''jsonrpc'', JStr ''2.0''), (''id'', JStr rpc_id), (''method'', JStr ''ping'')]"

definition probe_audience :: "probe_env \<Rightarrow> string" where
  "probe_audience env = ''acropolis-health-probe-'' @ pb_token_hex env"

text \<open>The em dash in the messages, in UTF-8.\<close>

definition not_enforced_reason :: "nat \<Rightarrow> string" where
  "not_enforced_reason status = AUTH_NOT_ENFORCED_PREFIX @ ''an unauthenticated request got HTTP '' @ show_nat status
     @ '', expected 401 '' @ [CHR 0xE2, CHR 0x80, CHR 0x94] @ '' it was not refused by token auth''"

definition wrong_audience_reason :: "nat \<Rightarrow> string" where
  "wrong_audience_reason status = AUDIENCE_NOT_ENFORCED_PREFIX @ ''a token signed for a different audience got HTTP '' @ show_nat status
     @ '', expected 401 '' @ [CHR 0xE2, CHR 0x80, CHR 0x94] @ '' the server is not verifying the token'' @ [CHR 0x27] @ ''s audience''"

definition check_auth_enforced :: "probe_env \<Rightarrow> upstream_state \<Rightarrow> server_record \<Rightarrow> string option \<times> upstream_state" where
  "check_auth_enforced env s server =
     (case enforcement_status (pb_net env) s server ping_headers (ping_body ''acropolis-auth-check'') of
        (None, s1) \<Rightarrow> (None, s1)
      | (Some status, s1) \<Rightarrow>
          if status \<notin> set REFUSED then (Some (not_enforced_reason status), s1)
          else if pb_issuer env = None then (None, s1)
          else case pb_mint_uncached env (probe_audience env) of
              None \<Rightarrow> (None, s1)
            | Some token \<Rightarrow>
                (case enforcement_status (pb_net env) s1 server (ping_headers @ [(''Authorization'', ''Bearer '' @ token)])
                        (ping_body ''acropolis-audience-check'') of
                   (None, s2) \<Rightarrow> (None, s2)
                 | (Some status', s2) \<Rightarrow> (if status' \<in> set REFUSED then None else Some (wrong_audience_reason status'), s2)))"

subsection \<open>Storing\<close>

record health_row =
  hh_status :: string
  hh_reason :: "string option"
  hh_last_seen :: "string option"

record health_state =
  he_servers :: "server_record list"
  he_rows :: "(int \<times> health_row) list"
  he_upstream :: upstream_state
  he_hooks :: "webhooks option"

definition unknown_health :: health_row where
  "unknown_health = \<lparr>hh_status = ''unknown'', hh_reason = None, hh_last_seen = None\<rparr>"

definition health_of :: "(int \<times> health_row) list \<Rightarrow> int \<Rightarrow> health_row" where
  "health_of rows i = (case map_of rows i of None \<Rightarrow> unknown_health | Some r \<Rightarrow> r)"

text \<open>\<open>set_health\<close>: the protocol and the discovery text keep their stored values when the probe has none, the reason does not. \<open>None\<close>: the
  server is gone, or the protocol is not a text.\<close>

definition set_health ::
    "server_record list \<times> (int \<times> health_row) list \<Rightarrow> string \<Rightarrow> string \<Rightarrow> json \<Rightarrow> string option \<Rightarrow> string option \<Rightarrow> string \<Rightarrow>
     (server_record list \<times> (int \<times> health_row) list) option" where
  "set_health t slug status protocol discover_json reason now =
     (case t of (servers, rows) \<Rightarrow>
        (case List.find (\<lambda>s. sv_slug s = slug) servers of
           None \<Rightarrow> None
         | Some current \<Rightarrow>
             (let write = (\<lambda>p. Some (map (\<lambda>s. if sv_id s = sv_id current
                     then s\<lparr>sv_upstream_protocol := (if p = None then sv_upstream_protocol s else p),
                            sv_discover_json := (if discover_json = None then sv_discover_json s else discover_json)\<rparr> else s) servers,
                   AList.update (sv_id current) \<lparr>hh_status = status, hh_reason = reason, hh_last_seen = Some now\<rparr> rows)) in
              case protocol of JNull \<Rightarrow> write None | JStr v \<Rightarrow> write (Some v) | _ \<Rightarrow> None)))"

text \<open>The probe under its overall deadline; when that passes while the probe waits, the requests already sent remain sent and nothing
  is cached.\<close>

definition bounded_probe :: "probe_env \<Rightarrow> upstream_state \<Rightarrow> server_record \<Rightarrow> probe_result option \<times> upstream_state" where
  "bounded_probe env s server =
     (let (r, s1) = probe_server env s server in
      case pb_cut env server of
        None \<Rightarrow> (r, s1)
      | Some k \<Rightarrow> (Some (unhealthy (Some (PROBE_TIMEOUT_PREFIX @ ''probe exceeded 30s''))),
                   s\<lparr>up_history := take (length (up_history s) + k) (up_history s1)\<rparr>))"

text \<open>The status the check of a token-mode server leaves.\<close>

definition enforced_probe :: "probe_env \<Rightarrow> upstream_state \<Rightarrow> server_record \<Rightarrow> probe_result option \<times> upstream_state" where
  "enforced_probe env s server =
     (case bounded_probe env s server of
        (None, s1) \<Rightarrow> (None, s1)
      | (Some r, s1) \<Rightarrow>
          if pr_status r = ''healthy'' \<and> sv_credential_mode server = ''token''
          then (case check_auth_enforced env s1 server of
                  (None, s2) \<Rightarrow> (Some r, s2)
                | (Some reason, s2) \<Rightarrow> (Some (r\<lparr>pr_status := ''unhealthy'', pr_reason := Some reason\<rparr>), s2))
          else (Some r, s1))"

text \<open>\<open>before\<close> is the status in the record the poll read. The boolean says whether the call returned.\<close>

definition probe_and_store :: "probe_env \<Rightarrow> health_state \<Rightarrow> server_record \<Rightarrow> string \<Rightarrow> bool \<times> health_state" where
  "probe_and_store env st server before =
     (case enforced_probe env (he_upstream st) server of
        (None, u) \<Rightarrow> (False, st\<lparr>he_upstream := u\<rparr>)
      | (Some r, u) \<Rightarrow>
          (case set_health (he_servers st, he_rows st) (sv_slug server) (pr_status r) (pr_protocol r)
                  (if truthy (pr_discover r) then Some (pb_dumps env (pr_discover r)) else None) (pr_reason r) (pb_utcnow env) of
             None \<Rightarrow> (False, st\<lparr>he_upstream := u\<rparr>)
           | Some (servers, rows) \<Rightarrow>
               (True, st\<lparr>he_upstream := u, he_servers := servers, he_rows := rows,
                  he_hooks := (if before \<noteq> ''unhealthy'' \<and> pr_status r = ''unhealthy''
                    then map_option (\<lambda>w. notify_unhealthy w (sv_slug server) (pb_mono env) (pb_utcnow env)) (he_hooks st) else he_hooks st)\<rparr>)))"

text \<open>One poll; an exception of one server is caught. The records were read at the start.\<close>

definition poll_servers :: "probe_env \<Rightarrow> (server_record \<times> string) list \<Rightarrow> health_state \<Rightarrow> health_state" where
  "poll_servers env todo st = foldl (\<lambda>st (server, before). snd (probe_and_store env st server before)) st todo"

definition poll_once :: "probe_env \<Rightarrow> health_state \<Rightarrow> health_state" where
  "poll_once env st = poll_servers env (map (\<lambda>s. (s, hh_status (health_of (he_rows st) (sv_id s)))) (filter sv_enabled (he_servers st))) st"

definition poll_one :: "probe_env \<Rightarrow> health_state \<Rightarrow> string \<Rightarrow> bool \<times> health_state" where
  "poll_one env st slug =
     (case List.find (\<lambda>s. sv_slug s = slug) (he_servers st) of
        None \<Rightarrow> (True, st)
      | Some server \<Rightarrow> if sv_enabled server then probe_and_store env st server (hh_status (health_of (he_rows st) (sv_id server))) else (True, st))"

subsection \<open>What a probe sends\<close>

lemma handshake_within_extends:
  assumes "handshake_within net loads s hs_id url auth = (r, s')" and "handshake_bodies hs_id \<subseteq> B"
  shows "extends_with (sends_to url auth B) s s'"
proof -
  obtain r1 s1 where p1: "bounded_post net s url (initialize_body hs_id) (json_headers auth) HANDSHAKE_MAX_RESPONSE_BYTES True = (r1, s1)"
    by fastforce
  have e1: "extends_with (sends_to url auth B) s s1" using bounded_post_extends [OF p1 json_headers_own] assms(2) by (auto simp: handshake_bodies_def)
  have more: "extends_with (sends_to url auth B) s1 (snd (bounded_post net s1 url initialized_body (json_headers auth @ session_headers h)
      HANDSHAKE_MAX_RESPONSE_BYTES True))" for h
    by (rule bounded_post_extends [OF prod.collapse [symmetric]])
      (use assms(2) in \<open>auto dest: json_headers_own simp: session_headers_no_auth handshake_bodies_def\<close>)
  consider "s' = s1" | h where "s' = snd (bounded_post net s1 url initialized_body (json_headers auth @ session_headers h)
      HANDSHAKE_MAX_RESPONSE_BYTES True)"
    using assms(1) p1 by (auto simp: handshake_within_def split: sum.splits post_error.splits handshake_error.splits)
  then show ?thesis using e1 more extends_with_trans by cases blast+
qed

lemma get_or_handshake_within_extends:
  assumes "get_or_handshake_within net loads s hs_id server_id url auth now = (r, s')" and "handshake_bodies hs_id \<subseteq> B"
  shows "extends_with (sends_to url auth B) s s'"
proof -
  obtain r1 s1 where h: "handshake_within net loads s hs_id url auth = (r1, s1)" by fastforce
  have "up_history s' = up_history s \<or> up_history s' = up_history s1"
    using assms(1) h by (auto simp: get_or_handshake_within_def split: option.splits bool.splits sum.splits)
  with handshake_within_extends [OF h assms(2)] show ?thesis by (auto simp: extends_with_def)
qed

definition probe_bodies :: "probe_env \<Rightarrow> json set" where
  "probe_bodies env = insert discover_body (handshake_bodies (pb_hs_id env))"

lemma probe_initialize_extends:
  assumes "probe_initialize env s server auth = (r, s')"
  shows "extends_with (sends_to (sv_upstream_url server) auth (probe_bodies env)) s s'"
proof -
  obtain r1 s1 where h: "get_or_handshake_within (pb_net env) (pb_loads env) s (pb_hs_id env) (sv_id server) (sv_upstream_url server) auth (pb_mono env) = (r1, s1)"
    by fastforce
  have "s' = s1" using assms h by (auto simp: probe_initialize_def split: sum.splits probe_handshake_error.splits)
  then show ?thesis using get_or_handshake_within_extends [OF h] by (auto simp: probe_bodies_def)
qed

lemma discover_headers_own: "(''Authorization'', v) \<in> set (discover_headers auth) \<Longrightarrow> auth = Some v"
  by (auto simp: discover_headers_def MCP_METHOD_HEADER_def dest: auth_headers_own)

lemma probe_server_extends:
  assumes "probe_server env s server = (r, s')" and "resolve_upstream_credential (pb_secrets env) (pb_issuer env) server = Inr auth"
  shows "extends_with (sends_to (sv_upstream_url server) auth (probe_bodies env)) s s'"
proof -
  obtain r1 s1 where p: "bounded_post (pb_net env) s (sv_upstream_url server) discover_body (discover_headers auth) PROBE_MAX_RESPONSE_BYTES True = (r1, s1)"
    by fastforce
  have e: "extends_with (sends_to (sv_upstream_url server) auth (probe_bodies env)) s s1"
    by (rule bounded_post_extends [OF p discover_headers_own]) (auto simp: probe_bodies_def)
  obtain r2 s2 where i: "probe_initialize env s1 server auth = (r2, s2)" by fastforce
  have "s' = s1 \<or> s' = s2"
    using assms p i by (auto simp: probe_server_def split: sum.splits post_error.splits discover_outcome.splits)
  then show ?thesis using e probe_initialize_extends [OF i] extends_with_trans by blast
qed

lemma probe_server_unresolved:
  "resolve_upstream_credential (pb_secrets env) (pb_issuer env) server = Inl e \<Longrightarrow> snd (probe_server env s server) = s"
  by (cases e) (simp_all add: probe_server_def)

text \<open>The two requests of the negative probes.\<close>

definition tokenless_request :: "server_record \<Rightarrow> http_request" where
  "tokenless_request server = \<lparr>hq_method = ''POST'', hq_url = sv_upstream_url server, hq_headers = ping_headers,
     hq_body = JsonPayload (ping_body ''acropolis-auth-check'')\<rparr>"

definition wrong_audience_request :: "server_record \<Rightarrow> string \<Rightarrow> http_request" where
  "wrong_audience_request server token = \<lparr>hq_method = ''POST'', hq_url = sv_upstream_url server,
     hq_headers = ping_headers @ [(''Authorization'', ''Bearer '' @ token)], hq_body = JsonPayload (ping_body ''acropolis-audience-check'')\<rparr>"

definition refused_or_unclear :: "http_answer \<Rightarrow> bool" where
  "refused_or_unclear a = (case a of HttpAnswer status _ _ \<Rightarrow> status \<in> set REFUSED \<or> status \<in> set GATEWAY_TRANSIENT | _ \<Rightarrow> True)"

definition refused :: "http_answer \<Rightarrow> bool" where
  "refused a = (case a of HttpAnswer status _ _ \<Rightarrow> status \<in> set REFUSED | _ \<Rightarrow> False)"

lemma enforcement_status_cases:
  assumes "enforcement_status net s server headers body = (r, s')"
  defines "q \<equiv> \<lparr>hq_method = ''POST'', hq_url = sv_upstream_url server, hq_headers = headers, hq_body = JsonPayload body\<rparr>"
  shows "up_history s' = up_history s @ [q]"
    and "r = None \<Longrightarrow> refused_or_unclear (net (up_history s @ [q])) \<and> \<not> refused (net (up_history s @ [q]))"
    and "r = Some status \<Longrightarrow> (status \<in> set REFUSED) = refused (net (up_history s @ [q]))
      \<and> (status \<in> set REFUSED) = refused_or_unclear (net (up_history s @ [q]))"
  using assms by (auto simp: enforcement_status_def status_only_post_def send_def Let_def refused_or_unclear_def refused_def
      REFUSED_def GATEWAY_TRANSIENT_def split: http_answer.splits if_splits)

lemma check_auth_requests:
  assumes "check_auth_enforced env s server = (r, s')"
  defines "h1 \<equiv> up_history s @ [tokenless_request server]"
  shows "\<exists>rest. up_history s' = h1 @ rest \<and> (rest = [] \<or> (\<exists>token. pb_mint_uncached env (probe_audience env) = Some token \<and> rest = [wrong_audience_request server token]))"
    and "r = None \<Longrightarrow> refused_or_unclear (pb_net env h1) \<and>
      (refused (pb_net env h1) \<and> pb_issuer env \<noteq> None \<and> pb_mint_uncached env (probe_audience env) = Some token \<longrightarrow>
        up_history s' = h1 @ [wrong_audience_request server token] \<and> refused_or_unclear (pb_net env (h1 @ [wrong_audience_request server token])))"
proof -
  obtain r1 s1 where e1: "enforcement_status (pb_net env) s server ping_headers (ping_body ''acropolis-auth-check'') = (r1, s1)" by fastforce
  note c1 = enforcement_status_cases [OF e1, folded tokenless_request_def, folded h1_def]
  have step2: "up_history s2 = h1 @ [wrong_audience_request server token]
      \<and> (r2 = None \<longrightarrow> refused_or_unclear (pb_net env (h1 @ [wrong_audience_request server token])))
      \<and> (\<forall>status. r2 = Some status \<longrightarrow> status \<in> set REFUSED \<longrightarrow> refused_or_unclear (pb_net env (h1 @ [wrong_audience_request server token])))"
    if "enforcement_status (pb_net env) s1 server (ping_headers @ [(''Authorization'', ''Bearer '' @ token)]) (ping_body ''acropolis-audience-check'') = (r2, s2)"
    for r2 s2 token
    using enforcement_status_cases [OF that, folded wrong_audience_request_def] c1(1) by auto
  note second = step2 [simplified]
  show "\<exists>rest. up_history s' = h1 @ rest \<and> (rest = [] \<or> (\<exists>token. pb_mint_uncached env (probe_audience env) = Some token \<and> rest = [wrong_audience_request server token]))"
    using assms(1) e1 c1(1) by (auto simp: check_auth_enforced_def split: option.splits if_splits prod.splits dest!: second)
  show "refused_or_unclear (pb_net env h1) \<and>
      (refused (pb_net env h1) \<and> pb_issuer env \<noteq> None \<and> pb_mint_uncached env (probe_audience env) = Some token \<longrightarrow>
        up_history s' = h1 @ [wrong_audience_request server token] \<and> refused_or_unclear (pb_net env (h1 @ [wrong_audience_request server token])))" if "r = None"
    using assms(1) e1 c1(2,3) that
    by (auto simp: check_auth_enforced_def split: option.splits if_splits prod.splits dest!: second)
qed

subsection \<open>What is stored\<close>

lemma bounded_probe_history:
  assumes "bounded_probe env s server = (r, s')"
  shows "\<exists>qs. up_history s' = up_history s @ qs \<and> prefix qs (sent_since s (snd (probe_server env s server)))"
proof -
  obtain r1 s1 where p: "probe_server env s server = (r1, s1)" by fastforce
  have "\<exists>qs. up_history s1 = up_history s @ qs"
  proof (cases "resolve_upstream_credential (pb_secrets env) (pb_issuer env) server")
    case (Inl e)
    then show ?thesis using probe_server_unresolved [OF Inl, of s] p by simp
  next
    case (Inr auth)
    then show ?thesis using probe_server_extends [OF p Inr] by (auto simp: extends_with_def)
  qed
  then obtain qs where qs: "up_history s1 = up_history s @ qs" by blast
  show ?thesis
    using assms p qs by (cases "pb_cut env server") (auto simp: bounded_probe_def sent_since_def take_is_prefix)
qed

lemma set_health_cases:
  assumes "List.find (\<lambda>s. sv_slug s = slug) servers = Some current"
  shows "set_health (servers, rows) slug status protocol dj reason now =
    (case protocol of
       JNull \<Rightarrow> Some (map (\<lambda>s. if sv_id s = sv_id current then s\<lparr>sv_discover_json := (if dj = None then sv_discover_json s else dj)\<rparr> else s) servers,
         AList.update (sv_id current) \<lparr>hh_status = status, hh_reason = reason, hh_last_seen = Some now\<rparr> rows)
     | JStr v \<Rightarrow> Some (map (\<lambda>s. if sv_id s = sv_id current then s\<lparr>sv_upstream_protocol := Some v,
           sv_discover_json := (if dj = None then sv_discover_json s else dj)\<rparr> else s) servers,
         AList.update (sv_id current) \<lparr>hh_status = status, hh_reason = reason, hh_last_seen = Some now\<rparr> rows)
     | _ \<Rightarrow> None)"
  by (auto simp: set_health_def assms Let_def split: json.splits intro!: map_cong)

lemma set_health_keeps:
  assumes "set_health (servers, rows) slug status protocol dj reason now = Some (servers', rows')"
  shows "map sv_id servers' = map sv_id servers" "map sv_slug servers' = map sv_slug servers"
    "\<exists>current. List.find (\<lambda>s. sv_slug s = slug) servers = Some current
      \<and> rows' = AList.update (sv_id current) \<lparr>hh_status = status, hh_reason = reason, hh_last_seen = Some now\<rparr> rows"
  using assms by (auto simp: set_health_def Let_def comp_def if_distrib split: option.splits json.splits cong: if_cong)

lemma health_of_update [simp]: "health_of (AList.update i r rows) j = (if j = i then r else health_of rows j)"
  by (simp add: health_of_def update_conv)

lemma find_slug:
  assumes "distinct (map sv_slug servers)" and "s \<in> set servers"
  shows "List.find (\<lambda>x. sv_slug x = sv_slug s) servers = Some s"
  using assms by (induction servers) (auto simp: image_iff)

text \<open>The row a probe leaves, given what it was before.\<close>

definition storable :: "json \<Rightarrow> bool" where
  "storable p \<longleftrightarrow> (case p of JNull \<Rightarrow> True | JStr _ \<Rightarrow> True | _ \<Rightarrow> False)"

definition row_after :: "probe_env \<Rightarrow> upstream_state \<Rightarrow> server_record \<Rightarrow> health_row \<Rightarrow> health_row" where
  "row_after env u server old =
     (case fst (enforced_probe env u server) of
        Some r \<Rightarrow> if storable (pr_protocol r) then \<lparr>hh_status = pr_status r, hh_reason = pr_reason r, hh_last_seen = Some (pb_utcnow env)\<rparr> else old
      | None \<Rightarrow> old)"

lemma probe_and_store_row:
  assumes "probe_and_store env st server before = (ok, st')"
    and "List.find (\<lambda>s. sv_slug s = sv_slug server) (he_servers st) = Some current"
  shows "health_of (he_rows st') j = (if j = sv_id current then row_after env (he_upstream st) server (health_of (he_rows st) j) else health_of (he_rows st) j)"
proof -
  obtain r u where p: "enforced_probe env (he_upstream st) server = (r, u)" by fastforce
  show ?thesis
  proof (cases r)
    case None
    then show ?thesis using assms(1) p by (auto simp: probe_and_store_def row_after_def)
  next
    case (Some x)
    then show ?thesis
      using assms(1) p by (auto simp: probe_and_store_def row_after_def set_health_cases [OF assms(2)] storable_def split: json.splits)
  qed
qed

lemma probe_and_store_tables:
  assumes "probe_and_store env st server before = (ok, st')"
  shows "map sv_id (he_servers st') = map sv_id (he_servers st)" "map sv_slug (he_servers st') = map sv_slug (he_servers st)"
proof -
  obtain r u where p: "enforced_probe env (he_upstream st) server = (r, u)" by fastforce
  have "map sv_id (he_servers st') = map sv_id (he_servers st) \<and> map sv_slug (he_servers st') = map sv_slug (he_servers st)"
    using assms p by (auto simp: probe_and_store_def split: option.splits dest: set_health_keeps)
  then show "map sv_id (he_servers st') = map sv_id (he_servers st)" "map sv_slug (he_servers st') = map sv_slug (he_servers st)" by auto
qed

subsection \<open>Properties\<close>

text \<open>A probe never goes out without the server's credential: when the credential of a server cannot be resolved, probing it sends
  nothing at all and marks it unhealthy; otherwise every request goes to the server's own address with that credential, or
  is one of the two requests of the enforcement check, which carry no credential and a token no server should accept.\<close>

theorem probe_contained:
  assumes "probe_and_store env st server before = (ok, st')"
    and "List.find (\<lambda>s. sv_slug s = sv_slug server) (he_servers st) = Some server"
  shows "case resolve_upstream_credential (pb_secrets env) (pb_issuer env) server of
      Inl (UpstreamCredentialError reason kind) \<Rightarrow> ok \<and> up_history (he_upstream st') = up_history (he_upstream st)
        \<and> hh_status (health_of (he_rows st') (sv_id server)) = ''unhealthy''
    | Inl CredentialUncaught \<Rightarrow> up_history (he_upstream st') = up_history (he_upstream st)
    | Inr auth \<Rightarrow> extends_with (\<lambda>q. to_server (sv_upstream_url server) auth q \<or> (sv_credential_mode server = ''token'' \<and> (q = tokenless_request server \<or>
        (\<exists>token. pb_mint_uncached env (probe_audience env) = Some token \<and> q = wrong_audience_request server token)))) (he_upstream st) (he_upstream st')"
proof -
  let ?u = "he_upstream st"
  obtain r u where p: "enforced_probe env ?u server = (r, u)" by fastforce
  have st: "he_upstream st' = u" using assms(1) p by (auto simp: probe_and_store_def split: option.splits)
  obtain r1 s1 where b: "bounded_probe env ?u server = (r1, s1)" by fastforce
  obtain qs where qs: "up_history s1 = up_history ?u @ qs" "prefix qs (sent_since ?u (snd (probe_server env ?u server)))"
    using bounded_probe_history [OF b] by blast
  show ?thesis
  proof (cases "resolve_upstream_credential (pb_secrets env) (pb_issuer env) server")
    case (Inl e)
    have none: "up_history s1 = up_history ?u" using qs probe_server_unresolved [OF Inl, of ?u] by (simp add: sent_since_def)
    have "r1 = None \<or> (\<exists>x. r1 = Some (unhealthy x))"
      using b Inl by (cases e) (auto simp: bounded_probe_def probe_server_def split: option.splits)
    then have u: "u = s1" "r = r1" using p b by (auto simp: enforced_probe_def unhealthy_def)
    show ?thesis
    proof (cases e)
      case (UpstreamCredentialError reason kind)
      then obtain x where x: "r1 = Some (unhealthy x)"
        using b Inl by (auto simp: bounded_probe_def probe_server_def split: option.splits)
      have ok: "ok" using assms(1) p u x by (auto simp: probe_and_store_def set_health_cases [OF assms(2)] unhealthy_def)
      have "hh_status (health_of (he_rows st') (sv_id server)) = ''unhealthy''"
        using probe_and_store_row [OF assms, of "sv_id server"] p u x by (simp add: row_after_def storable_def unhealthy_def)
      then show ?thesis using Inl UpstreamCredentialError ok st u none by simp
    qed (use Inl st u none in simp)
  next
    case (Inr auth)
    let ?P = "\<lambda>q. to_server (sv_upstream_url server) auth q \<or> (sv_credential_mode server = ''token'' \<and> (q = tokenless_request server \<or>
        (\<exists>token. pb_mint_uncached env (probe_audience env) = Some token \<and> q = wrong_audience_request server token)))"
    have "extends_with (sends_to (sv_upstream_url server) auth (probe_bodies env)) ?u (snd (probe_server env ?u server))"
      by (rule probe_server_extends [OF prod.collapse [symmetric] Inr])
    then have "list_all ?P qs"
      using qs(2) by (fastforce simp: extends_with_def sent_since_def list_all_iff sends_to_def dest: set_mono_prefix)
    then have e1: "extends_with ?P ?u s1" using qs(1) by (auto simp: extends_with_def)
    have "extends_with ?P s1 u"
    proof (cases "\<exists>x. r1 = Some x \<and> pr_status x = ''healthy'' \<and> sv_credential_mode server = ''token''")
      case True
      then obtain c where c: "check_auth_enforced env s1 server = (c, u)"
        using p b by (auto simp: enforced_probe_def split: prod.splits option.splits)
      show ?thesis using check_auth_requests(1) [OF c] True by (auto simp: extends_with_def)
    next
      case False
      then have "u = s1" using p b by (auto simp: enforced_probe_def split: option.splits if_splits)
      then show ?thesis by simp
    qed
    then show ?thesis using Inr st e1 extends_with_trans by auto
  qed
qed

lemma find_by_columns:
  assumes "distinct (map sv_slug servers)" and "x \<in> set servers" and "map sv_id other = map sv_id servers" and "map sv_slug other = map sv_slug servers"
  shows "\<exists>current. List.find (\<lambda>a. sv_slug a = sv_slug x) other = Some current \<and> sv_id current = sv_id x"
  using assms
proof (induction servers arbitrary: other)
  case (Cons a servers)
  then obtain b other' where o: "other = b # other'" "sv_id b = sv_id a" "sv_slug b = sv_slug a" by (cases other) auto
  then show ?case using Cons by (cases "x = a") (auto simp: image_iff)
qed simp

text \<open>C26. A server in token mode is reported healthy only if it was asked without any credential and did not let that request in: its answer
  was 401 or 403, or nothing that says anything about authentication; and, where a token for another audience could be
  minted, the same holds of a request with that token.\<close>

theorem healthy_token_server_refuses:
  assumes "probe_and_store env st server before = (True, st')"
    and "List.find (\<lambda>s. sv_slug s = sv_slug server) (he_servers st) = Some server"
    and "sv_credential_mode server = ''token''" and "hh_status (health_of (he_rows st') (sv_id server)) = ''healthy''"
  shows "\<exists>h rest. up_history (he_upstream st') = h @ tokenless_request server # rest \<and> length (up_history (he_upstream st)) \<le> length h
    \<and> refused_or_unclear (pb_net env (h @ [tokenless_request server]))
    \<and> (\<forall>token. refused (pb_net env (h @ [tokenless_request server])) \<and> pb_issuer env \<noteq> None \<and> pb_mint_uncached env (probe_audience env) = Some token \<longrightarrow>
         rest = [wrong_audience_request server token]
         \<and> refused_or_unclear (pb_net env (h @ [tokenless_request server, wrong_audience_request server token])))"
proof -
  let ?u = "he_upstream st"
  obtain r u where p: "enforced_probe env ?u server = (r, u)" by fastforce
  have st: "he_upstream st' = u" using assms(1) p by (auto simp: probe_and_store_def split: option.splits)
  have "\<exists>x. r = Some x \<and> pr_status x = ''healthy''"
    using assms(1) p probe_and_store_row [OF assms(1,2), of "sv_id server"] assms(4)
    by (auto simp: probe_and_store_def row_after_def set_health_cases [OF assms(2)] storable_def split: option.splits json.splits if_splits)
  then obtain x where x: "r = Some x" "pr_status x = ''healthy''" by blast
  obtain r1 s1 where b: "bounded_probe env ?u server = (r1, s1)" by fastforce
  obtain y where y: "r1 = Some y" using p b x by (auto simp: enforced_probe_def split: option.splits)
  obtain c v where c: "check_auth_enforced env s1 server = (c, v)" by fastforce
  have "c = None \<and> v = u" using p b x y c assms(3) by (auto simp: enforced_probe_def split: option.splits if_splits)
  then have c: "check_auth_enforced env s1 server = (None, u)" using c by simp
  have "\<exists>qs. up_history s1 = up_history ?u @ qs" using bounded_probe_history [OF b] by blast
  moreover obtain rest where rest: "up_history u = up_history s1 @ tokenless_request server # rest" using check_auth_requests(1) [OF c] by auto
  ultimately show ?thesis
    using st check_auth_requests(2) [OF c] by (intro exI [of _ "up_history s1"] exI [of _ rest]) auto
qed

lemma poll_servers_rows:
  assumes "distinct (map sv_slug servers)" and "distinct (map sv_id servers)" and "s \<in> set servers"
    and "distinct (map fst todo)" and "fst ` set todo \<subseteq> set servers" and "map sv_id (he_servers t) = map sv_id servers"
    and "map sv_slug (he_servers t) = map sv_slug servers"
  shows "map sv_id (he_servers (poll_servers env todo t)) = map sv_id (he_servers t) \<and> map sv_slug (he_servers (poll_servers env todo t)) = map sv_slug (he_servers t)
    \<and> (if s \<in> fst ` set todo then \<exists>u. health_of (he_rows (poll_servers env todo t)) (sv_id s) = row_after env u s (health_of (he_rows t) (sv_id s))
       else health_of (he_rows (poll_servers env todo t)) (sv_id s) = health_of (he_rows t) (sv_id s))"
  using assms(4-7)
proof (induction todo arbitrary: t)
  case Nil
  then show ?case by (simp add: poll_servers_def)
next
  case (Cons e todo)
  obtain x before where e: "e = (x, before)" by fastforce
  obtain ok t1 where t1: "probe_and_store env t x before = (ok, t1)" by fastforce
  have x: "x \<in> set servers" using Cons.prems(2) e by auto
  obtain current where cur: "List.find (\<lambda>a. sv_slug a = sv_slug x) (he_servers t) = Some current" "sv_id current = sv_id x"
    using find_by_columns [OF assms(1) x Cons.prems(3,4)] by blast
  note row = probe_and_store_row [OF t1 cur(1), of "sv_id s", unfolded cur(2)]
  note tab = probe_and_store_tables [OF t1]
  have run: "poll_servers env (e # todo) t = poll_servers env todo t1" by (simp add: poll_servers_def e t1)
  have same: "sv_id s = sv_id x \<longleftrightarrow> s = x" using assms(2,3) x by (metis distinct_map inj_on_def)
  have ih: "map sv_id (he_servers (poll_servers env todo t1)) = map sv_id (he_servers t1) \<and> map sv_slug (he_servers (poll_servers env todo t1)) = map sv_slug (he_servers t1)
    \<and> (if s \<in> fst ` set todo then \<exists>u. health_of (he_rows (poll_servers env todo t1)) (sv_id s) = row_after env u s (health_of (he_rows t1) (sv_id s))
       else health_of (he_rows (poll_servers env todo t1)) (sv_id s) = health_of (he_rows t1) (sv_id s))"
    by (rule Cons.IH) (use Cons.prems tab in auto)
  show ?case
  proof (cases "s = x")
    case True
    then have "s \<notin> fst ` set todo" "s \<in> fst ` set (e # todo)" using Cons.prems(1) e by auto
    then show ?thesis unfolding run using ih tab row True by auto
  next
    case False
    then have "s \<in> fst ` set (e # todo) \<longleftrightarrow> s \<in> fst ` set todo" using e by auto
    moreover have "health_of (he_rows t1) (sv_id s) = health_of (he_rows t) (sv_id s)" using row same False by simp
    ultimately show ?thesis using ih unfolding run by (elim conjE, intro conjI) (simp_all only: tab)
  qed
qed

text \<open>A poll gives every enabled server its own verdict: whatever the other servers answer, and even if the probe of one of them raises,
  the row of each is the one its own probe leaves, the rows of disabled servers do not change, and neither do the ids
  and slugs of the servers.\<close>

theorem poll_isolates_servers:
  assumes "distinct (map sv_slug (he_servers st))" and "distinct (map sv_id (he_servers st))" and "s \<in> set (he_servers st)"
  shows "map sv_id (he_servers (poll_once env st)) = map sv_id (he_servers st) \<and> map sv_slug (he_servers (poll_once env st)) = map sv_slug (he_servers st)
    \<and> (if sv_enabled s then \<exists>u. health_of (he_rows (poll_once env st)) (sv_id s) = row_after env u s (health_of (he_rows st) (sv_id s))
       else health_of (he_rows (poll_once env st)) (sv_id s) = health_of (he_rows st) (sv_id s))"
proof -
  let ?todo = "map (\<lambda>s. (s, hh_status (health_of (he_rows st) (sv_id s)))) (filter sv_enabled (he_servers st))"
  have "distinct (map fst ?todo)" "fst ` set ?todo \<subseteq> set (he_servers st)" "s \<in> fst ` set ?todo \<longleftrightarrow> sv_enabled s"
    using assms(2,3) by (auto simp: comp_def distinct_map image_iff intro: distinct_filter)
  then show ?thesis using poll_servers_rows [OF assms, of ?todo st env] by (simp add: poll_once_def)
qed

text \<open>An unhealthy event is sent on the edge only: a poll of one server that returns notifies exactly when the stored status was not unhealthy
  before and is unhealthy after, so an outage is announced once however long it lasts.\<close>

theorem unhealthy_announced_once:
  assumes "poll_one env st slug = (True, st')" and "List.find (\<lambda>s. sv_slug s = slug) (he_servers st) = Some server" and "sv_enabled server"
  shows "he_hooks st' = (if hh_status (health_of (he_rows st) (sv_id server)) \<noteq> ''unhealthy'' \<and> hh_status (health_of (he_rows st') (sv_id server)) = ''unhealthy''
    then map_option (\<lambda>w. notify_unhealthy w slug (pb_mono env) (pb_utcnow env)) (he_hooks st) else he_hooks st)"
proof -
  have slug: "sv_slug server = slug" using assms(2) by (auto simp: find_Some_iff)
  let ?b = "hh_status (health_of (he_rows st) (sv_id server))"
  have p: "probe_and_store env st server ?b = (True, st')" using assms by (simp add: poll_one_def)
  obtain r u where e: "enforced_probe env (he_upstream st) server = (r, u)" by fastforce
  have f: "List.find (\<lambda>s. sv_slug s = sv_slug server) (he_servers st) = Some server" using assms(2) slug by simp
  obtain x where x: "r = Some x" "storable (pr_protocol x)"
    using p e by (auto simp: probe_and_store_def set_health_cases [OF f] storable_def split: option.splits json.splits)
  have "hh_status (health_of (he_rows st') (sv_id server)) = pr_status x"
    using probe_and_store_row [OF p f, of "sv_id server"] e x by (simp add: row_after_def)
  then show ?thesis
    using p e x slug by (auto simp: probe_and_store_def set_health_cases [OF f] split: option.splits json.splits)
qed

text \<open>An answer of an unexpected shape keeps a server's last verdict alive: if the upstream answers the discovery request with a \<open>200\<close> whose JSON
  has an error that is not an object, the probe raises, nothing is stored, and a server that was healthy stays healthy however
  long it answers so.\<close>

theorem malformed_error_keeps_health:
  assumes "resolve_upstream_credential (pb_secrets env) (pb_issuer env) server = Inr auth" and "pb_cut env server = None"
    and "fst (bounded_post (pb_net env) (he_upstream st) (sv_upstream_url server) discover_body (discover_headers auth) PROBE_MAX_RESPONSE_BYTES True) = Inr (200, [], text)"
    and "pb_loads env text = Some (JObj [(''error'', JStr message)])" and "message \<noteq> []" and "text \<noteq> []"
  shows "\<exists>st'. probe_and_store env st server before = (False, st') \<and> he_rows st' = he_rows st \<and> he_hooks st' = he_hooks st"
proof -
  obtain s1 where p: "bounded_post (pb_net env) (he_upstream st) (sv_upstream_url server) discover_body (discover_headers auth) PROBE_MAX_RESPONSE_BYTES True
      = (Inr (200, [], text), s1)" using assms(3) by (metis prod.collapse)
  have "discover_answer (pb_loads env) (200, [], text) = DiscoverRaised"
    using assms(4,5,6) by (simp add: discover_answer_def parse_answer_def header_or_def answer_header_def has_substring_iff read_discover_def obj_get_def)
  then have "probe_server env (he_upstream st) server = (None, s1)" using assms(1) p by (simp add: probe_server_def)
  then show ?thesis using assms(2) by (simp add: probe_and_store_def enforced_probe_def bounded_probe_def)
qed

subsection \<open>Witnesses\<close>

text \<open>A token-mode server that answers the discovery and refuses both pings; \<open>sloppy\<close> answers any ping.\<close>

definition sample_token_server :: server_record where
  "sample_token_server = \<lparr>sv_id = 1, sv_slug = ''git'', sv_name = ''Git'', sv_upstream_url = ''http://git'', sv_enabled = True, sv_in_aggregate = True,
     sv_upstream_protocol = None, sv_discover_json = None, sv_upstream_auth_header = None, sv_credential_mode = ''token'', sv_project_id = Some 1\<rparr>"

definition sample_probe_env :: "nat \<Rightarrow> (string \<Rightarrow> string option) option \<Rightarrow> json \<Rightarrow> probe_env" where
  "sample_probe_env ping_status issuer parsed = \<lparr>pb_net = (\<lambda>h. if hq_body (last h) = JsonPayload discover_body then HttpAnswer 200 [] ''answer'' else HttpAnswer ping_status [] ''''),
     pb_loads = (\<lambda>_. Some parsed), pb_dumps = (\<lambda>_. ''{}''), pb_hs_id = ''1'', pb_mono = 0, pb_utcnow = ''now'', pb_secrets = Inr, pb_issuer = issuer,
     pb_mint_uncached = (\<lambda>a. Some ''probe''), pb_token_hex = ''00'', pb_cut = (\<lambda>_. None)\<rparr>"

definition sample_health :: "(int \<times> health_row) list \<Rightarrow> health_state" where
  "sample_health rows = \<lparr>he_servers = [sample_token_server], he_rows = rows, he_upstream = \<lparr>up_history = [], up_cache = [], up_cached_at = []\<rparr>, he_hooks = None\<rparr>"

definition good_answer :: json where "good_answer = JObj [(''result'', JObj [(''name'', JStr ''git'')])]"

theorem probe_contained_witness:
  "\<exists>st'. probe_and_store (sample_probe_env 401 None good_answer) (sample_health []) sample_token_server ''unknown'' = (True, st')
     \<and> up_history (he_upstream st') = [] \<and> hh_status (health_of (he_rows st') 1) = ''unhealthy''"
proof -
  let ?r = "probe_and_store (sample_probe_env 401 None good_answer) (sample_health []) sample_token_server ''unknown''"
  obtain ok st' where r: "?r = (ok, st')" by fastforce
  have f: "List.find (\<lambda>s. sv_slug s = sv_slug sample_token_server) (he_servers (sample_health [])) = Some sample_token_server"
    by (simp add: sample_health_def)
  have c: "resolve_upstream_credential (pb_secrets (sample_probe_env 401 None good_answer)) (pb_issuer (sample_probe_env 401 None good_answer)) sample_token_server
      = Inl (UpstreamCredentialError ''token signing is not configured (ACROPOLIS_TOKEN_SIGNING_KEY_REF)'' TOKEN_NOT_CONFIGURED)" by code_simp
  have "up_history (he_upstream (sample_health [])) = []" "sv_id sample_token_server = 1" by (simp_all add: sample_health_def sample_token_server_def)
  then show ?thesis using probe_contained [OF r f] r unfolding c by simp
qed

abbreviation enforcing_env :: probe_env where "enforcing_env \<equiv> sample_probe_env 401 (Some (\<lambda>_. Some ''jwt'')) good_answer"

theorem healthy_token_server_refuses_witness:
  "\<exists>st' h rest. probe_and_store enforcing_env (sample_health []) sample_token_server ''unknown'' = (True, st')
     \<and> up_history (he_upstream st') = h @ tokenless_request sample_token_server # rest"
proof -
  let ?r = "probe_and_store enforcing_env (sample_health []) sample_token_server ''unknown''"
  have v: "fst ?r \<and> hh_status (health_of (he_rows (snd ?r)) 1) = ''healthy''" by code_simp
  then obtain st' where r: "?r = (True, st')" by (cases ?r) auto
  have f: "List.find (\<lambda>s. sv_slug s = sv_slug sample_token_server) (he_servers (sample_health [])) = Some sample_token_server"
    by (simp add: sample_health_def)
  have "sv_credential_mode sample_token_server = ''token''" "hh_status (health_of (he_rows st') (sv_id sample_token_server)) = ''healthy''"
    using v r by (simp_all add: sample_token_server_def)
  from healthy_token_server_refuses [OF r f this] r show ?thesis by blast
qed

theorem poll_isolates_servers_witness:
  "map sv_id (he_servers (poll_once enforcing_env (sample_health []))) = [1]
   \<and> (\<exists>u. health_of (he_rows (poll_once enforcing_env (sample_health []))) 1 = row_after enforcing_env u sample_token_server unknown_health)"
proof -
  have "distinct (map sv_slug (he_servers (sample_health [])))" "distinct (map sv_id (he_servers (sample_health [])))"
    "sample_token_server \<in> set (he_servers (sample_health []))" by (simp_all add: sample_health_def)
  from poll_isolates_servers [OF this, of enforcing_env] show ?thesis
    by (simp add: sample_health_def sample_token_server_def health_of_def)
qed

theorem unhealthy_announced_once_witness:
  "\<exists>st'. poll_one (sample_probe_env 200 (Some (\<lambda>_. Some ''jwt'')) good_answer) (sample_health [(1, unknown_health\<lparr>hh_status := ''unhealthy''\<rparr>)]) ''git'' = (True, st')
     \<and> hh_status (health_of (he_rows st') 1) = ''unhealthy'' \<and> he_hooks st' = None"
proof -
  let ?st = "sample_health [(1, unknown_health\<lparr>hh_status := ''unhealthy''\<rparr>)]"
  let ?r = "poll_one (sample_probe_env 200 (Some (\<lambda>_. Some ''jwt'')) good_answer) ?st ''git''"
  have v: "fst ?r \<and> hh_status (health_of (he_rows (snd ?r)) 1) = ''unhealthy''" by code_simp
  then obtain st' where r: "?r = (True, st')" by (cases ?r) auto
  have f: "List.find (\<lambda>s. sv_slug s = ''git'') (he_servers ?st) = Some sample_token_server" "sv_enabled sample_token_server"
    by (simp_all add: sample_health_def sample_token_server_def)
  have "he_hooks ?st = None" "hh_status (health_of (he_rows ?st) (sv_id sample_token_server)) = ''unhealthy''"
    by (simp_all add: sample_health_def health_of_def sample_token_server_def)
  then show ?thesis using unhealthy_announced_once [OF r f] v r by simp
qed

theorem malformed_error_keeps_health_witness:
  "\<exists>st'. probe_and_store (sample_probe_env 401 (Some (\<lambda>_. Some ''jwt'')) (JObj [(''error'', JStr ''down'')]))
       (sample_health [(1, unknown_health\<lparr>hh_status := ''healthy''\<rparr>)]) sample_token_server ''healthy'' = (False, st')
     \<and> hh_status (health_of (he_rows st') 1) = ''healthy''"
proof -
  let ?env = "sample_probe_env 401 (Some (\<lambda>_. Some ''jwt'')) (JObj [(''error'', JStr ''down'')])"
  let ?st = "sample_health [(1, unknown_health\<lparr>hh_status := ''healthy''\<rparr>)]"
  have "resolve_upstream_credential (pb_secrets ?env) (pb_issuer ?env) sample_token_server = Inr (Some ''Bearer jwt'')" by code_simp
  moreover have "pb_cut ?env sample_token_server = None" by (simp add: sample_probe_env_def)
  moreover have "fst (bounded_post (pb_net ?env) (he_upstream ?st) (sv_upstream_url sample_token_server) discover_body (discover_headers (Some ''Bearer jwt''))
      PROBE_MAX_RESPONSE_BYTES True) = Inr (200, [], ''answer'')" by code_simp
  moreover have "pb_loads ?env ''answer'' = Some (JObj [(''error'', JStr ''down'')])" by (simp add: sample_probe_env_def)
  ultimately have "\<exists>st'. probe_and_store ?env ?st sample_token_server ''healthy'' = (False, st') \<and> he_rows st' = he_rows ?st \<and> he_hooks st' = he_hooks ?st"
    by (rule malformed_error_keeps_health) simp_all
  then show ?thesis by (auto simp: sample_health_def health_of_def)
qed

end
