(* ===== verification/Server_Routes.thy ===== *)
theory Server_Routes
  imports Project_Rbac Health
begin

text \<open>
  The routes of \<open>archon/api.py\<close> on servers and their policies, over the whole state of the control plane: the tables of \<open>Project_Rbac\<close>, the health
  columns, and what was sent to upstreams. A request body is given as its validator leaves it; a body the validators
  refuse is answered 422 with their messages, after the caller was let through. The columns \<open>created_at\<close> and \<open>updated_at\<close> are left out.
  Every optional part of the router is wired, as \<open>app.py\<close> does.
\<close>

subsection \<open>State\<close>

record 's console =
  co_world :: "'s world"
  co_health :: "(int \<times> health_row) list"
  co_upstream :: upstream_state

record 's console_env =
  cx_route :: "'s route_env"
  cx_probe :: probe_env
  cx_catalog :: catalog_env
  cx_catalog_cut :: "nat option"
  cx_probe_on_create :: bool
  cx_tier :: string
  cx_encrypt :: "string \<Rightarrow> string"

abbreviation cx_config :: "'s console_env \<Rightarrow> config_env" where
  "cx_config env \<equiv> ae_config (re_approval (cx_route env))"

definition co_db :: "'s console \<Rightarrow> config_db" where
  "co_db c = av_db (wo_approvals (co_world c))"

definition with_db :: "(config_db \<Rightarrow> config_db) \<Rightarrow> 's console \<Rightarrow> 's console" where
  "with_db f c = c\<lparr>co_world := (co_world c)\<lparr>wo_approvals := (wo_approvals (co_world c))\<lparr>av_db := f (co_db c)\<rparr>\<rparr>\<rparr>"

definition with_events :: "(admin_event list \<Rightarrow> admin_event list) \<Rightarrow> 's console \<Rightarrow> 's console" where
  "with_events f c = c\<lparr>co_world := (co_world c)\<lparr>wo_approvals := (wo_approvals (co_world c))\<lparr>av_events := f (av_events (wo_approvals (co_world c)))\<rparr>\<rparr>\<rparr>"

definition with_tools :: "(tool_row list \<Rightarrow> tool_row list) \<Rightarrow> 's console \<Rightarrow> 's console" where
  "with_tools f c = c\<lparr>co_world := (co_world c)\<lparr>wo_approvals := (wo_approvals (co_world c))\<lparr>av_tools := f (av_tools (wo_approvals (co_world c)))\<rparr>\<rparr>\<rparr>"

definition note_event ::
    "'s console_env \<Rightarrow> 's console \<Rightarrow> string \<Rightarrow> string \<Rightarrow> principal \<Rightarrow> string \<Rightarrow> string option \<Rightarrow> json option \<Rightarrow> json option \<Rightarrow> string option \<Rightarrow> 's console" where
  "note_event env c action summary who target_type target_id before after ip =
     with_events (\<lambda>es. record_event (re_dumps (cx_route env)) es action summary (Some (actor who)) (Some target_type) target_id before after ip) c"

text \<open>The poller works on its own view of the tables.\<close>

definition health_view :: "'s console \<Rightarrow> health_state" where
  "health_view c = \<lparr>he_servers = cd_servers (co_db c), he_rows = co_health c, he_upstream = co_upstream c, he_hooks = av_hooks (wo_approvals (co_world c))\<rparr>"

definition put_health :: "'s console \<Rightarrow> health_state \<Rightarrow> 's console" where
  "put_health c st = (with_db (\<lambda>d. d\<lparr>cd_servers := he_servers st\<rparr>) c)\<lparr>co_health := he_rows st, co_upstream := he_upstream st,
     co_world := (co_world (with_db (\<lambda>d. d\<lparr>cd_servers := he_servers st\<rparr>) c))\<lparr>wo_approvals :=
       (wo_approvals (co_world (with_db (\<lambda>d. d\<lparr>cd_servers := he_servers st\<rparr>) c)))\<lparr>av_hooks := he_hooks st\<rparr>\<rparr>\<rparr>"

definition poll_server :: "'s console_env \<Rightarrow> 's console \<Rightarrow> string \<Rightarrow> bool \<times> 's console" where
  "poll_server env c slug = (let (ok, st) = poll_one (cx_probe env) (health_view c) slug in (ok, put_health c st))"

subsection \<open>Answers\<close>

record server_response =
  rs_slug :: string
  rs_name :: string
  rs_upstream_url :: string
  rs_enabled :: bool
  rs_in_aggregate :: bool
  rs_upstream_protocol :: "string option"
  rs_health_status :: string
  rs_last_seen_at :: "string option"
  rs_has_upstream_auth_header :: bool
  rs_is_reference :: bool
  rs_health_reason :: "string option"
  rs_credential_mode :: string
  rs_project_id :: "int option"
  rs_project_slug :: "string option"

definition project_slug_map :: "'s world \<Rightarrow> int \<Rightarrow> string option" where
  "project_slug_map w i = map_option pj_slug (project_get_by_id w i)"

definition slug_of_project :: "'s world \<Rightarrow> int option \<Rightarrow> string option" where
  "slug_of_project w pid = (case pid of None \<Rightarrow> None | Some i \<Rightarrow> if i = 0 then None else project_slug_map w i)"

definition server_to_response :: "'s console \<Rightarrow> server_record \<Rightarrow> server_response" where
  "server_to_response c s = (let h = health_of (co_health c) (sv_id s) in
     \<lparr>rs_slug = sv_slug s, rs_name = sv_name s, rs_upstream_url = sv_upstream_url s, rs_enabled = sv_enabled s, rs_in_aggregate = sv_in_aggregate s,
      rs_upstream_protocol = sv_upstream_protocol s, rs_health_status = hh_status h, rs_last_seen_at = hh_last_seen h,
      rs_has_upstream_auth_header = (sv_upstream_auth_header s \<noteq> None),
      rs_is_reference = (case sv_upstream_auth_header s of None \<Rightarrow> False | Some v \<Rightarrow> is_reference v),
      rs_health_reason = hh_reason h, rs_credential_mode = sv_credential_mode s, rs_project_id = sv_project_id s,
      rs_project_slug = slug_of_project (co_world c) (sv_project_id s)\<rparr>)"

definition server_fields :: "server_record \<Rightarrow> json dict" where
  "server_fields s = filter_server_fields [(''slug'', JStr (sv_slug s)), (''name'', JStr (sv_name s)), (''upstream_url'', JStr (sv_upstream_url s)),
     (''enabled'', JBool (sv_enabled s)), (''in_aggregate'', JBool (sv_in_aggregate s))]"

definition not_found :: "string \<Rightarrow> http_exn" where
  "not_found what = HttpError 404 (what @ '' not found'')"

definition token_mode_refused :: http_exn where
  "token_mode_refused = HttpError 400 (''credential_mode='' @ quoted ''token'' @ '' requires a token signing key (set ACROPOLIS_TOKEN_SIGNING_KEY_REF)'')"

text \<open>\<open>store_upstream_auth_header\<close>: only the encrypting tier changes a literal.\<close>

definition store_upstream_auth_header :: "'s console_env \<Rightarrow> string option \<Rightarrow> string option" where
  "store_upstream_auth_header env v =
     (case v of None \<Rightarrow> None | Some x \<Rightarrow> if is_reference x then v else if cx_tier env = ''encrypted'' then Some (cx_encrypt env x) else v)"

subsection \<open>Listing and creating\<close>

definition list_servers :: "'s console_env \<Rightarrow> 's console \<Rightarrow> request_ctx \<Rightarrow> int option \<Rightarrow> http_exn + server_response list" where
  "list_servers env c rq project_id =
     rbind (with_role (cx_route env) (co_world c) ''viewer'' rq) (\<lambda>_.
       Inr (map (server_to_response c) (filter (\<lambda>s. project_id = None \<or> sv_project_id s = project_id) (cfg_list (cx_config env) (co_db c)))))"

record server_create_request =
  sc_slug :: string
  sc_name :: string
  sc_upstream_url :: string
  sc_enabled :: bool
  sc_in_aggregate :: bool
  sc_auth :: "string option"
  sc_mode :: string
  sc_project :: string

definition bad_mode :: "string \<Rightarrow> string list" where
  "bad_mode mode = (if mode \<in> set VALID_CREDENTIAL_MODES then []
     else [''credential_mode must be one of ['' @ str_join '', '' (map quoted (sort VALID_CREDENTIAL_MODES)) @ ''], got '' @ repr_str mode])"

definition url_errors :: "config_env \<Rightarrow> string \<Rightarrow> string list" where
  "url_errors env url = (case validate_upstream_url env url of Inl e \<Rightarrow> [e] | Inr _ \<Rightarrow> [])"

definition create_errors :: "config_env \<Rightarrow> server_create_request \<Rightarrow> string list" where
  "create_errors env b = (if slug_re_match (sc_slug b) then [] else [''slug must match [a-z0-9-]+: '' @ repr_str (sc_slug b)])
     @ url_errors env (sc_upstream_url b) @ bad_mode (sc_mode b)"

definition unprocessable :: "string list \<Rightarrow> http_exn" where
  "unprocessable es = HttpError 422 (str_join ''; '' es)"

definition resolve_project_id :: "'s world \<Rightarrow> string \<Rightarrow> http_exn + int" where
  "resolve_project_id w slug =
     (case project_get w slug of None \<Rightarrow> Inl (HttpError 404 (''project '' @ quoted slug @ '' not found'')) | Some p \<Rightarrow> Inr (pj_id p))"

text \<open>A project named in the body: the role is checked in the handler.\<close>

definition body_project_role :: "'s console_env \<Rightarrow> 's console \<Rightarrow> principal \<Rightarrow> string \<Rightarrow> http_exn + int" where
  "body_project_role env c who slug =
     rbind (resolve_project_id (co_world c) slug) (\<lambda>pid.
       if project_role_at_least (resolve_project_role who pid (wo_members (co_world c))) ''admin'' then Inr pid
       else Inl (HttpError 403 ''insufficient project role''))"

definition caller :: "'s console_env \<Rightarrow> 's console \<Rightarrow> request_ctx \<Rightarrow> http_exn + principal" where
  "caller env c rq = require_admin (re_control (cx_route env)) (control_of (co_world c)) (rq_authorization rq) (rq_cookie rq)"

definition server_slug_role :: "'s console_env \<Rightarrow> 's console \<Rightarrow> string \<Rightarrow> request_ctx \<Rightarrow> string \<Rightarrow> http_exn + principal" where
  "server_slug_role env c minimum rq slug =
     map_sum id fst (with_project_role (cx_route env) (co_world c) minimum (ByServer ''slug'') (rq\<lparr>rq_params := [(''slug'', slug)]\<rparr>))"

definition server_events :: "'s console_env \<Rightarrow> principal \<Rightarrow> request_ctx \<Rightarrow> string \<Rightarrow> string option \<Rightarrow> string option \<Rightarrow> 's console \<Rightarrow> 's console" where
  "server_events env who rq slug before after =
     with_events (\<lambda>es. record_secret_reference_change (re_dumps (cx_route env)) is_reference es slug before after (Some (actor who)) (rq_ip rq))"

definition created_server :: "'s console_env \<Rightarrow> 's console \<Rightarrow> server_create_request \<Rightarrow> int \<Rightarrow> http_exn + server_record \<times> config_db" where
  "created_server env c b pid =
     (if cfg_get (co_db c) (sc_slug b) \<noteq> None then Inl (HttpError 409 (''server slug '' @ quoted (sc_slug b) @ '' already exists''))
      else case cfg_create (co_db c) (sc_slug b) (sc_name b) (sc_upstream_url b) (sc_enabled b) (sc_in_aggregate b)
             (store_upstream_auth_header env (sc_auth b)) (sc_mode b) (Some pid) of
          None \<Rightarrow> Inl ServerError | Some r \<Rightarrow> Inr r)"

definition create_server :: "'s console_env \<Rightarrow> 's console \<Rightarrow> request_ctx \<Rightarrow> server_create_request \<Rightarrow> (http_exn + server_response) \<times> 's console" where
  "create_server env c rq b =
     (case rbind (caller env c rq) (\<lambda>who.
        if create_errors (cx_config env) b \<noteq> [] then Inl (unprocessable (create_errors (cx_config env) b))
        else rbind (body_project_role env c who (sc_project b)) (\<lambda>pid.
          if sc_mode b = ''token'' \<and> pb_issuer (cx_probe env) = None then Inl token_mode_refused
          else rbind (created_server env c b pid) (\<lambda>(server, d). Inr (who, server, d)))) of
        Inl e \<Rightarrow> (Inl e, c)
      | Inr (who, server, d) \<Rightarrow>
          (let c1 = with_db (\<lambda>_. d) c;
               c2 = note_event env c1 ''server.create'' (''created server '' @ quoted (sc_slug b)) who ''server'' (Some (sc_slug b)) None
                 (Some (JObj (server_fields server))) (rq_ip rq);
               c3 = server_events env who rq (sc_slug b) None (sv_upstream_auth_header server) c2;
               c4 = (if cx_probe_on_create env then snd (poll_server env c3 (sc_slug b)) else c3) in
           (case cfg_get (co_db c4) (sc_slug b) of None \<Rightarrow> Inl ServerError | Some s \<Rightarrow> Inr (server_to_response c4 s), c4)))"

subsection \<open>One server\<close>

definition get_server :: "'s console_env \<Rightarrow> 's console \<Rightarrow> request_ctx \<Rightarrow> string \<Rightarrow> http_exn + server_response" where
  "get_server env c rq slug =
     rbind (server_slug_role env c ''viewer'' rq slug) (\<lambda>_.
       case cfg_get (co_db c) slug of None \<Rightarrow> Inl (not_found ''server'') | Some s \<Rightarrow> Inr (server_to_response c s))"

text \<open>The catalogue refresh of a manual probe, cut off by its own deadline when \<open>cx_catalog_cut\<close> says so. \<open>None\<close>: an exception.\<close>

definition refresh_catalog :: "'s console_env \<Rightarrow> 's console \<Rightarrow> server_record \<Rightarrow> 's console option" where
  "refresh_catalog env c server =
     (case resolve_upstream_credential (pb_secrets (cx_probe env)) (pb_issuer (cx_probe env)) server of
        Inl CredentialUncaught \<Rightarrow> None
      | Inl (UpstreamCredentialError _ _) \<Rightarrow> Some c
      | Inr auth \<Rightarrow>
          (case get_raw_tools_result (cx_catalog env) (av_tools (wo_approvals (co_world c))) (co_upstream c) (sv_id server) (sv_upstream_url server) True auth of
             (r, table, u) \<Rightarrow>
               (case cx_catalog_cut env of
                  Some k \<Rightarrow> Some (c\<lparr>co_upstream := (co_upstream c)\<lparr>up_history := take (length (up_history (co_upstream c)) + k) (up_history u)\<rparr>\<rparr>)
                | None \<Rightarrow> if r = None then None else Some ((with_tools (\<lambda>_. table) c)\<lparr>co_upstream := u\<rparr>))))"

definition probe_server_now :: "'s console_env \<Rightarrow> 's console \<Rightarrow> request_ctx \<Rightarrow> string \<Rightarrow> (http_exn + server_response) \<times> 's console" where
  "probe_server_now env c rq slug =
     (case rbind (server_slug_role env c ''poweruser'' rq slug) (\<lambda>_. case cfg_get (co_db c) slug of None \<Rightarrow> Inl (not_found ''server'') | Some s \<Rightarrow> Inr s) of
        Inl e \<Rightarrow> (Inl e, c)
      | Inr server \<Rightarrow>
          (case poll_server env c slug of
             (False, c1) \<Rightarrow> (Inl ServerError, c1)
           | (True, c1) \<Rightarrow>
               (case refresh_catalog env c1 server of
                  None \<Rightarrow> (Inl ServerError, c1)
                | Some c2 \<Rightarrow> (case cfg_get (co_db c2) slug of None \<Rightarrow> Inl ServerError | Some s \<Rightarrow> Inr (server_to_response c2 s), c2))))"

text \<open>\<open>None\<close> leaves a column alone; the credential has a third state, an explicit null, which clears it.\<close>

record server_update_request =
  su_name :: "string option"
  su_upstream_url :: "string option"
  su_enabled :: "bool option"
  su_in_aggregate :: "bool option"
  su_auth :: "string option option"
  su_mode :: "string option"

definition update_errors :: "config_env \<Rightarrow> server_update_request \<Rightarrow> string list" where
  "update_errors env b = (case su_upstream_url b of None \<Rightarrow> [] | Some u \<Rightarrow> url_errors env u) @ (case su_mode b of None \<Rightarrow> [] | Some v \<Rightarrow> bad_mode v)"

definition or_keep :: "'a option \<Rightarrow> 'a \<Rightarrow> 'a" where
  "or_keep v old = (case v of None \<Rightarrow> old | Some x \<Rightarrow> x)"

text \<open>\<open>ServerRepo.update\<close> on a row.\<close>

definition update_columns :: "server_update_request \<Rightarrow> string option option \<Rightarrow> server_record \<Rightarrow> server_record" where
  "update_columns b auth s = s\<lparr>sv_name := or_keep (su_name b) (sv_name s), sv_upstream_url := or_keep (su_upstream_url b) (sv_upstream_url s),
     sv_enabled := or_keep (su_enabled b) (sv_enabled s), sv_in_aggregate := or_keep (su_in_aggregate b) (sv_in_aggregate s),
     sv_upstream_auth_header := or_keep auth (sv_upstream_auth_header s), sv_credential_mode := or_keep (su_mode b) (sv_credential_mode s)\<rparr>"

definition field_text :: "json \<Rightarrow> string" where
  "field_text v = (case v of JStr s \<Rightarrow> s | JBool b \<Rightarrow> show_bool b | _ \<Rightarrow> [])"

definition field_changes :: "json dict \<Rightarrow> json dict \<Rightarrow> string list" where
  "field_changes before after =
     List.map_filter (\<lambda>(k, v). let w = dict_get after k JNull in if v = w then None else Some (arrow_text k (field_text v) (field_text w))) before"

definition update_server ::
    "'s console_env \<Rightarrow> 's console \<Rightarrow> request_ctx \<Rightarrow> string \<Rightarrow> server_update_request \<Rightarrow> (http_exn + server_response) \<times> 's console" where
  "update_server env c rq slug b =
     (case rbind (server_slug_role env c ''admin'' rq slug) (\<lambda>who.
        if update_errors (cx_config env) b \<noteq> [] then Inl (unprocessable (update_errors (cx_config env) b))
        else if su_mode b = Some ''token'' \<and> pb_issuer (cx_probe env) = None then Inl token_mode_refused
        else case cfg_get (co_db c) slug of None \<Rightarrow> Inl (not_found ''server'') | Some before \<Rightarrow> Inr (who, before)) of
        Inl e \<Rightarrow> (Inl e, c)
      | Inr (who, before) \<Rightarrow>
          (let auth = map_option (store_upstream_auth_header env) (su_auth b); server = update_columns b auth before;
               c1 = with_db (\<lambda>d. cfg_update d slug (update_columns b auth)) c;
               changes = field_changes (server_fields before) (server_fields server);
               c2 = note_event env c1 ''server.update'' (''updated server '' @ quoted slug
                   @ (if changes = [] then '''' else '' ('' @ str_join ''; '' changes @ '')'')) who ''server'' (Some slug)
                 (Some (JObj (server_fields before))) (Some (JObj (server_fields server))) (rq_ip rq);
               c3 = (if su_auth b = None then c2
                     else server_events env who rq slug (sv_upstream_auth_header before) (sv_upstream_auth_header server) c2) in
           (Inr (server_to_response c3 server), c3)))"

text \<open>The delete cascades to the policy, its tools and rules, and the cached catalogue.\<close>

definition delete_rows :: "int \<Rightarrow> config_db \<Rightarrow> config_db" where
  "delete_rows i d = d\<lparr>cd_servers := filter (\<lambda>s. sv_id s \<noteq> i) (cd_servers d), cd_store := \<lparr>st_policies = filter (\<lambda>r. po_server_id r \<noteq> i) (st_policies (cd_store d)),
     st_tools = filter (\<lambda>r. tp_server_id r \<noteq> i) (st_tools (cd_store d)), st_params = filter (\<lambda>r. pa_server_id r \<noteq> i) (st_params (cd_store d))\<rparr>\<rparr>"

definition server_delete :: "int \<Rightarrow> 's console \<Rightarrow> 's console" where
  "server_delete i c = (with_tools (filter (\<lambda>r. tr_server_id r \<noteq> i)) (with_db (delete_rows i) c))\<lparr>co_health := AList.delete i (co_health c)\<rparr>"

definition unregister_bucket :: "'s console_env \<Rightarrow> string \<Rightarrow> 's console \<Rightarrow> 's console" where
  "unregister_bucket env key c = c\<lparr>co_world := (co_world c)\<lparr>wo_control := (wo_control (co_world c))\<lparr>ct_limiter :=
     lo_unregister (cv_ops (re_control (cx_route env))) (ct_limiter (wo_control (co_world c))) key\<rparr>\<rparr>\<rparr>"

definition delete_server :: "'s console_env \<Rightarrow> 's console \<Rightarrow> request_ctx \<Rightarrow> string \<Rightarrow> (http_exn + unit) \<times> 's console" where
  "delete_server env c rq slug =
     (case rbind (server_slug_role env c ''admin'' rq slug) (\<lambda>who. case cfg_get (co_db c) slug of None \<Rightarrow> Inl (not_found ''server'') | Some s \<Rightarrow> Inr (who, s)) of
        Inl e \<Rightarrow> (Inl e, c)
      | Inr (who, server) \<Rightarrow>
          (Inr (), unregister_bucket env (server_key slug)
             (note_event env (server_delete (sv_id server) c) ''server.delete'' (''deleted server '' @ quoted slug) who ''server'' (Some slug)
               (Some (JObj (server_fields server))) None (rq_ip rq))))"

subsection \<open>Tools\<close>

record tool_response =
  tl_name :: string
  tl_description :: "string option"
  tl_status :: string
  tl_has_param_rules :: bool
  tl_input_schema :: "json dict option"

definition tool_status :: "server_policy \<Rightarrow> string \<Rightarrow> string" where
  "tool_status p name =
     (if sp_mode p = ''allowlist'' then if name \<in> set (sp_allowed p) then ''allowed'' else ''denied''
      else if sp_mode p = ''denylist'' then if name \<in> set (sp_denied p) then ''denied'' else ''allowed''
      else ''allowed'')"

text \<open>\<open>None\<close>: the tool is not an object, or a member has another type than the answer's model allows.\<close>

definition tool_entry :: "server_policy \<Rightarrow> json \<Rightarrow> tool_response option" where
  "tool_entry p t =
     (case t of
        JObj d \<Rightarrow>
          (case (dict_get d ''name'' (JStr []), dict_get d ''description'' JNull, dict_get d ''inputSchema'' JNull) of
             (JStr name, description, schema) \<Rightarrow>
               (let mk = (\<lambda>ds sch. Some \<lparr>tl_name = name, tl_description = ds, tl_status = tool_status p name,
                      tl_has_param_rules = dict_has (sp_param_rules p) name, tl_input_schema = sch\<rparr>);
                    desc = (case description of JNull \<Rightarrow> Some None | JStr s \<Rightarrow> Some (Some s) | _ \<Rightarrow> None);
                    schm = (case schema of JNull \<Rightarrow> Some None | JObj o' \<Rightarrow> Some (Some o') | _ \<Rightarrow> None) in
                case (desc, schm) of (Some ds, Some sch) \<Rightarrow> mk ds sch | _ \<Rightarrow> None)
           | _ \<Rightarrow> None)
      | _ \<Rightarrow> None)"

definition tool_entries :: "server_policy \<Rightarrow> json \<Rightarrow> tool_response list option" where
  "tool_entries p v = (case v of JList ts \<Rightarrow> those (map (tool_entry p) ts) | _ \<Rightarrow> if v \<in> {JStr [], JObj []} then Some [] else None)"

definition catalog_fetched_at :: "tool_row list \<Rightarrow> int \<Rightarrow> rat option" where
  "catalog_fetched_at table i = (case filter (\<lambda>r. tr_server_id r = i) table of [] \<Rightarrow> None | rs \<Rightarrow> Some (Max (set (map tr_fetched_at rs))))"

record server_tools =
  stl_fetched_at :: "rat option"
  stl_tools :: "tool_response list"
  stl_stale :: bool
  stl_error :: "string option"

text \<open>The credential is resolved only when the catalogue is fetched.\<close>

definition catalog_credential :: "'s console_env \<Rightarrow> 's console \<Rightarrow> server_record \<Rightarrow> bool \<Rightarrow> credential_error + string option" where
  "catalog_credential env c server force =
     (if catalog_fresh (cx_catalog env) (cached_rows (ce_collate (cx_catalog env)) (av_tools (wo_approvals (co_world c))) (sv_id server)) force then Inr None
      else resolve_upstream_credential (pb_secrets (cx_probe env)) (pb_issuer (cx_probe env)) server)"

definition get_server_tools ::
    "'s console_env \<Rightarrow> 's console \<Rightarrow> request_ctx \<Rightarrow> string \<Rightarrow> bool \<Rightarrow> (http_exn + server_tools) \<times> 's console" where
  "get_server_tools env c rq slug force =
     (case rbind (server_slug_role env c ''viewer'' rq slug) (\<lambda>_.
        case cfg_get (co_db c) slug of
          None \<Rightarrow> Inl (not_found ''server'')
        | Some s \<Rightarrow>
            (case cfg_get_policy (cx_config env) (co_db c) (sv_id s) of
               None \<Rightarrow> Inl ServerError
             | Some p \<Rightarrow>
                 (case catalog_credential env c s force of
                    Inl CredentialUncaught \<Rightarrow> Inl ServerError
                  | Inl (UpstreamCredentialError reason _) \<Rightarrow> Inl (HttpError 502 (''upstream credential could not be resolved: '' @ reason))
                  | Inr auth \<Rightarrow> Inr (s, p, auth)))) of
        Inl e \<Rightarrow> (Inl e, c)
      | Inr (s, p, auth) \<Rightarrow>
          (case get_raw_tools_result (cx_catalog env) (av_tools (wo_approvals (co_world c))) (co_upstream c) (sv_id s) (sv_upstream_url s) force auth of
             (r, table, u) \<Rightarrow>
               (let c1 = (with_tools (\<lambda>_. table) c)\<lparr>co_upstream := u\<rparr> in
                (case r of
                   None \<Rightarrow> Inl ServerError
                 | Some f \<Rightarrow>
                     (case tool_entries p (tf_tools f) of
                        None \<Rightarrow> Inl ServerError
                      | Some ts \<Rightarrow> Inr \<lparr>stl_fetched_at = catalog_fetched_at table (sv_id s), stl_tools = ts, stl_stale = tf_stale f, stl_error = tf_error f\<rparr>), c1))))"

subsection \<open>Policies\<close>

definition get_policy_route :: "'s console_env \<Rightarrow> 's console \<Rightarrow> request_ctx \<Rightarrow> string \<Rightarrow> http_exn + server_policy" where
  "get_policy_route env c rq slug =
     rbind (server_slug_role env c ''viewer'' rq slug) (\<lambda>_.
       case cfg_get (co_db c) slug of
         None \<Rightarrow> Inl (not_found ''server'')
       | Some s \<Rightarrow> (case cfg_get_policy (cx_config env) (co_db c) (sv_id s) of None \<Rightarrow> Inl ServerError | Some p \<Rightarrow> Inr p))"

datatype policy_answer = PolicySaved server_policy | ProposalPending int string

text \<open>The write without approvals; its answer is the policy read back. An exception after the write leaves the write.\<close>

definition write_policy :: "'s console_env \<Rightarrow> 's console \<Rightarrow> request_ctx \<Rightarrow> string \<Rightarrow> principal \<Rightarrow> server_record \<Rightarrow> server_policy \<Rightarrow> (http_exn + policy_answer) \<times> 's console" where
  "write_policy env c rq slug who s p =
     (case cfg_get_policy (cx_config env) (co_db c) (sv_id s) of
        None \<Rightarrow> (Inl ServerError, c)
      | Some before \<Rightarrow>
          (case cfg_set_policy (co_db c) (sv_id s) p of
             None \<Rightarrow> (Inl ServerError, c)
           | Some d \<Rightarrow>
               (let c1 = with_tools (\<lambda>t. invalidate_tools t (sv_id s)) (with_db (\<lambda>_. d) c) in
                case cfg_get_policy (cx_config env) d (sv_id s) of
                  None \<Rightarrow> (Inl ServerError, c1)
                | Some after \<Rightarrow> (Inr (PolicySaved after),
                    with_events (\<lambda>es. record_policy_change (re_dumps (cx_route env)) es slug before after (Some (actor who)) (rq_ip rq)) c1))))"

text \<open>\<open>body\<close> is what the model of the request body makes of it: a message, or the policy.\<close>

definition set_policy_route ::
    "'s console_env \<Rightarrow> 's console \<Rightarrow> request_ctx \<Rightarrow> string \<Rightarrow> string + server_policy \<Rightarrow> (http_exn + policy_answer) \<times> 's console" where
  "set_policy_route env c rq slug body =
     (case rbind (server_slug_role env c ''poweruser'' rq slug) (\<lambda>who.
        case body of
          Inl e \<Rightarrow> Inl (unprocessable [e])
        | Inr p \<Rightarrow> (case cfg_get (co_db c) slug of None \<Rightarrow> Inl (not_found ''server'') | Some s \<Rightarrow> Inr (who, s, p))) of
        Inl e \<Rightarrow> (Inl e, c)
      | Inr (who, s, p) \<Rightarrow>
          if approvals_enabled (wo_approvals (co_world c))
          then (case propose_policy_change (re_approval (cx_route env)) (approvals_of (co_world c)) slug (model_dump_policy p) who (rq_ip rq) of
                  Inl _ \<Rightarrow> (Inl ServerError, c)
                | Inr (q, a) \<Rightarrow> (Inr (ProposalPending (pp_id q) (pp_state q)), c\<lparr>co_world := (co_world c)\<lparr>wo_approvals := a\<rparr>\<rparr>))
          else write_policy env c rq slug who s p)"

subsection \<open>Frames\<close>

lemma with_simps [simp]:
  "co_db (with_db f c) = f (co_db c)" "co_db (with_events g c) = co_db c" "co_db (with_tools t c) = co_db c"
  "wo_members (co_world (with_db f c)) = wo_members (co_world c)" "wo_projects (co_world (with_db f c)) = wo_projects (co_world c)"
  "wo_members (co_world (with_events g c)) = wo_members (co_world c)" "wo_projects (co_world (with_events g c)) = wo_projects (co_world c)"
  "wo_members (co_world (with_tools t c)) = wo_members (co_world c)" "wo_projects (co_world (with_tools t c)) = wo_projects (co_world c)"
  "co_health (with_db f c) = co_health c" "co_health (with_events g c) = co_health c" "co_health (with_tools t c) = co_health c"
  "co_upstream (with_db f c) = co_upstream c" "co_upstream (with_events g c) = co_upstream c" "co_upstream (with_tools t c) = co_upstream c"
  "av_tools (wo_approvals (co_world (with_tools t c))) = t (av_tools (wo_approvals (co_world c)))"
  "av_tools (wo_approvals (co_world (with_db f c))) = av_tools (wo_approvals (co_world c))"
  "av_tools (wo_approvals (co_world (with_events g c))) = av_tools (wo_approvals (co_world c))"
  by (simp_all add: with_db_def with_events_def with_tools_def co_db_def)

lemma note_event_simps [simp]:
  "co_db (note_event env c a s who tt ti b af ip) = co_db c" "co_health (note_event env c a s who tt ti b af ip) = co_health c"
  "wo_projects (co_world (note_event env c a s who tt ti b af ip)) = wo_projects (co_world c)"
  "av_tools (wo_approvals (co_world (note_event env c a s who tt ti b af ip))) = av_tools (wo_approvals (co_world c))"
  by (simp_all add: note_event_def)

lemma server_events_simps [simp]:
  "co_db (server_events env who rq slug b a c) = co_db c" "co_health (server_events env who rq slug b a c) = co_health c"
  "wo_projects (co_world (server_events env who rq slug b a c)) = wo_projects (co_world c)"
  by (simp_all add: server_events_def)

text \<open>The dependency of a route with a server's slug in its path.\<close>

lemma server_slug_role_Inr:
  assumes "server_slug_role env c minimum rq slug = Inr who"
  obtains s pid where "cfg_get (co_db c) slug = Some s" "sv_project_id s = Some pid" "caller env c rq = Inr who"
    "project_role_at_least (resolve_project_role who pid (wo_members (co_world c))) minimum"
proof -
  obtain pid where p: "with_project_role (cx_route env) (co_world c) minimum (ByServer ''slug'') (rq\<lparr>rq_params := [(''slug'', slug)]\<rparr>) = Inr (who, pid)"
    using assms by (cases "with_project_role (cx_route env) (co_world c) minimum (ByServer ''slug'') (rq\<lparr>rq_params := [(''slug'', slug)]\<rparr>)")
      (auto simp: server_slug_role_def)
  then have "caller env c rq = Inr who" "project_role_at_least (resolve_project_role who pid (wo_members (co_world c))) minimum"
    and r: "resolve_project (co_world c) [(''slug'', slug)] (ByServer ''slug'') = Inr pid"
    by (auto simp: with_project_role_def require_project_role_def caller_def rbind_eq_Inr split: if_splits)
  moreover obtain s where "cfg_get (co_db c) slug = Some s" "sv_project_id s = Some pid"
    using r by (auto simp: resolve_project_def project_id_from_server_slug_def path_param_def co_db_def split: option.splits)
  ultimately show ?thesis using that by blast
qed

subsection \<open>Who may write\<close>

lemma passed_of_change: "(\<And>e. d = Inl e \<Longrightarrow> c' = c) \<Longrightarrow> c' \<noteq> c \<Longrightarrow> \<exists>x. d = Inr x"
  by (cases d) auto

text \<open>The caller is an authenticated principal with a role in the project of the server.\<close>

definition may_write :: "'s console_env \<Rightarrow> 's console \<Rightarrow> request_ctx \<Rightarrow> string \<Rightarrow> string \<Rightarrow> bool" where
  "may_write env c rq slug minimum \<longleftrightarrow> (\<exists>who s pid. caller env c rq = Inr who \<and> cfg_get (co_db c) slug = Some s \<and> sv_project_id s = Some pid
     \<and> project_role_at_least (resolve_project_role who pid (wo_members (co_world c))) minimum)"

lemma may_write_of_change:
  "(\<And>e. server_slug_role env c minimum rq slug = Inl e \<Longrightarrow> c' = c) \<Longrightarrow> c' \<noteq> c \<Longrightarrow> may_write env c rq slug minimum"
  using passed_of_change [of "server_slug_role env c minimum rq slug" c' c] by (auto simp: may_write_def elim: server_slug_role_Inr)

lemma created_by_project_admin:
  assumes "create_server env c rq b = (r, c')" and "c' \<noteq> c"
  shows "\<exists>who p. caller env c rq = Inr who \<and> project_get (co_world c) (sc_project b) = Some p
    \<and> project_role_at_least (resolve_project_role who (pj_id p) (wo_members (co_world c))) ''admin''"
proof -
  have "\<exists>who. caller env c rq = Inr who"
    by (rule passed_of_change [OF _ assms(2)]) (use assms(1) in \<open>simp add: create_server_def\<close>)
  then obtain who where w: "caller env c rq = Inr who" by blast
  have "\<exists>pid. body_project_role env c who (sc_project b) = Inr pid"
    by (rule passed_of_change [OF _ assms(2)]) (use assms(1) w in \<open>simp add: create_server_def split: if_splits\<close>)
  with w show ?thesis
    by (auto simp: body_project_role_def resolve_project_id_def rbind_eq_Inr split: option.splits if_splits)
qed

text \<open>Every change a server route makes is made by an authenticated caller who is at least an admin of the project the server belongs to (or, for a new
  server, of the project it is created in), a power user for its policy, or is a global admin: any other request leaves the
  whole state as it was.\<close>

theorem server_writes_authorised:
  assumes "c' \<noteq> c"
  shows "(create_server env c rq b = (r, c') \<longrightarrow> (\<exists>who p. caller env c rq = Inr who \<and> project_get (co_world c) (sc_project b) = Some p
       \<and> project_role_at_least (resolve_project_role who (pj_id p) (wo_members (co_world c))) ''admin''))
   \<and> (update_server env c rq slug u = (r, c') \<longrightarrow> may_write env c rq slug ''admin'')
   \<and> (delete_server env c rq slug = (q, c') \<longrightarrow> may_write env c rq slug ''admin'')
   \<and> (set_policy_route env c rq slug body = (a, c') \<longrightarrow> may_write env c rq slug ''poweruser'')"
proof (intro conjI impI)
  show "may_write env c rq slug ''admin''" if "update_server env c rq slug u = (r, c')"
    by (rule may_write_of_change [OF _ assms]) (use that in \<open>simp add: update_server_def\<close>)
  show "may_write env c rq slug ''admin''" if "delete_server env c rq slug = (q, c')"
    by (rule may_write_of_change [OF _ assms]) (use that in \<open>simp add: delete_server_def\<close>)
  show "may_write env c rq slug ''poweruser''" if "set_policy_route env c rq slug body = (a, c')"
    by (rule may_write_of_change [OF _ assms]) (use that in \<open>simp add: set_policy_route_def\<close>)
qed (rule created_by_project_admin [OF _ assms])

subsection \<open>Credentials stay inside\<close>

text \<open>The same state with every credential replaced by a fixed one of its shape.\<close>

definition veil :: "string option \<Rightarrow> string option" where
  "veil v = (case v of None \<Rightarrow> None | Some x \<Rightarrow> Some (if is_reference x then ''vault://'' else ''''))"

definition veil_server :: "server_record \<Rightarrow> server_record" where
  "veil_server s = s\<lparr>sv_upstream_auth_header := veil (sv_upstream_auth_header s)\<rparr>"

definition veil_console :: "'s console \<Rightarrow> 's console" where
  "veil_console c = with_db (\<lambda>d. d\<lparr>cd_servers := map veil_server (cd_servers d)\<rparr>) c"

lemma veil_server_simps [simp]:
  "sv_id (veil_server s) = sv_id s" "sv_slug (veil_server s) = sv_slug s" "sv_project_id (veil_server s) = sv_project_id s"
  "sv_name (veil_server s) = sv_name s" "sv_upstream_url (veil_server s) = sv_upstream_url s" "sv_enabled (veil_server s) = sv_enabled s"
  "sv_in_aggregate (veil_server s) = sv_in_aggregate s" "sv_upstream_protocol (veil_server s) = sv_upstream_protocol s"
  "sv_credential_mode (veil_server s) = sv_credential_mode s" "sv_discover_json (veil_server s) = sv_discover_json s"
  by (simp_all add: veil_server_def)

lemma veil_shape: "(veil v \<noteq> None) = (v \<noteq> None)" "(case veil v of None \<Rightarrow> False | Some x \<Rightarrow> is_reference x) = (case v of None \<Rightarrow> False | Some x \<Rightarrow> is_reference x)"
  by (auto simp: veil_def is_reference_def split: option.splits)

lemma find_map_same: "(\<And>x. P (f x) = P x) \<Longrightarrow> List.find P (map f xs) = map_option f (List.find P xs)"
  by (induction xs) auto

lemma order_by_map: "(\<And>x. key (f x) = key x) \<Longrightarrow> order_by le key (map f xs) = map f (order_by le key xs)"
proof -
  assume k: "\<And>x. key (f x) = key x"
  then have "insert_by le key (f x) (map f ys) = map f (insert_by le key x ys)" for x ys by (induction ys) auto
  then show ?thesis by (induction xs) (auto simp: order_by_def)
qed

lemma veil_reads [simp]:
  "cfg_get (co_db (veil_console c)) slug = map_option veil_server (cfg_get (co_db c) slug)"
  "cfg_list e (co_db (veil_console c)) = map veil_server (cfg_list e (co_db c))"
  "control_of (co_world (veil_console c)) = control_of (co_world c)" "wo_members (co_world (veil_console c)) = wo_members (co_world c)"
  "wo_projects (co_world (veil_console c)) = wo_projects (co_world c)" "co_health (veil_console c) = co_health c"
  by (simp_all add: veil_console_def with_db_def co_db_def cfg_get_def cfg_list_def find_map_same order_by_map control_of_def)

lemma veil_roles [simp]:
  "with_role env (co_world (veil_console c)) minimum rq = with_role env (co_world c) minimum rq"
  "server_slug_role env' (veil_console c) minimum rq slug = server_slug_role env' c minimum rq slug"
  "caller env' (veil_console c) rq = caller env' c rq"
  "body_project_role env' (veil_console c) who project = body_project_role env' c who project"
  using veil_reads(1) [of c slug]
  by (auto simp: with_role_def server_slug_role_def with_project_role_def require_project_role_def resolve_project_def project_id_from_server_slug_def
      path_param_def caller_def body_project_role_def resolve_project_id_def project_get_def co_db_def split: option.splits)

lemma response_cong:
  assumes "co_health c' = co_health c" and "wo_projects (co_world c') = wo_projects (co_world c)"
  shows "server_to_response c' s = server_to_response c s"
  using assms by (simp add: server_to_response_def Let_def slug_of_project_def project_slug_map_def project_get_by_id_def split: option.splits)

lemma veil_response [simp]: "server_to_response (veil_console c) (veil_server s) = server_to_response c s"
  using veil_shape [of "sv_upstream_auth_header s"]
  unfolding response_cong [OF veil_reads(6,5)] by (simp add: server_to_response_def Let_def veil_server_def)

lemma update_answer_veiled: "fst (update_server env (veil_console c) rq slug b) = fst (update_server env c rq slug b)"
proof (cases "server_slug_role env c ''admin'' rq slug")
  case (Inr who)
  have r: "server_to_response c1 (update_columns b auth (veil_server s)) = server_to_response c2 (update_columns b auth s)"
    if "co_health c1 = co_health c2" "wo_projects (co_world c1) = wo_projects (co_world c2)" for c1 c2 s auth
    unfolding response_cong [OF that] using veil_shape [of "sv_upstream_auth_header s"]
    by (cases auth) (simp_all add: server_to_response_def Let_def update_columns_def or_keep_def veil_server_def)
  show ?thesis using Inr by (cases "cfg_get (co_db c) slug") (auto simp: update_server_def Let_def intro!: r)
qed (simp add: update_server_def)


subsection \<open>Approvals\<close>

definition same_config :: "'s console \<Rightarrow> 's console \<Rightarrow> bool" where
  "same_config c c' \<longleftrightarrow> cd_servers (co_db c') = cd_servers (co_db c) \<and> cd_store (co_db c') = cd_store (co_db c) \<and> cd_settings (co_db c') = cd_settings (co_db c)
     \<and> av_tools (wo_approvals (co_world c')) = av_tools (wo_approvals (co_world c))"

lemma announced:
  assumes "announce env who ip summary (proposal_create env s tt ti payload uid name pid) = Inr (q, s')"
  shows "av_db s' = av_db s" "av_tools s' = av_tools s" "av_proposals s' = av_proposals s @ [q]"
    "pp_state q = ''pending''" "pp_payload q = payload" "pp_proposer q = name" "pp_proposer_user_id q = uid" "pp_target_id q = ti" "pp_target_type q = tt"
  using assms by (auto simp: announce_def proposal_create_def notify_pending_def record_proposal_event_def Let_def split: if_splits)

text \<open>C16. With approvals on, nobody changes a policy directly, whatever their role: the request leaves every server, policy and setting and the tool catalogue as
  they were, and when it is answered without an error it has filed one pending proposal, in the caller's name, with exactly the
  requested policy.\<close>

theorem policy_write_needs_approval:
  assumes "set_policy_route env c rq slug body = (r, c')" and "approvals_enabled (wo_approvals (co_world c))"
  shows "same_config c c' \<and> (case r of
      Inl e \<Rightarrow> c' = c
    | Inr x \<Rightarrow> \<exists>who p q baseline. server_slug_role env c ''poweruser'' rq slug = Inr who \<and> body = Inr p \<and> x = ProposalPending (pp_id q) ''pending''
        \<and> av_proposals (wo_approvals (co_world c')) = av_proposals (wo_approvals (co_world c)) @ [q] \<and> pp_state q = ''pending''
        \<and> payload_parts q = Some (model_dump_policy p, baseline) \<and> pp_target_id q = slug
        \<and> (pp_proposer_user_id q, pp_proposer q) = identity who)"
proof -
  let ?gate = "rbind (server_slug_role env c ''poweruser'' rq slug) (\<lambda>who.
        case body of Inl e \<Rightarrow> Inl (unprocessable [e])
        | Inr p \<Rightarrow> (case cfg_get (co_db c) slug of None \<Rightarrow> Inl (not_found ''server'') | Some s \<Rightarrow> Inr (who, s, p)))"
  show ?thesis
  proof (cases ?gate)
    case (Inl e)
    then show ?thesis using assms(1) by (auto simp: set_policy_route_def same_config_def)
  next
    case (Inr x)
    then obtain who s p where g: "?gate = Inr (who, s, p)" by (cases x) auto
    then have role: "server_slug_role env c ''poweruser'' rq slug = Inr who" "body = Inr p"
      by (cases "server_slug_role env c ''poweruser'' rq slug"; cases body; cases "cfg_get (co_db c) slug"; simp)+
    let ?pr = "propose_policy_change (re_approval (cx_route env)) (approvals_of (co_world c)) slug (model_dump_policy p) who (rq_ip rq)"
    have run: "(r, c') = (case ?pr of Inl _ \<Rightarrow> (Inl ServerError, c)
        | Inr (q, a) \<Rightarrow> (Inr (ProposalPending (pp_id q) (pp_state q)), c\<lparr>co_world := (co_world c)\<lparr>wo_approvals := a\<rparr>\<rparr>))"
      using assms g by (simp add: set_policy_route_def)
    show ?thesis
    proof (cases ?pr)
      case (Inl e)
      then show ?thesis using run by (simp add: same_config_def)
    next
      case (Inr y)
      obtain q a where y: "y = (q, a)" by fastforce
      obtain current summary pid where an: "announce (re_approval (cx_route env)) who (rq_ip rq) summary
          (proposal_create (re_approval (cx_route env)) (approvals_of (co_world c)) TARGET_SERVER_POLICY slug
            (JObj [(''request'', model_dump_policy p), (''baseline'', model_dump_policy current)]) (pc_user_id who) (actor who) pid) = Inr (q, a)"
        using Inr y by (auto simp: propose_policy_change_def split: sum.splits option.splits)
      note q = announced [OF an]
      have r: "r = Inr (ProposalPending (pp_id q) ''pending'')" "c' = c\<lparr>co_world := (co_world c)\<lparr>wo_approvals := a\<rparr>\<rparr>"
        using run Inr y q(4) by simp_all
      have "same_config c c'" using q(1,2) r(2) by (simp add: same_config_def co_db_def approvals_of_def)
      moreover have "av_proposals (wo_approvals (co_world c')) = av_proposals (wo_approvals (co_world c)) @ [q]"
        using q(3) r(2) by (simp add: approvals_of_def)
      moreover have "payload_parts q = Some (model_dump_policy p, model_dump_policy current)" using q(5) by (simp add: payload_parts_def)
      ultimately show ?thesis using role r(1) q(4,6,7,8) by (auto simp: identity_def)
    qed
  qed
qed

subsection \<open>Deleting\<close>

lemma distinct_slug_id: "distinct (map sv_slug ss) \<Longrightarrow> List.find (\<lambda>x. sv_slug x = slug) ss = Some s \<Longrightarrow> x \<in> set ss \<Longrightarrow> sv_slug x = slug \<Longrightarrow> x = s"
  by (induction ss) (auto split: if_splits simp: image_iff)

lemma find_filter_other: "(\<And>x. P x \<Longrightarrow> Q x) \<Longrightarrow> List.find P (filter Q xs) = List.find P xs"
  by (induction xs) auto

lemma stored_policy_deleted:
  assumes "other \<noteq> i"
  shows "stored_policy e \<lparr>st_policies = filter (\<lambda>r. po_server_id r \<noteq> i) (st_policies t), st_tools = filter (\<lambda>r. tp_server_id r \<noteq> i) (st_tools t),
      st_params = filter (\<lambda>r. pa_server_id r \<noteq> i) (st_params t)\<rparr> other = stored_policy e t other"
proof -
  have "List.find (\<lambda>r. po_server_id r = other) (filter (\<lambda>r. po_server_id r \<noteq> i) (st_policies t)) = List.find (\<lambda>r. po_server_id r = other) (st_policies t)"
    using assms by (intro find_filter_other) auto
  moreover have "filter (\<lambda>r. tp_server_id r = other) (filter (\<lambda>r. tp_server_id r \<noteq> i) (st_tools t)) = filter (\<lambda>r. tp_server_id r = other) (st_tools t)"
    "filter (\<lambda>r. pa_server_id r = other) (filter (\<lambda>r. pa_server_id r \<noteq> i) (st_params t)) = filter (\<lambda>r. pa_server_id r = other) (st_params t)"
    using assms by (auto simp: filter_filter intro!: filter_cong)
  ultimately show ?thesis by (simp add: stored_policy_def)
qed

text \<open>A deleted server leaves nothing behind that a later server could inherit: its row, policy, tool and parameter rules, cached catalogue and health are
  gone, its rate-limit bucket is no longer registered, and the other servers keep their policies.\<close>

theorem deleted_server_leaves_nothing:
  assumes "delete_server env c rq slug = (Inr (), c')" and "cfg_get (co_db c) slug = Some s" and "distinct (map sv_slug (cd_servers (co_db c)))"
    and "cv_ops (re_control (cx_route env)) = in_memory_ops" and "im_invar (ct_limiter (wo_control (co_world c)))"
  shows "cfg_get (co_db c') slug = None \<and> po_server_id ` set (st_policies (cd_store (co_db c'))) \<subseteq> - {sv_id s}
    \<and> tp_server_id ` set (st_tools (cd_store (co_db c'))) \<subseteq> - {sv_id s} \<and> pa_server_id ` set (st_params (cd_store (co_db c'))) \<subseteq> - {sv_id s}
    \<and> tr_server_id ` set (av_tools (wo_approvals (co_world c'))) \<subseteq> - {sv_id s} \<and> health_of (co_health c') (sv_id s) = unknown_health
    \<and> \<not> lo_is_registered in_memory_ops (ct_limiter (wo_control (co_world c'))) (server_key slug)
    \<and> (\<forall>other. other \<noteq> sv_id s \<longrightarrow> stored_policy e (cd_store (co_db c')) other = stored_policy e (cd_store (co_db c)) other)"
proof -
  obtain who where c': "c' = unregister_bucket env (server_key slug)
      (note_event env (server_delete (sv_id s) c) ''server.delete'' (''deleted server '' @ quoted slug) who ''server'' (Some slug)
        (Some (JObj (server_fields s))) None (rq_ip rq))"
    using assms(1,2) by (cases "server_slug_role env c ''admin'' rq slug") (auto simp: delete_server_def)
  have db: "co_db c' = delete_rows (sv_id s) (co_db c)" by (simp add: c' unregister_bucket_def co_db_def note_event_def with_events_def server_delete_def with_tools_def with_db_def)
  have "cfg_get (co_db c') slug = None"
    using assms(2,3) unfolding db delete_rows_def cfg_get_def by (auto simp: find_None_iff dest: distinct_slug_id)
  moreover have "tr_server_id ` set (av_tools (wo_approvals (co_world c'))) \<subseteq> - {sv_id s}" "health_of (co_health c') (sv_id s) = unknown_health"
    by (auto simp: c' unregister_bucket_def note_event_def with_events_def server_delete_def with_tools_def with_db_def health_of_def delete_conv)
  moreover have "ct_limiter (wo_control (co_world c')) = lo_unregister in_memory_ops (ct_limiter (wo_control (co_world c))) (server_key slug)"
    by (simp add: c' unregister_bucket_def note_event_def with_events_def server_delete_def with_tools_def with_db_def assms(4))
  then have "\<not> lo_is_registered in_memory_ops (ct_limiter (wo_control (co_world c'))) (server_key slug)"
    using imb.unregister_spec [OF assms(5)] imb.registered_spec by simp
  ultimately show ?thesis
    using stored_policy_deleted [of _ "sv_id s"] unfolding db by (auto simp: delete_rows_def)
qed

subsection \<open>Witnesses\<close>

definition sample_catalog :: catalog_env where
  "sample_catalog = \<lparr>ce_fr = (\<lambda>_. ''0''), ce_net = (\<lambda>_. HttpAnswer 404 [] ''''), ce_loads = (\<lambda>_. None), ce_collate = (\<le>), ce_db_int = (\<lambda>_. None),
     ce_hs_id = ''1'', ce_list_id = ''1'', ce_mono = 0, ce_wall = 0\<rparr>"

definition sample_console_env :: "in_memory console_env" where
  "sample_console_env = \<lparr>cx_route = sample_route_env, cx_probe = sample_probe_env 401 None good_answer, cx_catalog = sample_catalog, cx_catalog_cut = None,
     cx_probe_on_create = False, cx_tier = ''local'', cx_encrypt = id\<rparr>"

definition sample_console :: "string \<Rightarrow> string dict \<Rightarrow> in_memory console" where
  "sample_console role settings = with_db (\<lambda>d. d\<lparr>cd_settings := settings @ cd_settings d\<rparr>)
     \<lparr>co_world = sample_world role, co_health = [], co_upstream = \<lparr>up_history = [], up_cache = [], up_cached_at = []\<rparr>\<rparr>"

lemma sample_deleted: "\<exists>c'. delete_server sample_console_env (sample_console ''admin'' []) (sample_request []) ''git'' = (Inr (), c')
    \<and> cd_servers (co_db c') \<noteq> cd_servers (co_db (sample_console ''admin'' []))"
proof -
  let ?r = "delete_server sample_console_env (sample_console ''admin'' []) (sample_request []) ''git''"
  have "fst ?r = Inr ()" by code_simp
  moreover have "map sv_slug (cd_servers (co_db (snd ?r))) = [''web'']" by code_simp
  moreover have "map sv_slug (cd_servers (co_db (sample_console ''admin'' []))) = [''git'', ''web'']" by code_simp
  ultimately have "?r = (Inr (), snd ?r)" "cd_servers (co_db (snd ?r)) \<noteq> cd_servers (co_db (sample_console ''admin'' []))"
    by (metis prod.collapse, metis list.inject list.distinct(1))
  then show ?thesis by blast
qed

theorem server_writes_authorised_witness: "may_write sample_console_env (sample_console ''admin'' []) (sample_request []) ''git'' ''admin''"
proof -
  obtain c' where c: "delete_server sample_console_env (sample_console ''admin'' []) (sample_request []) ''git'' = (Inr (), c')"
    "cd_servers (co_db c') \<noteq> cd_servers (co_db (sample_console ''admin'' []))" using sample_deleted by blast
  then have "c' \<noteq> sample_console ''admin'' []" by auto
  from server_writes_authorised [OF this] c(1) show ?thesis by blast
qed

theorem policy_write_needs_approval_witness:
  "\<exists>x c'. set_policy_route sample_console_env (sample_console ''admin'' [(''approvals_enabled'', ''true'')]) (sample_request []) ''git'' (Inr default_policy) = (Inr x, c')
     \<and> same_config (sample_console ''admin'' [(''approvals_enabled'', ''true'')]) c' \<and> length (av_proposals (wo_approvals (co_world c'))) = 1"
proof -
  let ?c = "sample_console ''admin'' [(''approvals_enabled'', ''true'')]"
  let ?r = "set_policy_route sample_console_env ?c (sample_request []) ''git'' (Inr default_policy)"
  have "case fst ?r of Inr _ \<Rightarrow> True | Inl _ \<Rightarrow> False" by code_simp
  then obtain x c' where r: "?r = (Inr x, c')" by (cases ?r) (auto split: sum.splits)
  have on: "approvals_enabled (wo_approvals (co_world ?c))" "av_proposals (wo_approvals (co_world ?c)) = []" by code_simp+
  from policy_write_needs_approval [OF r on(1)] r on(2) show ?thesis by auto
qed

lemma cfg_git: "\<exists>s. cfg_get (co_db (sample_console ''admin'' [])) ''git'' = Some s \<and> sv_id s = 1"
proof -
  have "map_option sv_id (cfg_get (co_db (sample_console ''admin'' [])) ''git'') = Some 1" by code_simp
  then show ?thesis by auto
qed

theorem deleted_server_leaves_nothing_witness:
  "\<exists>c'. delete_server sample_console_env (sample_console ''admin'' []) (sample_request []) ''git'' = (Inr (), c') \<and> cfg_get (co_db c') ''git'' = None
     \<and> health_of (co_health c') 1 = unknown_health"
proof -
  let ?c = "sample_console ''admin'' []"
  obtain c' where c: "delete_server sample_console_env ?c (sample_request []) ''git'' = (Inr (), c')" using sample_deleted by blast
  obtain s where s: "cfg_get (co_db ?c) ''git'' = Some s" "sv_id s = 1"
    using cfg_git by blast
  have "distinct (map sv_slug (cd_servers (co_db ?c)))" by code_simp
  moreover have "cv_ops (re_control (cx_route sample_console_env)) = in_memory_ops"
    by (simp add: sample_console_env_def sample_route_env_def sample_control_env_def)
  moreover have "im_invar (ct_limiter (wo_control (co_world ?c)))"
    by (simp add: sample_console_def with_db_def sample_world_def sample_control_def im_invar_def in_memory_init_def)
  ultimately show ?thesis using deleted_server_leaves_nothing [OF c s(1)] c s(2) by auto
qed

end
