(* ===== verification/Admin_Routes.thy ===== *)
theory Admin_Routes
  imports Server_Routes Gitops Audit_Query
begin

text \<open>
  The other routes of \<open>archon/api.py\<close>: keys, settings, configuration export and import, proposals, drift, statistics, usage and the caller's own account.
  They are functions of the state of \<open>Server_Routes\<close>; the audit rows (\<open>None\<close>: the store is down), the usage rollups and the cached drift are
  arguments of the routes that read them. An import that raises in its middle is answered 500; the servers it had already
  written are not tracked here.
\<close>

record 's admin_env =
  ax_console :: "'s console_env"
  ax_git :: git_env
  ax_hash :: "string \<Rightarrow> string"
  ax_token :: string
  ax_secret :: string
  ax_now :: utc

abbreviation ax_route :: "'s admin_env \<Rightarrow> 's route_env" where
  "ax_route env \<equiv> cx_route (ax_console env)"

subsection \<open>Keys\<close>

record key_response =
  kq_id :: int
  kq_name :: string
  kq_key_prefix :: string
  kq_enabled :: bool
  kq_server_scopes :: "string list option"
  kq_last_used_at :: "string option"
  kq_quota_calls :: "int option"
  kq_quota_period :: "string option"
  kq_project_id :: "int option"
  kq_project_slug :: "string option"

definition last_used_of :: "key_store \<Rightarrow> int \<Rightarrow> string option" where
  "last_used_of s i = Option.bind (find_row s (\<lambda>r. row_id r = i)) kr_last_used"

definition key_to_response :: "'s console \<Rightarrow> api_key_record \<Rightarrow> key_response" where
  "key_to_response c k = \<lparr>kq_id = ak_id k, kq_name = ak_name k, kq_key_prefix = ak_key_prefix k, kq_enabled = ak_enabled k,
     kq_server_scopes = ak_server_scopes k, kq_last_used_at = last_used_of (wo_keys (co_world c)) (ak_id k), kq_quota_calls = ak_quota_calls k,
     kq_quota_period = ak_quota_period k, kq_project_id = ak_project_id k, kq_project_slug = slug_of_project (co_world c) (ak_project_id k)\<rparr>"

definition with_keys :: "(key_store \<Rightarrow> key_store) \<Rightarrow> 's console \<Rightarrow> 's console" where
  "with_keys f c = c\<lparr>co_world := (co_world c)\<lparr>wo_keys := f (wo_keys (co_world c))\<rparr>\<rparr>"

definition list_keys :: "'s admin_env \<Rightarrow> 's console \<Rightarrow> request_ctx \<Rightarrow> int option \<Rightarrow> http_exn + key_response list" where
  "list_keys env c rq project_id =
     rbind (caller (ax_console env) c rq) (\<lambda>who.
       rbind (case project_id of
           None \<Rightarrow> if pc_role who = ''admin'' then Inr () else Inl (HttpError 403 ''insufficient role'')
         | Some pid \<Rightarrow> if project_role_at_least (resolve_project_role who pid (wo_members (co_world c))) ''admin'' then Inr ()
             else Inl (HttpError 403 ''insufficient project role'')) (\<lambda>_.
         Inr (map (key_to_response c) (key_repo_list (wo_keys (co_world c)) project_id))))"

definition MAX_QUOTA_CALLS :: int where "MAX_QUOTA_CALLS = 1000000000"

definition validate_quota_pairing :: "int option \<Rightarrow> string option \<Rightarrow> string option" where
  "validate_quota_pairing calls period =
     (if (calls = None) \<noteq> (period = None) then Some ''quota_calls and quota_period must be set together, or both omitted''
      else case calls of
          None \<Rightarrow> None
        | Some n \<Rightarrow>
            if n \<le> 0 then Some ''quota_calls must be a positive integer''
            else if n > MAX_QUOTA_CALLS then Some (''quota_calls must not exceed '' @ show_int MAX_QUOTA_CALLS)
            else if period \<notin> {Some ''day'', Some ''month''} then Some (''quota_period must be '' @ quoted ''day'' @ '' or '' @ quoted ''month'')
            else None)"

record key_create_request =
  kc_name :: string
  kc_server_scopes :: "string list option"
  kc_quota_calls :: "int option"
  kc_quota_period :: "string option"
  kc_project :: string

text \<open>The plaintext is in this answer only.\<close>

record key_created =
  kd_id :: int
  kd_name :: string
  kd_key_prefix :: string
  kd_plaintext :: string

definition scopes_json :: "string list option \<Rightarrow> json" where
  "scopes_json v = opt_json (\<lambda>ss. JList (map JStr ss)) v"

definition key_created_fields :: "key_create_request \<Rightarrow> api_key_record \<Rightarrow> json" where
  "key_created_fields b k = JObj ([(''name'', JStr (kc_name b)), (''key_prefix'', JStr (ak_key_prefix k)), (''server_scopes'', scopes_json (kc_server_scopes b))]
     @ (case kc_quota_calls b of None \<Rightarrow> [] | Some n \<Rightarrow> [(''quota_calls'', JInt n), (''quota_period'', opt_json JStr (kc_quota_period b))]))"

definition create_key_route :: "'s admin_env \<Rightarrow> 's console \<Rightarrow> request_ctx \<Rightarrow> key_create_request \<Rightarrow> (http_exn + key_created) \<times> 's console" where
  "create_key_route env c rq b =
     (case rbind (caller (ax_console env) c rq) (\<lambda>who.
        case validate_quota_pairing (kc_quota_calls b) (kc_quota_period b) of
          Some e \<Rightarrow> Inl (unprocessable [e])
        | None \<Rightarrow>
            rbind (body_project_role (ax_console env) c who (kc_project b)) (\<lambda>pid.
              case create_key (ax_hash env) (wo_keys (co_world c)) (ax_token env) (kc_name b) (kc_server_scopes b) (kc_quota_calls b) (kc_quota_period b) (Some pid) of
                None \<Rightarrow> Inl ServerError
              | Some (k, plaintext, ks) \<Rightarrow> Inr (who, k, plaintext, ks))) of
        Inl e \<Rightarrow> (Inl e, c)
      | Inr (who, k, plaintext, ks) \<Rightarrow>
          (Inr \<lparr>kd_id = ak_id k, kd_name = ak_name k, kd_key_prefix = ak_key_prefix k, kd_plaintext = plaintext\<rparr>,
           note_event (ax_console env) (with_keys (\<lambda>_. ks) c) ''key.create'' (''created API key '' @ quoted (kc_name b)) who ''key'' (Some (show_int (ak_id k)))
             None (Some (key_created_fields b k)) (rq_ip rq)))"

definition key_id_role :: "'s admin_env \<Rightarrow> 's console \<Rightarrow> request_ctx \<Rightarrow> int \<Rightarrow> http_exn + principal" where
  "key_id_role env c rq key_id =
     map_sum id fst (with_project_role (ax_route env) (co_world c) ''admin'' (ByKey ''key_id'') (rq\<lparr>rq_params := [(''key_id'', show_int key_id)]\<rparr>))"

text \<open>The key is read again after the write; the event is recorded when it existed before.\<close>

definition patch_key :: "'s admin_env \<Rightarrow> 's console \<Rightarrow> request_ctx \<Rightarrow> int \<Rightarrow> bool \<Rightarrow> (http_exn + key_response) \<times> 's console" where
  "patch_key env c rq key_id enabled =
     (case key_id_role env c rq key_id of
        Inl e \<Rightarrow> (Inl e, c)
      | Inr who \<Rightarrow>
          (let before = get_by_id (wo_keys (co_world c)) key_id; c1 = with_keys (\<lambda>s. set_enabled s key_id enabled) c in
           case get_by_id (wo_keys (co_world c1)) key_id of
             None \<Rightarrow> (Inl (not_found ''key''), c1)
           | Some after \<Rightarrow>
               (Inr (key_to_response c1 after),
                case before of
                  None \<Rightarrow> c1
                | Some k \<Rightarrow> note_event (ax_console env) c1 (if enabled then ''key.enable'' else ''key.disable'')
                    ((if enabled then ''enabled'' else ''disabled'') @ '' API key '' @ quoted (ak_name after)) who ''key'' (Some (show_int key_id))
                    (Some (JObj [(''enabled'', JBool (ak_enabled k))])) (Some (JObj [(''enabled'', JBool enabled)])) (rq_ip rq))))"

definition quota_json :: "int option \<Rightarrow> string option \<Rightarrow> json" where
  "quota_json calls period = JObj [(''quota_calls'', opt_json JInt calls), (''quota_period'', opt_json JStr period)]"

definition patch_key_quota :: "'s admin_env \<Rightarrow> 's console \<Rightarrow> request_ctx \<Rightarrow> int \<Rightarrow> int option \<Rightarrow> string option \<Rightarrow> (http_exn + key_response) \<times> 's console" where
  "patch_key_quota env c rq key_id calls period =
     (case key_id_role env c rq key_id of
        Inl e \<Rightarrow> (Inl e, c)
      | Inr who \<Rightarrow>
          (case validate_quota_pairing calls period of
             Some e \<Rightarrow> (Inl (unprocessable [e]), c)
           | None \<Rightarrow>
               (case get_by_id (wo_keys (co_world c)) key_id of
                  None \<Rightarrow> (Inl (not_found ''key''), c)
                | Some before \<Rightarrow>
                    (let c1 = with_keys (\<lambda>s. set_quota s key_id calls period) c in
                     case get_by_id (wo_keys (co_world c1)) key_id of
                       None \<Rightarrow> (Inl ServerError, c1)
                     | Some after \<Rightarrow>
                         (Inr (key_to_response c1 after),
                          note_event (ax_console env) c1 ''key.quota_update''
                            (case calls of Some n \<Rightarrow> ''set quota on API key '' @ quoted (ak_name after) @ '': '' @ show_int n @ ''/'' @ or_keep period ''None''
                               | None \<Rightarrow> ''cleared quota on API key '' @ quoted (ak_name after)) who ''key'' (Some (show_int key_id))
                            (Some (quota_json (ak_quota_calls before) (ak_quota_period before))) (Some (quota_json calls period)) (rq_ip rq))))))"

definition delete_key_route :: "'s admin_env \<Rightarrow> 's console \<Rightarrow> request_ctx \<Rightarrow> int \<Rightarrow> (http_exn + unit) \<times> 's console" where
  "delete_key_route env c rq key_id =
     (case key_id_role env c rq key_id of
        Inl e \<Rightarrow> (Inl e, c)
      | Inr who \<Rightarrow>
          (let c1 = with_keys (\<lambda>s. delete_key s key_id) c in
           (Inr (), case get_by_id (wo_keys (co_world c)) key_id of
              None \<Rightarrow> c1
            | Some k \<Rightarrow> note_event (ax_console env) c1 ''key.delete'' (''deleted API key '' @ quoted (ak_name k)) who ''key'' (Some (show_int key_id))
                (Some (JObj [(''name'', JStr (ak_name k)), (''key_prefix'', JStr (ak_key_prefix k))])) None (rq_ip rq))))"

subsection \<open>Settings\<close>

definition SETTINGS_DEFAULTS :: "string dict" where
  "SETTINGS_DEFAULTS = [(''auth_mode'', ''keyed''), (''aggregate_enabled'', ''true''), (''default_ttl_ms'', ''300000''), (''audit_retention_days'', ''30''),
     (''webhook_enabled'', ''false''), (''webhook_events'', ''blocked,unhealthy''), (''gitops_enabled'', ''false''), (''gitops_poll_seconds'', ''300''),
     (''gitops_allow_private'', ''false''), (''approvals_enabled'', ''false''), (''approvals_ttl_days'', ''7'')]"

definition settings_with_defaults :: "string dict \<Rightarrow> string dict" where
  "settings_with_defaults stored = map (\<lambda>(k, v). (k, or_keep (map_of stored k) v)) SETTINGS_DEFAULTS
     @ filter (\<lambda>(k, v). map_of SETTINGS_DEFAULTS k = None) stored"

record settings_response =
  sq_auth_mode :: string
  sq_aggregate_enabled :: bool
  sq_default_ttl_ms :: int
  sq_audit_retention_days :: int
  sq_setup_complete :: bool
  sq_webhook_url :: "string option"
  sq_webhook_enabled :: bool
  sq_webhook_events :: "string list"
  sq_webhook_allow_private :: bool
  sq_has_webhook_secret :: bool
  sq_secret_provider :: string
  sq_approvals_enabled :: bool
  sq_approvals_ttl_days :: int

definition setting :: "string dict \<Rightarrow> string \<Rightarrow> string" where
  "setting stored k = or_keep (map_of (settings_with_defaults stored) k) []"

definition read_settings :: "string \<Rightarrow> string dict \<Rightarrow> http_exn + settings_response" where
  "read_settings tier stored =
     (let values = settings_with_defaults stored in
      case (int_of_string (setting stored ''default_ttl_ms''), int_of_string (setting stored ''audit_retention_days''),
            int_of_string (setting stored ''approvals_ttl_days'')) of
        (Some ttl, Some retention, Some days) \<Rightarrow>
          Inr \<lparr>sq_auth_mode = setting stored ''auth_mode'', sq_aggregate_enabled = (setting stored ''aggregate_enabled'' = ''true''), sq_default_ttl_ms = ttl,
            sq_audit_retention_days = retention, sq_setup_complete = (map_of stored ''admin_password_hash'' \<noteq> None),
            sq_webhook_url = map_of values ''webhook_url'', sq_webhook_enabled = (setting stored ''webhook_enabled'' = ''true''),
            sq_webhook_events = str_split (CHR '','') (setting stored ''webhook_events''),
            sq_webhook_allow_private = (map_of values ''webhook_allow_private'' = Some ''true''),
            sq_has_webhook_secret = (map_of values ''webhook_secret'' \<notin> {None, Some []}), sq_secret_provider = tier,
            sq_approvals_enabled = (setting stored ''approvals_enabled'' = ''true''), sq_approvals_ttl_days = days\<rparr>
      | _ \<Rightarrow> Inl ServerError)"

definition get_settings :: "'s admin_env \<Rightarrow> 's console \<Rightarrow> request_ctx \<Rightarrow> http_exn + settings_response" where
  "get_settings env c rq = rbind (with_role (ax_route env) (co_world c) ''viewer'' rq) (\<lambda>_. read_settings (cx_tier (ax_console env)) (cd_settings (co_db c)))"

record settings_update =
  se_auth_mode :: "string option"
  se_aggregate_enabled :: "bool option"
  se_default_ttl_ms :: "int option"
  se_audit_retention_days :: "int option"
  se_webhook_url :: "string option"
  se_webhook_enabled :: "bool option"
  se_webhook_events :: "string list option"
  se_webhook_allow_private :: "bool option"
  se_approvals_enabled :: "bool option"
  se_approvals_ttl_days :: "int option"

definition VALID_EVENTS :: "string list" where
  "VALID_EVENTS = [''blocked'', ''unhealthy'', ''drift'', ''quota'', ''approval_pending'']"

definition bool_text :: "bool \<Rightarrow> string" where
  "bool_text b = (if b then ''true'' else ''false'')"

definition int_update :: "string \<Rightarrow> int option \<Rightarrow> http_exn + string dict" where
  "int_update k v = (case v of None \<Rightarrow> Inr [] | Some n \<Rightarrow> (case py_str_int n of None \<Rightarrow> Inl ServerError | Some t \<Rightarrow> Inr [(k, t)]))"

definition opt_update :: "string \<Rightarrow> ('a \<Rightarrow> string) \<Rightarrow> 'a option \<Rightarrow> string dict" where
  "opt_update k f v = (case v of None \<Rightarrow> [] | Some x \<Rightarrow> [(k, f x)])"

text \<open>The updates in the order the handler collects them; nothing is written before all are checked. The signing secret is drawn with the first URL.\<close>

definition url_updates :: "string \<Rightarrow> string dict \<Rightarrow> string option \<Rightarrow> string dict" where
  "url_updates secret stored url =
     (case url of
        None \<Rightarrow> []
      | Some u \<Rightarrow> (''webhook_url'', u) # (if u \<noteq> [] \<and> map_of stored ''webhook_secret'' = None then [(''webhook_secret'', secret)] else []))"

definition collect_updates :: "string \<Rightarrow> string dict \<Rightarrow> settings_update \<Rightarrow> http_exn + string dict" where
  "collect_updates secret stored b =
     (if se_auth_mode b \<notin> {None, Some ''open'', Some ''keyed''}
      then Inl (HttpError 400 (''auth_mode must be '' @ quoted ''open'' @ '' or '' @ quoted ''keyed''))
      else rbind (int_update ''default_ttl_ms'' (se_default_ttl_ms b)) (\<lambda>ttl.
        rbind (int_update ''audit_retention_days'' (se_audit_retention_days b)) (\<lambda>retention.
          let bad = filter (\<lambda>e. e \<notin> set VALID_EVENTS) (or_keep (se_webhook_events b) []) in
          if bad \<noteq> [] then Inl (HttpError 400 (''webhook_events contains unsupported value(s): ['' @ str_join '', '' (map repr_str bad) @ '']''))
          else if (case se_approvals_ttl_days b of None \<Rightarrow> False | Some d \<Rightarrow> d \<le> 0)
            then Inl (HttpError 400 ''approvals_ttl_days must be a positive integer (0 means keep proposals forever, set it explicitly via the settings table)'')
          else rbind (int_update SETTING_TTL_DAYS (se_approvals_ttl_days b)) (\<lambda>days.
            Inr (opt_update ''auth_mode'' id (se_auth_mode b) @ opt_update ''aggregate_enabled'' bool_text (se_aggregate_enabled b) @ ttl @ retention
              @ opt_update ''webhook_allow_private'' bool_text (se_webhook_allow_private b) @ url_updates secret stored (se_webhook_url b)
              @ opt_update ''webhook_enabled'' bool_text (se_webhook_enabled b) @ opt_update ''webhook_events'' (str_join '','') (se_webhook_events b)
              @ opt_update SETTING_ENABLED bool_text (se_approvals_enabled b) @ days)))))"

definition setting_changes :: "string dict \<Rightarrow> string dict \<Rightarrow> string list" where
  "setting_changes before after =
     List.map_filter (\<lambda>(k, v). let w = map_of after k in if w = Some v then None else Some (arrow_text k v (or_keep w ''None''))) before"

definition webhook_url_error :: "git_env \<Rightarrow> settings_update \<Rightarrow> string option" where
  "webhook_url_error env b =
     (case se_webhook_url b of
        Some (ch # u) \<Rightarrow> (case validate_webhook_url env (se_webhook_allow_private b = Some True) (ch # u) of Inl e \<Rightarrow> Some e | Inr _ \<Rightarrow> None)
      | _ \<Rightarrow> None)"

definition settings_written :: "string dict \<Rightarrow> string dict \<Rightarrow> string dict" where
  "settings_written updates stored = foldl (\<lambda>s (k, v). AList.update k v s) stored updates"

definition update_settings :: "'s admin_env \<Rightarrow> 's console \<Rightarrow> request_ctx \<Rightarrow> settings_update \<Rightarrow> (http_exn + settings_response) \<times> 's console" where
  "update_settings env c rq b =
     (case rbind (with_role (ax_route env) (co_world c) ''admin'' rq) (\<lambda>who.
        case webhook_url_error (ax_git env) b of
          Some e \<Rightarrow> Inl (unprocessable [e])
        | None \<Rightarrow> rbind (collect_updates (ax_secret env) (cd_settings (co_db c)) b) (\<lambda>updates. Inr (who, updates))) of
        Inl e \<Rightarrow> (Inl e, c)
      | Inr (who, updates) \<Rightarrow>
          (let before = filter_settings_keys (settings_with_defaults (cd_settings (co_db c)));
               c1 = with_db (\<lambda>d. d\<lparr>cd_settings := settings_written updates (cd_settings d)\<rparr>) c;
               after = filter_settings_keys (settings_with_defaults (cd_settings (co_db c1)));
               changes = setting_changes before after in
           (read_settings (cx_tier (ax_console env)) (cd_settings (co_db c1)),
            note_event (ax_console env) c1 ''settings.update'' (''updated settings'' @ (if changes = [] then '''' else '' ('' @ str_join ''; '' changes @ '')''))
              who ''settings'' None (Some (dump_strings before)) (Some (dump_strings after)) (rq_ip rq))))"

subsection \<open>Configuration\<close>

definition export_configuration :: "'s admin_env \<Rightarrow> 's console \<Rightarrow> request_ctx \<Rightarrow> bool \<Rightarrow> http_exn + string \<times> string option" where
  "export_configuration env c rq include =
     rbind (with_role (ax_route env) (co_world c) ''viewer'' rq) (\<lambda>who.
       if include \<and> \<not> role_at_least ROLE_RANK (pc_role who) ''admin'' then Inl (HttpError 403 ''include_credentials requires admin role'')
       else case export_config (cx_config (ax_console env)) (av_db (approvals_of (co_world c))) include of
           None \<Rightarrow> Inl ServerError
         | Some r \<Rightarrow> Inr (to_yaml (cx_config (ax_console env)) r, if ex_warnings r = [] then None else Some (str_join '' | '' (ex_warnings r))))"

record import_result =
  iq_applied :: bool
  iq_ok :: bool
  iq_actions :: "(import_action \<times> string) list"
  iq_warnings :: "string list"
  iq_errors :: "string list"

datatype import_answer = Imported import_result | ImportPending int string

definition import_response :: "bool \<Rightarrow> import_plan \<Rightarrow> import_result" where
  "import_response apply plan = (let applied = apply \<and> plan_ok plan in
     \<lparr>iq_applied = applied, iq_ok = plan_ok plan, iq_actions = map (\<lambda>a. (a, describe applied a)) (ip_actions plan), iq_warnings = ip_warnings plan,
      iq_errors = ip_errors plan\<rparr>)"

definition with_config :: "config_db \<Rightarrow> 's console \<Rightarrow> 's console" where
  "with_config d c = with_db (\<lambda>_. d) c"

definition import_configuration :: "'s admin_env \<Rightarrow> 's console \<Rightarrow> request_ctx \<Rightarrow> string \<Rightarrow> bool \<Rightarrow> (http_exn + import_answer) \<times> 's console" where
  "import_configuration env c rq yaml apply =
     (case with_role (ax_route env) (co_world c) ''admin'' rq of
        Inl e \<Rightarrow> (Inl e, c)
      | Inr who \<Rightarrow>
          if apply \<and> approvals_enabled (wo_approvals (co_world c))
          then (case propose_config_import (re_approval (ax_route env)) (approvals_of (co_world c)) yaml who (rq_ip rq) of
                  Inl _ \<Rightarrow> (Inl ServerError, c)
                | Inr (q, a) \<Rightarrow> (Inr (ImportPending (pp_id q) (pp_state q)), c\<lparr>co_world := (co_world c)\<lparr>wo_approvals := a\<rparr>\<rparr>))
          else (case plan_import (cx_config (ax_console env)) apply (av_db (approvals_of (co_world c))) yaml of
                  None \<Rightarrow> (Inl ServerError, c)
                | Some (plan, d) \<Rightarrow>
                    (let c1 = with_config d c in
                     (Inr (Imported (import_response apply plan)),
                      if apply \<and> plan_ok plan
                      then with_events (\<lambda>es. record_config_import (re_dumps (ax_route env)) es (map (describe True) (ip_actions plan)) (Some (actor who)) (rq_ip rq)) c1
                      else c1))))"

subsection \<open>Proposals\<close>

record proposal_response =
  pq_id :: int
  pq_target_type :: string
  pq_target_id :: string
  pq_proposer :: string
  pq_state :: string
  pq_created_at :: string
  pq_resolved_at :: "string option"
  pq_resolver :: "string option"
  pq_resolution_reason :: "string option"
  pq_project_id :: "int option"

definition proposal_to_response :: "proposal \<Rightarrow> proposal_response" where
  "proposal_to_response p = \<lparr>pq_id = pp_id p, pq_target_type = pp_target_type p, pq_target_id = pp_target_id p, pq_proposer = pp_proposer p, pq_state = pp_state p,
     pq_created_at = pp_created_at p, pq_resolved_at = pp_resolved_at p, pq_resolver = pp_resolver p, pq_resolution_reason = pp_resolution_reason p,
     pq_project_id = pp_project_id p\<rparr>"

definition PROPOSAL_STATES :: "string list" where
  "PROPOSAL_STATES = [''pending'', ''approved'', ''rejected'', ''expired'']"

definition PROPOSAL_LIMIT :: nat where "PROPOSAL_LIMIT = 200"

definition visible_projects :: "'s console \<Rightarrow> principal \<Rightarrow> int list" where
  "visible_projects c who = (case pc_user_id who of None \<Rightarrow> [] | Some uid \<Rightarrow> map pm_project_id (list_for_user (wo_members (co_world c)) uid))"

text \<open>The instance-wide list is cut to the newest 200 before it is filtered by project.\<close>

definition list_proposals :: "'s admin_env \<Rightarrow> 's console \<Rightarrow> request_ctx \<Rightarrow> string option \<Rightarrow> http_exn + proposal_response list" where
  "list_proposals env c rq state =
     rbind (with_role (ax_route env) (co_world c) ''viewer'' rq) (\<lambda>who.
       if (case state of None \<Rightarrow> False | Some s \<Rightarrow> s \<notin> set PROPOSAL_STATES)
       then Inl (HttpError 400 (''invalid state '' @ repr_str (or_keep state []) @ ''; must be one of: pending, approved, rejected, expired''))
       else let found = proposal_list (re_approval (ax_route env)) (wo_approvals (co_world c)) state None PROPOSAL_LIMIT in
         Inr (map proposal_to_response (if pc_role who = ''admin'' then found
           else filter (\<lambda>p. pp_project_id p \<in> Some ` set (visible_projects c who)) found)))"

definition proposal_role :: "'s admin_env \<Rightarrow> 's console \<Rightarrow> string \<Rightarrow> request_ctx \<Rightarrow> int \<Rightarrow> http_exn + principal \<times> proposal" where
  "proposal_role env c minimum rq i =
     require_proposal_project_role (re_control (ax_route env)) (co_world c) minimum [(''proposal_id'', show_int i)] (rq_authorization rq) (rq_cookie rq)"

definition get_proposal :: "'s admin_env \<Rightarrow> 's console \<Rightarrow> request_ctx \<Rightarrow> int \<Rightarrow> http_exn + proposal_response \<times> string list \<times> bool" where
  "get_proposal env c rq i =
     rbind (proposal_role env c ''viewer'' rq i) (\<lambda>_.
       case proposal_get (wo_approvals (co_world c)) i of
         None \<Rightarrow> Inl (not_found ''proposal'')
       | Some p \<Rightarrow> (case preview (re_approval (ax_route env)) (approvals_of (co_world c)) p of Inl _ \<Rightarrow> Inl ServerError
           | Inr (changes, stale) \<Rightarrow> Inr (proposal_to_response p, changes, stale)))"

text \<open>How the routes answer the errors of the service: the order of the \<open>except\<close> clauses, the most specific class first.\<close>

definition approve_status :: "approval_error \<Rightarrow> http_exn" where
  "approve_status e = (case e of
     ProposalNotFound _ \<Rightarrow> not_found ''proposal'' | ProposalStaleError m \<Rightarrow> HttpError 409 m | ProposalResolvedError m \<Rightarrow> HttpError 409 m
   | ProposalConflictError m \<Rightarrow> HttpError 403 m | ProposalError m \<Rightarrow> HttpError 400 m | InvalidPolicy _ \<Rightarrow> ServerError | Raised \<Rightarrow> ServerError)"

definition reject_status :: "approval_error \<Rightarrow> http_exn" where
  "reject_status e = (case e of
     ProposalNotFound _ \<Rightarrow> not_found ''proposal'' | ProposalResolvedError m \<Rightarrow> HttpError 409 m | ProposalStaleError m \<Rightarrow> HttpError 400 m
   | ProposalConflictError m \<Rightarrow> HttpError 400 m | ProposalError m \<Rightarrow> HttpError 400 m | InvalidPolicy _ \<Rightarrow> ServerError | Raised \<Rightarrow> ServerError)"

definition with_approvals :: "approvals \<Rightarrow> 's console \<Rightarrow> 's console" where
  "with_approvals a c = c\<lparr>co_world := (co_world c)\<lparr>wo_approvals := a\<rparr>\<rparr>"

definition approve_proposal :: "'s admin_env \<Rightarrow> 's console \<Rightarrow> request_ctx \<Rightarrow> int \<Rightarrow> string option \<Rightarrow> (http_exn + proposal_response) \<times> 's console" where
  "approve_proposal env c rq i reason =
     (case proposal_role env c ''admin'' rq i of
        Inl e \<Rightarrow> (Inl e, c)
      | Inr (who, _) \<Rightarrow>
          (case approve (re_approval (ax_route env)) (approvals_of (co_world c)) i who reason (rq_ip rq) of
             (Inl e, a) \<Rightarrow> (Inl (approve_status e), with_approvals a c)
           | (Inr p, a) \<Rightarrow> (Inr (proposal_to_response p), with_approvals a c)))"

definition reject_proposal :: "'s admin_env \<Rightarrow> 's console \<Rightarrow> request_ctx \<Rightarrow> int \<Rightarrow> string option \<Rightarrow> (http_exn + proposal_response) \<times> 's console" where
  "reject_proposal env c rq i reason =
     (case proposal_role env c ''admin'' rq i of
        Inl e \<Rightarrow> (Inl e, c)
      | Inr (who, _) \<Rightarrow>
          (case reject (re_approval (ax_route env)) (approvals_of (co_world c)) i who reason (rq_ip rq) of
             (Inl e, a) \<Rightarrow> (Inl (reject_status e), with_approvals a c)
           | (Inr p, a) \<Rightarrow> (Inr (proposal_to_response p), with_approvals a c)))"

subsection \<open>Drift\<close>

record drift_response =
  dq_status :: string
  dq_last_check :: "rat option"
  dq_last_error :: "string option"
  dq_actions :: "(import_action \<times> string) list"
  dq_warnings :: "string list"
  dq_errors :: "string list"

definition get_drift :: "'s admin_env \<Rightarrow> 's console \<Rightarrow> drift_state \<Rightarrow> request_ctx \<Rightarrow> http_exn + drift_response" where
  "get_drift env c st rq =
     rbind (with_role (ax_route env) (co_world c) ''viewer'' rq) (\<lambda>_.
       let plan = or_keep (dr_plan st) \<lparr>ip_actions = [], ip_warnings = [], ip_errors = []\<rparr> in
       Inr \<lparr>dq_status = dr_status st, dq_last_check = dr_last_check st, dq_last_error = dr_last_error st,
         dq_actions = map (\<lambda>a. (a, describe False a)) (ip_actions plan), dq_warnings = ip_warnings plan, dq_errors = ip_errors plan\<rparr>)"

definition reconcile_status :: "reconcile_error \<Rightarrow> http_exn" where
  "reconcile_status e = (case e of
     NoPendingPlan \<Rightarrow> HttpError 400 ''no pending plan to reconcile'' | ReconcileFetch (FetchValueError m) \<Rightarrow> HttpError 400 m
   | ReconcileFetch (FetchHttpError m) \<Rightarrow> HttpError 502 (''config source fetch failed: '' @ m) | PlanRaised \<Rightarrow> ServerError)"

definition reconcile_config ::
    "'s admin_env \<Rightarrow> 's console \<Rightarrow> drift_state \<Rightarrow> request_ctx \<Rightarrow> (http_exn + bool \<times> string list \<times> string list) \<times> 's console \<times> drift_state" where
  "reconcile_config env c st rq =
     (case with_role (ax_route env) (co_world c) ''admin'' rq of
        Inl e \<Rightarrow> (Inl e, c, st)
      | Inr _ \<Rightarrow>
          (case reconcile (ax_git env) (av_db (approvals_of (co_world c))) st of
             Inl e \<Rightarrow> (Inl (reconcile_status e), c, st)
           | Inr (plan, d, st') \<Rightarrow>
               (let actions = map (describe True) (ip_actions plan) in
                (Inr (plan_ok plan, actions, ip_errors plan),
                 with_events (\<lambda>es. record_event (re_dumps (ax_route env)) es ''config.reconcile''
                   (''reconciled from git ('' @ show_nat (length (ip_actions plan)) @ '' change(s))'') (Some ''gitops'') (Some ''config'') None None
                   (Some (JObj [(''changes'', JList (map JStr actions))])) (rq_ip rq)) (with_config d c), st'))))"

subsection \<open>Statistics, usage and the caller\<close>

record stats_response =
  sx_requests :: "nat option"
  sx_blocked :: "nat option"
  sx_allowed :: "nat option"
  sx_servers_total :: nat
  sx_servers_healthy :: nat
  sx_servers_unhealthy :: nat
  sx_server_health :: "(string \<times> string \<times> string option) list"
  sx_recent_blocked :: "audit_row list option"

definition blocked_args :: "string list option \<Rightarrow> audit_args" where
  "blocked_args slugs = \<lparr>qa_server_slug = None, qa_decision = Some ''BLOCKED'', qa_tool = None, qa_before_id = None, qa_api_key_id = None, qa_after = None,
     qa_before = None, qa_search = None, qa_origin = OriginIs None, qa_server_slug_in = slugs, qa_origin_class = None\<rparr>"

text \<open>\<open>since\<close> is the text of a day ago. When the audit store is down all four of its figures are absent.\<close>

definition get_stats :: "'s admin_env \<Rightarrow> 's console \<Rightarrow> audit_row list option \<Rightarrow> request_ctx \<Rightarrow> int option \<Rightarrow> string \<Rightarrow> http_exn + stats_response" where
  "get_stats env c audit rq project_id since =
     rbind (with_role (ax_route env) (co_world c) ''viewer'' rq) (\<lambda>_.
       let servers = filter (\<lambda>s. project_id = None \<or> sv_project_id s = project_id) (cfg_list (cx_config (ax_console env)) (co_db c));
           slugs = (if project_id = None then None else Some (map sv_slug servers));
           status = (\<lambda>s. hh_status (health_of (co_health c) (sv_id s))); le = re_le (ax_route env) in
       Inr \<lparr>sx_requests = map_option (\<lambda>rows. count_since le rows since None slugs) audit,
         sx_blocked = map_option (\<lambda>rows. count_since le rows since (Some ''BLOCKED'') slugs) audit,
         sx_allowed = map_option (\<lambda>rows. count_since le rows since (Some ''ALLOWED'') slugs) audit,
         sx_servers_total = length servers, sx_servers_healthy = length (filter (\<lambda>s. status s = ''healthy'') servers),
         sx_servers_unhealthy = length (filter (\<lambda>s. status s = ''unhealthy'') servers),
         sx_server_health = map (\<lambda>s. (sv_slug s, status s, sv_upstream_protocol s)) servers,
         sx_recent_blocked = map_option (\<lambda>rows. audit_query le rows (blocked_args slugs) 10) audit\<rparr>)"

record usage_bucket_response =
  ub_api_key_id :: "int option"
  ub_key_prefix :: "string option"
  ub_server_id :: "int option"
  ub_server_slug :: "string option"
  ub_tool :: "string option"
  ub_calls :: int

type_synonym usage_group = "int option \<times> int option \<times> string option"

definition group_of :: "rollup_key \<Rightarrow> usage_group" where
  "group_of k = (case k of (start, key, srv, tool) \<Rightarrow> (if key = 0 then None else Some key, if srv = 0 then None else Some srv, if tool = [] then None else Some tool))"

definition add_calls :: "(usage_group \<times> int) list \<Rightarrow> rollup_key \<times> rollup \<Rightarrow> (usage_group \<times> int) list" where
  "add_calls totals r = AList.update (group_of (fst r)) (or_keep (map_of totals (group_of (fst r))) 0 + ro_calls (snd r)) totals"

definition usage_bucket :: "'s admin_env \<Rightarrow> 's console \<Rightarrow> bool \<Rightarrow> usage_group \<times> int \<Rightarrow> usage_bucket_response" where
  "usage_bucket env c is_admin g = (case g of ((k, s, t), n) \<Rightarrow>
     \<lparr>ub_api_key_id = k, ub_key_prefix = (if is_admin then Option.bind k (\<lambda>i. map_option ak_key_prefix (get_by_id (wo_keys (co_world c)) i)) else None),
      ub_server_id = s, ub_server_slug = Option.bind s (\<lambda>i. map_option sv_slug (List.find (\<lambda>x. sv_id x = i) (cd_servers (co_db c)))),
      ub_tool = t, ub_calls = n\<rparr>)"

record usage_response =
  uq_period :: string
  uq_since :: "string option"
  uq_buckets :: "usage_bucket_response list"

definition usage_since :: "'s admin_env \<Rightarrow> string \<Rightarrow> string option" where
  "usage_since env period = (case period_start period (ax_now env) of Inl _ \<Rightarrow> None | Inr t \<Rightarrow> Some (isoformat t))"

definition usage_buckets :: "'s admin_env \<Rightarrow> 's console \<Rightarrow> bool \<Rightarrow> (rollup_key \<times> rollup) list \<Rightarrow> usage_bucket_response list" where
  "usage_buckets env c is_admin raw = map (usage_bucket env c is_admin) (sort_key (\<lambda>(g, n). - n) (foldl add_calls [] raw))"

definition get_usage ::
    "'s admin_env \<Rightarrow> 's console \<Rightarrow> usage_store \<Rightarrow> request_ctx \<Rightarrow> int option \<Rightarrow> string option \<Rightarrow> string option \<Rightarrow> string \<Rightarrow> int option \<Rightarrow> http_exn + usage_response" where
  "get_usage env c usage rq api_key_id server_slug tool period project_id =
     rbind (with_role (ax_route env) (co_world c) ''viewer'' rq) (\<lambda>who.
       if period \<notin> {''day'', ''month'', ''all''} then Inl (HttpError 400 (''period must be '' @ quoted ''day'' @ '', '' @ quoted ''month'' @ '', or '' @ quoted ''all''))
       else let since = usage_since env period; answer = (\<lambda>bs. Inr \<lparr>uq_period = period, uq_since = since, uq_buckets = bs\<rparr>);
            query = (\<lambda>srv. case usage_query usage api_key_id srv tool since None project_id of Inl _ \<Rightarrow> Inl ServerError
              | Inr raw \<Rightarrow> answer (usage_buckets env c (pc_role who = ''admin'') raw)) in
         case server_slug of
           None \<Rightarrow> query None
         | Some slug \<Rightarrow> (case cfg_get (co_db c) slug of None \<Rightarrow> answer [] | Some s \<Rightarrow> query (Some (sv_id s))))"

definition get_current_user :: "'s admin_env \<Rightarrow> 's console \<Rightarrow> request_ctx \<Rightarrow> http_exn + int option \<times> string option \<times> string \<times> string" where
  "get_current_user env c rq =
     rbind (with_role (ax_route env) (co_world c) ''viewer'' rq) (\<lambda>who. Inr (pc_user_id who, pc_username who, pc_role who, pc_auth_source who))"

record user_response =
  uz_id :: int
  uz_username :: string
  uz_email :: "string option"
  uz_role :: string
  uz_auth_source :: string
  uz_enabled :: bool
  uz_created_at :: string
  uz_last_login_at :: "string option"

definition user_to_response :: "user_record \<Rightarrow> user_response" where
  "user_to_response u = \<lparr>uz_id = ur_id u, uz_username = ur_username u, uz_email = ur_email u, uz_role = ur_role u, uz_auth_source = ur_auth_source u,
     uz_enabled = ur_enabled u, uz_created_at = ur_created_at u, uz_last_login_at = ur_last_login_at u\<rparr>"

definition list_users :: "'s admin_env \<Rightarrow> 's console \<Rightarrow> request_ctx \<Rightarrow> http_exn + user_response list" where
  "list_users env c rq = rbind (with_role (ax_route env) (co_world c) ''admin'' rq) (\<lambda>_. Inr (map user_to_response (order_by (re_le (ax_route env)) ur_username (ct_users (wo_control (co_world c))))))"

subsection \<open>The key table\<close>

text \<open>A row the rest of the gateway can rely on: a quota is whole and in range or absent, the scopes are absent or name a server, and the key belongs to a project.\<close>

definition key_row_typed :: "'s console \<Rightarrow> key_row \<Rightarrow> bool" where
  "key_row_typed c r \<longleftrightarrow> validate_quota_pairing (ak_quota_calls (kr_record r)) (ak_quota_period (kr_record r)) = None
     \<and> ak_server_scopes (kr_record r) \<noteq> Some [] \<and> ak_project_id (kr_record r) \<in> Some ` pj_id ` set (wo_projects (co_world c))"

definition key_table_typed :: "'s console \<Rightarrow> bool" where
  "key_table_typed c \<longleftrightarrow> keys_ok (wo_keys (co_world c)) \<and> list_all (key_row_typed c) (ks_rows (wo_keys (co_world c)))"

text \<open>Any sequence of requests on keys, each with its own clock and random token.\<close>

inductive key_traffic :: "'s console \<Rightarrow> 's console \<Rightarrow> bool" where
  start: "key_traffic c c"
| created: "key_traffic c d \<Longrightarrow> key_traffic c (snd (create_key_route env d rq b))"
| switched: "key_traffic c d \<Longrightarrow> key_traffic c (snd (patch_key env d rq i on))"
| requoted: "key_traffic c d \<Longrightarrow> key_traffic c (snd (patch_key_quota env d rq i calls period))"
| deleted: "key_traffic c d \<Longrightarrow> key_traffic c (snd (delete_key_route env d rq i))"

lemma with_keys_simps [simp]:
  "wo_keys (co_world (with_keys f c)) = f (wo_keys (co_world c))" "wo_projects (co_world (with_keys f c)) = wo_projects (co_world c)"
  "wo_keys (co_world (note_event env' c a s who tt ti b af ip)) = wo_keys (co_world c)"
  by (simp_all add: with_keys_def note_event_def with_events_def)

lemma key_table_typed_cong:
  "wo_projects (co_world c) = wo_projects (co_world c') \<Longrightarrow> wo_keys (co_world c) = wo_keys (co_world c') \<Longrightarrow> key_table_typed c = key_table_typed c'"
  by (simp add: key_table_typed_def key_row_typed_def [abs_def])

lemma typed_noted [simp]: "key_table_typed (note_event env c a s who tt ti b af ip) = key_table_typed c"
  by (rule key_table_typed_cong) simp_all

lemma typed_map_row:
  assumes "key_table_typed c" and "keys_ok (map_row (wo_keys (co_world c)) i f)" and "\<And>r. key_row_typed c r \<Longrightarrow> key_row_typed c (f r)"
  shows "key_table_typed (with_keys (\<lambda>s. map_row s i f) c)"
  using assms by (auto simp: key_table_typed_def key_row_typed_def [abs_def] list_all_iff map_row_def)

lemma typed_set_enabled: "key_table_typed c \<Longrightarrow> key_table_typed (with_keys (\<lambda>s. set_enabled s i on) c)"
  using set_enabled_ok [of "wo_keys (co_world c)" i on] unfolding set_enabled_def
  by (intro typed_map_row) (auto simp: key_table_typed_def key_row_typed_def)

lemma typed_set_quota:
  "key_table_typed c \<Longrightarrow> validate_quota_pairing calls period = None \<Longrightarrow> key_table_typed (with_keys (\<lambda>s. set_quota s i calls period) c)"
  using set_quota_ok [of "wo_keys (co_world c)" i calls period] unfolding set_quota_def
  by (intro typed_map_row) (auto simp: key_table_typed_def key_row_typed_def)

lemma typed_delete: "key_table_typed c \<Longrightarrow> key_table_typed (with_keys (\<lambda>s. delete_key s i) c)"
  using delete_key_ok [of "wo_keys (co_world c)" i]
  by (auto simp: key_table_typed_def key_row_typed_def [abs_def] list_all_iff delete_key_def)

lemma body_project_exists: "body_project_role env c who slug = Inr pid \<Longrightarrow> pid \<in> pj_id ` set (wo_projects (co_world c))"
  by (auto simp: body_project_role_def resolve_project_id_def project_get_def rbind_eq_Inr find_Some_iff split: option.splits if_splits)

lemma typed_create:
  assumes "key_table_typed c" and "create_key h (wo_keys (co_world c)) token name scopes calls period (Some pid) = Some (k, plain, ks)"
    and "validate_quota_pairing calls period = None" and "pid \<in> pj_id ` set (wo_projects (co_world c))"
  shows "key_table_typed (with_keys (\<lambda>_. ks) c)"
proof -
  have k: "ak_quota_calls k = calls" "ak_quota_period k = period" "ak_project_id k = Some pid" "ak_server_scopes k \<noteq> Some []"
    using assms(2) by (auto simp: create_key_def key_repo_create_def Let_def split: if_splits option.splits list.splits)
  have "keys_ok ks" using assms(1,2) key_repo_create_ok by (auto simp: create_key_def key_table_typed_def Let_def)
  then show ?thesis using assms(1,3,4) k create_key_row(4) [OF assms(2)]
    by (auto simp: key_table_typed_def key_row_typed_def [abs_def])
qed

lemma typed_create_route:
  assumes "key_table_typed c"
  shows "key_table_typed (snd (create_key_route env c rq b))"
proof (cases "caller (ax_console env) c rq")
  case (Inr who)
  show ?thesis
  proof (cases "validate_quota_pairing (kc_quota_calls b) (kc_quota_period b)")
    case None
    show ?thesis
    proof (cases "body_project_role (ax_console env) c who (kc_project b)")
      case pid: (Inr pid)
      then show ?thesis using Inr None assms typed_create [OF assms _ None body_project_exists [OF pid]]
        by (auto simp: create_key_route_def split: option.splits)
    qed (use Inr None assms in \<open>simp add: create_key_route_def\<close>)
  qed (use Inr assms in \<open>simp add: create_key_route_def\<close>)
qed (use assms in \<open>simp add: create_key_route_def\<close>)


definition sample_admin_env :: "in_memory admin_env" where
  "sample_admin_env = \<lparr>ax_console = sample_console_env, ax_git = sample_git_env, ax_hash = id, ax_token = ''abc'', ax_secret = ''key'', ax_now = Utc 2026 1 2 3 4 5 6\<rparr>"

definition sample_key_request :: key_create_request where
  "sample_key_request = \<lparr>kc_name = ''ci'', kc_server_scopes = Some [], kc_quota_calls = Some 100, kc_quota_period = Some ''day'', kc_project = ''default''\<rparr>"


end
