(* ===== verification/Admin_Correct.thy ===== *)
theory Admin_Correct
  imports Admin_Routes
begin

text \<open>
  What the routes of \<open>Admin_Routes\<close> guarantee: settings read back as written, an import under approvals only files a proposal, an export without credentials
  does not depend on them, and the usage report adds up.
\<close>

subsection \<open>Settings\<close>

lemma map_of_map_or_keep: "map_of (map (\<lambda>(k, v). (k, or_keep (map_of stored k) v)) ds) k = map_option (or_keep (map_of stored k)) (map_of ds k)"
  by (induction ds) auto

lemma map_of_filter_absent: "map_of (filter (\<lambda>(k, v). m k = None) ds) k = (if m k = None then map_of ds k else None)"
  by (induction ds) auto

lemma settings_with_defaults_lookup:
  "map_of (settings_with_defaults stored) k = (case map_of stored k of None \<Rightarrow> map_of SETTINGS_DEFAULTS k | Some v \<Rightarrow> Some v)"
  unfolding settings_with_defaults_def map_of_append map_add_def map_of_map_or_keep map_of_filter_absent
  by (auto simp: or_keep_def split: option.splits)

lemma settings_written_lookup: "map_of (settings_written us stored) = map_of stored ++ map_of (rev us)"
  unfolding settings_written_def by (induction us arbitrary: stored) (auto simp: update_conv' map_add_def fun_eq_iff split: option.splits)

lemma opt_update_lookup [simp]: "map_of (rev (opt_update k' f v)) k = (if k = k' then map_option f v else None)"
  by (cases v) (auto simp: opt_update_def)

lemma url_updates_lookup:
  "map_of (rev (url_updates secret stored u)) k = (if k = ''webhook_url'' then u
     else if k = ''webhook_secret'' \<and> u \<notin> {None, Some []} \<and> map_of stored ''webhook_secret'' = None then Some secret else None)"
  by (cases u) (auto simp: url_updates_def)

lemma int_update_lookup:
  assumes "int_update k' v = Inr l"
  shows "map_of (rev l) k = (if k = k' then Option.bind v py_str_int else None)" and "v = Some n \<Longrightarrow> \<exists>t. py_str_int n = Some t"
  using assms by (auto simp: int_update_def split: option.splits)

lemma option_eta [simp]: "(case x of None \<Rightarrow> None | Some y \<Rightarrow> Some y) = x"
  by (cases x) auto

text \<open>The value an accepted update writes to each key.\<close>

lemma collect_updates_lookup:
  assumes "collect_updates secret stored b = Inr us"
  shows "map_of (rev us) ''auth_mode'' = se_auth_mode b" "map_of (rev us) ''aggregate_enabled'' = map_option bool_text (se_aggregate_enabled b)"
    "map_of (rev us) ''default_ttl_ms'' = Option.bind (se_default_ttl_ms b) py_str_int"
    "map_of (rev us) ''audit_retention_days'' = Option.bind (se_audit_retention_days b) py_str_int"
    "map_of (rev us) ''webhook_allow_private'' = map_option bool_text (se_webhook_allow_private b)" "map_of (rev us) ''webhook_url'' = se_webhook_url b"
    "map_of (rev us) ''webhook_secret'' = (if se_webhook_url b \<notin> {None, Some []} \<and> map_of stored ''webhook_secret'' = None then Some secret else None)"
    "map_of (rev us) ''webhook_enabled'' = map_option bool_text (se_webhook_enabled b)"
    "map_of (rev us) ''webhook_events'' = map_option (str_join '','') (se_webhook_events b)"
    "map_of (rev us) ''approvals_enabled'' = map_option bool_text (se_approvals_enabled b)"
    "map_of (rev us) ''approvals_ttl_days'' = Option.bind (se_approvals_ttl_days b) py_str_int" "map_of (rev us) ''admin_password_hash'' = None"
proof -
  obtain ttl retention days where i: "int_update ''default_ttl_ms'' (se_default_ttl_ms b) = Inr ttl"
      "int_update ''audit_retention_days'' (se_audit_retention_days b) = Inr retention" "int_update ''approvals_ttl_days'' (se_approvals_ttl_days b) = Inr days"
    and us: "us = opt_update ''auth_mode'' id (se_auth_mode b) @ opt_update ''aggregate_enabled'' bool_text (se_aggregate_enabled b) @ ttl @ retention
              @ opt_update ''webhook_allow_private'' bool_text (se_webhook_allow_private b) @ url_updates secret stored (se_webhook_url b)
              @ opt_update ''webhook_enabled'' bool_text (se_webhook_enabled b) @ opt_update ''webhook_events'' (str_join '','') (se_webhook_events b)
              @ opt_update ''approvals_enabled'' bool_text (se_approvals_enabled b) @ days"
    using assms by (auto simp: collect_updates_def rbind_eq_Inr Let_def SETTING_ENABLED_def SETTING_TTL_DAYS_def split: if_splits)
  note look = int_update_lookup(1) [OF i(1)] int_update_lookup(1) [OF i(2)] int_update_lookup(1) [OF i(3)] url_updates_lookup option.map_id
  show "map_of (rev us) ''auth_mode'' = se_auth_mode b" "map_of (rev us) ''aggregate_enabled'' = map_option bool_text (se_aggregate_enabled b)"
    "map_of (rev us) ''default_ttl_ms'' = Option.bind (se_default_ttl_ms b) py_str_int"
    "map_of (rev us) ''audit_retention_days'' = Option.bind (se_audit_retention_days b) py_str_int"
    "map_of (rev us) ''webhook_allow_private'' = map_option bool_text (se_webhook_allow_private b)" "map_of (rev us) ''webhook_url'' = se_webhook_url b"
    "map_of (rev us) ''webhook_secret'' = (if se_webhook_url b \<notin> {None, Some []} \<and> map_of stored ''webhook_secret'' = None then Some secret else None)"
    "map_of (rev us) ''webhook_enabled'' = map_option bool_text (se_webhook_enabled b)"
    "map_of (rev us) ''webhook_events'' = map_option (str_join '','') (se_webhook_events b)"
    "map_of (rev us) ''approvals_enabled'' = map_option bool_text (se_approvals_enabled b)"
    "map_of (rev us) ''approvals_ttl_days'' = Option.bind (se_approvals_ttl_days b) py_str_int" "map_of (rev us) ''admin_password_hash'' = None"
    by (simp_all add: us look map_add_def map_option_case cong: option.case_cong)
qed

lemma str_split_join:
  assumes "ws \<noteq> []" and "\<forall>w \<in> set ws. sep \<notin> set w"
  shows "str_split sep (str_join [sep] ws) = ws"
  using assms by (induction "[sep]" ws rule: str_join.induct) (auto simp: split_no_sep split_append)

lemma settings_after:
  "map_of (settings_with_defaults (settings_written us stored)) k =
     (case map_of (rev us) k of Some v \<Rightarrow> Some v | None \<Rightarrow> map_of (settings_with_defaults stored) k)"
  by (simp add: settings_with_defaults_lookup settings_written_lookup map_add_def split: option.splits)

text \<open>The settings a reader should see after an update: every value given, and every other as before. An empty list of events is stored as the empty text,
  which reads back as one empty name.\<close>

definition updated_settings :: "settings_update \<Rightarrow> string \<Rightarrow> string dict \<Rightarrow> settings_response \<Rightarrow> settings_response" where
  "updated_settings b secret stored r = \<lparr>sq_auth_mode = or_keep (se_auth_mode b) (sq_auth_mode r), sq_aggregate_enabled = or_keep (se_aggregate_enabled b) (sq_aggregate_enabled r),
     sq_default_ttl_ms = or_keep (se_default_ttl_ms b) (sq_default_ttl_ms r), sq_audit_retention_days = or_keep (se_audit_retention_days b) (sq_audit_retention_days r),
     sq_setup_complete = sq_setup_complete r, sq_webhook_url = (if se_webhook_url b = None then sq_webhook_url r else se_webhook_url b),
     sq_webhook_enabled = or_keep (se_webhook_enabled b) (sq_webhook_enabled r),
     sq_webhook_events = (case se_webhook_events b of None \<Rightarrow> sq_webhook_events r | Some [] \<Rightarrow> [''''] | Some es \<Rightarrow> es),
     sq_webhook_allow_private = or_keep (se_webhook_allow_private b) (sq_webhook_allow_private r),
     sq_has_webhook_secret = (sq_has_webhook_secret r \<or> se_webhook_url b \<notin> {None, Some []} \<and> map_of stored ''webhook_secret'' = None \<and> secret \<noteq> []),
     sq_secret_provider = sq_secret_provider r, sq_approvals_enabled = or_keep (se_approvals_enabled b) (sq_approvals_enabled r),
     sq_approvals_ttl_days = or_keep (se_approvals_ttl_days b) (sq_approvals_ttl_days r)\<rparr>"

lemma collect_updates_checked:
  assumes "collect_updates secret stored b = Inr us"
  shows "se_default_ttl_ms b = Some n \<Longrightarrow> \<exists>t. py_str_int n = Some t" "se_audit_retention_days b = Some n \<Longrightarrow> \<exists>t. py_str_int n = Some t"
    "se_approvals_ttl_days b = Some n \<Longrightarrow> \<exists>t. py_str_int n = Some t" "se_webhook_events b = Some es \<Longrightarrow> set es \<subseteq> set VALID_EVENTS"
  using assms by (auto simp: collect_updates_def rbind_eq_Inr Let_def or_keep_def int_update_def filter_empty_conv split: if_splits option.splits)

lemma valid_events_no_comma: "e \<in> set VALID_EVENTS \<Longrightarrow> CHR '','' \<notin> set e"
  by (auto simp: VALID_EVENTS_def)

lemma int_setting_after:
  assumes "int_of_string (or_keep m []) = Some old" and "\<And>n. v = Some n \<Longrightarrow> \<exists>t. py_str_int n = Some t"
  shows "int_of_string (or_keep (case Option.bind v py_str_int of Some x \<Rightarrow> Some x | None \<Rightarrow> m) []) = Some (or_keep v old)"
  using assms py_str_int_back by (cases v) (fastforce simp: or_keep_def)+

lemma bool_setting_after: "(or_keep (case map_option bool_text v of Some x \<Rightarrow> Some x | None \<Rightarrow> m) [] = ''true'') = or_keep v (or_keep m [] = ''true'')"
  by (cases v) (auto simp: or_keep_def bool_text_def)

lemma private_setting_after: "((case map_option bool_text v of Some x \<Rightarrow> Some x | None \<Rightarrow> m) = Some ''true'') = or_keep v (m = Some ''true'')"
  by (cases v) (auto simp: or_keep_def bool_text_def)

lemma events_setting_after:
  assumes "\<And>es. v = Some es \<Longrightarrow> set es \<subseteq> set VALID_EVENTS"
  shows "str_split (CHR '','') (or_keep (case map_option (str_join '','') v of Some x \<Rightarrow> Some x | None \<Rightarrow> m) []) =
    (case v of None \<Rightarrow> str_split (CHR '','') (or_keep m []) | Some [] \<Rightarrow> [''''] | Some es \<Rightarrow> es)"
  using assms valid_events_no_comma by (cases v) (auto simp: or_keep_def str_split_join subset_iff split: list.splits)

lemma text_setting_after: "or_keep (case v of Some x \<Rightarrow> Some x | None \<Rightarrow> m) [] = or_keep v (or_keep m [])"
  "(case v of Some x \<Rightarrow> Some x | None \<Rightarrow> m) = (if v = None then m else v)"
  by (cases v; simp add: or_keep_def)+

lemma secret_setting_after:
  "((case if P \<and> m = None then Some secret else None of Some x \<Rightarrow> Some x | None \<Rightarrow> m) \<notin> {None, Some []}) \<longleftrightarrow> m \<notin> {None, Some []} \<or> P \<and> m = None \<and> secret \<noteq> []"
  by auto

lemma read_settings_Inr:
  "read_settings tier stored = Inr r \<longleftrightarrow> int_of_string (setting stored ''default_ttl_ms'') = Some (sq_default_ttl_ms r)
     \<and> int_of_string (setting stored ''audit_retention_days'') = Some (sq_audit_retention_days r)
     \<and> int_of_string (setting stored ''approvals_ttl_days'') = Some (sq_approvals_ttl_days r)
     \<and> sq_auth_mode r = setting stored ''auth_mode'' \<and> sq_aggregate_enabled r = (setting stored ''aggregate_enabled'' = ''true'')
     \<and> sq_setup_complete r = (map_of stored ''admin_password_hash'' \<noteq> None) \<and> sq_webhook_url r = map_of (settings_with_defaults stored) ''webhook_url''
     \<and> sq_webhook_enabled r = (setting stored ''webhook_enabled'' = ''true'') \<and> sq_webhook_events r = str_split (CHR '','') (setting stored ''webhook_events'')
     \<and> sq_webhook_allow_private r = (map_of (settings_with_defaults stored) ''webhook_allow_private'' = Some ''true'')
     \<and> sq_has_webhook_secret r = (map_of (settings_with_defaults stored) ''webhook_secret'' \<notin> {None, Some []}) \<and> sq_secret_provider r = tier
     \<and> sq_approvals_enabled r = (setting stored ''approvals_enabled'' = ''true'')"
  by (cases r) (auto simp: read_settings_def Let_def split: option.splits)

lemma read_settings_after:
  assumes "collect_updates secret stored b = Inr us" and "read_settings tier stored = Inr r"
  shows "read_settings tier (settings_written us stored) = Inr (updated_settings b secret stored r)"
proof -
  let ?L = "map_of (settings_with_defaults (settings_written us stored))" and ?s = "setting (settings_written us stored)"
  note given = collect_updates_lookup [OF assms(1)] and old = assms(2) [unfolded read_settings_Inr setting_def]
    and checked = collect_updates_checked [OF assms(1)]
  have "int_of_string (?s ''default_ttl_ms'') = Some (or_keep (se_default_ttl_ms b) (sq_default_ttl_ms r))"
    "int_of_string (?s ''audit_retention_days'') = Some (or_keep (se_audit_retention_days b) (sq_audit_retention_days r))"
    "int_of_string (?s ''approvals_ttl_days'') = Some (or_keep (se_approvals_ttl_days b) (sq_approvals_ttl_days r))"
    unfolding setting_def settings_after given by (intro int_setting_after checked; use old in simp)+
  moreover have "(?s ''aggregate_enabled'' = ''true'') = or_keep (se_aggregate_enabled b) (sq_aggregate_enabled r)"
    "(?s ''webhook_enabled'' = ''true'') = or_keep (se_webhook_enabled b) (sq_webhook_enabled r)"
    "(?s ''approvals_enabled'' = ''true'') = or_keep (se_approvals_enabled b) (sq_approvals_enabled r)"
    "(?L ''webhook_allow_private'' = Some ''true'') = or_keep (se_webhook_allow_private b) (sq_webhook_allow_private r)"
    unfolding setting_def settings_after given bool_setting_after private_setting_after using old by simp_all
  moreover have "?s ''auth_mode'' = or_keep (se_auth_mode b) (sq_auth_mode r)"
    unfolding setting_def settings_after given text_setting_after(1) using old by simp
  moreover have "?L ''webhook_url'' = (if se_webhook_url b = None then sq_webhook_url r else se_webhook_url b)"
    unfolding setting_def settings_after given text_setting_after(2) using old by simp
  moreover have "str_split (CHR '','') (?s ''webhook_events'') = (case se_webhook_events b of None \<Rightarrow> sq_webhook_events r | Some [] \<Rightarrow> [''''] | Some es \<Rightarrow> es)"
    unfolding setting_def settings_after given using old events_setting_after [of "se_webhook_events b"] checked(4) by (simp cong: option.case_cong)
  moreover have "(?L ''webhook_secret'' \<notin> {None, Some []}) =
      (sq_has_webhook_secret r \<or> se_webhook_url b \<notin> {None, Some []} \<and> map_of stored ''webhook_secret'' = None \<and> secret \<noteq> [])"
  proof -
    have m: "map_of (settings_with_defaults stored) ''webhook_secret'' = map_of stored ''webhook_secret''"
      unfolding settings_with_defaults_lookup SETTINGS_DEFAULTS_def by (cases "map_of stored ''webhook_secret''") simp_all
    show ?thesis unfolding settings_after given m secret_setting_after using old m by simp
  qed
  moreover have "map_of (settings_written us stored) ''admin_password_hash'' = map_of stored ''admin_password_hash''"
    by (simp add: settings_written_lookup map_add_def given)
  ultimately show ?thesis using old unfolding read_settings_Inr updated_settings_def by simp
qed

text \<open>Settings read back as they were written, and an update is all or nothing: an answer with an error leaves the whole state as it was; otherwise the answer and every
  later read show each value that was given and every other value as before, and the signing secret is drawn with the
  first webhook address and kept from then on.\<close>

theorem settings_round_trip:
  assumes "update_settings env c rq b = (res, c')" and "read_settings (cx_tier (ax_console env)) (cd_settings (co_db c)) = Inr old"
  shows "case res of Inl e \<Rightarrow> c' = c
    | Inr new \<Rightarrow> new = updated_settings b (ax_secret env) (cd_settings (co_db c)) old
        \<and> read_settings (cx_tier (ax_console env)) (cd_settings (co_db c')) = Inr new"
proof -
  let ?gate = "rbind (with_role (ax_route env) (co_world c) ''admin'' rq) (\<lambda>who.
        case webhook_url_error (ax_git env) b of Some e \<Rightarrow> Inl (unprocessable [e])
        | None \<Rightarrow> rbind (collect_updates (ax_secret env) (cd_settings (co_db c)) b) (\<lambda>updates. Inr (who, updates)))"
  show ?thesis
  proof (cases ?gate)
    case (Inr x)
    then obtain who us where g: "?gate = Inr (who, us)" and us: "collect_updates (ax_secret env) (cd_settings (co_db c)) b = Inr us"
      by (cases x) (auto simp: rbind_eq_Inr split: option.splits)
    have "res = read_settings (cx_tier (ax_console env)) (settings_written us (cd_settings (co_db c)))"
        "cd_settings (co_db c') = settings_written us (cd_settings (co_db c))"
      using assms(1) unfolding update_settings_def g sum.case prod.case Let_def prod.inject by (elim conjE, hypsubst, simp)+
    then show ?thesis using read_settings_after [OF us assms(2)] by simp
  qed (use assms(1) in \<open>auto simp: update_settings_def\<close>)
qed

subsection \<open>Imports under approvals\<close>

text \<open>With approvals on, nobody applies a configuration file directly: the request leaves every server, policy and setting and the tool catalogue as they were,
  and when it is answered without an error it has filed one pending proposal, in the name of the global admin who asked, with
  exactly the text of the file.\<close>

theorem import_needs_approval:
  assumes "import_configuration env c rq yaml True = (r, c')" and "approvals_enabled (wo_approvals (co_world c))"
  shows "same_config c c' \<and> (case r of
      Inl e \<Rightarrow> c' = c
    | Inr x \<Rightarrow> \<exists>who q baseline. with_role (ax_route env) (co_world c) ''admin'' rq = Inr who \<and> x = ImportPending (pp_id q) ''pending''
        \<and> av_proposals (wo_approvals (co_world c')) = av_proposals (wo_approvals (co_world c)) @ [q] \<and> pp_state q = ''pending''
        \<and> payload_parts q = Some (JObj [(''yaml'', JStr yaml)], baseline) \<and> pp_target_type q = TARGET_CONFIG_IMPORT
        \<and> (pp_proposer_user_id q, pp_proposer q) = identity who)"
proof (cases "with_role (ax_route env) (co_world c) ''admin'' rq")
  case (Inl e)
  then show ?thesis using assms(1) by (auto simp: import_configuration_def same_config_def)
next
  case role: (Inr who)
  let ?pr = "propose_config_import (re_approval (ax_route env)) (approvals_of (co_world c)) yaml who (rq_ip rq)"
  have run: "(r, c') = (case ?pr of Inl _ \<Rightarrow> (Inl ServerError, c)
      | Inr (q, a) \<Rightarrow> (Inr (ImportPending (pp_id q) (pp_state q)), c\<lparr>co_world := (co_world c)\<lparr>wo_approvals := a\<rparr>\<rparr>))"
    using assms role by (simp add: import_configuration_def)
  show ?thesis
  proof (cases ?pr)
    case (Inl e)
    then show ?thesis using run by (simp add: same_config_def)
  next
    case (Inr y)
    obtain q a where y: "y = (q, a)" by fastforce
    obtain summary baseline where an: "announce (re_approval (ax_route env)) who (rq_ip rq) summary
        (proposal_create (re_approval (ax_route env)) (approvals_of (co_world c)) TARGET_CONFIG_IMPORT ''config''
          (JObj [(''request'', JObj [(''yaml'', JStr yaml)]), (''baseline'', JStr baseline)]) (pc_user_id who) (actor who) None) = Inr (q, a)"
      using Inr y by (auto simp: propose_config_import_def split: option.splits if_splits)
    note q = announced [OF an]
    have r: "r = Inr (ImportPending (pp_id q) ''pending'')" "c' = c\<lparr>co_world := (co_world c)\<lparr>wo_approvals := a\<rparr>\<rparr>"
      using run Inr y q(4) by simp_all
    have "same_config c c'" using q(1,2) r(2) by (simp add: same_config_def co_db_def approvals_of_def)
    moreover have "av_proposals (wo_approvals (co_world c')) = av_proposals (wo_approvals (co_world c)) @ [q]"
      using q(3) r(2) by (simp add: approvals_of_def)
    moreover have "payload_parts q = Some (JObj [(''yaml'', JStr yaml)], JStr baseline)" using q(5) by (simp add: payload_parts_def)
    ultimately show ?thesis using role r(1) q(4,6,7,9) by (auto simp: identity_def)
  qed
qed

subsection \<open>Usage\<close>

lemma add_calls_keys: "distinct (map fst t) \<Longrightarrow> distinct (map fst (add_calls t r))"
  unfolding add_calls_def by (rule distinct_update)

lemma usage_totals:
  "distinct (map fst (foldl add_calls [] raw))
   \<and> map_of (foldl add_calls [] raw) g = (if g \<in> group_of ` fst ` set raw then Some (\<Sum>x\<leftarrow>filter (\<lambda>x. group_of (fst x) = g) raw. ro_calls (snd x)) else None)"
proof (induction raw rule: rev_induct)
  case (snoc x raw)
  have z: "g \<notin> group_of ` fst ` set raw \<Longrightarrow> filter (\<lambda>x. group_of (fst x) = g) raw = []" for g by (auto simp: filter_empty_conv)
  show ?case using snoc z [of g] add_calls_keys by (auto simp: add_calls_def update_conv' or_keep_def)
qed simp

definition bucket_group :: "usage_bucket_response \<Rightarrow> usage_group" where
  "bucket_group b = (ub_api_key_id b, ub_server_id b, ub_tool b)"

lemma usage_bucket_simps: "bucket_group (usage_bucket env c is_admin x) = fst x" "ub_calls (usage_bucket env c is_admin x) = snd x"
    "\<not> is_admin \<Longrightarrow> ub_key_prefix (usage_bucket env c is_admin x) = None"
  by (auto simp: bucket_group_def usage_bucket_def split: prod.splits)

text \<open>What a report over the given rows says.\<close>

definition reports :: "usage_bucket_response list \<Rightarrow> (rollup_key \<times> rollup) list \<Rightarrow> bool" where
  "reports bs raw \<longleftrightarrow> distinct (map bucket_group bs) \<and> set (map bucket_group bs) = group_of ` fst ` set raw
     \<and> list_all (\<lambda>b. ub_calls b = (\<Sum>x\<leftarrow>filter (\<lambda>x. group_of (fst x) = bucket_group b) raw. ro_calls (snd x))) bs
     \<and> sorted_wrt (\<lambda>b b'. ub_calls b' \<le> ub_calls b) bs"

lemma usage_buckets_report: "reports (usage_buckets env c is_admin raw) raw"
proof -
  let ?t = "foldl add_calls [] raw" and ?s = "sort_key (\<lambda>(g, n). - n) (foldl add_calls [] raw)"
  have t: "distinct (map fst ?t)" "map_of ?t g = (if g \<in> group_of ` fst ` set raw then Some (\<Sum>x\<leftarrow>filter (\<lambda>x. group_of (fst x) = g) raw. ro_calls (snd x)) else None)" for g
    using usage_totals by blast+
  have "mset (map fst ?s) = mset (map fst ?t)" by simp
  then have d: "distinct (map fst ?s)" using t(1) by (metis mset_eq_imp_distinct_iff)
  have k: "fst ` set ?t = group_of ` fst ` set raw" using t(2) by (auto simp: dom_map_of_conv_image_fst [symmetric] dom_def split: if_splits)
  have v: "n = (\<Sum>x\<leftarrow>filter (\<lambda>x. group_of (fst x) = g) raw. ro_calls (snd x))" if "(g, n) \<in> set ?t" for g n
    using t(2) [of g] that t(1) by (auto split: if_splits)
  have "sorted (map (\<lambda>(g, n). - n) ?s)" by simp
  then have "sorted_wrt (\<lambda>x y. snd y \<le> snd x) ?s"
    by (simp add: sorted_map case_prod_unfold)
  then show ?thesis using d k v
    by (auto simp: reports_def usage_buckets_def usage_bucket_simps comp_def list_all_iff sorted_wrt_map)
qed

text \<open>The usage report adds up: each bucket is one combination of key, server and tool, its count is the sum of the calls of exactly the rollups of that combination
  that the filters select, no selected rollup is left out, the largest counts come first, and only a global admin sees the
  prefixes of keys.\<close>

theorem usage_report_exact:
  assumes "get_usage env c usage rq api_key_id server_slug tool period project_id = Inr r"
    and "case server_slug of None \<Rightarrow> srv = None | Some x \<Rightarrow> \<exists>s. cfg_get (co_db c) x = Some s \<and> srv = Some (sv_id s)"
  shows "\<exists>who raw. with_role (ax_route env) (co_world c) ''viewer'' rq = Inr who
    \<and> usage_query usage api_key_id srv tool (usage_since env period) None project_id = Inr raw \<and> reports (uq_buckets r) raw
    \<and> (pc_role who \<noteq> ''admin'' \<longrightarrow> list_all (\<lambda>b. ub_key_prefix b = None) (uq_buckets r))"
proof -
  obtain who where who: "with_role (ax_route env) (co_world c) ''viewer'' rq = Inr who"
    using assms(1) by (cases "with_role (ax_route env) (co_world c) ''viewer'' rq") (auto simp: get_usage_def)
  have "\<exists>raw. usage_query usage api_key_id srv tool (usage_since env period) None project_id = Inr raw
      \<and> uq_buckets r = usage_buckets env c (pc_role who = ''admin'') raw"
    using assms who by (auto simp: get_usage_def Let_def split: if_splits sum.splits option.splits)
  then obtain raw where raw: "usage_query usage api_key_id srv tool (usage_since env period) None project_id = Inr raw"
    "uq_buckets r = usage_buckets env c (pc_role who = ''admin'') raw" by blast
  moreover have "list_all (\<lambda>b. ub_key_prefix b = None) (uq_buckets r)" if "pc_role who \<noteq> ''admin''"
    using that by (auto simp: raw(2) usage_buckets_def list_all_iff usage_bucket_simps)
  ultimately show ?thesis using who usage_buckets_report [of env c "pc_role who = ''admin''" raw] by auto
qed

subsection \<open>Exports\<close>

text \<open>The state with every literal credential blanked; references stay.\<close>

definition blank_literal :: "server_record \<Rightarrow> server_record" where
  "blank_literal s = s\<lparr>sv_upstream_auth_header := map_option (\<lambda>x. if is_reference x then x else []) (sv_upstream_auth_header s)\<rparr>"

definition blank_console :: "'s console \<Rightarrow> 's console" where
  "blank_console c = with_db (\<lambda>d. d\<lparr>cd_servers := map blank_literal (cd_servers d)\<rparr>) c"

lemma blank_literal_simps [simp]:
  "sv_id (blank_literal s) = sv_id s" "sv_slug (blank_literal s) = sv_slug s" "sv_project_id (blank_literal s) = sv_project_id s"
  "sv_name (blank_literal s) = sv_name s" "sv_upstream_url (blank_literal s) = sv_upstream_url s" "sv_enabled (blank_literal s) = sv_enabled s"
  "sv_in_aggregate (blank_literal s) = sv_in_aggregate s" "sv_credential_mode (blank_literal s) = sv_credential_mode s"
  by (simp_all add: blank_literal_def)

lemma blank_not_reference: "\<not> is_reference []"
  by (simp add: is_reference_def)

lemma exported_blank: "exported_credential False (blank_literal s) = exported_credential False s"
  by (auto simp: exported_credential_def blank_literal_def blank_not_reference split: option.splits)

lemma literal_blank: "literal_credentials (map blank_literal ss) = literal_credentials ss"
  by (induction ss) (auto simp: literal_credentials_def blank_literal_def blank_not_reference split: option.splits)

lemma export_servers_blank:
  "export_servers e (d\<lparr>cd_servers := map blank_literal (cd_servers d)\<rparr>) False (map blank_literal ss) = export_servers e d False ss"
  by (induction ss) (simp_all add: export_entry_def exported_blank cfg_get_policy_def)

lemma export_config_blank: "export_config e (d\<lparr>cd_servers := map blank_literal (cd_servers d)\<rparr>) False = export_config e d False"
proof -
  have "cfg_list e (d\<lparr>cd_servers := map blank_literal (cd_servers d)\<rparr>) = map blank_literal (cfg_list e d)"
    by (simp add: cfg_list_def order_by_map)
  then show ?thesis by (simp add: export_config_def export_servers_blank literal_blank)
qed

lemma blank_reads:
  "with_role env (co_world (blank_console c)) minimum rq = with_role env (co_world c) minimum rq"
  "av_db (approvals_of (co_world (blank_console c))) = (av_db (approvals_of (co_world c)))\<lparr>cd_servers := map blank_literal (cd_servers (av_db (approvals_of (co_world c))))\<rparr>"
  by (simp_all add: blank_console_def with_db_def co_db_def with_role_def control_of_def approvals_of_def)

lemma admin_rank: "role_at_least ROLE_RANK role ''admin'' \<Longrightarrow> role = ''admin''"
  by (auto simp: role_at_least_def ROLE_RANK_def split: if_splits option.splits)

text \<open>The exported file gives no literal credential away: unless a global admin asked for credentials, the file and its warnings are the same whatever the literal
  upstream credentials are, and everybody else who asks for them is refused.\<close>

theorem export_hides_literals:
  assumes "include \<longrightarrow> (\<forall>who. with_role (ax_route env) (co_world c) ''viewer'' rq = Inr who \<longrightarrow> pc_role who \<noteq> ''admin'')"
  shows "export_configuration env (blank_console c) rq include = export_configuration env c rq include
    \<and> (include \<longrightarrow> (\<exists>e. export_configuration env c rq include = Inl e))"
proof (cases "with_role (ax_route env) (co_world c) ''viewer'' rq")
  case (Inl e)
  then show ?thesis by (simp add: export_configuration_def blank_reads)
next
  case (Inr who)
  show ?thesis
  proof (cases "include")
    case True
    then have "\<not> role_at_least ROLE_RANK (pc_role who) ''admin''" using assms Inr admin_rank by blast
    with True Inr show ?thesis by (simp add: export_configuration_def blank_reads)
  next
    case False
    then show ?thesis by (simp add: export_configuration_def blank_reads export_config_blank)
  qed
qed

subsection \<open>Sample requests\<close>

definition sample_update :: settings_update where
  "sample_update = \<lparr>se_auth_mode = Some ''open'', se_aggregate_enabled = None, se_default_ttl_ms = Some 5, se_audit_retention_days = None, se_webhook_url = None,
     se_webhook_enabled = None, se_webhook_events = Some [''quota'', ''drift''], se_webhook_allow_private = None, se_approvals_enabled = None,
     se_approvals_ttl_days = None\<rparr>"

definition sample_usage :: usage_store where
  "sample_usage = \<lparr>us_up = True, us_rows = [((''2026-01-02T03'', 1, 1, ''read''), \<lparr>ro_calls = 2, ro_project_id = Some 1\<rparr>),
     ((''2026-01-02T04'', 1, 1, ''read''), \<lparr>ro_calls = 3, ro_project_id = Some 1\<rparr>)]\<rparr>"

theorem settings_round_trip_witness:
  "\<exists>new c'. update_settings sample_admin_env (sample_console ''admin'' []) (sample_request []) sample_update = (Inr new, c')
     \<and> read_settings ''local'' (cd_settings (co_db c')) = Inr new \<and> sq_webhook_events new = [''quota'', ''drift'']"
proof -
  let ?c = "sample_console ''admin'' []" and ?r = "update_settings sample_admin_env (sample_console ''admin'' []) (sample_request []) sample_update"
  have tier: "cx_tier (ax_console sample_admin_env) = ''local''" by (simp add: sample_admin_env_def sample_console_env_def)
  have "case read_settings (cx_tier (ax_console sample_admin_env)) (cd_settings (co_db ?c)) of Inr _ \<Rightarrow> True | Inl _ \<Rightarrow> False" by code_simp
  then obtain old where old: "read_settings (cx_tier (ax_console sample_admin_env)) (cd_settings (co_db ?c)) = Inr old" by (auto split: sum.splits)
  have "case fst ?r of Inr _ \<Rightarrow> True | Inl _ \<Rightarrow> False" by code_simp
  then obtain new where new: "fst ?r = Inr new" by (auto split: sum.splits)
  then have r: "?r = (Inr new, snd ?r)" by (metis prod.collapse)
  from settings_round_trip [OF r old] have "new = updated_settings sample_update (ax_secret sample_admin_env) (cd_settings (co_db ?c)) old"
    "read_settings ''local'' (cd_settings (co_db (snd ?r))) = Inr new" by (simp_all add: tier)
  with r show ?thesis by (intro exI [of _ new] exI [of _ "snd ?r"]) (simp add: updated_settings_def sample_update_def)
qed

theorem import_needs_approval_witness:
  "\<exists>x c'. import_configuration sample_admin_env (sample_console ''admin'' [(''approvals_enabled'', ''true'')]) (sample_request []) ''file'' True = (Inr x, c')
     \<and> same_config (sample_console ''admin'' [(''approvals_enabled'', ''true'')]) c' \<and> length (av_proposals (wo_approvals (co_world c'))) = 1"
proof -
  let ?c = "sample_console ''admin'' [(''approvals_enabled'', ''true'')]"
  let ?r = "import_configuration sample_admin_env ?c (sample_request []) ''file'' True"
  have "case fst ?r of Inr _ \<Rightarrow> True | Inl _ \<Rightarrow> False" by code_simp
  then obtain x where "fst ?r = Inr x" by (auto split: sum.splits)
  then have r: "?r = (Inr x, snd ?r)" by (metis prod.collapse)
  have on: "approvals_enabled (wo_approvals (co_world ?c))" "av_proposals (wo_approvals (co_world ?c)) = []" by code_simp+
  from import_needs_approval [OF r on(1)] on(2) have "same_config ?c (snd ?r)" "length (av_proposals (wo_approvals (co_world (snd ?r)))) = 1" by auto
  with r show ?thesis by blast
qed

theorem usage_report_exact_witness:
  "\<exists>r raw. get_usage sample_admin_env (sample_console ''viewer'' []) sample_usage (sample_request []) None None None ''month'' None = Inr r
     \<and> reports (uq_buckets r) raw \<and> length raw = 2"
proof -
  let ?g = "get_usage sample_admin_env (sample_console ''viewer'' []) sample_usage (sample_request []) None None None ''month'' None"
  have "case ?g of Inr _ \<Rightarrow> True | Inl _ \<Rightarrow> False" by code_simp
  then obtain r where r: "?g = Inr r" by (auto split: sum.splits)
  have "(case usage_query sample_usage None None None (usage_since sample_admin_env ''month'') None None of Inr raw \<Rightarrow> length raw | Inl _ \<Rightarrow> 0) = 2" by code_simp
  then show ?thesis using usage_report_exact [OF r, of None] r by auto
qed

theorem export_hides_literals_witness:
  "export_configuration sample_admin_env (blank_console (sample_console ''viewer'' [])) (sample_request []) True
   = export_configuration sample_admin_env (sample_console ''viewer'' []) (sample_request []) True
   \<and> (\<exists>e. export_configuration sample_admin_env (sample_console ''viewer'' []) (sample_request []) True = Inl e)"
proof -
  have "map_sum (\<lambda>_. ()) pc_role (with_role (ax_route sample_admin_env) (co_world (sample_console ''viewer'' [])) ''viewer'' (sample_request [])) = Inr ''viewer''"
    by code_simp
  then have "pc_role who \<noteq> ''admin''" if "with_role (ax_route sample_admin_env) (co_world (sample_console ''viewer'' [])) ''viewer'' (sample_request []) = Inr who" for who
    using that by auto
  then show ?thesis
    using export_hides_literals [of True sample_admin_env "sample_console ''viewer'' []" "sample_request []"] by blast
qed

end
