(* ===== verification/Secrets.thy ===== *)
theory Secrets
  imports Config_Io Response_Dlp Passwords Tools_Cache
begin

text \<open>
  The secret providers that need no network, \<open>archon/secrets/__init__.py\<close>, \<open>local.py\<close> and \<open>encrypted.py\<close>, and the rewriting of stored credentials after a key
  rotation, \<open>argus/reencrypt.py\<close>. AES-GCM is a pair of functions of key, nonce and data, \<open>gc_encrypt\<close> and \<open>gc_decrypt\<close> (\<open>None\<close>: \<open>InvalidTag\<close>); the environment
  and the file system are functions from names to texts. Bytes and characters are both \<open>char\<close>; a plaintext is a text of
  code points below 256, the bytes are its UTF-8.
\<close>

subsection \<open>Text and bytes\<close>

text \<open>Strict decoding; \<open>None\<close> is the \<open>UnicodeDecodeError\<close>.\<close>

fun utf8_decode :: "string \<Rightarrow> string option" where
  "utf8_decode [] = Some []"
| "utf8_decode (b # bs) =
     (let n = of_char b :: nat in
      if n < 128 then map_option (Cons b) (utf8_decode bs)
      else if n = 194 \<or> n = 195 then
        (case bs of [] \<Rightarrow> None
         | c # cs \<Rightarrow> if 128 \<le> (of_char c :: nat) \<and> (of_char c :: nat) < 192
             then map_option (Cons (char_of ((n - 192) * 64 + (of_char c - 128)))) (utf8_decode cs) else None)
      else None)"

text \<open>The standard alphabet of base64, and the loop of \<open>binascii.a2b_base64\<close> in strict mode: position in the quad, bits left over, pads, and whether padding has
  begun.\<close>

definition std_char :: "char \<Rightarrow> char" where
  "std_char c = (if c = CHR ''-'' then CHR ''+'' else if c = CHR ''_'' then CHR ''/'' else c)"

definition std_b64encode :: "string \<Rightarrow> string" where
  "std_b64encode data = map std_char (urlsafe_b64encode (map of_char data))"

definition std_b64_val :: "char \<Rightarrow> nat option" where
  "std_b64_val c = (if c = CHR ''-'' \<or> c = CHR ''_'' then None else b64_val c)"

fun a2b_strict :: "nat \<Rightarrow> nat \<Rightarrow> nat \<Rightarrow> bool \<Rightarrow> string \<Rightarrow> string option" where
  "a2b_strict q left pads padding [] = (if q = 0 then Some [] else None)"
| "a2b_strict q left pads padding (c # cs) =
     (if c = CHR ''=''
      then if 2 \<le> q \<and> 4 \<le> q + Suc pads then (if cs = [] then Some [] else None)
           else a2b_strict q left (if 2 \<le> q then Suc pads else pads) True cs
      else case std_b64_val c of
          None \<Rightarrow> None
        | Some v \<Rightarrow>
            if padding then None
            else if q = 0 then a2b_strict 1 v 0 False cs
            else if q = 1 then map_option (Cons (char_of (left * 4 + v div 16))) (a2b_strict 2 (v mod 16) 0 False cs)
            else if q = 2 then map_option (Cons (char_of (left * 16 + v div 4))) (a2b_strict 3 (v mod 4) 0 False cs)
            else map_option (Cons (char_of (left * 64 + v))) (a2b_strict 0 0 0 False cs))"

definition std_b64decode :: "string \<Rightarrow> string option" where
  "std_b64decode s = (case s of CHR ''='' # _ \<Rightarrow> None | _ \<Rightarrow> if list_all (\<lambda>c. (of_char c :: nat) < 128) s then a2b_strict 0 0 0 False s else None)"

subsection \<open>Keys\<close>

definition PREFIX :: string where "PREFIX = ''enc:v1:''"
definition KEY_LENGTH_BYTES :: nat where "KEY_LENGTH_BYTES = 32"
definition NONCE_LENGTH_BYTES :: nat where "NONCE_LENGTH_BYTES = 12"

definition bad_length :: "string \<Rightarrow> string \<Rightarrow> string" where
  "bad_length before key = before @ show_nat (length key) @ '' bytes; AES-256-GCM requires exactly '' @ show_nat KEY_LENGTH_BYTES"

text \<open>Left: the message of \<open>EncryptedProviderConfigError\<close>.\<close>

definition parse_key_material :: "string \<Rightarrow> string + string" where
  "parse_key_material raw0 =
     (let raw = str_strip raw0; hex = (if length raw = KEY_LENGTH_BYTES * 2 then bytes_fromhex raw else None) in
      case hex of
        Some key \<Rightarrow> if length key = KEY_LENGTH_BYTES then Inr key else
          (case std_b64decode raw of
             None \<Rightarrow> Inl ''key material is neither 64 hex chars nor valid base64 for a 32-byte AES-256 key''
           | Some k \<Rightarrow> if length k = KEY_LENGTH_BYTES then Inr k else Inl (bad_length ''key material decoded to '' k))
      | None \<Rightarrow>
          (case std_b64decode raw of
             None \<Rightarrow> Inl ''key material is neither 64 hex chars nor valid base64 for a 32-byte AES-256 key''
           | Some k \<Rightarrow> if length k = KEY_LENGTH_BYTES then Inr k else Inl (bad_length ''key material decoded to '' k)))"

text \<open>Where keys come from: environment variables, and files, whose reading fails with a message.\<close>

record key_env =
  kx_environ :: "string \<Rightarrow> string option"
  kx_file :: "string \<Rightarrow> string + string"

definition getenv :: "key_env \<Rightarrow> string \<Rightarrow> string option" where
  "getenv e name = (case kx_environ e name of Some (c # s) \<Rightarrow> Some (c # s) | _ \<Rightarrow> None)"

definition read_key_file :: "key_env \<Rightarrow> string \<Rightarrow> string + string" where
  "read_key_file e path = (case kx_file e path of Inl m \<Rightarrow> Inl (''could not read key file '' @ repr_str path @ '': '' @ m) | Inr t \<Rightarrow> Inr t)"

definition env_key_source :: "key_env \<Rightarrow> string \<Rightarrow> string + string" where
  "env_key_source e name = (case getenv e name of None \<Rightarrow> Inl (name @ '' is not set'') | Some raw \<Rightarrow> parse_key_material raw)"

definition file_key_source :: "key_env \<Rightarrow> string \<Rightarrow> string + string" where
  "file_key_source e path = rbind (read_key_file e path) parse_key_material"

definition build_key_source :: "key_env \<Rightarrow> string + string" where
  "build_key_source e =
     (if getenv e ''ACROPOLIS_SECRET_KEY'' \<noteq> None then env_key_source e ''ACROPOLIS_SECRET_KEY''
      else case getenv e ''ACROPOLIS_SECRET_KEY_FILE'' of
          Some f \<Rightarrow> file_key_source e f
        | None \<Rightarrow> Inl (''encrypted secret provider selected but neither ACROPOLIS_SECRET_KEY nor ACROPOLIS_SECRET_KEY_FILE is set '' @ em_dash
            @ '' a key is required, there is no default''))"

fun traverse :: "('a \<Rightarrow> 'e + 'b) \<Rightarrow> 'a list \<Rightarrow> 'e + 'b list" where
  "traverse f [] = Inr []"
| "traverse f (x # xs) = rbind (f x) (\<lambda>y. rbind (traverse f xs) (\<lambda>ys. Inr (y # ys)))"

text \<open>\<open>KeyRing\<close>: the first key writes, all of them read.\<close>

definition key_ring :: "string list \<Rightarrow> string + string list" where
  "key_ring keys =
     (if keys = [] then Inl (''key ring is empty '' @ em_dash @ '' at least one key is required'')
      else case List.find (\<lambda>k. length k \<noteq> KEY_LENGTH_BYTES) keys of
          Some k \<Rightarrow> Inl (bad_length ''key ring contains a key of '' k)
        | None \<Rightarrow> Inr keys)"

definition key_parts :: "char \<Rightarrow> string \<Rightarrow> string list" where
  "key_parts sep raw = filter (\<lambda>p. p \<noteq> []) (map str_strip (str_split sep raw))"

definition env_key_ring_source :: "key_env \<Rightarrow> string \<Rightarrow> string + string list" where
  "env_key_ring_source e name =
     (case getenv e name of
        None \<Rightarrow> Inl (name @ '' is not set'')
      | Some raw \<Rightarrow> if key_parts (CHR '','') raw = [] then Inl (name @ '' is set but contains no key material'')
          else traverse parse_key_material (key_parts (CHR '','') raw))"

text \<open>The line boundaries of \<open>str.splitlines\<close> below 256; the empty lines that a pair of them makes are dropped anyway.\<close>

definition line_break :: "char \<Rightarrow> bool" where
  "line_break c \<longleftrightarrow> (let n = of_char c :: nat in 10 \<le> n \<and> n \<le> 13 \<or> 28 \<le> n \<and> n \<le> 30 \<or> n = 133)"

definition file_lines :: "string \<Rightarrow> string list" where
  "file_lines t = key_parts (CHR 0x0A) (map (\<lambda>c. if line_break c then CHR 0x0A else c) t)"

definition file_key_ring_source :: "key_env \<Rightarrow> string \<Rightarrow> string + string list" where
  "file_key_ring_source e path =
     rbind (read_key_file e path) (\<lambda>t.
       if file_lines t = [] then Inl (''key file '' @ repr_str path @ '' contains no key material'') else traverse parse_key_material (file_lines t))"

definition build_key_ring :: "key_env \<Rightarrow> string + string list" where
  "build_key_ring e =
     (let plural_env = getenv e ''ACROPOLIS_SECRET_KEYS''; plural_file = getenv e ''ACROPOLIS_SECRET_KEYS_FILE'' in
      if (plural_env \<noteq> None \<or> plural_file \<noteq> None) \<and> (getenv e ''ACROPOLIS_SECRET_KEY'' \<noteq> None \<or> getenv e ''ACROPOLIS_SECRET_KEY_FILE'' \<noteq> None)
      then Inl (''both the plural (ACROPOLIS_SECRET_KEYS[_FILE]) and singular (ACROPOLIS_SECRET_KEY[_FILE]) key variables are set ''
        @ em_dash @ '' use the plural form for a key ring, or the singular form for a single key, not both'')
      else if plural_env \<noteq> None then rbind (env_key_ring_source e ''ACROPOLIS_SECRET_KEYS'') key_ring
      else case plural_file of
          Some f \<Rightarrow> rbind (file_key_ring_source e f) key_ring
        | None \<Rightarrow> rbind (build_key_source e) (\<lambda>k. key_ring [k]))"

subsection \<open>The providers\<close>

definition local_resolve :: "string \<Rightarrow> secret_error + string" where
  "local_resolve ref = Inr ref"

definition local_store :: "string \<Rightarrow> string \<Rightarrow> string" where
  "local_store ref v = v"

record gcm =
  gc_encrypt :: "string \<Rightarrow> string \<Rightarrow> string \<Rightarrow> string"
  gc_decrypt :: "string \<Rightarrow> string \<Rightarrow> string \<Rightarrow> string option"

text \<open>The first key whose tag check passes decides; its bytes may still fail to decode, which no clause catches.\<close>

fun try_keys :: "gcm \<Rightarrow> string \<Rightarrow> string \<Rightarrow> string list \<Rightarrow> secret_error + string" where
  "try_keys g nonce ct [] = Inl (SecretResolutionError ''decryption failed (wrong key or corrupted ciphertext)'')"
| "try_keys g nonce ct (k # ks) =
     (case gc_decrypt g k nonce ct of
        None \<Rightarrow> try_keys g nonce ct ks
      | Some bytes \<Rightarrow> (case utf8_decode bytes of None \<Rightarrow> Inl SecretUncaught | Some t \<Rightarrow> Inr t))"

definition encrypted_resolve :: "gcm \<Rightarrow> string list \<Rightarrow> string \<Rightarrow> secret_error + string" where
  "encrypted_resolve g ring ref =
     (if \<not> prefix PREFIX ref then Inl (SecretResolutionError ''not an enc:v1: ciphertext'')
      else case std_b64decode (drop (length PREFIX) ref) of
          None \<Rightarrow> Inl (SecretResolutionError ''ciphertext is not valid base64'')
        | Some blob \<Rightarrow>
            if length blob < NONCE_LENGTH_BYTES then Inl (SecretResolutionError ''ciphertext too short to contain a nonce'')
            else try_keys g (take NONCE_LENGTH_BYTES blob) (drop NONCE_LENGTH_BYTES blob) ring)"

text \<open>\<open>nonce\<close> is what \<open>os.urandom\<close> draws.\<close>

definition encrypted_store :: "gcm \<Rightarrow> string list \<Rightarrow> string \<Rightarrow> string \<Rightarrow> string" where
  "encrypted_store g ring nonce v = PREFIX @ std_b64encode (nonce @ gc_encrypt g (hd ring) nonce (utf8_encode v))"

definition resolve_upstream_auth_header :: "(string \<Rightarrow> secret_error + string) \<Rightarrow> string option \<Rightarrow> secret_error + string option" where
  "resolve_upstream_auth_header resolve v = (case v of None \<Rightarrow> Inr None | Some r \<Rightarrow> map_sum id Some (resolve r))"

subsection \<open>Re-encryption\<close>

record reencrypt_result =
  re_scanned :: nat
  re_reencrypted :: nat
  re_skipped :: nat
  re_failed :: "(string \<times> secret_error) list"

text \<open>One server of the walk: the row read at its start, the table, and the nonce of the write. \<open>None\<close>: an exception ends the walk.\<close>

definition reencrypt_one ::
    "gcm \<Rightarrow> string list \<Rightarrow> bool \<Rightarrow> string \<Rightarrow> server_record \<Rightarrow> reencrypt_result \<times> config_db \<Rightarrow> (reencrypt_result \<times> config_db) option" where
  "reencrypt_one g ring dry_run nonce server acc = (case acc of (r0, d) \<Rightarrow>
     let r = r0\<lparr>re_scanned := Suc (re_scanned r0)\<rparr> in
     case sv_upstream_auth_header server of
       None \<Rightarrow> Some (r\<lparr>re_skipped := Suc (re_skipped r)\<rparr>, d)
     | Some ref \<Rightarrow>
         if \<not> prefix PREFIX ref then Some (r\<lparr>re_skipped := Suc (re_skipped r)\<rparr>, d)
         else case encrypted_resolve g ring ref of
             Inl SecretUncaught \<Rightarrow> None
           | Inl e \<Rightarrow> Some (r\<lparr>re_failed := re_failed r @ [(sv_slug server, e)]\<rparr>, d)
           | Inr plaintext \<Rightarrow> Some (r\<lparr>re_reencrypted := Suc (re_reencrypted r)\<rparr>,
               if dry_run then d else cfg_update d (sv_slug server) (\<lambda>s. s\<lparr>sv_upstream_auth_header := Some (encrypted_store g ring nonce plaintext)\<rparr>)))"

fun reencrypt_walk :: "gcm \<Rightarrow> string list \<Rightarrow> bool \<Rightarrow> string list \<Rightarrow> server_record list \<Rightarrow> reencrypt_result \<times> config_db \<Rightarrow> (reencrypt_result \<times> config_db) option" where
  "reencrypt_walk g ring dry_run nonces [] acc = Some acc"
| "reencrypt_walk g ring dry_run nonces (s # ss) acc = Option.bind (reencrypt_one g ring dry_run (hd nonces) s acc) (reencrypt_walk g ring dry_run (tl nonces) ss)"

definition reencrypt_credentials :: "config_env \<Rightarrow> gcm \<Rightarrow> string list \<Rightarrow> bool \<Rightarrow> string list \<Rightarrow> config_db \<Rightarrow> (reencrypt_result \<times> config_db) option" where
  "reencrypt_credentials env g ring dry_run nonces d =
     reencrypt_walk g ring dry_run nonces (cfg_list env d) (\<lparr>re_scanned = 0, re_reencrypted = 0, re_skipped = 0, re_failed = []\<rparr>, d)"

subsection \<open>Round trips of the texts\<close>

lemma utf8_decode_char: "utf8_decode (utf8_char c @ s) = map_option (Cons c) (utf8_decode s)"
proof (cases "(of_char c :: nat) < 128")
  case False
  let ?n = "of_char c :: nat"
  have n: "128 \<le> ?n" "?n < 256" using False of_char_bytes [of "[c]"] by auto
  have "2 \<le> ?n div 64" "?n div 64 < 4" using div_le_mono [OF n(1), of 64] less_mult_imp_div_less [of ?n 4 64] n(2) by simp_all
  then have "?n div 64 = 2 \<or> ?n div 64 = 3" by linarith
  moreover have "char_of (128 + ?n mod 64) = c" if "?n div 64 = 2" 
  proof -
    have "128 + ?n mod 64 = ?n" using that div_mult_mod_eq [of ?n 64] by simp
    then show ?thesis by (metis char_of_char)
  qed
  moreover have "char_of (192 + ?n mod 64) = c" if "?n div 64 = 3"
  proof -
    have "192 + ?n mod 64 = ?n" using that div_mult_mod_eq [of ?n 64] by simp
    then show ?thesis by (metis char_of_char)
  qed
  ultimately show ?thesis using n by (auto simp: utf8_char_def Let_def)
qed (simp add: utf8_char_def)

lemma utf8_round_trip [simp]: "utf8_decode (utf8_encode s) = Some s"
  by (induction s) (simp_all add: utf8_encode_def utf8_decode_char)

lemma std_char_neq: "c \<noteq> CHR ''='' \<Longrightarrow> std_char c \<noteq> CHR ''=''" "std_char (CHR ''='') = CHR ''=''"
  by (simp_all add: std_char_def)

lemma std_val_char: "n < 64 \<Longrightarrow> std_b64_val (std_char (b64_char n)) = Some n"
  using b64_val_char [of n] by (auto simp: std_b64_val_def std_char_def b64_val_def Let_def is_upper_az_def is_lower_az_def is_digit_def split: if_splits)

lemma std_char_plain: "n < 64 \<Longrightarrow> std_char (b64_char n) \<noteq> CHR ''=''"
  using b64_char_plain [of n] std_char_neq(1) by blast

lemmas std_char_simps = std_val_char std_char_plain std_char_neq(2)

lemma strict_encode:
  "list_all (\<lambda>n. n < 256) ns \<Longrightarrow> a2b_strict 0 0 p False (map std_char (urlsafe_b64encode ns)) = Some (map char_of ns)"
proof (induction ns arbitrary: p rule: urlsafe_b64encode.induct)
  case (2 a)
  then have "a div 4 < 64" "a mod 4 * 16 < 64" by auto
  then show ?case by (simp add: std_char_simps)
next
  case (3 a b)
  then have "a div 4 < 64" "a mod 4 * 16 + b div 16 < 64" "b mod 16 * 4 < 64" by (auto simp: less_mult_imp_div_less)
  moreover have "(a mod 4 * 16 + b div 16) div 16 = a mod 4" "(a mod 4 * 16 + b div 16) mod 16 = b div 16" using 3 by auto
  ultimately show ?case by (simp add: std_char_simps)
next
  case (4 a b c r)
  then have "a div 4 < 64" "a mod 4 * 16 + b div 16 < 64" "b mod 16 * 4 + c div 64 < 64" "c mod 64 < 64" by auto
  moreover have "(a mod 4 * 16 + b div 16) div 16 = a mod 4" "(a mod 4 * 16 + b div 16) mod 16 = b div 16"
    "(b mod 16 * 4 + c div 64) div 4 = b mod 16" "(b mod 16 * 4 + c div 64) mod 4 = c div 64" using 4 by auto
  ultimately show ?case using 4 by (simp add: std_char_simps)
qed simp

lemma std_encode_ascii: "list_all (\<lambda>n. n < 256) ns \<Longrightarrow> list_all (\<lambda>c. (of_char c :: nat) < 128) (map std_char (urlsafe_b64encode ns))"
proof (induction ns rule: urlsafe_b64encode.induct)
  case (2 a)
  then have "a div 4 < 64" "a mod 4 * 16 < 64" by auto
  then show ?case using b64_char_plain by (auto simp: std_char_def)
next
  case (3 a b)
  then have "a div 4 < 64" "a mod 4 * 16 + b div 16 < 64" "b mod 16 * 4 < 64" by (auto simp: less_mult_imp_div_less)
  then show ?case using b64_char_plain by (auto simp: std_char_def)
next
  case (4 a b c r)
  then have "a div 4 < 64" "a mod 4 * 16 + b div 16 < 64" "b mod 16 * 4 + c div 64 < 64" "c mod 64 < 64" by auto
  then show ?case using b64_char_plain 4 by (auto simp: std_char_def)
qed simp

lemma std_encode_start: "list_all (\<lambda>n. n < 256) ns \<Longrightarrow> \<exists>c s. ns = [] \<or> map std_char (urlsafe_b64encode ns) = c # s \<and> c \<noteq> CHR ''=''"
  by (induction ns rule: urlsafe_b64encode.induct) (auto intro!: std_char_plain)

lemma std_b64_round_trip [simp]: "std_b64decode (std_b64encode data) = Some data"
proof (cases "data = []")
  case False
  then obtain c s where c: "std_b64encode data = c # s" "c \<noteq> CHR ''=''" using std_encode_start [OF of_char_bytes [of data]] by (auto simp: std_b64encode_def)
  then have "std_b64decode (std_b64encode data) = a2b_strict 0 0 0 False (std_b64encode data)"
    using std_encode_ascii [OF of_char_bytes, of data] unfolding std_b64decode_def std_b64encode_def [symmetric] by (auto split: list.splits char.splits bool.splits)
  then show ?thesis using strict_encode [OF of_char_bytes [of data], of 0] by (simp add: std_b64encode_def comp_def)
qed (simp add: std_b64encode_def std_b64decode_def)

subsection \<open>What is stored can be read\<close>

text \<open>Authenticated encryption: under its key and nonce a ciphertext decrypts to what was encrypted, and under any other key the tag check fails.\<close>

definition gcm_ok :: "gcm \<Rightarrow> bool" where
  "gcm_ok g \<longleftrightarrow> (\<forall>k k' n p. length k = KEY_LENGTH_BYTES \<longrightarrow> length k' = KEY_LENGTH_BYTES \<longrightarrow> length n = NONCE_LENGTH_BYTES
     \<longrightarrow> gc_decrypt g k' n (gc_encrypt g k n p) = (if k' = k then Some p else None))"

definition ring_ok :: "string list \<Rightarrow> bool" where
  "ring_ok ring \<longleftrightarrow> ring \<noteq> [] \<and> list_all (\<lambda>k. length k = KEY_LENGTH_BYTES) ring"

lemma key_ring_ok: "key_ring keys = Inr ring \<Longrightarrow> ring_ok ring"
  by (auto simp: key_ring_def ring_ok_def list_all_iff find_None_iff split: if_splits option.splits)

lemma try_keys_own:
  assumes "gcm_ok g" and "length n = NONCE_LENGTH_BYTES" and "length k = KEY_LENGTH_BYTES" and "list_all (\<lambda>k. length k = KEY_LENGTH_BYTES) ring"
  shows "try_keys g n (gc_encrypt g k n (utf8_encode v)) ring =
    (if k \<in> set ring then Inr v else Inl (SecretResolutionError ''decryption failed (wrong key or corrupted ciphertext)''))"
  using assms(4) assms(1-3) by (induction ring) (auto simp: gcm_ok_def)

lemma store_resolves:
  assumes "gcm_ok g" and "ring_ok writer" and "ring_ok reader" and "length nonce = NONCE_LENGTH_BYTES"
  shows "encrypted_resolve g reader (encrypted_store g writer nonce v) =
    (if hd writer \<in> set reader then Inr v else Inl (SecretResolutionError ''decryption failed (wrong key or corrupted ciphertext)''))"
proof -
  have "length (hd writer) = KEY_LENGTH_BYTES" using assms(2) by (cases writer) (auto simp: ring_ok_def)
  moreover have "prefix PREFIX (PREFIX @ s)" "drop (length PREFIX) (PREFIX @ s) = s" for s by simp_all
  ultimately show ?thesis using assms try_keys_own [of g nonce "hd writer" reader v]
    unfolding encrypted_resolve_def encrypted_store_def by (simp add: ring_ok_def)
qed

text \<open>A credential the encrypting provider stored can be read back exactly by every ring that still holds the key it was written with, wherever in the ring that key stands;
  without the key the provider fails closed with the error the gateway expects, and never returns another text.\<close>

theorem stored_credential_resolves:
  assumes "gcm_ok g" and "ring_ok writer" and "ring_ok reader" and "length nonce = NONCE_LENGTH_BYTES"
  shows "encrypted_resolve g reader (encrypted_store g writer nonce v) =
    (if hd writer \<in> set reader then Inr v else Inl (SecretResolutionError ''decryption failed (wrong key or corrupted ciphertext)''))"
  by (rule store_resolves [OF assms])

subsection \<open>A rotation can be completed\<close>

text \<open>What the walk does to one row: a credential it can read is rewritten so that the first key alone reads the same text from it; any other row is left alone.\<close>

definition moved :: "gcm \<Rightarrow> string list \<Rightarrow> server_record \<Rightarrow> server_record \<Rightarrow> bool" where
  "moved g ring s s' \<longleftrightarrow>
     (case sv_upstream_auth_header s of
        None \<Rightarrow> s' = s
      | Some ref \<Rightarrow>
          if \<not> prefix PREFIX ref then s' = s
          else case encrypted_resolve g ring ref of
              Inl e \<Rightarrow> s' = s
            | Inr p \<Rightarrow> \<exists>ref'. s' = s\<lparr>sv_upstream_auth_header := Some ref'\<rparr> \<and> prefix PREFIX ref' \<and> encrypted_resolve g [hd ring] ref' = Inr p)"

text \<open>The servers whose credential the ring cannot read.\<close>

definition unreadable :: "gcm \<Rightarrow> string list \<Rightarrow> server_record \<Rightarrow> bool" where
  "unreadable g ring s \<longleftrightarrow> (case sv_upstream_auth_header s of None \<Rightarrow> False | Some ref \<Rightarrow> prefix PREFIX ref \<and> isl (encrypted_resolve g ring ref))"

lemma moved_slug: "moved g ring s s' \<Longrightarrow> sv_slug s' = sv_slug s"
  by (auto simp: moved_def split: option.splits if_splits sum.splits)

lemma reencrypt_one_effect:
  assumes "gcm_ok g" and "ring_ok ring" and "length nonce = NONCE_LENGTH_BYTES" and "reencrypt_one g ring False nonce s (r, d) = Some (r', d')"
  obtains s' where "moved g ring s s'" "cd_servers d' = map (\<lambda>x. if x = s then s' else x) (cd_servers d) \<or> (\<exists>x \<in> set (cd_servers d). sv_slug x = sv_slug s \<and> x \<noteq> s)"
    "map fst (re_failed r') = map fst (re_failed r) @ (if unreadable g ring s then [sv_slug s] else [])" "re_scanned r' = Suc (re_scanned r)"
    "re_reencrypted r' + re_skipped r' + length (re_failed r') = Suc (re_reencrypted r + re_skipped r + length (re_failed r))"
proof -
  have one: "ring_ok [hd ring]" using assms(2) by (cases ring) (auto simp: ring_ok_def)
  have same: "cd_servers d = map (\<lambda>x. if x = s then s else x) (cd_servers d)" by (simp add: map_idI)
  show ?thesis
  proof (cases "sv_upstream_auth_header s")
    case None
    then show ?thesis using assms(4) same by (intro that [of s]) (auto simp: reencrypt_one_def Let_def moved_def unreadable_def)
  next
    case (Some ref)
    show ?thesis
    proof (cases "prefix PREFIX ref")
      case True
      show ?thesis
      proof (cases "encrypted_resolve g ring ref")
        case (Inl e)
        then show ?thesis using assms(4) Some True same
          by (intro that [of s]) (auto simp: reencrypt_one_def Let_def moved_def unreadable_def split: secret_error.splits)
      next
        case (Inr p)
        let ?ref = "encrypted_store g ring nonce p" and ?f = "\<lambda>s. s\<lparr>sv_upstream_auth_header := Some (encrypted_store g ring nonce p)\<rparr>"
        have "encrypted_resolve g [hd ring] ?ref = Inr p" "prefix PREFIX ?ref"
          using store_resolves [OF assms(1,2) one assms(3)] by (simp_all add: encrypted_store_def)
        then have "moved g ring s (?f s)" using Some True Inr by (auto simp: moved_def)
        moreover have "d' = cfg_update d (sv_slug s) ?f"
          using assms(4) Some True Inr by (simp add: reencrypt_one_def Let_def)
        ultimately show ?thesis using assms(4) Some True Inr
          by (intro that [of "?f s"]) (auto simp: reencrypt_one_def Let_def unreadable_def cfg_update_def)
      qed
    next
      case False
      then show ?thesis using assms(4) Some same by (intro that [of s]) (auto simp: reencrypt_one_def Let_def moved_def unreadable_def)
    qed
  qed
qed

lemma reencrypt_walk_effect:
  assumes "gcm_ok g" and "ring_ok ring" and "reencrypt_walk g ring False nonces ss (r, d) = Some (r', d')"
    and "length ss \<le> length nonces" and "list_all (\<lambda>n. length n = NONCE_LENGTH_BYTES) nonces" and "distinct (map sv_slug ss)"
    and "\<forall>x \<in> set (cd_servers d). sv_slug x \<in> sv_slug ` set ss \<longrightarrow> x \<in> set ss"
  shows "list_all2 (\<lambda>x x'. if x \<in> set ss then moved g ring x x' else x' = x) (cd_servers d) (cd_servers d')
    \<and> map fst (re_failed r') = map fst (re_failed r) @ map sv_slug (filter (unreadable g ring) ss) \<and> re_scanned r' = re_scanned r + length ss
    \<and> re_reencrypted r' + re_skipped r' + length (re_failed r') = re_reencrypted r + re_skipped r + length (re_failed r) + length ss"
  using assms(3-7)
proof (induction ss arbitrary: nonces r d)
  case Nil
  then show ?case by (simp add: list_all2_refl)
next
  case (Cons s ss)
  obtain n ns where n: "nonces = n # ns" "length n = NONCE_LENGTH_BYTES" "list_all (\<lambda>n. length n = NONCE_LENGTH_BYTES) ns" "length ss \<le> length ns"
    using Cons.prems(2,3) by (cases nonces) auto
  obtain r1 d1 where one: "reencrypt_one g ring False n s (r, d) = Some (r1, d1)" and rest: "reencrypt_walk g ring False ns ss (r1, d1) = Some (r', d')"
    using Cons.prems(1) n(1) by (cases "reencrypt_one g ring False n s (r, d)") auto
  have alone: "x = s" if "x \<in> set (cd_servers d)" "sv_slug x = sv_slug s" for x
    using Cons.prems(4,5) that by (metis distinct.simps(2) image_eqI list.set_intros(1) list.set_map list.simps(9) set_ConsD)
  have other: "\<not> (\<exists>x \<in> set (cd_servers d). sv_slug x = sv_slug s \<and> x \<noteq> s)" using alone by blast
  obtain s' where s': "moved g ring s s'" "cd_servers d1 = map (\<lambda>x. if x = s then s' else x) (cd_servers d)"
    "map fst (re_failed r1) = map fst (re_failed r) @ (if unreadable g ring s then [sv_slug s] else [])" "re_scanned r1 = Suc (re_scanned r)"
    "re_reencrypted r1 + re_skipped r1 + length (re_failed r1) = Suc (re_reencrypted r + re_skipped r + length (re_failed r))"
    by (rule reencrypt_one_effect [OF assms(1,2) n(2) one]) (use other in blast)
  have slug: "sv_slug s \<notin> sv_slug ` set ss" "sv_slug s' = sv_slug s" using Cons.prems(4) moved_slug [OF s'(1)] by auto
  then have out: "s \<notin> set ss" "s' \<notin> set ss" by (auto simp: image_iff)
  have "\<forall>x \<in> set (cd_servers d1). sv_slug x \<in> sv_slug ` set ss \<longrightarrow> x \<in> set ss"
    using Cons.prems(5) slug by (auto simp: s'(2) split: if_splits) (metis image_eqI)+
  from Cons.IH [OF rest n(4,3) _ this] Cons.prems(4)
  have ih: "list_all2 (\<lambda>x x'. if x \<in> set ss then moved g ring x x' else x' = x) (cd_servers d1) (cd_servers d')"
    "map fst (re_failed r') = map fst (re_failed r1) @ map sv_slug (filter (unreadable g ring) ss)" "re_scanned r' = re_scanned r1 + length ss"
    "re_reencrypted r' + re_skipped r' + length (re_failed r') = re_reencrypted r1 + re_skipped r1 + length (re_failed r1) + length ss"
    by auto
  have "list_all2 (\<lambda>x x'. if x \<in> set (s # ss) then moved g ring x x' else x' = x) (cd_servers d) (cd_servers d')"
    using ih(1) unfolding s'(2) list_all2_map1 by (rule list_all2_mono) (use s'(1) out in \<open>auto split: if_splits\<close>)
  then show ?case using ih s' by auto
qed

lemma distinct_order_by: "distinct (map f (order_by le key xs)) = distinct (map f xs)"
  using mset_eq_imp_distinct_iff [of "map f (order_by le key xs)" "map f xs"] mset_order_by [of le key xs] by simp

text \<open>C24. A rotation of the encryption key can be completed: an applied walk rewrites every credential the ring can read so that the new first key alone reads the same text
  from it, leaves every other row exactly as it was, accounts for every server, and names exactly the servers whose
  credential no key of the ring reads. When it names none, the older keys can be dropped without losing a credential.\<close>

theorem rotation_completes:
  assumes "reencrypt_credentials env g ring False nonces d = Some (r, d')" and "gcm_ok g" and "ring_ok ring"
    and "length (cd_servers d) \<le> length nonces" and "list_all (\<lambda>n. length n = NONCE_LENGTH_BYTES) nonces" and "distinct (map sv_slug (cd_servers d))"
  shows "list_all2 (moved g ring) (cd_servers d) (cd_servers d') \<and> set (map fst (re_failed r)) = sv_slug ` {s \<in> set (cd_servers d). unreadable g ring s}
    \<and> re_scanned r = length (cd_servers d) \<and> re_scanned r = re_reencrypted r + re_skipped r + length (re_failed r)
    \<and> (re_failed r = [] \<longrightarrow> list_all (\<lambda>s. \<not> unreadable g [hd ring] s) (cd_servers d'))"
proof -
  have perm: "set (cfg_list env d) = set (cd_servers d)" "distinct (map sv_slug (cfg_list env d))" "length (cfg_list env d) = length (cd_servers d)"
    using assms(6) by (simp_all add: cfg_list_def distinct_order_by) (metis mset_order_by size_mset)
  from reencrypt_walk_effect [OF assms(2,3), of nonces "cfg_list env d" _ d r d']
  have w: "list_all2 (\<lambda>x x'. if x \<in> set (cd_servers d) then moved g ring x x' else x' = x) (cd_servers d) (cd_servers d')"
    "map fst (re_failed r) = map sv_slug (filter (unreadable g ring) (cfg_list env d))" "re_scanned r = length (cd_servers d)"
    "re_reencrypted r + re_skipped r + length (re_failed r) = length (cd_servers d)"
    using assms(1,4,5) perm by (auto simp: reencrypt_credentials_def)
  have m: "list_all2 (moved g ring) (cd_servers d) (cd_servers d')"
    using w(1) by (auto simp: list_all2_conv_all_nth)
  moreover have "set (map fst (re_failed r)) = sv_slug ` {s \<in> set (cd_servers d). unreadable g ring s}"
    unfolding w(2) using perm(1) by auto
  moreover have "list_all (\<lambda>s. \<not> unreadable g [hd ring] s) (cd_servers d')" if "re_failed r = []"
  proof -
    have none: "\<not> unreadable g ring s" if "s \<in> set (cd_servers d)" for s
      using w(2) \<open>re_failed r = []\<close> that perm(1) by (auto simp: filter_empty_conv)
    have step: "\<not> unreadable g [hd ring] s'" if "moved g ring s s'" "\<not> unreadable g ring s" for s s'
      using that by (auto simp: moved_def unreadable_def split: option.splits if_splits sum.splits)
    show ?thesis unfolding list_all_length
    proof (intro allI impI)
      fix i assume "i < length (cd_servers d')"
      with m have "moved g ring (cd_servers d ! i) (cd_servers d' ! i)" "cd_servers d ! i \<in> set (cd_servers d)" by (auto simp: list_all2_conv_all_nth)
      with step none show "\<not> unreadable g [hd ring] (cd_servers d' ! i)" by blast
    qed
  qed
  ultimately show ?thesis using w(3,4) by auto
qed

text \<open>A preview writes nothing.\<close>

lemma preview_writes_nothing: "reencrypt_walk g ring True nonces ss (r, d) = Some (r', d') \<Longrightarrow> d' = d"
proof (induction ss arbitrary: nonces r d)
  case (Cons s ss)
  then obtain r1 d1 where "reencrypt_one g ring True (hd nonces) s (r, d) = Some (r1, d1)" "reencrypt_walk g ring True (tl nonces) ss (r1, d1) = Some (r', d')"
    by (cases "reencrypt_one g ring True (hd nonces) s (r, d)") auto
  moreover from this(1) have "d1 = d" by (auto simp: reencrypt_one_def Let_def split: option.splits if_splits sum.splits secret_error.splits)
  ultimately show ?case using Cons.IH by blast
qed simp

subsection \<open>A sample cipher\<close>

definition sample_gcm :: gcm where
  "sample_gcm = \<lparr>gc_encrypt = (\<lambda>k n p. k @ n @ p), gc_decrypt = (\<lambda>k n c. if prefix (k @ n) c then Some (drop (length k + length n) c) else None)\<rparr>"

lemma sample_gcm_ok: "gcm_ok sample_gcm"
proof -
  have "prefix (k' @ n) (k @ n @ p) \<longleftrightarrow> k' = k" if "length k = length k'" for k k' n p :: string
    using that by (auto simp: prefix_def)
  then show ?thesis by (auto simp: gcm_ok_def sample_gcm_def)
qed

definition sample_ring_key :: "char \<Rightarrow> string" where
  "sample_ring_key c = replicate 32 c"

definition sample_nonce :: string where
  "sample_nonce = replicate 12 (CHR ''n'')"

definition sample_sealed_db :: config_db where
  "sample_sealed_db = sample_config_db\<lparr>cd_servers := map (\<lambda>s. s\<lparr>sv_upstream_auth_header :=
     Some (encrypted_store sample_gcm [sample_ring_key (CHR ''o'')] sample_nonce ''Bearer t'')\<rparr>) (take 1 (cd_servers sample_config_db))\<rparr>"

lemma sample_rings: "ring_ok [sample_ring_key a]" "ring_ok [sample_ring_key a, sample_ring_key b]" "length sample_nonce = NONCE_LENGTH_BYTES"
  by (simp_all add: ring_ok_def sample_ring_key_def KEY_LENGTH_BYTES_def sample_nonce_def NONCE_LENGTH_BYTES_def)

theorem stored_credential_resolves_witness:
  "encrypted_resolve sample_gcm [sample_ring_key (CHR ''n''), sample_ring_key (CHR ''o'')]
     (encrypted_store sample_gcm [sample_ring_key (CHR ''o'')] sample_nonce ''Bearer t'') = Inr ''Bearer t''"
  using stored_credential_resolves [OF sample_gcm_ok sample_rings(1) [of "CHR ''o''"] sample_rings(2) [of "CHR ''n''" "CHR ''o''"] sample_rings(3), of "''Bearer t''"]
  by simp

theorem rotation_completes_witness:
  "\<exists>r d'. reencrypt_credentials sample_config_env sample_gcm [sample_ring_key (CHR ''n''), sample_ring_key (CHR ''o'')] False [sample_nonce] sample_sealed_db = Some (r, d')
     \<and> re_reencrypted r = 1 \<and> list_all (\<lambda>s. \<not> unreadable sample_gcm [sample_ring_key (CHR ''n'')] s) (cd_servers d')"
proof -
  let ?ring = "[sample_ring_key (CHR ''n''), sample_ring_key (CHR ''o'')]"
  let ?w = "reencrypt_credentials sample_config_env sample_gcm ?ring False [sample_nonce] sample_sealed_db"
  have e: "map_option (\<lambda>(r, d'). (re_reencrypted r, re_failed r)) ?w = Some (1, [])" by code_simp
  then obtain r d' where w: "?w = Some (r, d')" and r: "re_reencrypted r = 1" "re_failed r = []" by auto
  have "length (cd_servers sample_sealed_db) \<le> length [sample_nonce]" "distinct (map sv_slug (cd_servers sample_sealed_db))"
    by code_simp+
  from rotation_completes [OF w sample_gcm_ok sample_rings(2) this(1) _ this(2)] r sample_rings(3)
  show ?thesis using w by auto
qed

end
