(* ===== verification/Vault.thy ===== *)
theory Vault
  imports Secrets
begin

text \<open>
  The secret provider over a Vault KV v2 server, \<open>archon/secrets/openbao.py\<close>, and the choice of a provider in \<open>archon/secrets/__init__.py\<close>. What was sent to
  the server, with the time of each request, is part of the state; \<open>vx_net\<close> answers the last request of that list. The clock stands still during one operation.
  The label of a login error and the texts of caught exceptions are left out of the reasons.
\<close>

subsection \<open>References\<close>

record vault_ref =
  vr_mount :: string
  vr_path :: string
  vr_key :: string

definition ref_text :: "vault_ref \<Rightarrow> string" where
  "ref_text v = ''vault://'' @ vr_mount v @ ''/'' @ vr_path v @ ''#'' @ vr_key v"

text \<open>\<open>.+$\<close>: a single newline at the very end is not part of the key.\<close>

definition ref_key :: "string \<Rightarrow> string option" where
  "ref_key t = (let k = (if t \<noteq> [] \<and> last t = CHR 0x0A then butlast t else t) in if k = [] \<or> CHR 0x0A \<in> set k then None else Some k)"

definition match_ref :: "string \<Rightarrow> vault_ref option" where
  "match_ref ref =
     (if \<not> prefix ''vault://'' ref then None
      else case str_partition ''/'' (drop 8 ref) of
          None \<Rightarrow> None
        | Some (mount, rest) \<Rightarrow>
            (case str_partition ''#'' rest of
               None \<Rightarrow> None
             | Some (path, t) \<Rightarrow>
                 (case ref_key t of
                    None \<Rightarrow> None
                  | Some key \<Rightarrow> if mount = [] \<or> path = [] then None else Some \<lparr>vr_mount = mount, vr_path = path, vr_key = key\<rparr>)))"

definition parse_vault_ref :: "string \<Rightarrow> string + vault_ref" where
  "parse_vault_ref ref =
     (case match_ref ref of
        None \<Rightarrow> Inl (''not a valid vault:// reference (expected vault://<mount>/<path>#<key>): '' @ repr_str ref)
      | Some v \<Rightarrow>
          if \<exists>seg \<in> set (str_split (CHR ''/'') (vr_path v)). seg \<in> {'''', ''.'', ''..''}
          then Inl (''path must not contain empty, '' @ quoted ''.'' @ '', or '' @ quoted ''..'' @ '' segments: '' @ repr_str (vr_path v)) else Inr v)"

subsection \<open>Configuration\<close>

definition AUTH_METHODS :: "string list" where "AUTH_METHODS = [''token'', ''approle'', ''kubernetes'']"
definition MAX_MOUNT_NAME_LENGTH :: nat where "MAX_MOUNT_NAME_LENGTH = 128"
definition MAX_CREDENTIAL_FILE_BYTES :: nat where "MAX_CREDENTIAL_FILE_BYTES = 16 * 1024"
definition MAX_CA_FILE_BYTES :: nat where "MAX_CA_FILE_BYTES = 1024 * 1024"
definition LOGIN_FAILURE_BACKOFF_SECONDS :: rat where "LOGIN_FAILURE_BACKOFF_SECONDS = 2"
definition DEFAULT_LOGIN_LEASE_SECONDS :: rat where "DEFAULT_LOGIN_LEASE_SECONDS = 3600"
definition MAX_LOGIN_LEASE_SECONDS :: rat where "MAX_LOGIN_LEASE_SECONDS = 24 * 3600"

text \<open>What opening and reading a file gives: an error of the system, not a regular file, or its bytes up to one past the cap.\<close>

datatype file_read = FileError string | NotRegular | FileBytes string

record vault_config =
  vc_base_url :: string
  vc_token :: "string option"
  vc_role_id :: "string option"
  vc_secret_id :: "string option"
  vc_secret_id_file :: "string option"
  vc_auth_method :: "string option"
  vc_k8s_role :: "string option"
  vc_k8s_token_file :: string
  vc_k8s_mount :: string
  vc_ca_file :: "string option"
  vc_ttl :: rat

datatype vault_answer = VaultDown | VaultAnswer nat "json option"

record vault_request =
  vq_method :: string
  vq_url :: string
  vq_token :: "string option"
  vq_body :: json

type_synonym vault_log = "(rat \<times> vault_request) list"

text \<open>\<open>vx_ca_certs\<close>: the number of certificates in a bundle, or why the TLS library refuses it.\<close>

record vault_env =
  vx_urlsplit :: "string \<Rightarrow> string \<times> string \<times> string option"
  vx_file :: "string \<Rightarrow> file_read"
  vx_ca_certs :: "string \<Rightarrow> string + nat"
  vx_net :: "vault_log \<Rightarrow> vault_answer"
  vx_now :: rat

definition given :: "string option \<Rightarrow> bool" where
  "given v \<longleftrightarrow> v \<notin> {None, Some []}"

text \<open>\<open>_MOUNT_RE\<close>: segments of letters, digits, \<open>_\<close>, \<open>-\<close> and, after the first character, dots.\<close>

definition mount_char :: "char \<Rightarrow> bool" where
  "mount_char c \<longleftrightarrow> is_upper_az c \<or> is_lower_az c \<or> is_digit c \<or> c = CHR ''_'' \<or> c = CHR ''-''"

definition mount_ok :: "string \<Rightarrow> bool" where
  "mount_ok m \<longleftrightarrow> list_all (\<lambda>seg. seg \<noteq> [] \<and> mount_char (hd seg) \<and> list_all (\<lambda>c. mount_char c \<or> c = CHR ''.'') seg) (str_split (CHR ''/'') m)"

definition has_approle :: "vault_config \<Rightarrow> bool" where
  "has_approle c \<longleftrightarrow> given (vc_role_id c) \<and> (given (vc_secret_id c) \<or> given (vc_secret_id_file c))"

definition wants :: "vault_config \<Rightarrow> string \<Rightarrow> bool" where
  "wants c method = (if method = ''token'' then given (vc_token c) else if method = ''approle'' then has_approle c else given (vc_k8s_role c))"

definition conflicting :: "vault_config \<Rightarrow> string \<Rightarrow> string list" where
  "conflicting c method = (if vc_auth_method c = None then []
     else filter (\<lambda>m. m \<noteq> method \<and> (wants c m \<or> m = ''approle'' \<and> (given (vc_role_id c) \<or> given (vc_secret_id c) \<or> given (vc_secret_id_file c)))) AUTH_METHODS)"

definition choose_auth :: "vault_config \<Rightarrow> string + string" where
  "choose_auth c =
     rbind (case vc_auth_method c of
         Some m \<Rightarrow> Inr m
       | None \<Rightarrow> if given (vc_token c) then Inr ''token'' else if has_approle c then Inr ''approle''
           else Inl (''configure one auth method: a token, or an AppRole (role_id plus secret_id or secret_id_file), or auth_method='' @ quoted ''kubernetes'' @ '' with a role'')) (\<lambda>m.
       if m \<notin> set AUTH_METHODS then Inl (''unknown auth_method '' @ repr_str m @ '' (expected one of '' @ str_join '', '' AUTH_METHODS @ '')'')
       else if \<not> wants c m then Inl (''auth_method '' @ repr_str m @ '' is selected but its settings are missing or incomplete'')
       else if conflicting c m \<noteq> [] then Inl (''auth_method '' @ repr_str m @ '' is selected but credentials for ''
         @ str_join '', '' (sort (conflicting c m)) @ '' are also configured; give exactly one'')
       else if m = ''kubernetes'' \<and> (\<not> mount_ok (vc_k8s_mount c) \<or> length (vc_k8s_mount c) > MAX_MOUNT_NAME_LENGTH)
         then Inl (''k8s_mount must be a plain auth mount name like '' @ quoted ''kubernetes'' @ '' or '' @ quoted ''team/k8s'' @ '', got '' @ repr_str (vc_k8s_mount c))
       else Inr m)"

definition ssl_context_from_ca_file :: "vault_env \<Rightarrow> string \<Rightarrow> string + unit" where
  "ssl_context_from_ca_file env path =
     (let bad = (\<lambda>what. Inl (''ca_file '' @ repr_str path @ what)) in
      case vx_file env path of
        FileError reason \<Rightarrow> bad ('' is not a usable PEM bundle of CA certificates: '' @ reason)
      | NotRegular \<Rightarrow> bad '' is not a regular file''
      | FileBytes raw \<Rightarrow>
          if length raw > MAX_CA_FILE_BYTES then bad ('' is too large (over '' @ show_nat MAX_CA_FILE_BYTES @ '' bytes)'')
          else if \<not> list_all (\<lambda>c. (of_char c :: nat) < 128) raw then bad '' is not a PEM bundle of CA certificates''
          else if str_strip raw = [] then bad '' is empty''
          else case vx_ca_certs env raw of
              Inl reason \<Rightarrow> bad ('' is not a usable PEM bundle of CA certificates: '' @ reason)
            | Inr n \<Rightarrow> if n = 0 then bad '' contains no CA certificates'' else Inr ())"

text \<open>A provider that was built: its address without slashes at the end, and the method it logs in with.\<close>

record vault_client =
  vl_config :: vault_config
  vl_base :: string
  vl_method :: string

definition vault_init :: "vault_env \<Rightarrow> vault_config \<Rightarrow> string + vault_client" where
  "vault_init env c =
     (let (scheme, netloc, hostname) = vx_urlsplit env (vc_base_url c) in
      if vc_base_url c = [] then Inl ''base_url is required''
      else if scheme \<notin> {''http'', ''https''} \<or> netloc = [] then Inl (''base_url must be an http(s) URL, got '' @ repr_str (vc_base_url c))
      else if given (vc_secret_id c) \<and> given (vc_secret_id_file c) then Inl ''set either the AppRole secret_id or secret_id_file, not both''
      else rbind (choose_auth c) (\<lambda>m.
        rbind (if \<not> given (vc_ca_file c) then Inr ()
               else if scheme \<noteq> ''https'' then Inl (''ca_file is set but the address is not https: ''
                 @ ''a CA file next to a plain http address would look like transport security and provide none'')
               else ssl_context_from_ca_file env (case vc_ca_file c of Some f \<Rightarrow> f | None \<Rightarrow> [])) (\<lambda>_.
          Inr \<lparr>vl_config = c, vl_base = rev (dropWhile (\<lambda>x. x = CHR ''/'') (rev (vc_base_url c))), vl_method = m\<rparr>)))"

subsection \<open>The state\<close>

text \<open>\<open>_TTLCache\<close>: the time an entry expires, and its value.\<close>

type_synonym ttl_cache = "(string \<times> rat \<times> string) list"

definition cache_get :: "rat \<Rightarrow> ttl_cache \<Rightarrow> string \<Rightarrow> string option \<times> ttl_cache" where
  "cache_get now s key =
     (case map_of s key of
        None \<Rightarrow> (None, s)
      | Some (expires_at, v) \<Rightarrow> if now \<ge> expires_at then (None, AList.delete key s) else (Some v, s))"

definition cache_set :: "rat \<Rightarrow> rat \<Rightarrow> ttl_cache \<Rightarrow> string \<Rightarrow> string \<Rightarrow> ttl_cache" where
  "cache_set ttl now s key v = AList.update key (now + ttl, v) s"

definition cache_invalidate :: "ttl_cache \<Rightarrow> string \<Rightarrow> ttl_cache" where
  "cache_invalidate s key = AList.delete key s"

record vault_state =
  vs_cache :: ttl_cache
  vs_login_token :: "string option"
  vs_login_expires :: rat
  vs_failed_until :: rat
  vs_failure :: "string option"
  vs_log :: vault_log

definition vault_start :: vault_state where
  "vault_start = \<lparr>vs_cache = [], vs_login_token = None, vs_login_expires = 0, vs_failed_until = 0, vs_failure = None, vs_log = []\<rparr>"

definition vault_send :: "vault_env \<Rightarrow> vault_state \<Rightarrow> vault_request \<Rightarrow> vault_answer \<times> vault_state" where
  "vault_send env s q = (let l = vs_log s @ [(vx_now env, q)] in (vx_net env l, s\<lparr>vs_log := l\<rparr>))"

subsection \<open>Logging in\<close>

definition UTF8_BOM :: string where "UTF8_BOM = [CHR 0xEF, CHR 0xBB, CHR 0xBF]"

definition read_credential_file :: "vault_env \<Rightarrow> string \<Rightarrow> string \<Rightarrow> string + string" where
  "read_credential_file env path what =
     (let name = what @ '' file '' @ repr_str path in
      case vx_file env path of
        FileError reason \<Rightarrow> Inl (''could not read the '' @ name @ '': '' @ reason)
      | NotRegular \<Rightarrow> Inl (''the '' @ name @ '' is not a regular file'')
      | FileBytes raw \<Rightarrow>
          if length raw > MAX_CREDENTIAL_FILE_BYTES then Inl (''the '' @ name @ '' is too large to be a credential (over '' @ show_nat MAX_CREDENTIAL_FILE_BYTES @ '' bytes)'')
          else case utf8_decode (if prefix UTF8_BOM raw then drop 3 raw else raw) of
              None \<Rightarrow> Inl (''the '' @ name @ '' is not UTF-8 text'')
            | Some t \<Rightarrow> if str_strip t = [] then Inl (''the '' @ name @ '' is empty'') else Inr (str_strip t))"

text \<open>The name of the method in messages, the address and the body of the login.\<close>

definition login_payload :: "vault_env \<Rightarrow> vault_client \<Rightarrow> string + string \<times> string \<times> json" where
  "login_payload env cl = (let c = vl_config cl; text = opt_json JStr in
     if vl_method cl = ''kubernetes'' then
       rbind (read_credential_file env (vc_k8s_token_file c) ''service-account token'') (\<lambda>jwt.
         Inr (''Kubernetes auth'', vl_base cl @ ''/v1/auth/'' @ vc_k8s_mount c @ ''/login'', JObj [(''role'', text (vc_k8s_role c)), (''jwt'', JStr jwt)]))
     else
       rbind (if given (vc_secret_id_file c) then map_sum id Some (read_credential_file env (case vc_secret_id_file c of Some f \<Rightarrow> f | None \<Rightarrow> []) ''AppRole secret_id'')
              else Inr (vc_secret_id c)) (\<lambda>secret_id.
         Inr (''AppRole'', vl_base cl @ ''/v1/auth/approle/login'', JObj [(''role_id'', text (vc_role_id c)), (''secret_id'', text secret_id)])))"

text \<open>The lease: an overflow of \<open>float\<close> is not among the exceptions that are caught.\<close>

definition lease_of :: "json \<Rightarrow> float_error + rat" where
  "lease_of v = (if \<not> truthy v then Inr DEFAULT_LOGIN_LEASE_SECONDS
     else map_sum id (\<lambda>f. case f of Fin x \<Rightarrow> x | _ \<Rightarrow> DEFAULT_LOGIN_LEASE_SECONDS) (py_float v))"

definition login_answer :: "string \<Rightarrow> json option \<Rightarrow> secret_error + string \<times> rat" where
  "login_answer name body =
     (let malformed = Inl (SecretResolutionError (name @ '' login response malformed'')) in
      case body of
        Some (JObj data) \<Rightarrow>
          (case map_of data ''auth'' of
             Some (JObj auth) \<Rightarrow>
               (case map_of auth ''client_token'' of
                  None \<Rightarrow> malformed
                | Some tok \<Rightarrow>
                    (case lease_of (dict_get auth ''lease_duration'' JNull) of
                       Inl FOverflowError \<Rightarrow> Inl SecretUncaught
                     | Inl _ \<Rightarrow> malformed
                     | Inr lease \<Rightarrow>
                         (case tok of
                            JStr t \<Rightarrow> if str_strip t = [] then malformed else Inr (t, min lease MAX_LOGIN_LEASE_SECONDS)
                          | _ \<Rightarrow> malformed)))
           | _ \<Rightarrow> malformed)
      | _ \<Rightarrow> malformed)"

definition vault_login :: "vault_env \<Rightarrow> vault_client \<Rightarrow> vault_state \<Rightarrow> (secret_error + string) \<times> vault_state" where
  "vault_login env cl s =
     (case login_payload env cl of
        Inl reason \<Rightarrow> (Inl (SecretResolutionError reason), s)
      | Inr (name, url, body) \<Rightarrow>
          (case vault_send env s \<lparr>vq_method = ''POST'', vq_url = url, vq_token = None, vq_body = body\<rparr> of
             (VaultDown, s1) \<Rightarrow> (Inl (SecretResolutionError (name @ '' login request failed'')), s1)
           | (VaultAnswer status answer, s1) \<Rightarrow>
               if status \<noteq> 200 then (Inl (SecretResolutionError (name @ '' login returned HTTP '' @ show_nat status)), s1)
               else case login_answer name answer of
                   Inl e \<Rightarrow> (Inl e, s1)
                 | Inr (t, lease) \<Rightarrow> (Inr t, s1\<lparr>vs_login_token := Some t, vs_failed_until := 0, vs_failure := None,
                     vs_login_expires := vx_now env + max (lease - 30) 5\<rparr>)))"

definition cached_login_token :: "vault_env \<Rightarrow> vault_state \<Rightarrow> string option" where
  "cached_login_token env s = (if given (vs_login_token s) \<and> vx_now env < vs_login_expires s then vs_login_token s else None)"

definition static_token :: "vault_client \<Rightarrow> string option" where
  "static_token cl = (if vl_method cl = ''token'' then vc_token (vl_config cl) else None)"

text \<open>A login whose failure is remembered for a short while.\<close>

definition fresh_login :: "vault_env \<Rightarrow> vault_client \<Rightarrow> vault_state \<Rightarrow> (secret_error + string) \<times> vault_state" where
  "fresh_login env cl s =
     (case vault_login env cl s of
        (Inl (SecretResolutionError r), s1) \<Rightarrow>
          (Inl (SecretResolutionError r), s1\<lparr>vs_failure := Some r, vs_failed_until := vx_now env + LOGIN_FAILURE_BACKOFF_SECONDS\<rparr>)
      | x \<Rightarrow> x)"

definition current_token :: "vault_env \<Rightarrow> vault_client \<Rightarrow> vault_state \<Rightarrow> (secret_error + string) \<times> vault_state" where
  "current_token env cl s =
     (case (if given (static_token cl) then static_token cl else cached_login_token env s) of
        Some t \<Rightarrow> (Inr t, s)
      | None \<Rightarrow>
          (case vs_failure s of
             Some reason \<Rightarrow> if vx_now env < vs_failed_until s then (Inl (SecretResolutionError reason), s) else fresh_login env cl s
           | None \<Rightarrow> fresh_login env cl s))"

subsection \<open>Secrets\<close>

definition data_url :: "vault_client \<Rightarrow> string \<Rightarrow> vault_ref \<Rightarrow> string" where
  "data_url cl area v = vl_base cl @ ''/v1/'' @ vr_mount v @ ''/'' @ area @ ''/'' @ vr_path v"

text \<open>The value in the body of an answer. A \<open>data\<close> that is not an object makes \<open>in\<close> or the subscript raise a \<open>TypeError\<close> that nothing catches, unless it is a
  list or a text without the key.\<close>

definition kv_value :: "vault_ref \<Rightarrow> json option \<Rightarrow> secret_error + string" where
  "kv_value v body =
     (let shape = Inl (SecretResolutionError ''unexpected KV v2 response shape'');
          absent = Inl (SecretResolutionError (''key '' @ repr_str (vr_key v) @ '' not present in secret at '' @ vr_mount v @ ''/'' @ vr_path v)) in
      case body of
        Some (JObj b) \<Rightarrow>
          (case map_of b ''data'' of
             Some (JObj d) \<Rightarrow>
               (case map_of d ''data'' of
                  None \<Rightarrow> shape
                | Some (JObj fs) \<Rightarrow>
                    (case map_of fs (vr_key v) of
                       None \<Rightarrow> absent
                     | Some (JStr t) \<Rightarrow> Inr t
                     | Some _ \<Rightarrow> Inl (SecretResolutionError (''key '' @ repr_str (vr_key v) @ '' is not a string value'')))
                | Some (JList xs) \<Rightarrow> if JStr (vr_key v) \<in> set xs then Inl SecretUncaught else absent
                | Some (JStr t) \<Rightarrow> if has_substring (vr_key v) t then Inl SecretUncaught else absent
                | Some _ \<Rightarrow> Inl SecretUncaught)
           | _ \<Rightarrow> shape)
      | _ \<Rightarrow> shape)"

definition read_answer :: "vault_ref \<Rightarrow> vault_answer \<Rightarrow> secret_error + string" where
  "read_answer v a =
     (case a of
        VaultDown \<Rightarrow> Inl (SecretResolutionError ''could not reach Vault'')
      | VaultAnswer status body \<Rightarrow>
          if status = 404 then Inl (SecretResolutionError (''no secret found at '' @ vr_mount v @ ''/'' @ vr_path v))
          else if status \<in> {401, 403} then Inl (SecretResolutionError (''Vault denied access (HTTP '' @ show_nat status @ '')''))
          else if status \<noteq> 200 then Inl (SecretResolutionError (''Vault returned HTTP '' @ show_nat status))
          else kv_value v body)"

definition get_request :: "vault_client \<Rightarrow> vault_ref \<Rightarrow> string \<Rightarrow> vault_request" where
  "get_request cl v t = \<lparr>vq_method = ''GET'', vq_url = data_url cl ''data'' v, vq_token = Some t, vq_body = JNull\<rparr>"

definition bao_fetch :: "vault_env \<Rightarrow> vault_client \<Rightarrow> vault_state \<Rightarrow> string \<Rightarrow> vault_ref \<Rightarrow> (secret_error + string) \<times> vault_state" where
  "bao_fetch env cl s ref v =
     (case current_token env cl s of
        (Inl SecretUncaught, s1) \<Rightarrow> (Inl (SecretResolutionError ''could not obtain a Vault token''), s1)
      | (Inl e, s1) \<Rightarrow> (Inl e, s1)
      | (Inr t, s1) \<Rightarrow>
          (case vault_send env s1 (get_request cl v t) of
             (a, s2) \<Rightarrow>
               (case read_answer v a of
                  Inl e \<Rightarrow> (Inl e, s2)
                | Inr value \<Rightarrow> (Inr value, s2\<lparr>vs_cache := cache_set (vc_ttl (vl_config cl)) (vx_now env) (vs_cache s2) ref value\<rparr>))))"

definition bao_resolve :: "vault_env \<Rightarrow> vault_client \<Rightarrow> vault_state \<Rightarrow> string \<Rightarrow> (secret_error + string) \<times> vault_state" where
  "bao_resolve env cl s ref =
     (case cache_get (vx_now env) (vs_cache s) ref of
        (Some v, _) \<Rightarrow> (Inr v, s)
      | (None, cache) \<Rightarrow>
          (let s0 = s\<lparr>vs_cache := cache\<rparr> in
           case parse_vault_ref ref of
             Inl m \<Rightarrow> (Inl (SecretResolutionError m), s0)
           | Inr v \<Rightarrow> bao_fetch env cl s0 ref v))"

definition bao_store :: "vault_env \<Rightarrow> vault_client \<Rightarrow> vault_state \<Rightarrow> string \<Rightarrow> string \<Rightarrow> (secret_error + string) \<times> vault_state" where
  "bao_store env cl s ref value =
     (case parse_vault_ref ref of
        Inl m \<Rightarrow> (Inl (SecretResolutionError m), s)
      | Inr v \<Rightarrow>
          (case current_token env cl s of
             (Inl e, s1) \<Rightarrow> (Inl e, s1)
           | (Inr t, s1) \<Rightarrow>
               (case vault_send env s1 \<lparr>vq_method = ''POST'', vq_url = data_url cl ''data'' v, vq_token = Some t,
                   vq_body = JObj [(''data'', JObj [(vr_key v, JStr value)])]\<rparr> of
                  (VaultDown, s2) \<Rightarrow> (Inl (SecretResolutionError ''could not reach Vault''), s2)
                | (VaultAnswer status _, s2) \<Rightarrow>
                    if status \<notin> {200, 204} then (Inl (SecretResolutionError (''Vault write returned HTTP '' @ show_nat status)), s2)
                    else (Inr (ref_text v), s2\<lparr>vs_cache := cache_invalidate (vs_cache s2) ref\<rparr>))))"

text \<open>A delete ignores the status of the answer.\<close>

definition bao_delete :: "vault_env \<Rightarrow> vault_client \<Rightarrow> vault_state \<Rightarrow> string \<Rightarrow> (secret_error + unit) \<times> vault_state" where
  "bao_delete env cl s ref =
     (case parse_vault_ref ref of
        Inl m \<Rightarrow> (Inl (SecretResolutionError m), s)
      | Inr v \<Rightarrow>
          (case current_token env cl s of
             (Inl e, s1) \<Rightarrow> (Inl e, s1)
           | (Inr t, s1) \<Rightarrow>
               (case vault_send env s1 \<lparr>vq_method = ''DELETE'', vq_url = data_url cl ''metadata'' v, vq_token = Some t, vq_body = JNull\<rparr> of
                  (VaultDown, s2) \<Rightarrow> (Inl (SecretResolutionError ''could not reach Vault''), s2)
                | (VaultAnswer _ _, s2) \<Rightarrow> (Inr (), s2\<lparr>vs_cache := cache_invalidate (vs_cache s2) ref\<rparr>))))"

subsection \<open>The choice of a provider\<close>

datatype provider = LocalSecretProvider | EncryptedSecretProvider "string list" | OpenBaoSecretProvider vault_client

definition provider_tier_name :: "provider \<Rightarrow> string" where
  "provider_tier_name p = (case p of LocalSecretProvider \<Rightarrow> ''local'' | EncryptedSecretProvider _ \<Rightarrow> ''encrypted'' | OpenBaoSecretProvider _ \<Rightarrow> ''openbao'')"

definition build_secret_provider :: "key_env \<Rightarrow> vault_env \<Rightarrow> string \<Rightarrow> vault_config \<Rightarrow> string + provider" where
  "build_secret_provider ke env tier c =
     (if tier = ''local'' then Inr LocalSecretProvider
      else if tier = ''encrypted'' then map_sum id EncryptedSecretProvider (build_key_ring ke)
      else if tier = ''openbao'' then map_sum id OpenBaoSecretProvider (vault_init env c)
      else Inl (''unknown secret_provider '' @ repr_str tier @ '' (expected '' @ quoted ''local'' @ '', '' @ quoted ''encrypted'' @ '', or '' @ quoted ''openbao'' @ '')''))"

subsection \<open>References stay in their mount\<close>

lemma partition_char: "str_partition [c] s = Some (a, b) \<longleftrightarrow> s = a @ c # b \<and> c \<notin> set a"
proof (induction s arbitrary: a)
  case (Cons x s)
  then show ?case by (cases a) auto
qed simp

lemma ref_key_Some: "ref_key t = Some k \<longleftrightarrow> k \<noteq> [] \<and> CHR 0x0A \<notin> set k \<and> (t = k \<or> t = k @ [CHR 0x0A])"
proof (cases t rule: rev_cases)
  case (snoc ys y)
  then show ?thesis by (auto simp: ref_key_def Let_def)
qed (auto simp: ref_key_def)

lemma match_ref_Some:
  "match_ref ref = Some v \<longleftrightarrow> (ref = ref_text v \<or> ref = ref_text v @ [CHR 0x0A]) \<and> vr_mount v \<noteq> [] \<and> CHR ''/'' \<notin> set (vr_mount v)
     \<and> vr_path v \<noteq> [] \<and> CHR ''#'' \<notin> set (vr_path v) \<and> vr_key v \<noteq> [] \<and> CHR 0x0A \<notin> set (vr_key v)"
proof -
  have pre: "prefix ''vault://'' ref \<longleftrightarrow> (\<exists>t. ref = ''vault://'' @ t)" by (auto simp: prefix_def)
  show ?thesis
  proof (cases "prefix ''vault://'' ref")
    case True
    then obtain t where t: "ref = ''vault://'' @ t" using pre by blast
    have "match_ref ref = Some v \<longleftrightarrow> (\<exists>rest u. str_partition ''/'' t = Some (vr_mount v, rest) \<and> str_partition ''#'' rest = Some (vr_path v, u)
        \<and> ref_key u = Some (vr_key v) \<and> vr_mount v \<noteq> [] \<and> vr_path v \<noteq> [])"
      by (cases v) (auto simp: match_ref_def t split: option.splits)
    also have "\<dots> \<longleftrightarrow> (\<exists>u. t = vr_mount v @ ''/'' @ vr_path v @ ''#'' @ u \<and> ref_key u = Some (vr_key v)) \<and> vr_mount v \<noteq> [] \<and> CHR ''/'' \<notin> set (vr_mount v)
        \<and> vr_path v \<noteq> [] \<and> CHR ''#'' \<notin> set (vr_path v)"
      by (auto simp: partition_char)
    finally show ?thesis unfolding ref_key_Some by (auto simp: t ref_text_def)
  next
    case False
    then show ?thesis using pre by (auto simp: match_ref_def ref_text_def)
  qed
qed

text \<open>An accepted reference names one place below the \<open>data\<close> directory of its mount: the mount is one segment, no segment of the path is empty, \<open>.\<close> or
  \<open>..\<close>, and printing what was read gives the reference back (without a newline at its end), which is read the same again.\<close>

theorem vault_ref_contained:
  assumes "parse_vault_ref ref = Inr v"
  shows "(ref = ref_text v \<or> ref = ref_text v @ [CHR 0x0A]) \<and> parse_vault_ref (ref_text v) = Inr v \<and> vr_mount v \<noteq> [] \<and> CHR ''/'' \<notin> set (vr_mount v)
    \<and> list_all (\<lambda>seg. seg \<notin> {'''', ''.'', ''..''}) (str_split (CHR ''/'') (vr_path v)) \<and> CHR ''#'' \<notin> set (vr_path v)
    \<and> vr_key v \<noteq> [] \<and> CHR 0x0A \<notin> set (vr_key v)"
proof -
  have m: "match_ref ref = Some v" and segs: "\<forall>seg \<in> set (str_split (CHR ''/'') (vr_path v)). seg \<notin> {'''', ''.'', ''..''}"
    using assms by (auto simp: parse_vault_ref_def split: option.splits if_splits)
  have "match_ref (ref_text v) = Some v" using m unfolding match_ref_Some by auto
  then have "parse_vault_ref (ref_text v) = Inr v" using segs by (auto simp: parse_vault_ref_def)
  then show ?thesis using m segs unfolding match_ref_Some by (auto simp: list_all_iff)
qed

text \<open>The mount itself is not checked in the same way.\<close>

theorem mount_may_be_dots: "parse_vault_ref ''vault://../sys#k'' = Inr \<lparr>vr_mount = ''..'', vr_path = ''sys'', vr_key = ''k''\<rparr>"
  by code_simp

subsection \<open>How old a secret can be\<close>

text \<open>A value the server answered to a request for this reference, at some time of the log.\<close>

definition answered :: "(vault_log \<Rightarrow> vault_answer) \<Rightarrow> vault_client \<Rightarrow> vault_log \<Rightarrow> string \<Rightarrow> rat \<Rightarrow> string \<Rightarrow> bool" where
  "answered net cl sent ref t value \<longleftrightarrow> (\<exists>v tok l. parse_vault_ref ref = Inr v \<and> prefix (l @ [(t, get_request cl v tok)]) sent
     \<and> read_answer v (net (l @ [(t, get_request cl v tok)])) = Inr value)"

definition cache_backed :: "(vault_log \<Rightarrow> vault_answer) \<Rightarrow> vault_client \<Rightarrow> vault_state \<Rightarrow> bool" where
  "cache_backed net cl s \<longleftrightarrow> (\<forall>ref e value. map_of (vs_cache s) ref = Some (e, value) \<longrightarrow> answered net cl (vs_log s) ref (e - vc_ttl (vl_config cl)) value)"

text \<open>Any sequence of operations of one provider, against one server, at any times.\<close>

inductive vault_traffic :: "(vault_log \<Rightarrow> vault_answer) \<Rightarrow> vault_client \<Rightarrow> vault_state \<Rightarrow> bool" for net cl where
  start: "vault_traffic net cl vault_start"
| resolved: "vault_traffic net cl s \<Longrightarrow> vx_net env = net \<Longrightarrow> vault_traffic net cl (snd (bao_resolve env cl s ref))"
| stored: "vault_traffic net cl s \<Longrightarrow> vx_net env = net \<Longrightarrow> vault_traffic net cl (snd (bao_store env cl s ref value))"
| deleted: "vault_traffic net cl s \<Longrightarrow> vx_net env = net \<Longrightarrow> vault_traffic net cl (snd (bao_delete env cl s ref))"

lemma answered_later: "answered net cl l ref t v \<Longrightarrow> prefix l l' \<Longrightarrow> answered net cl l' ref t v"
  unfolding answered_def using prefix_order.trans by blast

lemma backed_later:
  "cache_backed net cl s \<Longrightarrow> prefix (vs_log s) (vs_log s') \<Longrightarrow> (\<And>k x. map_of (vs_cache s') k = Some x \<Longrightarrow> map_of (vs_cache s) k = Some x) \<Longrightarrow> cache_backed net cl s'"
  unfolding cache_backed_def using answered_later by metis

lemma vault_login_frame: "vs_cache (snd (vault_login env cl s)) = vs_cache s \<and> prefix (vs_log s) (vs_log (snd (vault_login env cl s)))"
  by (auto simp: vault_login_def vault_send_def Let_def split: sum.splits vault_answer.splits)

lemma fresh_login_frame: "vs_cache (snd (fresh_login env cl s)) = vs_cache s \<and> prefix (vs_log s) (vs_log (snd (fresh_login env cl s)))"
  using vault_login_frame [of env cl s] by (auto simp: fresh_login_def split: prod.splits sum.splits secret_error.splits)

lemma current_token_frame: "vs_cache (snd (current_token env cl s)) = vs_cache s \<and> prefix (vs_log s) (vs_log (snd (current_token env cl s)))"
  using fresh_login_frame [of env cl s] by (auto simp: current_token_def split: option.splits)

lemma delete_lookup: "map_of (AList.delete k d) k' = Some x \<Longrightarrow> map_of d k' = Some x"
  by (auto simp: delete_conv split: if_splits)

lemma fetch_backed:
  assumes "cache_backed net cl s" and "vx_net env = net" and "parse_vault_ref ref = Inr v" and "bao_fetch env cl s ref v = (r, s')"
  shows "cache_backed net cl s'" and "r = Inr value \<Longrightarrow> answered net cl (vs_log s') ref (vx_now env) value"
proof -
  obtain t s1 where ct: "current_token env cl s = (t, s1)" by fastforce
  have f: "vs_cache s1 = vs_cache s" "prefix (vs_log s) (vs_log s1)" using current_token_frame [of env cl s] ct by auto
  have b1: "cache_backed net cl s1" using backed_later [OF assms(1) f(2)] f(1) by simp
  have "cache_backed net cl s' \<and> (\<forall>value. r = Inr value \<longrightarrow> answered net cl (vs_log s') ref (vx_now env) value)"
  proof (cases t)
    case (Inl e)
    then show ?thesis using assms(4) ct b1 by (cases e) (auto simp: bao_fetch_def)
  next
    case (Inr tok)
    let ?q = "get_request cl v tok" and ?l = "vs_log s1 @ [(vx_now env, get_request cl v tok)]"
    let ?s2 = "s1\<lparr>vs_log := ?l\<rparr>"
    have b2: "cache_backed net cl ?s2" using backed_later [OF b1, of ?s2] by simp
    show ?thesis
    proof (cases "read_answer v (net ?l)")
      case (Inl e)
      then show ?thesis using assms(2,4) ct \<open>t = Inr tok\<close> b2 by (auto simp: bao_fetch_def vault_send_def Let_def)
    next
      case (Inr got)
      have a: "answered net cl ?l ref (vx_now env) got" using Inr assms(3) unfolding answered_def by blast
      have s': "r = Inr got" "s' = ?s2\<lparr>vs_cache := cache_set (vc_ttl (vl_config cl)) (vx_now env) (vs_cache s1) ref got\<rparr>"
        using assms(2,4) ct \<open>t = Inr tok\<close> Inr by (auto simp: bao_fetch_def vault_send_def Let_def)
      then show ?thesis using a b2 by (auto simp: cache_backed_def cache_set_def update_conv')
    qed
  qed
  then show "cache_backed net cl s'" "r = Inr value \<Longrightarrow> answered net cl (vs_log s') ref (vx_now env) value" by auto
qed

lemma cache_get_cases:
  assumes "cache_get now c ref = (x, c')"
  shows "(\<exists>v e. x = Some v \<and> c' = c \<and> map_of c ref = Some (e, v) \<and> now < e) \<or> x = None \<and> (\<forall>k y. map_of c' k = Some y \<longrightarrow> map_of c k = Some y)"
  using assms by (auto simp: cache_get_def dest: delete_lookup split: option.splits if_splits)

lemma resolve_backed:
  assumes "cache_backed net cl s" and "vx_net env = net" and "bao_resolve env cl s ref = (r, s')"
  shows "cache_backed net cl s'" and "r = Inr value \<Longrightarrow> \<exists>t. answered net cl (vs_log s') ref t value \<and> (t = vx_now env \<or> vx_now env < t + vc_ttl (vl_config cl))"
proof -
  obtain x c where g: "cache_get (vx_now env) (vs_cache s) ref = (x, c)" by fastforce
  have "cache_backed net cl s' \<and> (\<forall>value. r = Inr value \<longrightarrow> (\<exists>t. answered net cl (vs_log s') ref t value \<and> (t = vx_now env \<or> vx_now env < t + vc_ttl (vl_config cl))))"
  proof (cases x)
    case (Some v)
    then obtain e where e: "map_of (vs_cache s) ref = Some (e, v)" "vx_now env < e" using cache_get_cases [OF g] by auto
    then have "answered net cl (vs_log s) ref (e - vc_ttl (vl_config cl)) v" using assms(1) by (simp add: cache_backed_def)
    moreover have "r = Inr v" "s' = s" using assms(3) g Some by (auto simp: bao_resolve_def)
    ultimately show ?thesis using assms(1) e(2) by (auto intro!: exI [of _ "e - vc_ttl (vl_config cl)"])
  next
    case None
    have b: "cache_backed net cl (s\<lparr>vs_cache := c\<rparr>)" using cache_get_cases [OF g] None by (intro backed_later [OF assms(1)]) auto
    show ?thesis
    proof (cases "parse_vault_ref ref")
      case (Inl m)
      then show ?thesis using assms(3) g None b by (auto simp: bao_resolve_def Let_def)
    next
      case (Inr v)
      then have "bao_fetch env cl (s\<lparr>vs_cache := c\<rparr>) ref v = (r, s')" using assms(3) g None by (simp add: bao_resolve_def Let_def)
      then show ?thesis using fetch_backed [OF b assms(2) Inr] by blast
    qed
  qed
  then show "cache_backed net cl s'" "r = Inr value \<Longrightarrow> \<exists>t. answered net cl (vs_log s') ref t value \<and> (t = vx_now env \<or> vx_now env < t + vc_ttl (vl_config cl))" by auto
qed

lemma write_backed:
  assumes "cache_backed net cl s"
  shows "cache_backed net cl (snd (bao_store env cl s ref value))" "cache_backed net cl (snd (bao_delete env cl s ref))"
proof -
  obtain t s1 where ct: "current_token env cl s = (t, s1)" by fastforce
  have f: "vs_cache s1 = vs_cache s" "prefix (vs_log s) (vs_log s1)" using current_token_frame [of env cl s] ct by auto
  then have p: "prefix (vs_log s) (vs_log s1 @ [x])" for x by (metis prefix_append prefix_order.trans prefixI)
  show "cache_backed net cl (snd (bao_store env cl s ref value))"
    by (rule backed_later [OF assms])
      (use ct f p in \<open>auto simp: bao_store_def vault_send_def Let_def cache_invalidate_def dest: delete_lookup split: sum.splits vault_answer.splits if_splits\<close>)
  show "cache_backed net cl (snd (bao_delete env cl s ref))"
    by (rule backed_later [OF assms])
      (use ct f p in \<open>auto simp: bao_delete_def vault_send_def Let_def cache_invalidate_def dest: delete_lookup split: sum.splits vault_answer.splits\<close>)
qed

lemma traffic_backed: "vault_traffic net cl s \<Longrightarrow> cache_backed net cl s"
proof (induction rule: vault_traffic.induct)
  case (resolved s env ref)
  then show ?case using resolve_backed(1) [of net cl s env ref "fst (bao_resolve env cl s ref)" "snd (bao_resolve env cl s ref)"] by simp
qed (simp_all add: write_backed, simp add: cache_backed_def vault_start_def)

text \<open>C25. A secret is never served older than its time to live, whatever was read, written or deleted before and whenever: each value \<open>resolve\<close> returns is what the
  server answered to a request for that reference with a token, sent now or less than the time to live ago. So a secret that is
  rotated in Vault is picked up without a restart.\<close>

theorem secret_age_bounded:
  assumes "vault_traffic (vx_net env) cl s" and "bao_resolve env cl s ref = (Inr value, s')" and "0 < vc_ttl (vl_config cl)"
  shows "\<exists>t. answered (vx_net env) cl (vs_log s') ref t value \<and> vx_now env < t + vc_ttl (vl_config cl)"
  using resolve_backed(2) [OF traffic_backed [OF assms(1)] refl assms(2)] assms(3) by fastforce

subsection \<open>A failing login\<close>

text \<open>After a login has failed, requests fail at once with the same error until the back-off has passed, and send nothing: no request waits behind another for a server that
  hangs.\<close>

theorem login_fails_fast:
  assumes "current_token env cl s = (Inl (SecretResolutionError reason), s')" and "vx_now env \<le> vx_now later" and "vx_now later < vs_failed_until s'"
  shows "current_token later cl s' = (Inl (SecretResolutionError reason), s')"
proof -
  have no: "(if given (static_token cl) then static_token cl else cached_login_token env s) = None"
    using assms(1) by (auto simp: current_token_def split: option.splits)
  have old: "given (vs_login_token s) \<longrightarrow> vs_login_expires s \<le> vx_now env" "\<not> given (static_token cl)"
    using no by (auto simp: cached_login_token_def given_def split: if_splits)
  have "vs_failure s' = Some reason \<and> vs_login_token s' = vs_login_token s \<and> vs_login_expires s' = vs_login_expires s"
    using assms(1) no by (auto simp: current_token_def fresh_login_def vault_login_def vault_send_def Let_def
        split: option.splits if_splits sum.splits secret_error.splits vault_answer.splits prod.splits)
  then show ?thesis using old assms(2,3) by (auto simp: current_token_def cached_login_token_def)
qed

text \<open>An answer whose \<open>data\<close> is null breaks the promise of the seam, that every failure is a \<open>SecretResolutionError\<close>.\<close>

theorem null_data_escapes:
  assumes "parse_vault_ref ref = Inr v" and "map_of (vs_cache s) ref = None" and "current_token env cl s = (Inr tok, s1)"
    and "vx_net env (vs_log s1 @ [(vx_now env, get_request cl v tok)]) = VaultAnswer 200 (Some (JObj [(''data'', JObj [(''data'', JNull)])]))"
  shows "fst (bao_resolve env cl s ref) = Inl SecretUncaught"
proof -
  have "s\<lparr>vs_cache := vs_cache s\<rparr> = s" by simp
  then show ?thesis using assms
    by (simp add: bao_resolve_def cache_get_def bao_fetch_def vault_send_def Let_def read_answer_def kv_value_def)
qed

subsection \<open>A sample server\<close>

definition sample_vault_config :: vault_config where
  "sample_vault_config = \<lparr>vc_base_url = ''https://vault/'', vc_token = None, vc_role_id = Some ''r'', vc_secret_id = Some ''s'', vc_secret_id_file = None,
     vc_auth_method = None, vc_k8s_role = None, vc_k8s_token_file = '''', vc_k8s_mount = ''kubernetes'', vc_ca_file = None, vc_ttl = 60\<rparr>"

text \<open>A server that logs callers in, when it is up, and holds one secret.\<close>

definition sample_vault_env :: "bool \<Rightarrow> rat \<Rightarrow> vault_env" where
  "sample_vault_env up now = \<lparr>vx_urlsplit = (\<lambda>_. (''https'', ''vault'', Some ''vault'')), vx_file = (\<lambda>_. NotRegular), vx_ca_certs = (\<lambda>_. Inr 0),
     vx_net = (\<lambda>l. if \<not> up then VaultDown
       else if vq_method (snd (last l)) = ''POST'' then VaultAnswer 200 (Some (JObj [(''auth'', JObj [(''client_token'', JStr ''t'')])]))
       else VaultAnswer 200 (Some (JObj [(''data'', JObj [(''data'', JObj [(''token'', JStr ''Bearer x'')])])]))), vx_now = now\<rparr>"

definition sample_vault_client :: vault_client where
  "sample_vault_client = \<lparr>vl_config = sample_vault_config, vl_base = ''https://vault'', vl_method = ''approle''\<rparr>"

lemma sample_vault_built: "vault_init (sample_vault_env True 0) sample_vault_config = Inr sample_vault_client"
  by code_simp

theorem vault_ref_contained_witness:
  "parse_vault_ref (ref_text \<lparr>vr_mount = ''secret'', vr_path = ''acropolis/github'', vr_key = ''token''\<rparr>)
     = Inr \<lparr>vr_mount = ''secret'', vr_path = ''acropolis/github'', vr_key = ''token''\<rparr>"
proof -
  have "parse_vault_ref ''vault://secret/acropolis/github#token'' = Inr \<lparr>vr_mount = ''secret'', vr_path = ''acropolis/github'', vr_key = ''token''\<rparr>" by code_simp
  from vault_ref_contained [OF this] show ?thesis by blast
qed

theorem secret_age_bounded_witness:
  "\<exists>s' t. bao_resolve (sample_vault_env True 59) sample_vault_client (snd (bao_resolve (sample_vault_env True 0) sample_vault_client vault_start ''vault://kv/a#token''))
       ''vault://kv/a#token'' = (Inr ''Bearer x'', s')
     \<and> answered (vx_net (sample_vault_env True 59)) sample_vault_client (vs_log s') ''vault://kv/a#token'' t ''Bearer x'' \<and> 59 < t + 60"
proof -
  let ?s = "snd (bao_resolve (sample_vault_env True 0) sample_vault_client vault_start ''vault://kv/a#token'')"
  let ?r = "bao_resolve (sample_vault_env True 59) sample_vault_client ?s ''vault://kv/a#token''"
  have "fst ?r = Inr ''Bearer x''" by code_simp
  then have r: "?r = (Inr ''Bearer x'', snd ?r)" by (metis prod.collapse)
  have net: "vx_net (sample_vault_env True 0) = vx_net (sample_vault_env True 59)" by (simp add: sample_vault_env_def)
  have tr: "vault_traffic (vx_net (sample_vault_env True 59)) sample_vault_client ?s"
    by (rule vault_traffic.resolved [OF vault_traffic.start net])
  have ttl: "vc_ttl (vl_config sample_vault_client) = 60" "vx_now (sample_vault_env True 59) = 59"
    by (simp_all add: sample_vault_client_def sample_vault_config_def sample_vault_env_def)
  from secret_age_bounded [OF tr r] r ttl show ?thesis by auto
qed

theorem login_fails_fast_witness:
  "\<exists>s'. current_token (sample_vault_env True 1) sample_vault_client s' = (Inl (SecretResolutionError ''AppRole login request failed''), s') \<and> length (vs_log s') = 1"
proof -
  let ?r = "current_token (sample_vault_env False 0) sample_vault_client vault_start"
  have f: "fst ?r = Inl (SecretResolutionError ''AppRole login request failed'')" "vs_failed_until (snd ?r) = 2" "length (vs_log (snd ?r)) = 1" by code_simp+
  have r: "?r = (Inl (SecretResolutionError ''AppRole login request failed''), snd ?r)" using f(1) by (metis prod.collapse)
  have "vx_now (sample_vault_env False 0) \<le> vx_now (sample_vault_env True 1)" "vx_now (sample_vault_env True 1) < vs_failed_until (snd ?r)"
    unfolding f(2) by (simp_all add: sample_vault_env_def)
  from login_fails_fast [OF r this] f(3) show ?thesis by (intro exI [of _ "snd ?r"] conjI)
qed

end
