(* ===== verification/Tokens.thy ===== *)
theory Tokens
  imports Vault
begin

text \<open>
  The tokens for the hop to upstream servers, \<open>argus/tokens.py\<close>, and the rotation of their signing key, \<open>argus/rotate_key.py\<close>. A private key is a value of a type
  \<open>'k\<close>; what the code takes from the \<open>cryptography\<close> package, the hash and the printer of JSON are the fields of \<open>crypto\<close>. \<open>_monotonic()\<close> and \<open>_epoch_seconds()\<close> are
  the two readings of \<open>token_clock\<close>. The kid and the published key of an issuer are functions of its key, as its constructor computes them.
\<close>

subsection \<open>Keys and their public form\<close>

definition TOKEN_TTL_SECONDS :: rat where "TOKEN_TTL_SECONDS = 600"
definition REFRESH_FRACTION :: rat where "REFRESH_FRACTION = 8 / 10"

record 'k crypto =
  cy_is_rsa :: "'k \<Rightarrow> bool"
  cy_der :: "'k \<Rightarrow> string"
  cy_numbers :: "'k \<Rightarrow> nat \<times> nat"
  cy_sha256 :: "string \<Rightarrow> string"
  cy_sign :: "'k \<Rightarrow> string \<Rightarrow> string"
  cy_load_pem :: "string \<Rightarrow> string + 'k"
  cy_pem :: "'k \<Rightarrow> string"
  cy_dumps :: "json \<Rightarrow> string"
  cy_loads :: "string \<Rightarrow> json option"

text \<open>Big-endian, without leading zeros.\<close>

fun int_to_bytes :: "nat \<Rightarrow> string" where
  "int_to_bytes n = (if n = 0 then [] else int_to_bytes (n div 256) @ [char_of (n mod 256)])"

declare int_to_bytes.simps [simp del]

definition derive_kid :: "'k crypto \<Rightarrow> 'k \<Rightarrow> string" where
  "derive_kid cy k = b64encode (cy_sha256 cy (cy_der cy k))"

definition build_jwk :: "'k crypto \<Rightarrow> 'k \<Rightarrow> json" where
  "build_jwk cy k = JObj [(''kty'', JStr ''RSA''), (''use'', JStr ''sig''), (''alg'', JStr ''RS256''), (''kid'', JStr (derive_kid cy k)),
     (''n'', JStr (b64encode (int_to_bytes (fst (cy_numbers cy k))))), (''e'', JStr (b64encode (int_to_bytes (snd (cy_numbers cy k)))))]"

datatype token_error = TokenIssuerConfigError string | TokenUncaught

definition resolve_rsa_private_key :: "'k crypto \<Rightarrow> (string \<Rightarrow> secret_error + string) \<Rightarrow> string \<Rightarrow> token_error + 'k" where
  "resolve_rsa_private_key cy resolve ref =
     (case resolve ref of
        Inl SecretUncaught \<Rightarrow> Inl TokenUncaught
      | Inl (SecretResolutionError reason) \<Rightarrow> Inl (TokenIssuerConfigError (''token signing key '' @ ref @ '' is unresolvable: '' @ reason))
      | Inr pem \<Rightarrow>
          (case cy_load_pem cy (utf8_encode pem) of
             Inl e \<Rightarrow> Inl (TokenIssuerConfigError (''token signing key '' @ ref @ '' did not resolve to a usable PEM private key: '' @ e))
           | Inr k \<Rightarrow> if cy_is_rsa cy k then Inr k
               else Inl (TokenIssuerConfigError (''token signing key '' @ ref @ '' resolved to a non-RSA key; RS256 requires an RSA keypair''))))"

subsection \<open>The issuer\<close>

record cached_token =
  tk_token :: string
  tk_refresh_at :: rat
  tk_expires_at :: rat
  tk_refreshing :: bool

record 'k issuer =
  ti_key :: 'k
  ti_ttl :: rat
  ti_refresh_after :: rat
  ti_cache :: "(string \<times> cached_token) list"
  ti_previous :: "(string \<times> json \<times> pyfloat) list"

record token_clock =
  tc_mono :: rat
  tc_epoch :: rat

definition add_previous :: "'k crypto \<Rightarrow> 'k \<times> pyfloat \<Rightarrow> 'k issuer \<Rightarrow> token_error + 'k issuer" where
  "add_previous cy kd s =
     (if \<not> cy_is_rsa cy (fst kd) then Inl (TokenIssuerConfigError ''TokenIssuer previous keys must be RSA private keys (RS256)'')
      else Inr (s\<lparr>ti_previous := AList.update (derive_kid cy (fst kd)) (build_jwk cy (fst kd), snd kd) (ti_previous s)\<rparr>))"

fun add_all_previous :: "'k crypto \<Rightarrow> ('k \<times> pyfloat) list \<Rightarrow> 'k issuer \<Rightarrow> (token_error + unit) \<times> 'k issuer" where
  "add_all_previous cy [] s = (Inr (), s)"
| "add_all_previous cy (kd # kds) s = (case add_previous cy kd s of Inl e \<Rightarrow> (Inl e, s) | Inr s1 \<Rightarrow> add_all_previous cy kds s1)"

definition token_issuer :: "'k crypto \<Rightarrow> 'k \<Rightarrow> rat \<Rightarrow> rat \<Rightarrow> ('k \<times> pyfloat) list \<Rightarrow> token_error + 'k issuer" where
  "token_issuer cy k ttl fraction previous =
     (if \<not> cy_is_rsa cy k then Inl (TokenIssuerConfigError ''TokenIssuer requires an RSA private key (RS256)'')
      else if ttl \<le> 0 then Inl (TokenIssuerConfigError ''ttl_seconds must be positive'')
      else if \<not> (0 < fraction \<and> fraction < 1) then Inl (TokenIssuerConfigError ''refresh_fraction must be between 0 and 1'')
      else case add_all_previous cy previous \<lparr>ti_key = k, ti_ttl = ttl, ti_refresh_after = ttl * fraction, ti_cache = [], ti_previous = []\<rparr> of
          (Inl e, _) \<Rightarrow> Inl e | (Inr _, s) \<Rightarrow> Inr s)"

definition from_settings :: "'k crypto \<Rightarrow> (string \<Rightarrow> secret_error + string) \<Rightarrow> string option \<Rightarrow> token_error + 'k issuer option" where
  "from_settings cy resolve ref =
     (if \<not> given ref then Inr None
      else case ref of
          None \<Rightarrow> Inr None
        | Some r \<Rightarrow>
            if \<not> is_reference r then Inl (TokenIssuerConfigError (''token_signing_key_ref must be a secret-provider reference (enc:v1:... or vault://...), not inline key material. An inline PEM would place the long-lived signing key in the process environment ''
              @ ''(readable from /proc/<pid>/environ '' @ em_dash @ '' see issue #134, k3s#66). Use the '' @ quoted ''encrypted'' @ '' or '' @ quoted ''openbao''
              @ '' secret provider and reference the key there.''))
            else rbind (resolve_rsa_private_key cy resolve r) (\<lambda>k. map_sum id Some (token_issuer cy k TOKEN_TTL_SECONDS REFRESH_FRACTION [])))"

definition drop_due :: "rat \<Rightarrow> pyfloat \<Rightarrow> bool" where
  "drop_due now d = (case d of Fin x \<Rightarrow> x \<le> now | NegInf \<Rightarrow> True | _ \<Rightarrow> False)"

definition drop_expired_previous :: "token_clock \<Rightarrow> 'k issuer \<Rightarrow> 'k issuer" where
  "drop_expired_previous c s = s\<lparr>ti_previous := filter (\<lambda>(kid, jwk, d). \<not> drop_due (tc_epoch c) d) (ti_previous s)\<rparr>"

definition jwks :: "'k crypto \<Rightarrow> token_clock \<Rightarrow> 'k issuer \<Rightarrow> json \<times> 'k issuer" where
  "jwks cy c s = (let s1 = drop_expired_previous c s in (JObj [(''keys'', JList (build_jwk cy (ti_key s1) # map (\<lambda>(kid, jwk, d). jwk) (ti_previous s1)))], s1))"

text \<open>The swap of keys in place; an exception on a later key leaves what was done before it.\<close>

definition replace_keys :: "'k crypto \<Rightarrow> 'k \<Rightarrow> ('k \<times> pyfloat) list \<Rightarrow> 'k issuer \<Rightarrow> (token_error + unit) \<times> 'k issuer" where
  "replace_keys cy k previous s =
     (if \<not> cy_is_rsa cy k then (Inl (TokenIssuerConfigError ''TokenIssuer requires an RSA private key (RS256)''), s)
      else case add_all_previous cy previous (s\<lparr>ti_key := k, ti_previous := []\<rparr>) of
          (Inl e, s1) \<Rightarrow> (Inl e, s1) | (Inr _, s1) \<Rightarrow> (Inr (), s1\<lparr>ti_cache := []\<rparr>))"

definition int_trunc :: "rat \<Rightarrow> int" where
  "int_trunc x = (if x \<ge> 0 then \<lfloor>x\<rfloor> else \<lceil>x\<rceil>)"

definition token_header :: "'k crypto \<Rightarrow> 'k \<Rightarrow> json" where
  "token_header cy k = JObj [(''alg'', JStr ''RS256''), (''kid'', JStr (derive_kid cy k)), (''typ'', JStr ''JWT'')]"

definition token_claims :: "string \<Rightarrow> int \<Rightarrow> json" where
  "token_claims slug expires = JObj [(''aud'', JStr slug), (''exp'', JInt expires), (''iss'', JStr ''acropolis'')]"

definition mint_token :: "'k crypto \<Rightarrow> 'k \<Rightarrow> rat \<Rightarrow> rat \<Rightarrow> string \<Rightarrow> string" where
  "mint_token cy k ttl epoch slug =
     (let signing_input = b64encode (cy_dumps cy (token_header cy k)) @ ''.'' @ b64encode (cy_dumps cy (token_claims slug (int_trunc (epoch + ttl)))) in
      signing_input @ ''.'' @ b64encode (cy_sign cy k signing_input))"

definition mint_uncached :: "'k crypto \<Rightarrow> token_clock \<Rightarrow> 'k issuer \<Rightarrow> string \<Rightarrow> string" where
  "mint_uncached cy c s audience = mint_token cy (ti_key s) (ti_ttl s) (tc_epoch c) audience"

definition cache_token :: "'k crypto \<Rightarrow> token_clock \<Rightarrow> 'k issuer \<Rightarrow> string \<Rightarrow> string \<times> 'k issuer" where
  "cache_token cy c s slug =
     (let t = mint_token cy (ti_key s) (ti_ttl s) (tc_epoch c) slug in
      (t, s\<lparr>ti_cache := AList.update slug \<lparr>tk_token = t, tk_refresh_at = tc_mono c + ti_refresh_after s, tk_expires_at = tc_mono c + ti_ttl s,
         tk_refreshing = False\<rparr> (ti_cache s)\<rparr>))"

text \<open>The third component: whether a background refresh was scheduled.\<close>

definition get_token :: "'k crypto \<Rightarrow> token_clock \<Rightarrow> 'k issuer \<Rightarrow> string \<Rightarrow> string \<times> 'k issuer \<times> bool" where
  "get_token cy c s0 slug =
     (let s = drop_expired_previous c s0; fresh = (let (t, s1) = cache_token cy c s slug in (t, s1, False)) in
      case map_of (ti_cache s) slug of
        None \<Rightarrow> fresh
      | Some e \<Rightarrow>
          if tc_mono c \<ge> tk_expires_at e then fresh
          else if tc_mono c \<ge> tk_refresh_at e \<and> \<not> tk_refreshing e
            then (tk_token e, s\<lparr>ti_cache := AList.update slug (e\<lparr>tk_refreshing := True\<rparr>) (ti_cache s)\<rparr>, True)
          else (tk_token e, s, False))"

definition refresh :: "'k crypto \<Rightarrow> token_clock \<Rightarrow> 'k issuer \<Rightarrow> string \<Rightarrow> 'k issuer" where
  "refresh cy c s slug =
     (let s1 = snd (cache_token cy c s slug) in
      case map_of (ti_cache s1) slug of
        None \<Rightarrow> s1
      | Some e \<Rightarrow> s1\<lparr>ti_cache := AList.update slug (e\<lparr>tk_refreshing := False\<rparr>) (ti_cache s1)\<rparr>)"

subsection \<open>The rotation state and its manager\<close>

definition OVERLAP_SECONDS :: rat where "OVERLAP_SECONDS = 2 * TOKEN_TTL_SECONDS"
definition ACTIVE_REF_KEY :: string where "ACTIVE_REF_KEY = ''token_signing_active_ref''"
definition PREVIOUS_REF_KEY :: string where "PREVIOUS_REF_KEY = ''token_signing_previous_ref''"
definition PREVIOUS_DROP_AT_KEY :: string where "PREVIOUS_DROP_AT_KEY = ''token_signing_previous_drop_at''"

definition parse_drop_at :: "string option \<Rightarrow> pyfloat option" where
  "parse_drop_at raw = (case raw of None \<Rightarrow> None | Some r \<Rightarrow> (case float_of_string r of Inl _ \<Rightarrow> None | Inr f \<Rightarrow> Some f))"

type_synonym key_state = "string option \<times> string option \<times> string option"

definition active_ref :: "string option \<Rightarrow> string dict \<Rightarrow> string option" where
  "active_ref env_ref stored = (if given (map_of stored ACTIVE_REF_KEY) then map_of stored ACTIVE_REF_KEY else env_ref)"

definition read_state :: "string option \<Rightarrow> string dict \<Rightarrow> key_state" where
  "read_state env_ref stored = (active_ref env_ref stored, map_of stored PREVIOUS_REF_KEY, map_of stored PREVIOUS_DROP_AT_KEY)"

record 'k key_manager =
  km_issuer :: "'k issuer option"
  km_fingerprint :: "key_state option"

definition load_previous :: "'k crypto \<Rightarrow> (string \<Rightarrow> secret_error + string) \<Rightarrow> string option \<Rightarrow> string option \<Rightarrow> token_error + ('k \<times> pyfloat) list" where
  "load_previous cy resolve previous_ref drop_at_raw =
     (case previous_ref of
        Some (c # r) \<Rightarrow>
          if \<not> is_reference (c # r) then Inl (TokenIssuerConfigError ''persisted previous token signing key is not a secret-provider reference'')
          else (case parse_drop_at drop_at_raw of
              None \<Rightarrow> Inr []
            | Some d \<Rightarrow> rbind (resolve_rsa_private_key cy resolve (c # r)) (\<lambda>k. Inr [(k, d)]))
      | _ \<Rightarrow> Inr [])"

definition manager_refresh :: "'k crypto \<Rightarrow> (string \<Rightarrow> secret_error + string) \<Rightarrow> key_state \<Rightarrow> 'k issuer option \<Rightarrow> (token_error + unit) \<times> 'k issuer option" where
  "manager_refresh cy resolve state iss =
     (case state of (active, previous_ref, drop_at_raw) \<Rightarrow>
        case active of
          Some (c # r) \<Rightarrow>
            (case rbind (if is_reference (c # r) then Inr () else Inl (TokenIssuerConfigError
                (''token signing key must be a secret-provider reference (enc:v1:... or vault://...), not inline key material''))) (\<lambda>_.
                rbind (resolve_rsa_private_key cy resolve (c # r)) (\<lambda>k.
                  rbind (load_previous cy resolve previous_ref drop_at_raw) (\<lambda>previous. Inr (k, previous)))) of
               Inl e \<Rightarrow> (Inl e, iss)
             | Inr (k, previous) \<Rightarrow>
                 (case iss of
                    None \<Rightarrow> (case token_issuer cy k TOKEN_TTL_SECONDS REFRESH_FRACTION previous of Inl e \<Rightarrow> (Inl e, None) | Inr s \<Rightarrow> (Inr (), Some s))
                  | Some s \<Rightarrow> (case replace_keys cy k previous s of (x, s1) \<Rightarrow> (x, Some s1))))
        | _ \<Rightarrow> (Inr (), None))"

text \<open>\<open>current\<close>: the fingerprint is only remembered after a refresh that succeeded.\<close>

definition manager_current ::
    "'k crypto \<Rightarrow> (string \<Rightarrow> secret_error + string) \<Rightarrow> string option \<Rightarrow> string dict \<Rightarrow> 'k key_manager \<Rightarrow> (token_error + 'k issuer option) \<times> 'k key_manager" where
  "manager_current cy resolve env_ref stored m =
     (let fp = read_state env_ref stored in
      if km_fingerprint m = Some fp then (Inr (km_issuer m), m)
      else case manager_refresh cy resolve fp (km_issuer m) of
          (Inl e, iss) \<Rightarrow> (Inl e, m\<lparr>km_issuer := iss\<rparr>)
        | (Inr _, iss) \<Rightarrow> (Inr iss, m\<lparr>km_issuer := iss, km_fingerprint := Some fp\<rparr>))"

subsection \<open>Rotating\<close>

text \<open>The provider as the command uses it: its kind, what a reference resolves to after the given texts were stored, and what storing returns.\<close>

record rotate_env =
  rk_provider :: provider
  rk_resolve :: "(string \<times> string) list \<Rightarrow> string \<Rightarrow> secret_error + string"
  rk_store :: "string \<Rightarrow> string \<Rightarrow> secret_error + string"

record rotate_result =
  rr_previous_ref :: "string option"
  rr_new_ref :: "string option"
  rr_previous_kid :: "string option"
  rr_new_kid :: "string option"
  rr_dry_run :: bool
  rr_verified :: bool
  rr_error :: "string option"

definition rotate_failed :: "bool \<Rightarrow> string \<Rightarrow> rotate_result" where
  "rotate_failed dry_run e = \<lparr>rr_previous_ref = None, rr_new_ref = None, rr_previous_kid = None, rr_new_kid = None, rr_dry_run = dry_run, rr_verified = False, rr_error = Some e\<rparr>"

definition require_signing_capable_provider :: "provider \<Rightarrow> string + unit" where
  "require_signing_capable_provider p = (case p of
     LocalSecretProvider \<Rightarrow> Inl (''token signing keys require the '' @ quoted ''encrypted'' @ '' or '' @ quoted ''openbao'' @ '' secret provider; got LocalSecretProvider'')
   | _ \<Rightarrow> Inr ())"

text \<open>Where the new key goes, or a message; \<open>None\<close>: the bootstrap reference does not parse, which nothing catches.\<close>

definition signing_key_target :: "rotate_env \<Rightarrow> string \<Rightarrow> rat \<Rightarrow> (string + string) option" where
  "signing_key_target env base_ref now =
     (case require_signing_capable_provider (rk_provider env) of
        Inl e \<Rightarrow> Some (Inl e)
      | Inr _ \<Rightarrow>
          (case rk_provider env of
             OpenBaoSecretProvider _ \<Rightarrow>
               (case parse_vault_ref base_ref of
                  Inl _ \<Rightarrow> None
                | Inr v \<Rightarrow> Some (Inr (''vault://'' @ vr_mount v @ ''/'' @ vr_path v @ ''/keys/'' @ show_int (int_trunc now) @ ''#key'')))
           | _ \<Rightarrow> Some (Inr '''')))"

text \<open>The three rows, written one after the other.\<close>

definition rotation_writes :: "string \<Rightarrow> string \<Rightarrow> rat \<Rightarrow> string dict" where
  "rotation_writes new_ref old_ref now =
     [(ACTIVE_REF_KEY, new_ref), (PREVIOUS_REF_KEY, old_ref), (PREVIOUS_DROP_AT_KEY, show_int (int_trunc (now + OVERLAP_SECONDS)))]"

definition write_settings :: "string dict \<Rightarrow> string dict \<Rightarrow> string dict" where
  "write_settings writes stored = foldl (\<lambda>s (k, v). AList.update k v s) stored writes"

text \<open>The check that the new key is live: the kid in the header of a token it mints. \<open>None\<close>: an exception.\<close>

definition minted_kid :: "'k crypto \<Rightarrow> rat \<Rightarrow> 'k \<Rightarrow> json option" where
  "minted_kid cy epoch k =
     (case b64decode (hd (str_split (CHR ''.'') (mint_token cy k TOKEN_TTL_SECONDS epoch ''__rotation_check__''))) of
        None \<Rightarrow> None
      | Some bytes \<Rightarrow> (case cy_loads cy bytes of Some (JObj h) \<Rightarrow> Some (dict_get h ''kid'' JNull) | _ \<Rightarrow> None))"

definition verify_rotation :: "'k crypto \<Rightarrow> rotate_env \<Rightarrow> rat \<Rightarrow> string \<Rightarrow> string \<Rightarrow> rotate_result \<Rightarrow> rotate_result option" where
  "verify_rotation cy env now new_ref pem r =
     (case resolve_rsa_private_key cy (rk_resolve env [(new_ref, pem)]) new_ref of
        Inl TokenUncaught \<Rightarrow> None
      | Inl (TokenIssuerConfigError e) \<Rightarrow> Some (r\<lparr>rr_error := Some (''post-rotate verification failed: '' @ e)\<rparr>)
      | Inr k \<Rightarrow>
          (case minted_kid cy now k of
             None \<Rightarrow> None
           | Some kid \<Rightarrow> if map_option JStr (rr_new_kid r) \<noteq> Some kid
               then Some (r\<lparr>rr_error := Some ''post-rotate verification failed: minted kid does not match the new key''\<rparr>)
               else Some (r\<lparr>rr_verified := True\<rparr>)))"

text \<open>New keys are stored relative to the reference of the environment when there is one.\<close>

definition bootstrap_ref :: "string option \<Rightarrow> string \<Rightarrow> string" where
  "bootstrap_ref env_ref ref = (case env_ref of Some (c # s) \<Rightarrow> c # s | _ \<Rightarrow> ref)"

text \<open>\<open>new_key\<close> is the key pair that was drawn. \<open>None\<close>: an exception; the rows are those written before it.\<close>

definition rotate_signing_key ::
    "'k crypto \<Rightarrow> rotate_env \<Rightarrow> 'k \<Rightarrow> string option \<Rightarrow> bool \<Rightarrow> rat \<Rightarrow> string dict \<Rightarrow> rotate_result option \<times> string dict" where
  "rotate_signing_key cy env new_key env_ref dry_run now stored =
     (case active_ref env_ref stored of
        Some (c # cs) \<Rightarrow> let ref = c # cs in
          if \<not> is_reference ref
          then (Some (rotate_failed dry_run ''token signing key must be a secret-provider reference (enc:v1:... or vault://...), not inline material''), stored)
          else (case resolve_rsa_private_key cy (rk_resolve env []) ref of
              Inl TokenUncaught \<Rightarrow> (None, stored)
            | Inl (TokenIssuerConfigError e) \<Rightarrow> (Some (rotate_failed dry_run (''current signing key is unusable: '' @ e)), stored)
            | Inr current_key \<Rightarrow>
                let pem = cy_pem cy new_key;
                    r = \<lparr>rr_previous_ref = Some ref, rr_new_ref = None, rr_previous_kid = Some (derive_kid cy current_key), rr_new_kid = Some (derive_kid cy new_key),
                      rr_dry_run = dry_run, rr_verified = False, rr_error = None\<rparr> in
                if dry_run then
                  (case require_signing_capable_provider (rk_provider env) of
                     Inl e \<Rightarrow> (Some (rotate_failed True e), stored)
                   | Inr _ \<Rightarrow> (Some r, stored))
                else
                  (case signing_key_target env (bootstrap_ref env_ref ref) now of
                     None \<Rightarrow> (None, stored)
                   | Some (Inl e) \<Rightarrow> (Some (rotate_failed dry_run e), stored)
                   | Some (Inr target) \<Rightarrow>
                       (case rk_store env target pem of
                          Inl SecretUncaught \<Rightarrow> (None, stored)
                        | Inl (SecretResolutionError reason) \<Rightarrow> (Some (rotate_failed dry_run (''could not store the new signing key: '' @ reason)), stored)
                        | Inr new_ref \<Rightarrow>
                            (verify_rotation cy env now new_ref pem (r\<lparr>rr_new_ref := Some new_ref\<rparr>), write_settings (rotation_writes new_ref ref now) stored))))
      | _ \<Rightarrow> (Some (rotate_failed dry_run (''no token signing key configured '' @ em_dash
            @ '' set ACROPOLIS_TOKEN_SIGNING_KEY_REF (a enc:v1:... or vault://... reference) before rotating'')), stored))"

subsection \<open>Tokens that are handed out\<close>

text \<open>Both clocks run together: \<open>off\<close> is the epoch time at which the monotonic clock was zero.\<close>

definition clock_at :: "rat \<Rightarrow> rat \<Rightarrow> token_clock" where
  "clock_at off t = \<lparr>tc_mono = t, tc_epoch = t + off\<rparr>"

definition entry_ok :: "'k crypto \<Rightarrow> rat \<Rightarrow> rat \<Rightarrow> 'k issuer \<Rightarrow> string list \<Rightarrow> string \<Rightarrow> cached_token \<Rightarrow> bool" where
  "entry_ok cy off t s pending slug e \<longleftrightarrow> (\<exists>t0 \<le> t. tk_token e = mint_token cy (ti_key s) (ti_ttl s) (t0 + off) slug \<and> tk_expires_at e = t0 + ti_ttl s)
     \<and> (tk_refreshing e \<longrightarrow> slug \<in> set pending)"

definition issuer_ok :: "'k crypto \<Rightarrow> rat \<Rightarrow> rat \<Rightarrow> 'k issuer \<Rightarrow> string list \<Rightarrow> bool" where
  "issuer_ok cy off t s pending \<longleftrightarrow> 0 < ti_ttl s \<and> (\<forall>slug e. map_of (ti_cache s) slug = Some e \<longrightarrow> entry_ok cy off t s pending slug e)"

text \<open>The issuer at a time, with the background refreshes that were scheduled and have not run: requests, refreshes, the published keys and rotations, in any order.\<close>

inductive issuer_run :: "'k crypto \<Rightarrow> rat \<Rightarrow> rat \<Rightarrow> 'k issuer \<Rightarrow> string list \<Rightarrow> bool" for cy off where
  built: "token_issuer cy k ttl fraction previous = Inr s \<Longrightarrow> issuer_run cy off t s []"
| asked: "issuer_run cy off t s p \<Longrightarrow> t \<le> t' \<Longrightarrow> get_token cy (clock_at off t') s slug = (tok, s', sched) \<Longrightarrow> issuer_run cy off t' s' (if sched then slug # p else p)"
| refreshed: "issuer_run cy off t s (p @ slug # p') \<Longrightarrow> t \<le> t' \<Longrightarrow> issuer_run cy off t' (refresh cy (clock_at off t') s slug) (p @ p')"
| published: "issuer_run cy off t s p \<Longrightarrow> t \<le> t' \<Longrightarrow> issuer_run cy off t' (snd (jwks cy (clock_at off t') s)) p"
| rotated: "issuer_run cy off t s p \<Longrightarrow> t \<le> t' \<Longrightarrow> replace_keys cy k previous s = (Inr (), s') \<Longrightarrow> issuer_run cy off t' s' p"

lemma add_all_frame:
  "add_all_previous cy previous s = (r, s') \<Longrightarrow> ti_key s' = ti_key s \<and> ti_ttl s' = ti_ttl s \<and> ti_cache s' = ti_cache s"
proof (induction previous arbitrary: s)
  case (Cons kd kds)
  then show ?case by (cases "add_previous cy kd s") (force simp: add_previous_def split: if_splits)+
qed simp

lemma drop_frame [simp]: "ti_key (drop_expired_previous c s) = ti_key s" "ti_ttl (drop_expired_previous c s) = ti_ttl s"
    "ti_cache (drop_expired_previous c s) = ti_cache s" "ti_refresh_after (drop_expired_previous c s) = ti_refresh_after s"
  by (simp_all add: drop_expired_previous_def)

lemma entry_ok_mono:
  "entry_ok cy off t s p slug e \<Longrightarrow> t \<le> t' \<Longrightarrow> ti_key s' = ti_key s \<Longrightarrow> ti_ttl s' = ti_ttl s \<Longrightarrow> set p \<subseteq> set p' \<Longrightarrow> entry_ok cy off t' s' p' slug e"
  unfolding entry_ok_def by (metis order_trans subset_iff)

lemma minted_entry:
  "entry_ok cy off t s p slug \<lparr>tk_token = mint_token cy (ti_key s) (ti_ttl s) (t + off) slug, tk_refresh_at = a, tk_expires_at = t + ti_ttl s, tk_refreshing = False\<rparr>"
  unfolding entry_ok_def by auto

lemma get_token_cases:
  assumes "get_token cy (clock_at off t) s slug = (tok, s', sched)"
  obtains (minted) "tok = mint_token cy (ti_key s) (ti_ttl s) (t + off) slug" "\<not> sched" "ti_cache s' = AList.update slug
      \<lparr>tk_token = tok, tk_refresh_at = t + ti_refresh_after s, tk_expires_at = t + ti_ttl s, tk_refreshing = False\<rparr> (ti_cache s)" "ti_key s' = ti_key s" "ti_ttl s' = ti_ttl s"
  | (cached) e where "map_of (ti_cache s) slug = Some e" "tok = tk_token e" "t < tk_expires_at e" "\<not> sched" "ti_cache s' = ti_cache s" "ti_key s' = ti_key s" "ti_ttl s' = ti_ttl s"
  | (due) e where "map_of (ti_cache s) slug = Some e" "tok = tk_token e" "t < tk_expires_at e" "sched" "ti_cache s' = AList.update slug (e\<lparr>tk_refreshing := True\<rparr>) (ti_cache s)"
      "ti_key s' = ti_key s" "ti_ttl s' = ti_ttl s"
proof (cases "map_of (ti_cache s) slug")
  case None
  then show ?thesis using assms by (intro minted) (auto simp: get_token_def Let_def cache_token_def clock_at_def)
next
  case (Some e)
  show ?thesis
  proof (cases "t \<ge> tk_expires_at e")
    case True
    then show ?thesis using assms Some by (intro minted) (auto simp: get_token_def Let_def cache_token_def clock_at_def)
  next
    case False
    show ?thesis
    proof (cases "t \<ge> tk_refresh_at e \<and> \<not> tk_refreshing e")
      case True
      then show ?thesis using assms Some False by (intro due [of e]) (auto simp: get_token_def Let_def clock_at_def)
    next
      case not_due: False
      then show ?thesis using assms Some False by (intro cached [of e]) (auto simp: get_token_def Let_def clock_at_def)
    qed
  qed
qed

lemma get_token_ok:
  assumes "issuer_ok cy off t s p" and "t \<le> t'" and "get_token cy (clock_at off t') s slug = (tok, s', sched)"
  shows "issuer_ok cy off t' s' (if sched then slug # p else p)"
    and "\<exists>t0 \<le> t'. t' < t0 + ti_ttl s \<and> tok = mint_token cy (ti_key s) (ti_ttl s) (t0 + off) slug"
proof -
  have ttl: "0 < ti_ttl s" and ok: "\<And>k e. map_of (ti_cache s) k = Some e \<Longrightarrow> entry_ok cy off t s p k e" using assms(1) by (auto simp: issuer_ok_def)
  have "issuer_ok cy off t' s' (if sched then slug # p else p) \<and> (\<exists>t0 \<le> t'. t' < t0 + ti_ttl s \<and> tok = mint_token cy (ti_key s) (ti_ttl s) (t0 + off) slug)"
    using assms(3)
  proof (cases rule: get_token_cases)
    case minted
    have "issuer_ok cy off t' s' p" unfolding issuer_ok_def
      using ttl minted minted_entry [of cy off t' s' p slug] entry_ok_mono [OF ok assms(2), of _ _ s' p] by (auto simp: update_conv' split: if_splits)
    then show ?thesis using minted ttl by auto
  next
    case (cached e)
    obtain t0 where "t0 \<le> t" "tk_token e = mint_token cy (ti_key s) (ti_ttl s) (t0 + off) slug" "tk_expires_at e = t0 + ti_ttl s"
      using ok [OF cached(1)] by (auto simp: entry_ok_def)
    moreover have "issuer_ok cy off t' s' p" unfolding issuer_ok_def using ttl cached entry_ok_mono [OF ok assms(2), of _ _ s' p] by auto
    ultimately show ?thesis using cached assms(2) by (auto intro!: exI [of _ t0])
  next
    case (due e)
    obtain t0 where t0: "t0 \<le> t" "tk_token e = mint_token cy (ti_key s) (ti_ttl s) (t0 + off) slug" "tk_expires_at e = t0 + ti_ttl s"
      using ok [OF due(1)] by (auto simp: entry_ok_def)
    have "entry_ok cy off t' s' (slug # p) slug (e\<lparr>tk_refreshing := True\<rparr>)" using t0 due assms(2) by (auto simp: entry_ok_def intro!: exI [of _ t0])
    then have "issuer_ok cy off t' s' (slug # p)" unfolding issuer_ok_def
      using ttl due entry_ok_mono [OF ok assms(2), of _ _ s' "slug # p"] by (auto simp: update_conv' split: if_splits)
    then show ?thesis using t0 due assms(2) by (auto intro!: exI [of _ t0])
  qed
  then show "issuer_ok cy off t' s' (if sched then slug # p else p)"
    "\<exists>t0 \<le> t'. t' < t0 + ti_ttl s \<and> tok = mint_token cy (ti_key s) (ti_ttl s) (t0 + off) slug" by auto
qed

lemma refresh_ok:
  assumes "issuer_ok cy off t s (p @ slug # p')" and "t \<le> t'"
  shows "issuer_ok cy off t' (refresh cy (clock_at off t') s slug) (p @ p')"
proof -
  let ?e = "\<lparr>tk_token = mint_token cy (ti_key s) (ti_ttl s) (t' + off) slug, tk_refresh_at = t' + ti_refresh_after s, tk_expires_at = t' + ti_ttl s, tk_refreshing = False\<rparr>"
  let ?s = "refresh cy (clock_at off t') s slug"
  have f: "ti_key ?s = ti_key s" "ti_ttl ?s = ti_ttl s" "map_of (ti_cache ?s) = (map_of (ti_cache s))(slug \<mapsto> ?e)"
    by (auto simp: refresh_def cache_token_def Let_def clock_at_def update_conv')
  have "entry_ok cy off t' ?s (p @ p') k e" if "map_of (ti_cache ?s) k = Some e" for k e
  proof (cases "k = slug")
    case True
    then show ?thesis using that minted_entry [of cy off t' s "p @ p'" slug] f by (auto simp: entry_ok_def)
  next
    case False
    then have "entry_ok cy off t s (p @ slug # p') k e" using that f assms(1) by (auto simp: issuer_ok_def)
    then show ?thesis using False f assms(2) unfolding entry_ok_def by (auto intro: order_trans)
  qed
  then show ?thesis using assms(1) f by (auto simp: issuer_ok_def)
qed

lemma issuer_run_ok: "issuer_run cy off t s p \<Longrightarrow> issuer_ok cy off t s p"
proof (induction rule: issuer_run.induct)
  case (built k ttl fraction previous s t)
  then show ?case by (auto simp: token_issuer_def issuer_ok_def dest: add_all_frame split: if_splits prod.splits sum.splits)
next
  case (asked t s p t' slug tok s' sched)
  then show ?case using get_token_ok(1) by blast
next
  case (refreshed t s p slug p' t')
  then show ?case using refresh_ok by blast
next
  case (published t s p t')
  then show ?case unfolding issuer_ok_def using entry_ok_mono [of cy off t s p _ _ t' "snd (jwks cy (clock_at off t') s)" p] by (auto simp: jwks_def Let_def)
next
  case (rotated t s p t' k previous s')
  then show ?case by (auto simp: replace_keys_def issuer_ok_def dest: add_all_frame split: if_splits prod.splits sum.splits)
qed


subsection \<open>Rotation\<close>

text \<open>The printer and the reader of JSON agree on token headers.\<close>

definition header_round_trip :: "'k crypto \<Rightarrow> bool" where
  "header_round_trip cy \<longleftrightarrow> (\<forall>k. cy_loads cy (cy_dumps cy (token_header cy k)) = Some (token_header cy k))"

lemma split_first: "c \<notin> set w \<Longrightarrow> hd (str_split c (w @ c # s)) = w"
  by (simp add: split_append)

lemma minted_kid_derive: "header_round_trip cy \<Longrightarrow> minted_kid cy epoch k = Some (JStr (derive_kid cy k))"
  unfolding minted_kid_def mint_token_def Let_def append_assoc append.simps split_first [OF b64encode_no_dot]
  by (simp add: header_round_trip_def token_header_def dict_get_def)

lemma rotation_rows:
  "map_of (write_settings (rotation_writes new old now) stored) ACTIVE_REF_KEY = Some new"
  "map_of (write_settings (rotation_writes new old now) stored) PREVIOUS_REF_KEY = Some old"
  "map_of (write_settings (rotation_writes new old now) stored) PREVIOUS_DROP_AT_KEY = Some (show_int (int_trunc (now + OVERLAP_SECONDS)))"
  "map_of (write_settings (take 1 (rotation_writes new old now)) stored) ACTIVE_REF_KEY = Some new"
  "map_of (write_settings (take 1 (rotation_writes new old now)) stored) PREVIOUS_REF_KEY = map_of stored PREVIOUS_REF_KEY"
  by (simp_all add: write_settings_def rotation_writes_def update_conv' ACTIVE_REF_KEY_def PREVIOUS_REF_KEY_def PREVIOUS_DROP_AT_KEY_def)

lemma add_one_previous: "add_all_previous cy [(k, d)] s = (if cy_is_rsa cy k then (Inr (), s\<lparr>ti_previous := AList.update (derive_kid cy k) (build_jwk cy k, d) (ti_previous s)\<rparr>)
    else (Inl (TokenIssuerConfigError ''TokenIssuer previous keys must be RSA private keys (RS256)''), s))"
  by (simp add: add_previous_def)

lemma resolved_rsa: "resolve_rsa_private_key cy resolve ref = Inr k \<Longrightarrow> cy_is_rsa cy k"
  by (auto simp: resolve_rsa_private_key_def split: sum.splits secret_error.splits if_splits)

text \<open>What a refresh of the manager publishes.\<close>

lemma manager_publishes:
  assumes "manager_refresh cy resolve (Some ref, previous_ref, drop_at) iss = (Inr (), Some s)" and "given (Some ref)"
  obtains k previous where "is_reference ref" "resolve_rsa_private_key cy resolve ref = Inr k" "load_previous cy resolve previous_ref drop_at = Inr previous"
    "ti_key s = k" "ti_previous s = (case previous of [] \<Rightarrow> [] | (k', d) # _ \<Rightarrow> [(derive_kid cy k', build_jwk cy k', d)])"
proof -
  obtain c r where ref: "ref = c # r" using assms(2) by (cases ref) (auto simp: given_def)
  obtain k previous where kp: "is_reference ref" "resolve_rsa_private_key cy resolve ref = Inr k" "load_previous cy resolve previous_ref drop_at = Inr previous"
    and step: "(case iss of None \<Rightarrow> (case token_issuer cy k TOKEN_TTL_SECONDS REFRESH_FRACTION previous of Inl e \<Rightarrow> (Inl e, None) | Inr s \<Rightarrow> (Inr (), Some s))
        | Some s \<Rightarrow> (case replace_keys cy k previous s of (x, s1) \<Rightarrow> (x, Some s1))) = (Inr (), Some s)"
  proof -
    let ?g = "rbind (if is_reference (c # r) then Inr () else Inl (TokenIssuerConfigError
                (''token signing key must be a secret-provider reference (enc:v1:... or vault://...), not inline key material''))) (\<lambda>_.
                rbind (resolve_rsa_private_key cy resolve (c # r)) (\<lambda>k. rbind (load_previous cy resolve previous_ref drop_at) (\<lambda>previous. Inr (k, previous))))"
    show ?thesis
    proof (cases ?g)
      case (Inl e)
      then show ?thesis using assms(1) unfolding manager_refresh_def prod.case ref option.case list.case by simp
    next
      case (Inr x)
      then obtain k previous where g: "?g = Inr (k, previous)" by (cases x) auto
      show ?thesis
        by (rule that [of k previous]) (use assms(1) g in \<open>auto simp: manager_refresh_def ref rbind_eq_Inr split: if_splits\<close>)
    qed
  qed
  have shape: "previous = [] \<or> (\<exists>k' d. previous = [(k', d)])"
    using kp(3) by (auto simp: load_previous_def rbind_eq_Inr split: option.splits list.splits if_splits)
  show ?thesis
  proof (rule that [OF kp])
    show "ti_key s = k" "ti_previous s = (case previous of [] \<Rightarrow> [] | (k', d) # _ \<Rightarrow> [(derive_kid cy k', build_jwk cy k', d)])"
      using shape step by (cases iss; auto simp: token_issuer_def replace_keys_def add_previous_def split: if_splits sum.splits prod.splits)+
  qed
qed

lemma manager_current_refreshed:
  assumes "manager_current cy resolve env_ref stored m = (Inr (Some s), m')" and "km_fingerprint m \<noteq> Some (read_state env_ref stored)"
  shows "manager_refresh cy resolve (read_state env_ref stored) (km_issuer m) = (Inr (), Some s)"
  using assms by (auto simp: manager_current_def Let_def split: if_splits prod.splits sum.splits)

lemma rotated_state: "given (Some new) \<Longrightarrow> read_state env_ref (write_settings (rotation_writes new old now) stored)
    = (Some new, Some old, Some (show_int (int_trunc (now + OVERLAP_SECONDS))))"
  by (simp add: read_state_def active_ref_def rotation_rows)

lemma given_reference: "is_reference ref \<Longrightarrow> given (Some ref)"
  by (auto simp: is_reference_def given_def)

lemma verified_rotation:
  assumes "rotate_signing_key cy env new_key env_ref False now stored = (Some r, stored')" and "rr_verified r" and "header_round_trip cy"
  obtains old new k_old k_new where "active_ref env_ref stored = Some old" "is_reference old" "resolve_rsa_private_key cy (rk_resolve env []) old = Inr k_old"
    "rr_previous_kid r = Some (derive_kid cy k_old)" "rr_new_ref r = Some new" "resolve_rsa_private_key cy (rk_resolve env [(new, cy_pem cy new_key)]) new = Inr k_new"
    "derive_kid cy k_new = derive_kid cy new_key" "stored' = write_settings (rotation_writes new old now) stored"
proof -
  obtain old where old: "active_ref env_ref stored = Some old" "old \<noteq> []" "is_reference old"
    using assms(1,2) by (auto simp: rotate_signing_key_def rotate_failed_def Let_def split: option.splits list.splits if_splits)
  then obtain c cs where c: "old = c # cs" by (cases old) auto
  obtain k_old where k: "resolve_rsa_private_key cy (rk_resolve env []) old = Inr k_old"
    using assms(1,2) old c by (auto simp: rotate_signing_key_def rotate_failed_def Let_def split: sum.splits token_error.splits)
  obtain target where t: "signing_key_target env (bootstrap_ref env_ref old) now = Some (Inr target)"
    using assms(1,2) old c k by (auto simp: rotate_signing_key_def rotate_failed_def Let_def split: option.splits sum.splits)
  obtain new where n: "rk_store env target (cy_pem cy new_key) = Inr new"
    using assms(1,2) old c k t by (auto simp: rotate_signing_key_def rotate_failed_def Let_def split: sum.splits secret_error.splits)
  let ?r = "\<lparr>rr_previous_ref = Some old, rr_new_ref = Some new, rr_previous_kid = Some (derive_kid cy k_old), rr_new_kid = Some (derive_kid cy new_key),
      rr_dry_run = False, rr_verified = False, rr_error = None\<rparr>"
  have v: "verify_rotation cy env now new (cy_pem cy new_key) ?r = Some r" "stored' = write_settings (rotation_writes new old now) stored"
    using assms(1) old c k t n by (auto simp: rotate_signing_key_def Let_def)
  obtain k_new where "resolve_rsa_private_key cy (rk_resolve env [(new, cy_pem cy new_key)]) new = Inr k_new" "derive_kid cy k_new = derive_kid cy new_key"
    "r = ?r\<lparr>rr_verified := True\<rparr>"
    using v(1) assms(2) minted_kid_derive [OF assms(3)] by (auto simp: verify_rotation_def split: sum.splits token_error.splits if_splits)
  with v(2) show ?thesis using that [OF old(1,3) k _ _ _ _ v(2), of k_new] by simp
qed

text \<open>A rotation that reports success causes no downtime: once the running gateway has read the new state it signs with the new key, and until the overlap has passed it
  publishes both keys, so every token of the old key can be verified until it expires. The deadline is two token lifetimes after
  the rotation.\<close>

theorem rotation_publishes_both:
  assumes "rotate_signing_key cy env new_key env_ref False now stored = (Some r, stored')" and "rr_verified r" and "header_round_trip cy"
    and "rr_new_ref r = Some new" and "\<And>ref. ref \<noteq> new \<Longrightarrow> rk_resolve env [(new, cy_pem cy new_key)] ref = rk_resolve env [] ref"
    and "active_ref env_ref stored \<noteq> Some new" and "is_reference new"
    and "manager_current cy (rk_resolve env [(new, cy_pem cy new_key)]) env_ref stored' m = (Inr (Some s), m')" and "km_fingerprint m \<noteq> Some (read_state env_ref stored')"
    and "parse_drop_at (Some (show_int (int_trunc (now + OVERLAP_SECONDS)))) = Some (Fin d)" and "tc_epoch c < d"
  shows "\<exists>k_new k_old. ti_key s = k_new \<and> derive_kid cy k_new = derive_kid cy new_key \<and> rr_previous_kid r = Some (derive_kid cy k_old)
    \<and> fst (jwks cy c s) = JObj [(''keys'', JList [build_jwk cy k_new, build_jwk cy k_old])]"
proof -
  obtain old k_old k_new where o: "active_ref env_ref stored = Some old" "is_reference old" "resolve_rsa_private_key cy (rk_resolve env []) old = Inr k_old"
    "rr_previous_kid r = Some (derive_kid cy k_old)" "resolve_rsa_private_key cy (rk_resolve env [(new, cy_pem cy new_key)]) new = Inr k_new"
    "derive_kid cy k_new = derive_kid cy new_key" and st: "stored' = write_settings (rotation_writes new old now) stored"
    using verified_rotation [OF assms(1-3)] assms(4) by (metis option.inject)
  let ?res = "rk_resolve env [(new, cy_pem cy new_key)]"
  have "old \<noteq> new" using o(1) assms(6) by auto
  then have k_old: "resolve_rsa_private_key cy ?res old = Inr k_old"
    using o(3) assms(5) by (simp add: resolve_rsa_private_key_def)
  have "manager_refresh cy ?res (Some new, Some old, Some (show_int (int_trunc (now + OVERLAP_SECONDS)))) (km_issuer m) = (Inr (), Some s)"
    using manager_current_refreshed [OF assms(8,9)] rotated_state [OF given_reference [OF assms(7)]] st by simp
  from manager_publishes [OF this given_reference [OF assms(7)]]
  obtain k previous where kp: "resolve_rsa_private_key cy ?res new = Inr k"
    "load_previous cy ?res (Some old) (Some (show_int (int_trunc (now + OVERLAP_SECONDS)))) = Inr previous" "ti_key s = k"
    "ti_previous s = (case previous of [] \<Rightarrow> [] | (k', d) # _ \<Rightarrow> [(derive_kid cy k', build_jwk cy k', d)])" by blast
  obtain x xs where old: "old = x # xs" using given_reference [OF o(2)] by (cases old) (auto simp: given_def)
  have "previous = [(k_old, Fin d)]" using kp(2) o(2) k_old assms(10) by (simp add: load_previous_def old)
  then have "fst (jwks cy c s) = JObj [(''keys'', JList [build_jwk cy k_new, build_jwk cy k_old])]"
    using kp o(5) assms(11) by (simp add: jwks_def Let_def drop_expired_previous_def drop_due_def)
  then show ?thesis using kp(1,3) o by auto
qed

text \<open>Two gaps of the rotation. The three rows are written one after the other, the active key first: a gateway that reads the state in between publishes the new key alone,
  and tokens of the old key, valid for minutes, cannot be verified until it reads again. And there is one slot for a previous
  key: after a second rotation the first key is not published any more, however short a time ago it signed.\<close>

theorem rotation_gaps:
  assumes "is_reference new" and "resolve_rsa_private_key cy resolve new = Inr k"
  shows "(map_of stored PREVIOUS_REF_KEY = None \<longrightarrow> manager_current cy resolve env_ref (write_settings (take 1 (rotation_writes new old now)) stored) m = (Inr (Some s), m')
      \<longrightarrow> km_fingerprint m \<noteq> Some (read_state env_ref (write_settings (take 1 (rotation_writes new old now)) stored))
      \<longrightarrow> fst (jwks cy c s) = JObj [(''keys'', JList [build_jwk cy k])])
   \<and> read_state env_ref (write_settings (rotation_writes new mid later) (write_settings (rotation_writes mid old now) stored))
     = read_state env_ref (write_settings (rotation_writes new mid later) stored)"
proof (intro conjI impI)
  note g = given_reference [OF assms(1)]
  let ?st = "write_settings (take 1 (rotation_writes new old now)) stored"
  assume "map_of stored PREVIOUS_REF_KEY = None" and m: "manager_current cy resolve env_ref ?st m = (Inr (Some s), m')" "km_fingerprint m \<noteq> Some (read_state env_ref ?st)"
  then have "\<exists>d. read_state env_ref ?st = (Some new, None, d)" using g unfolding read_state_def active_ref_def rotation_rows by simp
  then obtain d where "manager_refresh cy resolve (Some new, None, d) (km_issuer m) = (Inr (), Some s)" using manager_current_refreshed [OF m] by auto
  from manager_publishes [OF this g] obtain k' previous where "resolve_rsa_private_key cy resolve new = Inr k'" "ti_key s = k'" "load_previous cy resolve None d = Inr previous"
    "ti_previous s = (case previous of [] \<Rightarrow> [] | (k', d) # _ \<Rightarrow> [(derive_kid cy k', build_jwk cy k', d)])" by blast
  moreover have "previous = []" using calculation(3) by (simp add: load_previous_def)
  ultimately have "ti_key s = k" "ti_previous s = []" using assms(2) by simp_all
  then show "fst (jwks cy c s) = JObj [(''keys'', JList [build_jwk cy k])]"
    by (simp add: jwks_def Let_def drop_expired_previous_def)
qed (simp add: rotated_state [OF given_reference [OF assms(1)]])

subsection \<open>A sample issuer\<close>

definition sample_crypto :: "string crypto" where
  "sample_crypto = \<lparr>cy_is_rsa = (\<lambda>_. True), cy_der = id, cy_numbers = (\<lambda>_. (3, 5)), cy_sha256 = id, cy_sign = (\<lambda>k m. k @ m), cy_load_pem = Inr, cy_pem = id,
     cy_dumps = (\<lambda>j. case j of JObj kvs \<Rightarrow> (case map_of kvs ''kid'' of Some (JStr s) \<Rightarrow> s | _ \<Rightarrow> ''claims'') | _ \<Rightarrow> ''''),
     cy_loads = (\<lambda>s. Some (JObj [(''alg'', JStr ''RS256''), (''kid'', JStr s), (''typ'', JStr ''JWT'')]))\<rparr>"

definition sample_rotate_env :: rotate_env where
  "sample_rotate_env = \<lparr>rk_provider = EncryptedSecretProvider [],
     rk_resolve = (\<lambda>hist ref. case map_of hist ref of Some p \<Rightarrow> Inr p | None \<Rightarrow> if ref = ''enc:v1:OLD'' then Inr ''OLD'' else Inl (SecretResolutionError ''unknown'')),
     rk_store = (\<lambda>target pem. Inr (''enc:v1:'' @ pem))\<rparr>"

definition sample_manager :: "string key_manager" where
  "sample_manager = \<lparr>km_issuer = None, km_fingerprint = None\<rparr>"

lemma sample_headers: "header_round_trip sample_crypto"
  by (simp add: header_round_trip_def sample_crypto_def token_header_def)


lemma sample_rotation:
  "map_prod (map_option rr_verified) id (rotate_signing_key sample_crypto sample_rotate_env ''NEW'' (Some ''enc:v1:OLD'') False 0 [])
     = (Some True, write_settings (rotation_writes ''enc:v1:NEW'' ''enc:v1:OLD'' 0) [])"
  "map_option rr_new_ref (fst (rotate_signing_key sample_crypto sample_rotate_env ''NEW'' (Some ''enc:v1:OLD'') False 0 [])) = Some (Some ''enc:v1:NEW'')"
  by code_simp+

theorem rotation_publishes_both_witness:
  "\<exists>s m' k_old. manager_current sample_crypto (rk_resolve sample_rotate_env [(''enc:v1:NEW'', ''NEW'')]) (Some ''enc:v1:OLD'')
       (write_settings (rotation_writes ''enc:v1:NEW'' ''enc:v1:OLD'' 0) []) sample_manager = (Inr (Some s), m')
     \<and> fst (jwks sample_crypto (clock_at 0 5) s) = JObj [(''keys'', JList [build_jwk sample_crypto (ti_key s), build_jwk sample_crypto k_old])]"
proof -
  let ?rot = "rotate_signing_key sample_crypto sample_rotate_env ''NEW'' (Some ''enc:v1:OLD'') False 0 []"
  let ?st = "write_settings (rotation_writes ''enc:v1:NEW'' ''enc:v1:OLD'' 0) []"
  obtain r where r: "?rot = (Some r, ?st)" "rr_verified r" "rr_new_ref r = Some ''enc:v1:NEW''" using sample_rotation by (cases ?rot) auto
  let ?m = "manager_current sample_crypto (rk_resolve sample_rotate_env [(''enc:v1:NEW'', cy_pem sample_crypto ''NEW'')]) (Some ''enc:v1:OLD'') ?st sample_manager"
  have "case fst ?m of Inr (Some s) \<Rightarrow> True | _ \<Rightarrow> False" by code_simp
  then obtain s where "fst ?m = Inr (Some s)" by (auto split: sum.splits option.splits)
  then have m: "?m = (Inr (Some s), snd ?m)" by (metis prod.collapse)
  have "parse_drop_at (Some (show_int (int_trunc (0 + OVERLAP_SECONDS)))) = Some (Fin 1200)" by code_simp
  moreover have "active_ref (Some ''enc:v1:OLD'') [] \<noteq> Some ''enc:v1:NEW''" "is_reference ''enc:v1:NEW''" by code_simp+
  moreover have "rk_resolve sample_rotate_env [(''enc:v1:NEW'', cy_pem sample_crypto ''NEW'')] ref = rk_resolve sample_rotate_env [] ref" if "ref \<noteq> ''enc:v1:NEW''" for ref
    using that by (simp add: sample_rotate_env_def)
  moreover have "km_fingerprint sample_manager \<noteq> Some (read_state (Some ''enc:v1:OLD'') ?st)" "tc_epoch (clock_at 0 5) < 1200" by (simp_all add: sample_manager_def clock_at_def)
  ultimately obtain k_old where "fst (jwks sample_crypto (clock_at 0 5) s) = JObj [(''keys'', JList [build_jwk sample_crypto (ti_key s), build_jwk sample_crypto k_old])]"
    using rotation_publishes_both [OF r(1,2) sample_headers r(3) _ _ _ m, of 1200 "clock_at 0 5"] by blast
  then show ?thesis using m by (auto simp: sample_crypto_def)
qed

theorem rotation_gaps_witness:
  "\<exists>s m'. manager_current sample_crypto (rk_resolve sample_rotate_env [(''enc:v1:NEW'', ''NEW'')]) (Some ''enc:v1:OLD'')
       (write_settings (take 1 (rotation_writes ''enc:v1:NEW'' ''enc:v1:OLD'' 0)) []) sample_manager = (Inr (Some s), m')
     \<and> fst (jwks sample_crypto (clock_at 0 5) s) = JObj [(''keys'', JList [build_jwk sample_crypto ''NEW''])]"
proof -
  let ?st = "write_settings (take 1 (rotation_writes ''enc:v1:NEW'' ''enc:v1:OLD'' 0)) []"
  let ?res = "rk_resolve sample_rotate_env [(''enc:v1:NEW'', ''NEW'')]"
  let ?m = "manager_current sample_crypto ?res (Some ''enc:v1:OLD'') ?st sample_manager"
  have "case fst ?m of Inr (Some s) \<Rightarrow> True | _ \<Rightarrow> False" by code_simp
  then obtain s where "fst ?m = Inr (Some s)" by (auto split: sum.splits option.splits)
  then have m: "?m = (Inr (Some s), snd ?m)" by (metis prod.collapse)
  have "is_reference ''enc:v1:NEW''" "resolve_rsa_private_key sample_crypto ?res ''enc:v1:NEW'' = Inr ''NEW''" by code_simp+
  note gaps = rotation_gaps [OF this, of "[]" "Some ''enc:v1:OLD''" "''enc:v1:OLD''" 0 sample_manager s "snd ?m" "clock_at 0 5", THEN conjunct1]
  have "km_fingerprint sample_manager \<noteq> Some (read_state (Some ''enc:v1:OLD'') ?st)" by (simp add: sample_manager_def)
  with gaps m have "fst (jwks sample_crypto (clock_at 0 5) s) = JObj [(''keys'', JList [build_jwk sample_crypto ''NEW''])]" by simp
  with m show ?thesis by blast
qed

end
