(* ===== verification/Oidc.thy ===== *)
theory Oidc
  imports Approvals Response_Dlp
begin

text \<open>
  Single sign-on: \<open>archon/oidc.py\<close>, the three routes of \<open>archon/setup.py\<close> that use it, and \<open>UserRepo.get_or_create_from_oidc\<close>. The identity provider is a
  parameter: what it answers to a GET of an address and to a POST of a form. The random strings of an attempt are arguments, SHA-256 and the JSON reader are
  parameters. The function \<open>between\<close> is what other requests do to the tables before the n-th statement of a first login. The clock stands still during one
  operation, and the text of an exception of the JSON reader is left out.
\<close>

subsection \<open>Settings\<close>

definition ATTEMPT_TTL_SECONDS :: rat where "ATTEMPT_TTL_SECONDS = 600"

record oidc_settings =
  os_issuer :: string
  os_client_id :: string
  os_client_secret :: string
  os_redirect_uri :: string
  os_scopes :: string
  os_allowed_domains :: "string list"
  os_allowed_groups :: "string list"
  os_group_claim :: string
  os_default_role :: string
  os_jit_provisioning :: bool

definition str_or :: "string dict \<Rightarrow> string \<Rightarrow> string \<Rightarrow> string" where
  "str_or values k dflt = (let v = dict_get values k [] in if v = [] then dflt else v)"

definition OIDC_REQUIRED :: "string list" where
  "OIDC_REQUIRED = [''oidc_issuer'', ''oidc_client_id'', ''oidc_client_secret'', ''oidc_redirect_uri'']"

definition comma_list :: "string \<Rightarrow> string list" where
  "comma_list s = filter (\<lambda>w. w \<noteq> []) (map str_strip (str_split (CHR '','') s))"

text \<open>\<open>Inl\<close> is \<open>OidcConfigError\<close>; \<open>Inr None\<close>: not enabled.\<close>

definition from_settings_dict :: "string dict \<Rightarrow> string + oidc_settings option" where
  "from_settings_dict values =
     (if map_of values ''oidc_enabled'' \<noteq> Some ''true'' then Inr None
      else if \<exists>k \<in> set OIDC_REQUIRED. dict_get values k [] = []
        then Inl (''oidc_enabled is true but one or more required settings ('' @ str_join '', '' OIDC_REQUIRED @ '') is unset'')
      else Inr (Some \<lparr>os_issuer = dict_get values ''oidc_issuer'' [], os_client_id = dict_get values ''oidc_client_id'' [],
          os_client_secret = dict_get values ''oidc_client_secret'' [], os_redirect_uri = dict_get values ''oidc_redirect_uri'' [],
          os_scopes = str_or values ''oidc_scopes'' ''openid email profile'',
          os_allowed_domains = map str_lower (comma_list (dict_get values ''oidc_allowed_domains'' [])),
          os_allowed_groups = comma_list (dict_get values ''oidc_allowed_groups'' []),
          os_group_claim = str_or values ''oidc_group_claim'' ''groups'', os_default_role = str_or values ''oidc_default_role'' ''viewer'',
          os_jit_provisioning = (dict_get values ''oidc_jit_provisioning'' ''true'' = ''true'')\<rparr>))"

subsection \<open>Outstanding attempts\<close>

record pending_attempt =
  pa_state :: string
  pa_nonce :: string
  pa_code_verifier :: string
  pa_created_at :: rat

definition MAX_OUTSTANDING_ATTEMPTS :: nat where "MAX_OUTSTANDING_ATTEMPTS = 1000"

definition attempts_sweep :: "pending_attempt dict \<Rightarrow> rat \<Rightarrow> pending_attempt dict" where
  "attempts_sweep store now = filter (\<lambda>(s, a). \<not> pa_created_at a < now - ATTEMPT_TTL_SECONDS) store"

text \<open>\<open>min\<close> over the keys: the first of the oldest ones.\<close>

fun oldest_attempt :: "pending_attempt dict \<Rightarrow> (string \<times> pending_attempt) option" where
  "oldest_attempt [] = None"
| "oldest_attempt (sa # rest) =
     (case oldest_attempt rest of
        None \<Rightarrow> Some sa
      | Some tb \<Rightarrow> if pa_created_at (snd tb) < pa_created_at (snd sa) then Some tb else Some sa)"

definition evict_oldest :: "pending_attempt dict \<Rightarrow> pending_attempt dict" where
  "evict_oldest store = (case oldest_attempt store of None \<Rightarrow> store | Some (s, _) \<Rightarrow> AList.delete s store)"

definition attempt_create :: "pending_attempt dict \<Rightarrow> rat \<Rightarrow> string \<times> string \<times> string \<Rightarrow> pending_attempt \<times> pending_attempt dict" where
  "attempt_create store now rnd =
     (let store1 = attempts_sweep store now;
          store2 = (if MAX_OUTSTANDING_ATTEMPTS \<le> length store1 then evict_oldest store1 else store1);
          a = \<lparr>pa_state = fst rnd, pa_nonce = fst (snd rnd), pa_code_verifier = snd (snd rnd), pa_created_at = now\<rparr>
      in (a, AList.update (pa_state a) a store2))"

definition attempt_pop :: "pending_attempt dict \<Rightarrow> rat \<Rightarrow> string \<Rightarrow> pending_attempt option \<times> pending_attempt dict" where
  "attempt_pop store now state = (let store1 = attempts_sweep store now in (map_of store1 state, AList.delete state store1))"

subsection \<open>The provider\<close>

text \<open>\<open>IdpError\<close> is any \<open>httpx.HTTPError\<close> of the transport with its text, \<open>IdpRaises\<close> another exception of the client. An answer has its status, the text of the
  error \<open>raise_for_status\<close> makes of it, and its body if that is JSON.\<close>

datatype idp_answer = IdpError string | IdpRaises | IdpAnswer nat string "json option"
datatype idp_exn = TransportError string | StatusError string | OtherException

record oidc_env =
  ix_get :: "string \<Rightarrow> idp_answer"
  ix_post :: "string \<Rightarrow> string dict \<Rightarrow> idp_answer"
  ix_sha256 :: "string \<Rightarrow> string"
  ix_loads :: "string \<Rightarrow> json option"
  ix_fr :: "pyfloat \<Rightarrow> string"
  ix_now :: rat

definition idp_json :: "idp_answer \<Rightarrow> idp_exn + json" where
  "idp_json r = (case r of
       IdpError e \<Rightarrow> Inl (TransportError e)
     | IdpRaises \<Rightarrow> Inl OtherException
     | IdpAnswer status text body \<Rightarrow>
         if status < 200 \<or> 300 \<le> status then Inl (StatusError text)
         else case body of None \<Rightarrow> Inl OtherException | Some v \<Rightarrow> Inr v)"

definition discover :: "oidc_env \<Rightarrow> string \<Rightarrow> idp_exn + json" where
  "discover env issuer = idp_json (ix_get env (rstrip_char (CHR ''/'') issuer @ ''/.well-known/openid-configuration''))"

definition code_challenge :: "oidc_env \<Rightarrow> string \<Rightarrow> string" where
  "code_challenge env verifier = b64encode (ix_sha256 env verifier)"

text \<open>\<open>urllib.parse.quote_plus\<close> and \<open>urlencode\<close>.\<close>

definition url_safe :: "char \<Rightarrow> bool" where
  "url_safe c \<longleftrightarrow> is_upper_az c \<or> is_lower_az c \<or> is_digit c \<or> c \<in> {CHR ''_'', CHR ''.'', CHR ''-'', CHR ''~''}"

definition percent_byte :: "char \<Rightarrow> string" where
  "percent_byte b = (let hex = (\<lambda>k. if k < 10 then char_of (48 + k) else char_of (55 + k)); n = of_char b :: nat in [CHR ''%'', hex (n div 16), hex (n mod 16)])"

definition quote_plus :: "string \<Rightarrow> string" where
  "quote_plus s = concat (map (\<lambda>b. if url_safe b then [b] else if b = CHR '' '' then ''+'' else percent_byte b) (utf8_encode s))"

definition urlencode :: "string dict \<Rightarrow> string" where
  "urlencode params = str_join ''&'' (map (\<lambda>(k, v). quote_plus k @ ''='' @ quote_plus v) params)"

definition authorization_params :: "oidc_env \<Rightarrow> oidc_settings \<Rightarrow> pending_attempt \<Rightarrow> string dict" where
  "authorization_params env os a =
     [(''response_type'', ''code''), (''client_id'', os_client_id os), (''redirect_uri'', os_redirect_uri os), (''scope'', os_scopes os),
      (''state'', pa_state a), (''nonce'', pa_nonce a), (''code_challenge'', code_challenge env (pa_code_verifier a)), (''code_challenge_method'', ''S256'')]"

definition build_authorization_url :: "oidc_env \<Rightarrow> json \<Rightarrow> oidc_settings \<Rightarrow> pending_attempt \<Rightarrow> string" where
  "build_authorization_url env endpoint os a = py_str (ix_fr env) endpoint @ ''?'' @ urlencode (authorization_params env os a)"

definition exchange_form :: "oidc_settings \<Rightarrow> string \<Rightarrow> string \<Rightarrow> string dict" where
  "exchange_form os code code_verifier =
     [(''grant_type'', ''authorization_code''), (''code'', code), (''redirect_uri'', os_redirect_uri os), (''client_id'', os_client_id os),
      (''client_secret'', os_client_secret os), (''code_verifier'', code_verifier)]"

text \<open>The client raises on an address that is not text.\<close>

definition exchange_code :: "oidc_env \<Rightarrow> json \<Rightarrow> oidc_settings \<Rightarrow> string \<Rightarrow> string \<Rightarrow> idp_exn + json" where
  "exchange_code env token_endpoint os code code_verifier =
     (case token_endpoint of
        JStr url \<Rightarrow> idp_json (ix_post env url
          (exchange_form os code code_verifier))
      | _ \<Rightarrow> Inl OtherException)"

subsection \<open>Claims\<close>

text \<open>\<open>Inl (Some text)\<close> is \<open>OidcCallbackError\<close>, \<open>Inl None\<close> another exception.\<close>

definition decode_id_token_unverified :: "oidc_env \<Rightarrow> json \<Rightarrow> string option + json" where
  "decode_id_token_unverified env id_token =
     (case id_token of
        JStr t \<Rightarrow>
          (case str_split (CHR ''.'') t of
             [_, payload, _] \<Rightarrow>
               (case Option.bind (b64decode payload) (ix_loads env) of
                  None \<Rightarrow> Inl (Some ''could not decode id_token payload'')
                | Some v \<Rightarrow> Inr v)
           | _ \<Rightarrow> Inl (Some ''malformed id_token''))
      | _ \<Rightarrow> Inl None)"

definition validate_id_token_claims :: "json \<Rightarrow> oidc_settings \<Rightarrow> json \<Rightarrow> string option + json dict" where
  "validate_id_token_claims v os issuer =
     (case v of
        JObj claims \<Rightarrow>
          if \<not> (case dict_get claims ''aud'' JNull of JStr s \<Rightarrow> s = os_client_id os | JList xs \<Rightarrow> JStr (os_client_id os) \<in> set xs | _ \<Rightarrow> False)
          then Inl (Some ''id_token audience does not match this client'')
          else if issuer \<noteq> JNull \<and> \<not> json_eq (dict_get claims ''iss'' JNull) issuer
          then Inl (Some ''id_token issuer does not match the configured provider'')
          else Inr claims
      | _ \<Rightarrow> Inl None)"

definition email_domain :: "string \<Rightarrow> string" where
  "email_domain email = str_lower (rev (takeWhile (\<lambda>c. c \<noteq> CHR ''@'') (rev email)))"

definition claimed_groups :: "json dict \<Rightarrow> oidc_settings \<Rightarrow> json" where
  "claimed_groups claims os = (let v = dict_get claims (os_group_claim os) JNull in if truthy v then v else JList [])"

definition jit_domain_ok :: "json dict \<Rightarrow> oidc_settings \<Rightarrow> bool" where
  "jit_domain_ok claims os \<longleftrightarrow> (case dict_get claims ''email'' JNull of
       JStr email \<Rightarrow> os_allowed_domains os \<noteq> [] \<and> CHR ''@'' \<in> set email \<and> email_domain email \<in> set (os_allowed_domains os)
     | _ \<Rightarrow> False)"

definition jit_group_ok :: "json dict \<Rightarrow> oidc_settings \<Rightarrow> bool" where
  "jit_group_ok claims os \<longleftrightarrow> os_allowed_groups os \<noteq> [] \<and>
     (case claimed_groups claims os of JList gs \<Rightarrow> \<exists>g \<in> set gs. \<exists>a \<in> set (os_allowed_groups os). g = JStr a | _ \<Rightarrow> False)"

definition check_jit_allowlist :: "json dict \<Rightarrow> oidc_settings \<Rightarrow> string option" where
  "check_jit_allowlist claims os =
     (if os_allowed_domains os = [] \<and> os_allowed_groups os = [] then None
      else if jit_domain_ok claims os \<or> jit_group_ok claims os then None
      else Some ''subject is not in the configured JIT-provisioning allowlist'')"

text \<open>\<open>max\<close> with the rank as its key: the first of the highest ones.\<close>

fun highest_role :: "string list \<Rightarrow> string option" where
  "highest_role [] = None"
| "highest_role (r # rs) =
     (case highest_role rs of
        None \<Rightarrow> Some r
      | Some r' \<Rightarrow> if the (map_of ROLE_RANK r) < the (map_of ROLE_RANK r') then Some r' else Some r)"

text \<open>A list or an object among the groups cannot be looked up in \<open>ROLE_RANK\<close>: \<open>None\<close>, the exception.\<close>

definition map_group_to_role :: "json dict \<Rightarrow> oidc_settings \<Rightarrow> string option" where
  "map_group_to_role claims os =
     (case claimed_groups claims os of
        JList gs \<Rightarrow>
          if \<exists>g \<in> set gs. case g of JList _ \<Rightarrow> True | JObj _ \<Rightarrow> True | _ \<Rightarrow> False then None
          else (case highest_role [r. JStr r \<leftarrow> gs, is_valid_role r] of None \<Rightarrow> Some (os_default_role os) | Some r \<Rightarrow> Some r)
      | _ \<Rightarrow> Some (os_default_role os))"

subsection \<open>First login\<close>

text \<open>What other requests do between the statements.\<close>

type_synonym 's between = "nat \<Rightarrow> 's control \<Rightarrow> 's control"

text \<open>The driver raises on a parameter that is not text, as the attribute access does on an email that is not: \<open>None\<close>.\<close>

definition oidc_base_name :: "json \<Rightarrow> json \<Rightarrow> string \<Rightarrow> string option" where
  "oidc_base_name preferred email subject =
     (if truthy preferred then (case preferred of JStr p \<Rightarrow> Some p | _ \<Rightarrow> None)
      else if truthy email
        then (case email of JStr e \<Rightarrow> let local = hd (str_split (CHR ''@'') e) in Some (if local = [] then ''oidc-'' @ take 8 subject else local) | _ \<Rightarrow> None)
      else Some (''oidc-'' @ take 8 subject))"

definition text_param :: "json \<Rightarrow> string option option" where
  "text_param v = (case v of JNull \<Rightarrow> Some None | JStr s \<Rightarrow> Some (Some s) | _ \<Rightarrow> None)"

text \<open>\<open>UserRepo.create\<close> for a signed-on user: \<open>None\<close> is another exception, \<open>Some None\<close> the conflict.\<close>

definition oidc_create :: "'s control \<Rightarrow> string \<Rightarrow> string \<Rightarrow> json \<Rightarrow> string \<Rightarrow> string \<Rightarrow> (user_record \<times> 's control) option option" where
  "oidc_create c username role email subject now =
     (if user_get_by_username c username \<noteq> None then Some None
      else map_option (\<lambda>mail. user_create c username role None mail ''oidc'' (Some subject) now) (text_param email))"

text \<open>The loop, with the number of suffixes left to try.\<close>

fun create_suffixed ::
    "'s between \<Rightarrow> 's control \<Rightarrow> string \<Rightarrow> json \<Rightarrow> string \<Rightarrow> string \<Rightarrow> string \<Rightarrow> nat \<Rightarrow> nat \<Rightarrow> (http_exn + user_record) \<times> 's control" where
  "create_suffixed between c subject email role now base k left =
     (let username = (if k = 0 then base else base @ ''-'' @ show_nat k); c1 = between (2 * k + 1) c in
      case oidc_create c1 username role email subject now of
        None \<Rightarrow> (Inl ServerError, c1)
      | Some (Some (u, c2)) \<Rightarrow> (Inr u, c2)
      | Some None \<Rightarrow>
          (let c2 = between (2 * k + 2) c1 in
           case user_get_by_subject c2 subject of
             Some u \<Rightarrow> (Inr u, c2)
           | None \<Rightarrow> (case left of 0 \<Rightarrow> (Inl ServerError, c2)
               | Suc n \<Rightarrow> create_suffixed between c2 subject email role now base (k + 1) n)))"

declare create_suffixed.simps [simp del]

definition get_or_create_from_oidc ::
    "'s between \<Rightarrow> 's control \<Rightarrow> string \<Rightarrow> json \<Rightarrow> string \<Rightarrow> json \<Rightarrow> string \<Rightarrow> (http_exn + user_record) \<times> 's control" where
  "get_or_create_from_oidc between c subject email role preferred now =
     (let c0 = between 0 c in
      case user_get_by_subject c0 subject of
        Some u \<Rightarrow> (Inr u, c0)
      | None \<Rightarrow>
          (case oidc_base_name preferred email subject of
             None \<Rightarrow> (Inl ServerError, c0)
           | Some base \<Rightarrow> create_suffixed between c0 subject email role now base 0 50))"

subsection \<open>Routes\<close>

record 's sso =
  so_attempts :: "pending_attempt dict"
  so_control :: "'s control"

definition load_oidc_settings :: "'s control \<Rightarrow> http_exn + oidc_settings" where
  "load_oidc_settings c =
     (case from_settings_dict (ct_settings c) of
        Inl e \<Rightarrow> Inl (HttpError 500 e)
      | Inr None \<Rightarrow> Inl (HttpError 404 ''OIDC is not configured'')
      | Inr (Some os) \<Rightarrow> Inr os)"

text \<open>The answer: whether it is on, and the address of the login route.\<close>

definition oidc_status :: "'s control \<Rightarrow> bool \<times> string option" where
  "oidc_status c =
     (case from_settings_dict (ct_settings c) of
        Inr (Some os) \<Rightarrow> (True, Some ''/api/v1/auth/oidc/login'')
      | _ \<Rightarrow> (False, None))"

definition discovery_failed :: "idp_exn \<Rightarrow> http_exn" where
  "discovery_failed e = (case e of TransportError t \<Rightarrow> HttpError 502 (''OIDC discovery failed: '' @ t)
     | StatusError t \<Rightarrow> HttpError 502 (''OIDC discovery failed: '' @ t) | OtherException \<Rightarrow> ServerError)"

definition discovered :: "oidc_env \<Rightarrow> oidc_settings \<Rightarrow> http_exn + json dict" where
  "discovered env os =
     (case discover env (os_issuer os) of
        Inl e \<Rightarrow> Inl (discovery_failed e)
      | Inr (JObj d) \<Rightarrow> Inr d
      | Inr _ \<Rightarrow> Inl ServerError)"

definition oidc_login :: "oidc_env \<Rightarrow> 's sso \<Rightarrow> string \<times> string \<times> string \<Rightarrow> (http_exn + string) \<times> 's sso" where
  "oidc_login env s rnd =
     (case rbind (load_oidc_settings (so_control s)) (\<lambda>os. rbind (discovered env os) (\<lambda>d.
          let endpoint = dict_get d ''authorization_endpoint'' JNull in
          if \<not> truthy endpoint then Inl (HttpError 502 ''OIDC discovery document missing authorization_endpoint'') else Inr (os, endpoint))) of
        Inl e \<Rightarrow> (Inl e, s)
      | Inr (os, endpoint) \<Rightarrow>
          (let (a, store) = attempt_create (so_attempts s) (ix_now env) rnd
           in (Inr (build_authorization_url env endpoint os a), s\<lparr>so_attempts := store\<rparr>)))"

text \<open>From the attempt to the verified claims and their subject.\<close>

definition oidc_exchange :: "oidc_env \<Rightarrow> oidc_settings \<Rightarrow> pending_attempt \<Rightarrow> string \<Rightarrow> http_exn + json \<times> json" where
  "oidc_exchange env os a code =
     rbind (discovered env os) (\<lambda>d.
       let endpoint = dict_get d ''token_endpoint'' JNull in
       if \<not> truthy endpoint then Inl (HttpError 502 ''OIDC discovery document missing token_endpoint'')
       else case exchange_code env endpoint os code (pa_code_verifier a) of
           Inl (StatusError _) \<Rightarrow> Inl (HttpError 400 ''OIDC token exchange failed'')
         | Inl (TransportError e) \<Rightarrow> Inl (HttpError 502 (''OIDC token exchange failed: '' @ e))
         | Inl OtherException \<Rightarrow> Inl ServerError
         | Inr (JObj tokens) \<Rightarrow>
             (let id_token = dict_get tokens ''id_token'' JNull in
              if \<not> truthy id_token then Inl (HttpError 502 ''OIDC token response missing id_token'')
              else Inr (id_token, dict_get d ''issuer'' JNull))
         | Inr _ \<Rightarrow> Inl ServerError)"

definition callback_error :: "string option \<Rightarrow> http_exn" where
  "callback_error e = (case e of None \<Rightarrow> ServerError | Some text \<Rightarrow> HttpError 400 text)"

definition oidc_identity :: "oidc_env \<Rightarrow> oidc_settings \<Rightarrow> pending_attempt \<Rightarrow> string \<Rightarrow> http_exn + json dict \<times> string" where
  "oidc_identity env os a code =
     rbind (oidc_exchange env os a code) (\<lambda>(id_token, issuer).
       case rbind (decode_id_token_unverified env id_token) (\<lambda>v. validate_id_token_claims v os issuer) of
         Inl e \<Rightarrow> Inl (callback_error e)
       | Inr claims \<Rightarrow>
           if dict_get claims ''nonce'' JNull \<noteq> JStr (pa_nonce a) then Inl (HttpError 400 ''nonce mismatch'')
           else (case dict_get claims ''sub'' JNull of
               JStr (ch # sub) \<Rightarrow> Inr (claims, ch # sub)
             | _ \<Rightarrow> Inl (HttpError 400 ''id_token missing sub claim'')))"

definition oidc_account ::
    "'s control_env \<Rightarrow> 's between \<Rightarrow> 's control \<Rightarrow> oidc_settings \<Rightarrow> json dict \<Rightarrow> string \<Rightarrow> (http_exn + user_record) \<times> 's control" where
  "oidc_account env between c os claims subject =
     (case user_get_by_subject c subject of
        Some u \<Rightarrow> (Inr u, c)
      | None \<Rightarrow>
          if \<not> os_jit_provisioning os then (Inl (HttpError 403 ''no local account for this identity and JIT provisioning is disabled''), c)
          else case check_jit_allowlist claims os of
              Some e \<Rightarrow> (Inl (HttpError 403 e), c)
            | None \<Rightarrow>
                (case map_group_to_role claims os of
                   None \<Rightarrow> (Inl ServerError, c)
                 | Some role \<Rightarrow> get_or_create_from_oidc between c subject (dict_get claims ''email'' JNull) role
                     (dict_get claims ''preferred_username'' JNull) (cv_utcnow env)))"

definition oidc_session :: "'s control_env \<Rightarrow> 's control \<Rightarrow> user_record \<Rightarrow> (http_exn + string) \<times> 's control" where
  "oidc_session env c u =
     (if \<not> ur_enabled u then (Inl (HttpError 401 ''account disabled''), c)
      else case settings_get c ''session_secret'' of
          None \<Rightarrow> (Inl (HttpError 500 ''server misconfigured: no session secret''), c)
        | Some secret \<Rightarrow>
            (let c1 = touch_last_login c (ur_id u) (cv_utcnow env) in
             case current_session_version c1 of
               None \<Rightarrow> (Inl ServerError, c1)
             | Some v \<Rightarrow> (Inr (mint env secret v (Some (ur_id u)) (ur_session_version u)), c1)))"

definition oidc_callback ::
    "'s control_env \<Rightarrow> oidc_env \<Rightarrow> 's between \<Rightarrow> 's sso \<Rightarrow> string option \<Rightarrow> string option \<Rightarrow> string option \<Rightarrow> string option \<Rightarrow> (http_exn + string) \<times> 's sso" where
  "oidc_callback env idp between s code state error description =
     (if error \<notin> {None, Some []}
      then (Inl (HttpError 400 (''OIDC provider returned an error: '' @ the error @ '' ('' @ (case description of None \<Rightarrow> ''None'' | Some d \<Rightarrow> d) @ '')'')), s)
      else if code \<in> {None, Some []} \<or> state \<in> {None, Some []} then (Inl (HttpError 400 ''missing code or state''), s)
      else case attempt_pop (so_attempts s) (ix_now idp) (the state) of
          (None, store) \<Rightarrow> (Inl (HttpError 400 ''unknown or expired state''), s\<lparr>so_attempts := store\<rparr>)
        | (Some a, store) \<Rightarrow>
            (let s1 = s\<lparr>so_attempts := store\<rparr>; c = so_control s in
             case rbind (load_oidc_settings c) (\<lambda>os. rbind (oidc_identity idp os a (the code)) (\<lambda>(claims, subject). Inr (os, claims, subject))) of
               Inl e \<Rightarrow> (Inl e, s1)
             | Inr (os, claims, subject) \<Rightarrow>
                 (case oidc_account env between c os claims subject of
                    (Inl e, c1) \<Rightarrow> (Inl e, s1\<lparr>so_control := c1\<rparr>)
                  | (Inr u, c1) \<Rightarrow> (case oidc_session env c1 u of (r, c2) \<Rightarrow> (r, s1\<lparr>so_control := c2\<rparr>)))))"
subsection \<open>Attempts are bounded and used once\<close>

datatype attempt_op = OpCreate rat "string \<times> string \<times> string" | OpPop rat string

text \<open>The attempts handed out, each with the time it was, and the store left.\<close>

fun attempts_run :: "pending_attempt dict \<Rightarrow> attempt_op list \<Rightarrow> (rat \<times> pending_attempt) list \<times> pending_attempt dict" where
  "attempts_run store [] = ([], store)"
| "attempts_run store (OpCreate now rnd # ops) = attempts_run (snd (attempt_create store now rnd)) ops"
| "attempts_run store (OpPop now state # ops) =
     (case attempt_pop store now state of
        (None, store1) \<Rightarrow> attempts_run store1 ops
      | (Some a, store1) \<Rightarrow> map_prod (Cons (now, a)) id (attempts_run store1 ops))"

fun drawn_state :: "attempt_op \<Rightarrow> string list" where
  "drawn_state (OpCreate now rnd) = [fst rnd]"
| "drawn_state (OpPop now state) = []"

definition store_wf :: "pending_attempt dict \<Rightarrow> bool" where
  "store_wf store \<longleftrightarrow> dict_wf store \<and> length store \<le> MAX_OUTSTANDING_ATTEMPTS \<and> (\<forall>(s, a) \<in> set store. pa_state a = s)"

lemma oldest_attempt_in: "oldest_attempt store = Some sa \<Longrightarrow> sa \<in> set store"
  by (induction store arbitrary: sa) (auto split: option.splits if_splits)

lemma oldest_attempt_exists: "store \<noteq> [] \<Longrightarrow> \<exists>s a. oldest_attempt store = Some (s, a)"
  by (cases store) (auto split: option.splits)

lemma sweep_facts:
  "set (attempts_sweep store now) \<subseteq> set store" "length (attempts_sweep store now) \<le> length store" "dict_wf store \<Longrightarrow> dict_wf (attempts_sweep store now)"
  by (auto simp: attempts_sweep_def distinct_map_filter)

lemma evict_facts:
  "set (evict_oldest store) \<subseteq> set store" "dict_wf store \<Longrightarrow> dict_wf (evict_oldest store)" "store \<noteq> [] \<Longrightarrow> length (evict_oldest store) < length store"
proof -
  show "set (evict_oldest store) \<subseteq> set store" "dict_wf store \<Longrightarrow> dict_wf (evict_oldest store)"
    by (auto simp: evict_oldest_def AList.delete_eq distinct_map_filter split: option.splits)
  assume "store \<noteq> []"
  then obtain s a where sa: "oldest_attempt store = Some (s, a)" using oldest_attempt_exists by blast
  then show "length (evict_oldest store) < length store"
    using oldest_attempt_in [OF sa] by (auto simp: evict_oldest_def AList.delete_eq intro!: length_filter_less)
qed

lemma length_update_le: "length (AList.update k v d) \<le> Suc (length d)"
  by (induction d) auto

lemma set_update_sub: "set (AList.update k v d) \<subseteq> insert (k, v) (set d)"
  by (induction d) auto

text \<open>What a new attempt leaves of the store.\<close>

lemma create_store:
  assumes "store_wf store"
  shows "store_wf (snd (attempt_create store now rnd))"
    and "set (snd (attempt_create store now rnd)) \<subseteq> insert (fst rnd, fst (attempt_create store now rnd)) (set store)"
proof -
  let ?s1 = "attempts_sweep store now"
  let ?s2 = "if MAX_OUTSTANDING_ATTEMPTS \<le> length ?s1 then evict_oldest ?s1 else ?s1"
  let ?a = "fst (attempt_create store now rnd)"
  have s: "snd (attempt_create store now rnd) = AList.update (fst rnd) ?a ?s2" "pa_state ?a = fst rnd" by (simp_all add: attempt_create_def Let_def)
  have sub: "set ?s2 \<subseteq> set store" using sweep_facts(1) [of store now] evict_facts(1) [of ?s1] by auto
  have wf: "dict_wf ?s2" using assms sweep_facts(3) [of store now] evict_facts(2) [of ?s1] by (auto simp: store_wf_def)
  have "length ?s2 < MAX_OUTSTANDING_ATTEMPTS"
  proof (cases "MAX_OUTSTANDING_ATTEMPTS \<le> length ?s1")
    case True
    then have "?s1 \<noteq> []" by (auto simp: MAX_OUTSTANDING_ATTEMPTS_def)
    then show ?thesis using True evict_facts(3) [of ?s1] sweep_facts(2) [of store now] assms by (simp add: store_wf_def)
  qed simp
  then have len: "length (AList.update (fst rnd) ?a ?s2) \<le> MAX_OUTSTANDING_ATTEMPTS" using length_update_le [of "fst rnd" ?a ?s2] by simp
  show "set (snd (attempt_create store now rnd)) \<subseteq> insert (fst rnd, ?a) (set store)" using set_update_sub [of "fst rnd" ?a ?s2] sub unfolding s(1) by blast
  then show "store_wf (snd (attempt_create store now rnd))"
    using assms len dict_wf_update [OF wf] s unfolding store_wf_def s(1) by fast
qed

lemma pop_store:
  assumes "store_wf store" and "attempt_pop store now state = (r, store')"
  shows "store_wf store'" and "set store' \<subseteq> set store" and "state \<notin> fst ` set store'"
    and "r = Some a \<Longrightarrow> (state, a) \<in> set store \<and> now - pa_created_at a \<le> ATTEMPT_TTL_SECONDS"
proof -
  have s: "store' = AList.delete state (attempts_sweep store now)" "r = map_of (attempts_sweep store now) state" using assms(2) by (auto simp: attempt_pop_def Let_def)
  have sub: "set store' \<subseteq> set store" using sweep_facts(1) [of store now] by (auto simp: s AList.delete_eq)
  show "set store' \<subseteq> set store" by (fact sub)
  show "state \<notin> fst ` set store'" by (auto simp: s AList.delete_eq)
  have "length store' \<le> length store" using sweep_facts(2) [of store now] unfolding s AList.delete_eq by (meson length_filter_le order_trans)
  moreover have "dict_wf store'" using assms(1) unfolding s(1) store_wf_def by (intro dict_wf_delete sweep_facts(3)) simp
  ultimately show "store_wf store'" using assms(1) sub unfolding store_wf_def by (meson order_trans subsetD)
  assume "r = Some a"
  then have "(state, a) \<in> set (attempts_sweep store now)" using s(2) map_of_SomeD by metis
  then show "(state, a) \<in> set store \<and> now - pa_created_at a \<le> ATTEMPT_TTL_SECONDS" by (auto simp: attempts_sweep_def)
qed

lemma attempts_run_wf: "store_wf store \<Longrightarrow> attempts_run store ops = (rs, store') \<Longrightarrow> store_wf store'"
proof (induction store ops arbitrary: rs rule: attempts_run.induct)
  case (2 store now rnd ops)
  then show ?case using create_store(1) [of store now rnd] by simp
next
  case (3 store now state ops)
  obtain r store1 where p: "attempt_pop store now state = (r, store1)" by fastforce
  have wf: "store_wf store1" using pop_store(1) [OF 3(3) p] .
  show ?case
  proof (cases r)
    case None
    then show ?thesis using 3(1) [OF p [symmetric] _ wf] 3(4) p by simp
  next
    case (Some a)
    obtain rs' where rs': "attempts_run store1 ops = (rs', store')" using 3(4) p Some by (cases "attempts_run store1 ops") auto
    show ?thesis by (rule 3(2) [OF p [symmetric] Some wf rs'])
  qed
qed simp

text \<open>An attempt handed out was in the store or made on the way, with its own strings, and is not older than the limit.\<close>

lemma attempts_run_made:
  assumes "store_wf store" and "attempts_run store ops = (rs, store')" and "(t, a) \<in> set rs"
  shows "((pa_state a, a) \<in> set store \<or> OpCreate (pa_created_at a) (pa_state a, pa_nonce a, pa_code_verifier a) \<in> set ops)
    \<and> t - pa_created_at a \<le> ATTEMPT_TTL_SECONDS"
  using assms
proof (induction store ops arbitrary: rs rule: attempts_run.induct)
  case (2 store now rnd ops)
  let ?a = "fst (attempt_create store now rnd)"
  have a: "OpCreate (pa_created_at ?a) (pa_state ?a, pa_nonce ?a, pa_code_verifier ?a) = OpCreate now rnd" by (simp add: attempt_create_def Let_def)
  have "((pa_state a, a) \<in> set (snd (attempt_create store now rnd)) \<or> OpCreate (pa_created_at a) (pa_state a, pa_nonce a, pa_code_verifier a) \<in> set ops)
    \<and> t - pa_created_at a \<le> ATTEMPT_TTL_SECONDS" using 2 create_store(1) [of store now rnd] by simp
  then show ?case using create_store(2) [OF 2(2), of now rnd] a by auto
next
  case (3 store now state ops)
  obtain r store1 where p: "attempt_pop store now state = (r, store1)" by fastforce
  note pop = pop_store [OF 3(3) p]
  obtain rs' where rs': "attempts_run store1 ops = (rs', store')" using 3(4) p by (cases "attempts_run store1 ops") (auto split: option.splits)
  show ?case
  proof (cases "(t, a) \<in> set rs'")
    case True
    then have "((pa_state a, a) \<in> set store1 \<or> OpCreate (pa_created_at a) (pa_state a, pa_nonce a, pa_code_verifier a) \<in> set ops) \<and> t - pa_created_at a \<le> ATTEMPT_TTL_SECONDS"
      using 3(1) [OF p [symmetric] _ pop(1) rs'] 3(2) [OF p [symmetric] _ pop(1) rs'] by (cases r) auto
    then show ?thesis using pop(2) by auto
  next
    case False
    then have "r = Some a" "t = now" using 3(4,5) p rs' by (auto split: option.splits)
    then show ?thesis using pop(4) 3(3) by (auto simp: store_wf_def)
  qed
qed simp

lemma disjoint_insert: "X \<subseteq> insert x B \<Longrightarrow> x \<notin> D \<Longrightarrow> D \<inter> B = {} \<Longrightarrow> D \<inter> X = {}"
  by blast

lemma attempts_run_distinct:
  assumes "store_wf store" and "attempts_run store ops = (rs, store')" and "distinct (concat (map drawn_state ops))"
    and "set (concat (map drawn_state ops)) \<inter> fst ` set store = {}"
  shows "distinct (map (pa_state \<circ> snd) rs)"
  using assms
proof (induction store ops arbitrary: rs rule: attempts_run.induct)
  case (2 store now rnd ops)
  have "fst ` set (snd (attempt_create store now rnd)) \<subseteq> insert (fst rnd) (fst ` set store)" using create_store(2) [OF 2(2), of now rnd] by (auto dest!: subsetD)
  moreover have "fst rnd \<notin> set (concat (map drawn_state ops))" "set (concat (map drawn_state ops)) \<inter> fst ` set store = {}" using 2(4,5) by auto
  ultimately have "set (concat (map drawn_state ops)) \<inter> fst ` set (snd (attempt_create store now rnd)) = {}" by (rule disjoint_insert)
  then show ?case using 2(1) [OF create_store(1) [OF 2(2)], of rs] 2(3,4) by simp
next
  case (3 store now state ops)
  obtain r store1 where p: "attempt_pop store now state = (r, store1)" by fastforce
  note pop = pop_store [OF 3(3) p]
  obtain rs' where rs': "attempts_run store1 ops = (rs', store')" using 3(4) p by (cases "attempts_run store1 ops") (auto split: option.splits)
  have rest: "distinct (concat (map drawn_state ops))" "set (concat (map drawn_state ops)) \<inter> fst ` set store1 = {}" using 3(5,6) pop(2) by auto
  have d: "distinct (map (pa_state \<circ> snd) rs')" using 3(1) [OF p [symmetric] _ pop(1) rs' rest] 3(2) [OF p [symmetric] _ pop(1) rs' rest] by (cases r) (auto simp: comp_def)
  show ?case
  proof (cases r)
    case None
    then show ?thesis using d 3(4) p rs' by (simp add: comp_def)
  next
    case (Some a)
    then have st: "pa_state a = state" "state \<in> fst ` set store" using pop(4) 3(3) by (auto simp: store_wf_def intro: rev_image_eqI)
    have "state \<noteq> pa_state b" if "(t, b) \<in> set rs'" for t b
    proof
      assume "state = pa_state b"
      then have "OpCreate (pa_created_at b) (state, pa_nonce b, pa_code_verifier b) \<in> set ops"
        using attempts_run_made [OF pop(1) rs' that] pop(3) by (auto intro: rev_image_eqI)
      then have "state \<in> set (concat (map drawn_state ops))" by (auto intro!: bexI [of _ "OpCreate (pa_created_at b) (state, pa_nonce b, pa_code_verifier b)"])
      moreover have "set (concat (map drawn_state ops)) \<inter> fst ` set store = {}" using 3(6) by simp
      ultimately show False using st(2) by (meson disjoint_iff)
    qed
    then have "state \<notin> set (map (pa_state \<circ> snd) rs')" by auto metis
    then show ?thesis using d 3(4) p rs' Some st(1) by (auto simp: comp_def)
  qed
qed simp

text \<open>C12. A login attempt is used at most once and only for ten minutes: whatever mix of logins and callbacks reaches the gateway, an attempt that a callback gets was made by a login,
  with exactly the strings drawn for it, at most 600 seconds before; if no two logins drew the same state, no two callbacks get the same state; and anonymous
  requests never make the store hold more than 1000 attempts.\<close>

theorem login_attempt_used_once:
  assumes "attempts_run [] ops = (rs, store)"
  shows "length store \<le> 1000
    \<and> (\<forall>(t, a) \<in> set rs. OpCreate (pa_created_at a) (pa_state a, pa_nonce a, pa_code_verifier a) \<in> set ops \<and> t - pa_created_at a \<le> 600)
    \<and> (distinct (concat (map drawn_state ops)) \<longrightarrow> distinct (map (pa_state \<circ> snd) rs))"
proof -
  have "store_wf []" by (simp add: store_wf_def)
  then show ?thesis using attempts_run_wf [OF _ assms] attempts_run_made [OF _ assms] attempts_run_distinct [OF _ assms]
    by (fastforce simp: store_wf_def MAX_OUTSTANDING_ATTEMPTS_def ATTEMPT_TTL_SECONDS_def)
qed

theorem login_attempt_used_once_witness:
  "let ops = [OpCreate 0 (''s'', ''n'', ''v''), OpCreate 1 (''t'', ''m'', ''w''), OpPop 5 ''s'', OpPop 6 ''s'', OpPop 700 ''t'']; rs = fst (attempts_run [] ops) in
   map (pa_nonce \<circ> snd) rs = [''n''] \<and> (\<forall>(t, a) \<in> set rs. t - pa_created_at a \<le> 600)"
proof -
  let ?ops = "[OpCreate 0 (''s'', ''n'', ''v''), OpCreate 1 (''t'', ''m'', ''w''), OpPop 5 ''s'', OpPop 6 ''s'', OpPop 700 ''t'']"
  have "map (pa_nonce \<circ> snd) (fst (attempts_run [] ?ops)) = [''n'']" by code_simp
  then show ?thesis using login_attempt_used_once [of ?ops, OF surjective_pairing] by (simp only: Let_def) blast
qed
subsection \<open>Who gets in\<close>

lemma highest_role_None: "highest_role rs = None \<longleftrightarrow> rs = []"
  by (cases rs) (auto split: option.splits)

lemma highest_role_max:
  "highest_role rs = Some r \<Longrightarrow> r \<in> set rs \<and> (\<forall>r' \<in> set rs. the (map_of ROLE_RANK r') \<le> the (map_of ROLE_RANK r))"
proof (induction rs arbitrary: r)
  case (Cons a rs)
  show ?case
  proof (cases "highest_role rs")
    case None
    then show ?thesis using Cons(2) by (auto simp: highest_role_None)
  next
    case (Some b)
    then show ?thesis using Cons(1) [OF Some] Cons(2) by (fastforce split: if_splits)
  qed
qed simp

text \<open>The role of a new account: the highest of the roles named by its groups, the configured one if there is none.\<close>

lemma map_group_to_role_exact:
  assumes "map_group_to_role claims os = Some r"
  shows "(\<exists>gs. claimed_groups claims os = JList gs \<and> JStr r \<in> set gs \<and> is_valid_role r
      \<and> (\<forall>r'. JStr r' \<in> set gs \<longrightarrow> is_valid_role r' \<longrightarrow> the (map_of ROLE_RANK r') \<le> the (map_of ROLE_RANK r)))
    \<or> (r = os_default_role os \<and> (\<forall>gs r'. claimed_groups claims os = JList gs \<longrightarrow> JStr r' \<in> set gs \<longrightarrow> \<not> is_valid_role r'))"
proof (cases "\<exists>gs. claimed_groups claims os = JList gs")
  case True
  then obtain gs where gs: "claimed_groups claims os = JList gs" by blast
  let ?rs = "[r. JStr r \<leftarrow> gs, is_valid_role r]"
  have mem: "r' \<in> set ?rs \<longleftrightarrow> JStr r' \<in> set gs \<and> is_valid_role r'" for r' by (auto split: json.splits if_splits)
  show ?thesis
  proof (cases "highest_role ?rs")
    case None
    then have "r = os_default_role os" using assms gs unfolding map_group_to_role_def by (simp split: if_splits)
    then show ?thesis using None gs mem unfolding highest_role_None by (metis empty_iff json.inject(5) list.set(1))
  next
    case (Some r'')
    then have "r = r''" using assms gs unfolding map_group_to_role_def by (simp split: if_splits)
    then show ?thesis using highest_role_max [OF Some] gs mem by blast
  qed
next
  case False
  then show ?thesis using assms by (auto simp: map_group_to_role_def split: json.splits)
qed

lemma user_create_subject:
  assumes "user_create c name role h email src (Some sub) now = Some (u, c')"
  shows "user_get_by_subject c sub = None" "user_get_by_subject c' sub = Some u" "ct_users c' = ct_users c @ [u]" "ur_oidc_subject u = Some sub"
    "ur_role u = role" "ur_enabled u" "ur_password_hash u = h" "ct_settings c' = ct_settings c"
  using assms by (auto simp: user_create_def Let_def user_get_by_subject_def find_snoc split: if_splits)

lemma user_by_subject: "user_get_by_subject c sub = Some u \<Longrightarrow> ur_oidc_subject u = Some sub \<and> u \<in> set (ct_users c)"
  by (auto simp: user_get_by_subject_def find_Some_iff)

text \<open>The account a first login ends on: one that another request made first, or a new one with the role asked for.\<close>

definition raced :: "'s between \<Rightarrow> string \<Rightarrow> user_record \<Rightarrow> bool" where
  "raced between sub u \<longleftrightarrow> (\<exists>n c. user_get_by_subject (between n c) sub = Some u)"

lemma create_suffixed_cases:
  assumes "create_suffixed between c sub email role now base k left = (r, c')"
  obtains (raised) "r = Inl ServerError" "c' = between (2 * k + 1) c"
  | (made) name mail u where "user_create (between (2 * k + 1) c) name role None mail ''oidc'' (Some sub) now = Some (u, c')" "r = Inr u"
  | (found) u where "user_get_by_subject c' sub = Some u" "r = Inr u" "c' = between (2 * k + 2) (between (2 * k + 1) c)"
  | (no_name) "left = 0" "r = Inl ServerError" "c' = between (2 * k + 2) (between (2 * k + 1) c)"
  | (again) n where "left = Suc n" "create_suffixed between (between (2 * k + 2) (between (2 * k + 1) c)) sub email role now base (k + 1) n = (r, c')"
proof -
  let ?name = "if k = 0 then base else base @ ''-'' @ show_nat k"
  let ?c1 = "between (2 * k + 1) c" and ?c2 = "between (2 * k + 2) (between (2 * k + 1) c)"
  note run = assms [unfolded create_suffixed.simps [of between c sub email role now base k left] Let_def]
  show thesis
  proof (cases "oidc_create ?c1 ?name role email sub now")
    case None
    then show ?thesis using run raised by simp
  next
    case o: (Some q)
    show ?thesis
    proof (cases q)
      case (Some uc)
      then show ?thesis using o run made by (cases uc) (auto simp: oidc_create_def split: if_splits)
    next
      case None
      show ?thesis
      proof (cases "user_get_by_subject ?c2 sub")
        case (Some w)
        then have "r = Inr w" "c' = ?c2" using o None run by simp_all
        with Some show ?thesis by (intro found) simp_all
      next
        case N: None
        show ?thesis
        proof (cases left)
          case 0
          with o None N run have "r = Inl ServerError" "c' = ?c2" by simp_all
          with 0 show ?thesis by (rule no_name)
        next
          case (Suc n)
          with o None N run have "create_suffixed between ?c2 sub email role now base (k + 1) n = (r, c')" by simp
          with Suc show ?thesis by (rule again)
        qed
      qed
    qed
  qed
qed

lemma create_suffixed_result:
  assumes "create_suffixed between c sub email role now base k left = (Inr u, c')"
  shows "user_get_by_subject c' sub = Some u \<and> (raced between sub u \<or> ur_role u = role \<and> ur_enabled u \<and> ur_password_hash u = None)"
  using assms
proof (induction left arbitrary: c k)
  case 0
  then show ?case by (cases rule: create_suffixed_cases) (auto simp: raced_def dest: user_create_subject)
next
  case (Suc n)
  from Suc(2) show ?case by (cases rule: create_suffixed_cases) (auto simp: raced_def dest: user_create_subject Suc(1))
qed

lemma get_or_create_result:
  assumes "get_or_create_from_oidc between c sub email role preferred now = (Inr u, c')"
  shows "user_get_by_subject c' sub = Some u \<and> (raced between sub u \<or> ur_role u = role \<and> ur_enabled u \<and> ur_password_hash u = None)"
  using assms create_suffixed_result
  by (fastforce simp: get_or_create_from_oidc_def Let_def raced_def split: option.splits)

text \<open>An invariant of the table that others keep and that a new account of an unknown subject keeps is kept.\<close>

lemma create_suffixed_inv:
  assumes "create_suffixed between c sub email role now base k left = (r, c')" and "I c"
    and "\<And>n c. I c \<Longrightarrow> I (between n c)"
    and "\<And>c name mail u c'. I c \<Longrightarrow> user_create c name role None mail ''oidc'' (Some sub) now = Some (u, c') \<Longrightarrow> I c'"
  shows "I c'"
  using assms(1,2)
proof (induction left arbitrary: c k)
  case 0
  then show ?case by (cases rule: create_suffixed_cases) (auto intro: assms(3) assms(4) [rotated])
next
  case (Suc n)
  from Suc(2) show ?case by (cases rule: create_suffixed_cases) (use Suc(3) in \<open>auto intro: assms(3) assms(4) [rotated] Suc(1)\<close>)
qed

lemma get_or_create_inv:
  assumes "get_or_create_from_oidc between c sub email role preferred now = (r, c')" and "I c"
    and "\<And>n c. I c \<Longrightarrow> I (between n c)"
    and "\<And>c name mail u c'. I c \<Longrightarrow> user_create c name role None mail ''oidc'' (Some sub) now = Some (u, c') \<Longrightarrow> I c'"
  shows "I c'"
  using assms(1,2) assms(3) [of c 0] create_suffixed_inv [of between "between 0 c" sub email role now _ 0 50 r c' I, OF _ _ assms(3,4)]
  by (auto simp: get_or_create_from_oidc_def Let_def split: option.splits)

definition subjects_unique :: "'s control \<Rightarrow> bool" where
  "subjects_unique c \<longleftrightarrow> distinct (concat (map (\<lambda>u. case ur_oidc_subject u of None \<Rightarrow> [] | Some s \<Rightarrow> [s]) (ct_users c)))"

lemma unique_account:
  assumes "subjects_unique c" and "user_get_by_subject c sub = Some u"
  shows "filter (\<lambda>w. ur_oidc_subject w = Some sub) (ct_users c) = [u]"
proof -
  let ?f = "\<lambda>u. case ur_oidc_subject u of None \<Rightarrow> [] | Some s \<Rightarrow> [s]"
  have none: "sub \<notin> set (concat (map ?f us)) \<Longrightarrow> filter (\<lambda>w. ur_oidc_subject w = Some sub) us = []" for us by (induction us) auto
  have "distinct (concat (map ?f us)) \<Longrightarrow> List.find (\<lambda>w. ur_oidc_subject w = Some sub) us = Some u \<Longrightarrow> filter (\<lambda>w. ur_oidc_subject w = Some sub) us = [u]" for us
  proof (induction us)
    case (Cons w us)
    then show ?case using none [of us] by (cases "ur_oidc_subject w = Some sub") (auto split: option.splits)
  qed simp
  then show ?thesis using assms by (simp add: subjects_unique_def user_get_by_subject_def)
qed

lemma create_unique:
  assumes "subjects_unique c" and "user_create c name role h mail src (Some sub) now = Some (u, c')"
  shows "subjects_unique c'"
  using assms(1) user_create_subject(1,3,4) [OF assms(2)]
  by (auto simp: subjects_unique_def user_get_by_subject_def find_None_iff split: option.splits)

text \<open>C13. Racing first logins end on one account: whatever other requests do to the tables between the statements of a first login, as long as they too keep subjects unique, a login that is
  answered with an account is answered with the only account of its subject. So of two simultaneous logins of a new identity one creates the account and the
  other finds it, whichever constraint the slower insert runs into.\<close>

theorem first_login_one_account:
  assumes "get_or_create_from_oidc between c sub email role preferred now = (Inr u, c')" and "subjects_unique c"
    and "\<And>n c. subjects_unique c \<Longrightarrow> subjects_unique (between n c)"
  shows "subjects_unique c' \<and> filter (\<lambda>w. ur_oidc_subject w = Some sub) (ct_users c') = [u]"
proof -
  have "subjects_unique c'" using assms create_unique by (rule get_or_create_inv)
  then show ?thesis using unique_account get_or_create_result [OF assms(1)] by blast
qed

text \<open>What it takes to be someone: the provider's token endpoint answered the exchange of this code, made with the client secret and with the verifier of this very
  attempt, with a token for this client whose payload carries the claims and the nonce of the attempt.\<close>

definition identity_proven :: "oidc_env \<Rightarrow> oidc_settings \<Rightarrow> pending_attempt \<Rightarrow> string \<Rightarrow> json dict \<Rightarrow> bool" where
  "identity_proven idp os a code claims \<longleftrightarrow>
     (\<exists>url status text tokens t header payload signature.
        ix_post idp url (exchange_form os code (pa_code_verifier a)) = IdpAnswer status text (Some (JObj tokens))
        \<and> 200 \<le> status \<and> status < 300 \<and> dict_get tokens ''id_token'' JNull = JStr t \<and> str_split (CHR ''.'') t = [header, payload, signature]
        \<and> Option.bind (b64decode payload) (ix_loads idp) = Some (JObj claims))
     \<and> (dict_get claims ''aud'' JNull = JStr (os_client_id os) \<or> (\<exists>auds. dict_get claims ''aud'' JNull = JList auds \<and> JStr (os_client_id os) \<in> set auds))
     \<and> dict_get claims ''nonce'' JNull = JStr (pa_nonce a)"

definition may_enrol :: "oidc_settings \<Rightarrow> json dict \<Rightarrow> bool" where
  "may_enrol os claims \<longleftrightarrow> os_jit_provisioning os \<and>
     (os_allowed_domains os = [] \<and> os_allowed_groups os = []
      \<or> (\<exists>e. dict_get claims ''email'' JNull = JStr e \<and> CHR ''@'' \<in> set e \<and> email_domain e \<in> set (os_allowed_domains os))
      \<or> (\<exists>gs g. claimed_groups claims os = JList gs \<and> JStr g \<in> set gs \<and> g \<in> set (os_allowed_groups os)))"

lemma idp_json_Inr: "idp_json r = Inr v \<Longrightarrow> \<exists>status text. r = IdpAnswer status text (Some v) \<and> 200 \<le> status \<and> status < 300"
  by (auto simp: idp_json_def split: idp_answer.splits option.splits if_splits)

lemma exchange_code_Inr:
  assumes "exchange_code env endpoint os code verifier = Inr v"
  obtains url status msg where "ix_post env url (exchange_form os code verifier) = IdpAnswer status msg (Some v)" "200 \<le> status" "status < 300"
proof -
  from assms obtain url where "endpoint = JStr url" by (cases endpoint) (simp_all add: exchange_code_def)
  with assms show thesis using idp_json_Inr that by (fastforce simp: exchange_code_def)
qed

lemma oidc_exchange_Inr:
  assumes "oidc_exchange env os a code = Inr (id_token, issuer)"
  obtains tokens endpoint where "exchange_code env endpoint os code (pa_code_verifier a) = Inr (JObj tokens)" "dict_get tokens ''id_token'' JNull = id_token"
  using assms unfolding oidc_exchange_def rbind_eq_Inr Let_def
  by (elim exE conjE) (auto split: if_splits sum.splits idp_exn.splits json.splits)

lemma decode_Inr:
  assumes "decode_id_token_unverified env id_token = Inr v"
  obtains t header payload signature where "id_token = JStr t" "str_split (CHR ''.'') t = [header, payload, signature]"
    "Option.bind (b64decode payload) (ix_loads env) = Some v"
  using assms by (auto simp: decode_id_token_unverified_def split: json.splits list.splits option.splits)

lemma validate_Inr:
  assumes "validate_id_token_claims v os issuer = Inr claims"
  shows "v = JObj claims" and "dict_get claims ''aud'' JNull = JStr (os_client_id os) \<or> (\<exists>auds. dict_get claims ''aud'' JNull = JList auds \<and> JStr (os_client_id os) \<in> set auds)"
proof -
  from assms show v: "v = JObj claims" by (cases v) (auto simp: validate_id_token_claims_def split: if_splits)
  show "dict_get claims ''aud'' JNull = JStr (os_client_id os) \<or> (\<exists>auds. dict_get claims ''aud'' JNull = JList auds \<and> JStr (os_client_id os) \<in> set auds)"
    using assms unfolding v by (cases "dict_get claims ''aud'' JNull") (auto simp: validate_id_token_claims_def split: if_splits)
qed

lemma identity_sound:
  assumes "oidc_identity env os a code = Inr (claims, sub)"
  shows "identity_proven env os a code claims" and "dict_get claims ''sub'' JNull = JStr sub" and "sub \<noteq> []"
proof -
  obtain id_token issuer where x: "oidc_exchange env os a code = Inr (id_token, issuer)"
    and r: "(case rbind (decode_id_token_unverified env id_token) (\<lambda>v. validate_id_token_claims v os issuer) of
         Inl e \<Rightarrow> Inl (callback_error e)
       | Inr claims \<Rightarrow>
           if dict_get claims ''nonce'' JNull \<noteq> JStr (pa_nonce a) then Inl (HttpError 400 ''nonce mismatch'')
           else (case dict_get claims ''sub'' JNull of JStr (ch # sub) \<Rightarrow> Inr (claims, ch # sub)
             | _ \<Rightarrow> Inl (HttpError 400 ''id_token missing sub claim''))) = Inr (claims, sub)"
    using assms unfolding oidc_identity_def rbind_eq_Inr by auto
  obtain claims' where c: "rbind (decode_id_token_unverified env id_token) (\<lambda>v. validate_id_token_claims v os issuer) = Inr claims'"
    using r by (cases "rbind (decode_id_token_unverified env id_token) (\<lambda>v. validate_id_token_claims v os issuer)") auto
  have n: "dict_get claims' ''nonce'' JNull = JStr (pa_nonce a)" using r c by (auto split: if_splits)
  have "claims' = claims \<and> dict_get claims ''sub'' JNull = JStr sub \<and> sub \<noteq> []"
    using r c n by (auto split: json.splits list.splits)
  then have claims: "claims' = claims" and sub: "dict_get claims ''sub'' JNull = JStr sub" "sub \<noteq> []" by auto
  show "dict_get claims ''sub'' JNull = JStr sub" "sub \<noteq> []" by (fact sub)+
  obtain v where v: "decode_id_token_unverified env id_token = Inr v" "validate_id_token_claims v os issuer = Inr claims" using c claims by (auto simp: rbind_eq_Inr)
  obtain t hd pl sg where t: "id_token = JStr t" "str_split (CHR ''.'') t = [hd, pl, sg]" "Option.bind (b64decode pl) (ix_loads env) = Some v"
    using v(1) by (rule decode_Inr)
  obtain tokens endpoint where e: "exchange_code env endpoint os code (pa_code_verifier a) = Inr (JObj tokens)" "dict_get tokens ''id_token'' JNull = id_token"
    using x by (rule oidc_exchange_Inr)
  obtain url status msg where "ix_post env url (exchange_form os code (pa_code_verifier a)) = IdpAnswer status msg (Some (JObj tokens))" "200 \<le> status" "status < 300"
    using e(1) by (rule exchange_code_Inr)
  moreover have "dict_get tokens ''id_token'' JNull = JStr t" "Option.bind (b64decode pl) (ix_loads env) = Some (JObj claims)"
    using e(2) t validate_Inr(1) [OF v(2)] by simp_all
  ultimately show "identity_proven env os a code claims"
    unfolding identity_proven_def using validate_Inr(2) [OF v(2)] n claims t(2) by blast
qed

lemma jit_domain_ok_iff: "jit_domain_ok claims os \<longleftrightarrow> (\<exists>e. dict_get claims ''email'' JNull = JStr e \<and> CHR ''@'' \<in> set e \<and> email_domain e \<in> set (os_allowed_domains os))"
  by (cases "dict_get claims ''email'' JNull") (auto simp: jit_domain_ok_def)

lemma jit_group_ok_iff: "jit_group_ok claims os \<longleftrightarrow> (\<exists>gs g. claimed_groups claims os = JList gs \<and> JStr g \<in> set gs \<and> g \<in> set (os_allowed_groups os))"
  by (cases "claimed_groups claims os") (auto simp: jit_group_ok_def)

lemma allowlist_sound: "check_jit_allowlist claims os = None \<Longrightarrow> os_jit_provisioning os \<Longrightarrow> may_enrol os claims"
  unfolding check_jit_allowlist_def may_enrol_def jit_domain_ok_iff [symmetric] jit_group_ok_iff [symmetric] by (simp split: if_splits)

lemma load_settings_reads: "load_oidc_settings c = Inr os \<longleftrightarrow> from_settings_dict (ct_settings c) = Inr (Some os)"
  by (simp add: load_oidc_settings_def split: sum.splits option.splits)

lemma oidc_account_result:
  assumes "oidc_account env between c os claims sub = (Inr u, c')"
  shows "user_get_by_subject c' sub = Some u
    \<and> (user_get_by_subject c sub = Some u \<and> c' = c
      \<or> user_get_by_subject c sub = None \<and> may_enrol os claims
        \<and> (raced between sub u \<or> map_group_to_role claims os = Some (ur_role u) \<and> ur_password_hash u = None))"
proof (cases "user_get_by_subject c sub")
  case None
  then obtain role where "os_jit_provisioning os" "check_jit_allowlist claims os = None" "map_group_to_role claims os = Some role"
    "get_or_create_from_oidc between c sub (dict_get claims ''email'' JNull) role (dict_get claims ''preferred_username'' JNull) (cv_utcnow env) = (Inr u, c')"
    using assms by (auto simp: oidc_account_def split: if_splits option.splits)
  then show ?thesis using None get_or_create_result allowlist_sound by metis
qed (use assms in \<open>auto simp: oidc_account_def\<close>)

lemma oidc_session_Inr:
  assumes "oidc_session env c u = (Inr token, c')"
  obtains secret v where "ur_enabled u" "settings_get c ''session_secret'' = Some secret" "current_session_version c = Some v"
    "token = create_session_token (cv_session env) secret v (Some (ur_id u)) (ur_session_version u)" "c' = touch_last_login c (ur_id u) (cv_utcnow env)"
proof -
  have "current_session_version (touch_last_login c i now) = current_session_version c" for i now
    by (simp add: current_session_version_def settings_get_def touch_last_login_def user_update_def)
  then show thesis using assms that by (auto simp: oidc_session_def Let_def mint_def split: if_splits option.splits)
qed

lemma oidc_callback_Inr:
  assumes "oidc_callback env idp between s code state error description = (Inr token, s')"
  obtains st cd a store os claims sub u c1 where "state = Some st" "code = Some cd" "attempt_pop (so_attempts s) (ix_now idp) st = (Some a, store)"
    "load_oidc_settings (so_control s) = Inr os" "oidc_identity idp os a cd = Inr (claims, sub)"
    "oidc_account env between (so_control s) os claims sub = (Inr u, c1)" "oidc_session env c1 u = (Inr token, so_control s')" "so_attempts s' = store"
proof -
  have g: "error \<in> {None, Some []}" "code \<notin> {None, Some []}" "state \<notin> {None, Some []}"
    using assms by (auto simp: oidc_callback_def split: if_splits)
  then obtain st cd where st: "state = Some st" "code = Some cd" by (cases state; cases code) auto
  obtain r store where p: "attempt_pop (so_attempts s) (ix_now idp) st = (r, store)" by fastforce
  then obtain a where a: "r = Some a" using assms g st by (cases r) (auto simp: oidc_callback_def)
  let ?id = "rbind (load_oidc_settings (so_control s)) (\<lambda>os. rbind (oidc_identity idp os a cd) (\<lambda>(claims, subject). Inr (os, claims, subject)))"
  obtain os claims sub where id: "?id = Inr (os, claims, sub)"
    using assms g st p a by (cases ?id) (auto simp: oidc_callback_def Let_def)
  obtain q c1 where acc: "oidc_account env between (so_control s) os claims sub = (q, c1)" by fastforce
  then obtain u where u: "q = Inr u" using assms g st p a id by (cases q) (auto simp: oidc_callback_def Let_def)
  have ses: "oidc_session env c1 u = (Inr token, so_control s')" "so_attempts s' = store"
    using assms g st p a id acc u by (auto simp: oidc_callback_def Let_def split: prod.splits)
  have "load_oidc_settings (so_control s) = Inr os" "oidc_identity idp os a cd = Inr (claims, sub)" using id by (auto simp: rbind_eq_Inr)
  with st p a acc u ses show thesis by (intro that) auto
qed


subsection \<open>The account table\<close>

text \<open>With a valid default role, single sign-on keeps what every other account route keeps.\<close>

lemma role_mapped_valid: "map_group_to_role claims os = Some r \<Longrightarrow> is_valid_role (os_default_role os) \<Longrightarrow> is_valid_role r"
  using map_group_to_role_exact [of claims os r] by auto

lemma oidc_account_grows:
  assumes "oidc_account env between c os claims sub = (r, c')" and "is_valid_role (os_default_role os)" and "\<And>n c. grows c (between n c)"
  shows "grows c c'"
proof (cases "c' = c")
  case False
  then obtain role where role: "map_group_to_role claims os = Some role"
    "get_or_create_from_oidc between c sub (dict_get claims ''email'' JNull) role (dict_get claims ''preferred_username'' JNull) (cv_utcnow env) = (r, c')"
    using assms(1) by (auto simp: oidc_account_def split: if_splits option.splits)
  show ?thesis
  proof (rule get_or_create_inv [OF role(2), of "grows c"])
    show "grows c (between n d)" if "grows c d" for n d using that assms(3) by (rule grows_trans)
    show "grows c d'" if "grows c d" "user_create d name role None mail ''oidc'' (Some sub) (cv_utcnow env) = Some (u, d')" for d name mail u d'
      using grows_trans [OF that(1)] grows_user_create [OF that(2) role_mapped_valid [OF role(1) assms(2)]] by blast
  qed simp
qed simp

lemma oidc_session_grows: "oidc_session env c u = (r, c') \<Longrightarrow> grows c c'"
  by (auto simp: oidc_session_def Let_def touch_last_login_def intro!: grows_user_update split: if_splits option.splits)

theorem sso_keeps_accounts:
  assumes "oidc_callback env idp between s code state error description = (r, s')"
    and "\<And>os. load_oidc_settings (so_control s) = Inr os \<Longrightarrow> is_valid_role (os_default_role os)" and "\<And>n c. grows c (between n c)"
  shows "grows (so_control s) (so_control s')"
proof -
  let ?c = "so_control s" and ?c' = "so_control s'"
  have "?c' = ?c \<or> (\<exists>os claims sub q c1. load_oidc_settings ?c = Inr os \<and> oidc_account env between ?c os claims sub = (q, c1)
      \<and> (?c' = c1 \<or> (\<exists>u r. oidc_session env c1 u = (r, ?c'))))"
  proof (cases "attempt_pop (so_attempts s) (ix_now idp) (the state)")
    case (Pair p store)
    let ?id = "\<lambda>a. rbind (load_oidc_settings ?c) (\<lambda>os. rbind (oidc_identity idp os a (the code)) (\<lambda>(claims, subject). Inr (os, claims, subject)))"
    show ?thesis
    proof (cases p)
      case None
      then show ?thesis using assms(1) Pair by (auto simp: oidc_callback_def split: if_splits)
    next
      case (Some a)
      show ?thesis
      proof (cases "?id a")
        case (Inl e)
        then show ?thesis using assms(1) Pair Some by (auto simp: oidc_callback_def Let_def split: if_splits)
      next
        case (Inr x)
        obtain os claims sub where x: "x = (os, claims, sub)" by (cases x)
        obtain q c1 where acc: "oidc_account env between ?c os claims sub = (q, c1)" by fastforce
        have "load_oidc_settings ?c = Inr os" using Inr x by (auto simp: rbind_eq_Inr)
        moreover have "?c' = ?c \<or> ?c' = c1 \<or> (\<exists>u r. oidc_session env c1 u = (r, ?c'))"
          using assms(1) Pair Some Inr x acc by (cases q) (auto simp: oidc_callback_def Let_def split: if_splits prod.splits)
        ultimately show ?thesis using acc by blast
      qed
    qed
  qed
  then show ?thesis
  proof (elim disjE exE conjE)
    fix os claims sub q c1
    assume os: "load_oidc_settings ?c = Inr os" and acc: "oidc_account env between ?c os claims sub = (q, c1)"
    have 1: "grows ?c c1" using acc assms(2) [OF os] assms(3) by (rule oidc_account_grows)
    { assume "?c' = c1" then show ?thesis using 1 by simp }
    { fix u r assume "oidc_session env c1 u = (r, ?c')" then show ?thesis using grows_trans [OF 1] oidc_session_grows by blast }
  qed simp
qed

subsection \<open>A sample provider\<close>

definition sample_sso_control :: "string \<Rightarrow> in_memory control" where
  "sample_sso_control role = sample_control\<lparr>ct_settings := ct_settings sample_control @
     [(''oidc_enabled'', ''true''), (''oidc_issuer'', ''https://idp/''), (''oidc_client_id'', ''gw''), (''oidc_client_secret'', ''hush''),
      (''oidc_redirect_uri'', ''https://gw/cb''), (''oidc_allowed_domains'', ''Example.org, ''), (''oidc_default_role'', role)]\<rparr>"

definition sample_claims :: "json dict" where
  "sample_claims = [(''aud'', JList [JStr ''gw'']), (''iss'', JStr ''https://idp''), (''nonce'', JStr ''n''), (''sub'', JStr ''u-1''),
     (''email'', JStr ''ann@EXAMPLE.org''), (''groups'', JList [JStr ''staff'', JStr ''operator'', JStr ''viewer''])]"

definition sample_idp :: "json dict \<Rightarrow> oidc_env" where
  "sample_idp claims = \<lparr>ix_get = (\<lambda>url. if url = ''https://idp/.well-known/openid-configuration''
       then IdpAnswer 200 [] (Some (JObj [(''authorization_endpoint'', JStr ''https://idp/a''), (''token_endpoint'', JStr ''https://idp/t''), (''issuer'', JStr ''https://idp'')]))
       else IdpError ''unknown host''),
     ix_post = (\<lambda>url form. if url = ''https://idp/t'' \<and> map_of form ''code_verifier'' = Some ''v''
       then IdpAnswer 200 [] (Some (JObj [(''id_token'', JStr ''e30.e30.c2ln'')])) else IdpAnswer 400 ''bad request'' None),
     ix_sha256 = id, ix_loads = (\<lambda>_. Some (JObj claims)), ix_fr = (\<lambda>_. ''0''), ix_now = 30\<rparr>"

definition sample_sso :: "string \<Rightarrow> in_memory sso" where
  "sample_sso role = \<lparr>so_attempts = [(''s'', \<lparr>pa_state = ''s'', pa_nonce = ''n'', pa_code_verifier = ''v'', pa_created_at = 10\<rparr>)], so_control = sample_sso_control role\<rparr>"

abbreviation sample_callback :: "string \<Rightarrow> json dict \<Rightarrow> (http_exn + string) \<times> in_memory sso" where
  "sample_callback role claims \<equiv> oidc_callback sample_control_env (sample_idp claims) (\<lambda>_ c. c) (sample_sso role) (Some ''code'') (Some ''s'') None None"


text \<open>The racing request of the witness: it has created the account of the subject just before the insert.\<close>

definition sample_race :: "in_memory between" where
  "sample_race n c = (if n = 1 then (case user_create c ''ann'' ''viewer'' None None ''oidc'' (Some ''u-1'') ''now'' of None \<Rightarrow> c | Some (_, c') \<Rightarrow> c') else c)"

theorem first_login_one_account_witness:
  "case get_or_create_from_oidc sample_race sample_control ''u-1'' (JStr ''ann@example.org'') ''operator'' JNull ''now'' of
     (Inr u, c') \<Rightarrow> ur_role u = ''viewer'' \<and> filter (\<lambda>w. ur_oidc_subject w = Some ''u-1'') (ct_users c') = [u]
   | _ \<Rightarrow> False"
proof -
  let ?r = "get_or_create_from_oidc sample_race sample_control ''u-1'' (JStr ''ann@example.org'') ''operator'' JNull ''now''"
  have ok: "case fst ?r of Inr u \<Rightarrow> ur_role u = ''viewer'' | Inl _ \<Rightarrow> False" by code_simp
  then obtain u where u: "fst ?r = Inr u" by (cases "fst ?r") auto
  have r: "?r = (Inr u, snd ?r)" unfolding u [symmetric] by simp
  have "subjects_unique sample_control" by (simp add: subjects_unique_def sample_control_def sample_user_def)
  moreover have "subjects_unique (sample_race n c)" if "subjects_unique c" for n c
    using create_unique [OF that] that by (auto simp: sample_race_def split: option.splits)
  ultimately show ?thesis using first_login_one_account [OF r] ok u by (subst r) simp
qed

lemma wf_roles: "\<not> is_valid_role r \<Longrightarrow> r \<in> ur_role ` set (ct_users c) \<Longrightarrow> \<not> control_wf c"
  by (auto simp: control_wf_def)

text \<open>The default role is stored as configured: a value that is no role makes an account whose role nothing accepts.\<close>

theorem default_role_unchecked:
  "case sample_callback ''operater'' (AList.delete ''groups'' sample_claims) of
     (Inr token, s') \<Rightarrow> map ur_role (ct_users (so_control s')) = [''admin'', ''operater''] \<and> \<not> control_wf (so_control s')
   | _ \<Rightarrow> False"
proof -
  let ?r = "sample_callback ''operater'' (AList.delete ''groups'' sample_claims)"
  have ok: "case fst ?r of Inr _ \<Rightarrow> map ur_role (ct_users (so_control (snd ?r))) = [''admin'', ''operater''] | Inl _ \<Rightarrow> False" by code_simp
  then obtain token where t: "fst ?r = Inr token" by (cases "fst ?r") auto
  have roles: "map ur_role (ct_users (so_control (snd ?r))) = [''admin'', ''operater'']" using ok t by simp
  have "\<not> is_valid_role ''operater''" by code_simp
  moreover have "''operater'' \<in> ur_role ` set (ct_users (so_control (snd ?r)))" using arg_cong [OF roles, of set] by simp
  ultimately have "\<not> control_wf (so_control (snd ?r))" by (rule wf_roles)
  then show ?thesis using roles t by (cases ?r) simp
qed

end
