(* ===== verification/Spec2Isabelle.thy ===== *)
theory Spec2Isabelle
  imports Aggregate_Pipeline Gitops Approval_Races Project_Rbac Audit_Query Health Admin_Correct Tokens Oidc
begin

text \<open>
  Verification of the Acropolis MCP gateway.

  The program is a gateway between MCP clients and upstream MCP servers. Its data plane (\<open>argus/\<close>) receives
  JSON-RPC messages over HTTP, authenticates the caller by an API key, meters and evaluates every tool call
  against the policy of its server, and relays or bridges what is allowed. Its control plane (\<open>archon/\<close>) manages
  servers, policies, keys and accounts, and \<open>stoa/\<close> runs background services. \<open>db/\<close> holds the data model and the
  repositories.

  \<^bold>\<open>The theories.\<close> Each theory models the files named in its opening text; definitions keep the names of the code.

    \<^item> \<^bold>\<open>Foundations.\<close> \<open>Prelude\<close>: Python strings, dictionaries (association lists), result sums, \<open>ORDER BY\<close>. \<open>Py_Value\<close>: JSON values,
      truth, \<open>str\<close>, floats as rationals rounded to doubles. \<open>Regex\<close>: a regular-expression matcher for the built-in
      detectors.
    \<^item> \<^bold>\<open>Policy.\<close> \<open>Models\<close> (\<open>db/models.py\<close>): records and validators. \<open>Policy_Match\<close>, \<open>Policy\<close> (\<open>argus/policy.py\<close>): tool lists, parameter
      rules, pattern matching in worker processes that can time out or crash. \<open>Dlp\<close> (\<open>argus/dlp.py\<close>): detectors, validators,
      redaction. \<open>Response_Dlp\<close> (\<open>argus/response_dlp.py\<close>): scanning of answers under a byte budget.
    \<^item> \<^bold>\<open>Metering.\<close> \<open>Rate_Limiter\<close> (\<open>argus/rate_limiter.py\<close>) and \<open>Rate_Limit_Valkey\<close> (\<open>argus/rate_limit_valkey.py\<close>): the token bucket, in
      memory and as a server-side script; the locale \<open>rate_limit_backend\<close> states what a backend promises and both
      interpret it. \<open>Usage\<close>, \<open>Metering\<close> (\<open>argus/quotas.py\<close>, \<open>argus/metering.py\<close>, \<open>UsageRepo\<close>): quotas and usage rows. \<open>Webhooks\<close>
      (\<open>stoa/webhooks.py\<close>): debounced, capped alerts.
    \<^item> \<^bold>\<open>Wire.\<close> \<open>Protocol\<close> (\<open>argus/jsonrpc.py\<close>, \<open>headers.py\<close>, \<open>generation.py\<close>, \<open>aggregate.py\<close>, \<open>discover.py\<close>, \<open>origin.py\<close>). \<open>Sse\<close> (\<open>argus/sse.py\<close>).
      \<open>Upstream\<close> (\<open>argus/upstream.py\<close>, \<open>argus/bridge.py\<close>): the handshake cache and the protocol bridge. \<open>Audit_Log\<close> (\<open>argus/audit.py\<close>).
      \<open>Tools_Cache\<close> (\<open>argus/toolslist.py\<close>, \<open>argus/credentials.py\<close>). \<open>Api_Keys\<close> (\<open>archon/auth/apikeys.py\<close>).
    \<^item> \<^bold>\<open>Data plane.\<close> \<open>Pipeline\<close> has the definitions of \<open>argus/pipeline.py\<close>, from \<open>handle\<close> down, as functions of a record
      \<open>gateway\<close> (limiter, usage, keys, audit queue, upstream sessions, catalogue, servers, policies) and \<open>Pipeline_Correct\<close> its
      theorems. \<open>Policy_Api\<close> (\<open>argus/policy_api.py\<close>) and \<open>Aggregate_Pipeline\<close> (\<open>argus/aggregate_pipeline.py\<close>) are the other two
      entries.
    \<^item> \<^bold>\<open>Accounts.\<close> \<open>Sessions\<close>, \<open>Passwords\<close>, \<open>Admin_Audit\<close> and \<open>Control_Plane\<close> (\<open>archon/sessions.py\<close>, \<open>passwords.py\<close>, \<open>admin_audit.py\<close>,
      \<open>admin_auth.py\<close>, \<open>rbac.py\<close>, the account and login routes of \<open>setup.py\<close> and \<open>api.py\<close>): credentials, roles, and the account
      table as a state machine \<open>ct_step\<close>. \<open>Oidc\<close> (\<open>archon/oidc.py\<close> and its routes): single sign-on, its store of attempts, and the
      first login of an identity. \<open>Project_Rbac\<close> (\<open>archon/project_rbac.py\<close>, the project routes): roles per project.
    \<^item> \<^bold>\<open>Configuration.\<close> \<open>Policy_Store\<close> and \<open>Config_Io\<close> (\<open>ServerRepo\<close>, \<open>PolicyRepo\<close>, \<open>archon/config_io.py\<close>): the stored form of policies, export, plan and
      import. \<open>Gitops\<close> (\<open>stoa/gitops.py\<close>): the watched file. \<open>Approvals\<close> and \<open>Approval_Races\<close> (\<open>archon/approvals.py\<close>, \<open>stoa/proposals.py\<close>): the
      four-eyes workflow, as whole calls and split at every database access.
    \<^item> \<^bold>\<open>Routes.\<close> \<open>Server_Routes\<close>, \<open>Admin_Routes\<close> (\<open>archon/api.py\<close>, \<open>schemas.py\<close>): servers, policies, keys, settings, configuration,
      proposals, drift, statistics, usage and users over one state \<open>console\<close>; \<open>Admin_Correct\<close> has theorems about them. \<open>Audit_Query\<close>: the
      audit query builder and routes, retention (\<open>stoa/retention.py\<close>). \<open>Health\<close> (\<open>stoa/health.py\<close>): probes and polls.
    \<^item> \<^bold>\<open>Secrets.\<close> \<open>Secrets\<close> (\<open>archon/secrets/\<close>, \<open>argus/reencrypt.py\<close>): stored credentials and their re-encryption. \<open>Vault\<close> (\<open>openbao.py\<close>): the
      Vault provider. \<open>Tokens\<close> (\<open>argus/tokens.py\<close>, \<open>argus/rotate_key.py\<close>): signed tokens for upstreams and the rotation of their key.

  \<^bold>\<open>State and errors.\<close> A handler is a function from the state, the request and an environment to its answer and the new state.
  Raised exceptions are values of a sum type; an exception the code does not catch is a constructor of its own
  (\<open>GatewayUncaught\<close>, \<open>ServerError\<close>, or \<open>None\<close>). Time is an argument. Concurrency is modelled where the code depends on it:
  workers, deadlines, expiry between steps, the approval calls interleaved at their database accesses, other requests between the statements of a first
  login, the token issuer with its background refresh, a key rotation read half written. Elsewhere a handler runs as one step.

  \<^bold>\<open>Parameters.\<close> What is outside the repository is an argument: HTTP peers (a function from everything sent so far to
  the next answer), the regular-expression engines and worker processes for operator patterns, the JSON printer
  and reader, HMAC, PBKDF2, SHA-256, the secret provider and the token issuer, the printing of floats, the
  collation of the database. The theorems that rely on such an argument say what they need of it, mostly that
  the JSON printer and reader are inverse on the messages at hand.

  \<^bold>\<open>What the theorems show.\<close> The data plane sends nothing for a tool call that its policy, the limits and the caller's
  key do not allow, decides and counts every call once, and returns only scanned answers where scanning is on;
  the evaluation API predicts the data plane; the aggregate endpoint gives no way around a server's policy.
  Policies fail closed, redaction removes exactly what the detectors cover, limits and quotas are exact, the
  shared limiter refines the local bucket. The control plane lets nobody in without a credential, single sign-on proves an identity with an
  attempt that is used once, and a revoked session stays out. Every write needs its role, and with approvals on, another person's consent to the very
  change that is applied. An import reaches its file, and a dry run says what an import does. Stored policies, settings and credentials
  read back, a rotation of either kind of key loses nothing it can still read, and tokens handed out are valid. A few theorems record behaviour that differs from what the code or its comments
  intend; they are the findings of the manifest.

  \<^bold>\<open>Bounds.\<close> Every function is total without fuel, except the matcher of \<open>Regex\<close>, whose recursion is bounded by the length
  of the text. Integers are unbounded as in Python.

  \<^bold>\<open>Not modelled.\<close> The importer of the old policy file, the command lines, database pools and migrations, the wiring of the application and its settings
  from the environment, the endless loops around the background jobs, metrics and tracing: input and output, or calls of libraries. Of the routes, the
  try-it call, the webhook test, the live tail, the event list and two diagnostics, which compose what is modelled or stream it.
\<close>

end
